(* ===== verification/Streams.thy ===== *)
theory Streams
  imports Prelude
begin

text \<open>
  The interface of the sans-io stream transforms. The encryptor, the decryptor and the
  \<open>aws-chunked\<close> parser are all fed a body in the pieces the network delivers. Each is a step function
  on a state that holds the bytes not yet consumed. The locale states the law a transform owes its
  callers: feeding \<open>a\<close> and then \<open>b\<close> is feeding \<open>a @ b\<close>. Its lemmas say that the way a body was cut
  into pieces does not matter.
\<close>

type_synonym ('e, 's, 'i, 'o) stepper = "'s \<Rightarrow> 'i list \<Rightarrow> 'e + ('s \<times> 'o list)"

text \<open>\<open>run_stream\<close> feeds the pieces one after the other and concatenates what the steps release,
  stopping at the first error. \<open>prepend\<close> puts earlier output in front of a step's result.\<close>

definition prepend :: "'o list \<Rightarrow> 'e + ('s \<times> 'o list) \<Rightarrow> 'e + ('s \<times> 'o list)" where
  "prepend out r = rbind r (\<lambda>(s, out'). Inr (s, out @ out'))"

fun run_stream :: "('e, 's, 'i, 'o) stepper \<Rightarrow> 's \<Rightarrow> 'i list list \<Rightarrow> 'e + ('s \<times> 'o list)" where
  "run_stream step s [] = Inr (s, [])"
| "run_stream step s (x # xs) = rbind (step s x) (\<lambda>(s', out). prepend out (run_stream step s' xs))"

lemma prepend_simps [simp]:
  "prepend out (Inl e) = Inl e" "prepend out (Inr (s, out')) = Inr (s, out @ out')"
  by (simp_all add: prepend_def)

lemma prepend_Nil [simp]: "prepend [] r = r"
  by (cases r) auto

lemma prepend_append: "prepend a (prepend b r) = prepend (a @ b) r"
  by (cases r) auto

lemma prepend_eq_Inr_iff:
  "prepend a r = Inr (s, out) \<longleftrightarrow> (\<exists>b. r = Inr (s, b) \<and> out = a @ b)"
  by (cases r) auto

lemma prepend_eq_Inl_iff: "prepend a r = Inl e \<longleftrightarrow> r = Inl e"
  by (cases r) auto

locale stream_machine =
  fixes step :: "'s \<Rightarrow> 'i list \<Rightarrow> 'e + ('s \<times> 'o list)"
  assumes step_append: "step s a = Inr (s', out) \<Longrightarrow> step s (a @ b) = prepend out (step s' b)"
begin

lemma run_stream_concat:
  "run_stream step s xs = Inr (s', out) \<Longrightarrow> xs \<noteq> [] \<Longrightarrow> step s (concat xs) = Inr (s', out)"
proof (induction xs arbitrary: s out)
  case Nil
  then show ?case by simp
next
  case (Cons x xs)
  from Cons.prems obtain s1 o1 o2 where x: "step s x = Inr (s1, o1)"
    and xs: "run_stream step s1 xs = Inr (s', o2)" and out: "out = o1 @ o2"
    by (auto simp: result_simps prepend_eq_Inr_iff)
  show ?case
  proof (cases "xs = []")
    case True
    with x xs out show ?thesis by simp
  next
    case False
    with Cons.IH [OF xs] have "step s1 (concat xs) = Inr (s', o2)" by simp
    with step_append [OF x, of "concat xs"] out show ?thesis by simp
  qed
qed

lemma segmentation_agrees:
  assumes "run_stream step s xs = Inr r" "run_stream step s ys = Inr r'"
    and "concat xs = concat ys" "xs \<noteq> []" "ys \<noteq> []"
  shows "r = r'"
proof -
  have "step s (concat xs) = Inr r" "step s (concat ys) = Inr r'"
    using run_stream_concat assms by (cases r, blast) (cases r', metis assms(2,5) run_stream_concat)
  with assms(3) show ?thesis by simp
qed

end

text \<open>A strict transform has decided an error as soon as it reports it: more input does not change
  it. Then errors do not depend on the cut either.\<close>

locale strict_stream_machine = stream_machine +
  assumes step_error: "step s a = Inl e \<Longrightarrow> step s (a @ b) = Inl e"
begin

lemma run_stream_eq_step: "xs \<noteq> [] \<Longrightarrow> run_stream step s xs = step s (concat xs)"
proof (induction xs arbitrary: s)
  case Nil
  then show ?case by simp
next
  case (Cons x xs)
  show ?case
  proof (cases "step s x")
    case (Inl e)
    with step_error [OF Inl, of "concat xs"] show ?thesis by simp
  next
    case (Inr p)
    then obtain s1 o1 where x: "step s x = Inr (s1, o1)" by (cases p) auto
    show ?thesis
    proof (cases "xs = []")
      case True
      with x show ?thesis by simp
    next
      case False
      with Cons.IH x step_append [OF x, of "concat xs"] show ?thesis by simp
    qed
  qed
qed

lemma segmentation_independent:
  "concat xs = concat ys \<Longrightarrow> xs \<noteq> [] \<Longrightarrow> ys \<noteq> [] \<Longrightarrow> run_stream step s xs = run_stream step s ys"
  by (simp add: run_stream_eq_step)

end

text \<open>Splitting a list into pieces of \<open>n\<close>, the last one short, and never no piece at all: the
  reference for the chunk framing. A list of equally long pieces is indexed by multiplication.\<close>

fun chunks_of :: "nat \<Rightarrow> 'a list \<Rightarrow> 'a list list" where
  "chunks_of n xs =
     (if n = 0 \<or> length xs \<le> n then [xs] else take n xs # chunks_of n (drop n xs))"

declare chunks_of.simps [simp del]

lemma chunks_of_not_Nil [simp]: "chunks_of n xs \<noteq> []"
  by (subst chunks_of.simps) simp

lemma chunks_of_short: "length xs \<le> n \<Longrightarrow> chunks_of n xs = [xs]"
  by (subst chunks_of.simps) simp

lemma chunks_of_long:
  "0 < n \<Longrightarrow> n < length xs \<Longrightarrow> chunks_of n xs = take n xs # chunks_of n (drop n xs)"
  by (subst chunks_of.simps) simp

lemma concat_chunks_of [simp]: "concat (chunks_of n xs) = xs"
proof (induction n xs rule: chunks_of.induct)
  case (1 n xs)
  show ?case
  proof (cases "n = 0 \<or> length xs \<le> n")
    case True
    then show ?thesis by (subst chunks_of.simps) simp
  next
    case False
    with 1 show ?thesis by (subst chunks_of.simps) simp
  qed
qed

text \<open>\<open>framed n cs\<close>: every piece but the last is exactly \<open>n\<close> long and the last is at most \<open>n\<close>.\<close>

fun framed :: "nat \<Rightarrow> 'a list list \<Rightarrow> bool" where
  "framed n [] = False"
| "framed n [c] = (length c \<le> n)"
| "framed n (c # d # cs) = (length c = n \<and> framed n (d # cs))"

lemma framed_Cons: "cs \<noteq> [] \<Longrightarrow> framed n (c # cs) \<longleftrightarrow> length c = n \<and> framed n cs"
  by (cases cs) auto

lemma framed_not_Nil [dest]: "framed n cs \<Longrightarrow> cs \<noteq> []"
  by auto

lemma framed_chunks_of: "0 < n \<Longrightarrow> framed n (chunks_of n xs)"
proof (induction n xs rule: chunks_of.induct)
  case (1 n xs)
  show ?case
  proof (cases "length xs \<le> n")
    case True
    then show ?thesis by (simp add: chunks_of_short)
  next
    case False
    with 1 show ?thesis by (simp add: chunks_of_long framed_Cons)
  qed
qed

lemma framed_length: "framed n cs \<Longrightarrow> length (concat cs) = (length cs - 1) * n + length (last cs)"
  by (induction n cs rule: framed.induct) auto

lemma framed_butlast: "framed n cs \<Longrightarrow> i + 1 < length cs \<Longrightarrow> length (cs ! i) = n"
proof (induction n cs arbitrary: i rule: framed.induct)
  case (3 n c d cs)
  then show ?case by (cases i) auto
qed auto

lemma take_concat_equal:
  "\<forall>x \<in> set (take i xs). length x = w \<Longrightarrow> i \<le> length xs \<Longrightarrow> take (i * w) (concat xs) = concat (take i xs)"
proof (induction i arbitrary: xs)
  case (Suc i)
  then show ?case by (cases xs) auto
qed simp

lemma drop_concat_equal:
  "\<forall>x \<in> set (take i xs). length x = w \<Longrightarrow> i \<le> length xs \<Longrightarrow> drop (i * w) (concat xs) = concat (drop i xs)"
proof (induction i arbitrary: xs)
  case (Suc i)
  then show ?case by (cases xs) auto
qed simp

text \<open>A framing is determined by its contents, unless its last piece is empty.\<close>

lemma chunks_of_framed:
  "framed n cs \<Longrightarrow> 0 < n \<Longrightarrow> length cs = 1 \<or> last cs \<noteq> [] \<Longrightarrow> chunks_of n (concat cs) = cs"
proof (induction n cs rule: framed.induct)
  case (2 n c)
  then show ?case by (simp add: chunks_of_short)
next
  case (3 n c d cs)
  have "concat (d # cs) \<noteq> []"
    using "3.prems" by (cases cs rule: rev_cases) (auto split: if_splits)
  with 3 show ?case by (subst chunks_of.simps) (auto simp: Suc_le_eq)
qed simp

text \<open>A run of whole pieces is a slice of the contents.\<close>

lemma framed_drop: "framed n cs \<Longrightarrow> a < length cs \<Longrightarrow>
    framed n (drop a cs) \<and> drop (a * n) (concat cs) = concat (drop a cs)"
proof (induction a arbitrary: cs)
  case (Suc a)
  then obtain c cs' where cs: "cs = c # cs'" by (cases cs) auto
  with Suc.prems have "cs' \<noteq> []" by auto
  with cs Suc show ?case by (simp add: framed_Cons)
qed simp

lemma framed_take: "framed n cs \<Longrightarrow> 0 < k \<Longrightarrow>
    framed n (take k cs) \<and> take (k * n) (concat cs) = concat (take k cs)"
proof (induction k arbitrary: cs)
  case (Suc k)
  show ?case
  proof (cases "k = 0 \<or> length cs = 1")
    case True
    with Suc.prems show ?thesis by (cases cs; cases "tl cs") (auto simp: framed_Cons)
  next
    case False
    with Suc.prems obtain c d cs' where cs: "cs = c # d # cs'" by (cases cs; cases "tl cs") auto
    with False Suc.IH [of "d # cs'"] Suc.prems show ?thesis by (cases k) auto
  qed
qed simp

lemma framed_slice:
  assumes "framed n cs" "0 < k" "a < length cs"
  shows "framed n (take k (drop a cs))" "concat (take k (drop a cs)) = take (k * n) (drop (a * n) (concat cs))"
  using framed_take [of n "drop a cs" k] framed_drop [OF assms(1,3)] assms(2) by simp_all

end
