(* ===== verification/Frame.thy ===== *)
theory Frame
  imports Streams
begin

text \<open>
  Chunk framing, size arithmetic and range planning of format v1
  (\<open>s3armor-format/src/lib.rs\<close>, \<open>s3armor-format/src/v1/frame.rs\<close>).

  The AEAD primitives (crates \<open>aes-gcm\<close> and \<open>chacha20poly1305\<close>) are the parameter \<open>aead\<close>:
  encryption is a function of algorithm, key, nonce, associated data and message, decryption may
  fail. What the code relies on is \<open>aead_correct\<close> and \<open>aead_tidy\<close>. The operating system's random
  generator is the parameter \<open>entropy\<close>, an infinite supply of bytes consumed from the front.
\<close>

section \<open>Errors, algorithms and primitives\<close>

datatype error =
    Truncated nat nat
  | AuthFailed
  | InvalidLength
  | UnknownVersion u8
  | UnknownAlg u8
  | MissingMetadata string
  | InvalidMetadata string string
  | InvalidFooter
  | UnwrapFailed
  | KeyNotAvailable

datatype alg = Aes256Gcm | XChaCha20Poly1305

definition TAG_LEN :: nat where
  "TAG_LEN = 16"

definition alg_id :: "alg \<Rightarrow> u8" where
  "alg_id a = (case a of Aes256Gcm \<Rightarrow> 1 | XChaCha20Poly1305 \<Rightarrow> 2)"

definition from_id :: "u8 \<Rightarrow> error + alg" where
  "from_id i = (if i = 1 then Inr Aes256Gcm else if i = 2 then Inr XChaCha20Poly1305
                else Inl (UnknownAlg i))"

definition nonce_len :: "alg \<Rightarrow> nat" where
  "nonce_len a = (case a of Aes256Gcm \<Rightarrow> 12 | XChaCha20Poly1305 \<Rightarrow> 24)"

definition overhead :: "alg \<Rightarrow> nat" where
  "overhead a = nonce_len a + TAG_LEN"

type_synonym entropy = "nat \<Rightarrow> u8"

definition fill_bytes :: "entropy \<Rightarrow> nat \<Rightarrow> bytes \<times> entropy" where
  "fill_bytes g n = (map g [0..<n], \<lambda>i. g (n + i))"

record aead =
  aead_encrypt :: "alg \<Rightarrow> bytes \<Rightarrow> bytes \<Rightarrow> bytes \<Rightarrow> bytes \<Rightarrow> bytes"
  aead_decrypt :: "alg \<Rightarrow> bytes \<Rightarrow> bytes \<Rightarrow> bytes \<Rightarrow> bytes \<Rightarrow> bytes option"

text \<open>An AEAD appends a 16-byte tag and decryption inverts encryption under the same key, nonce
  and associated data. It is tidy: a ciphertext that decrypts is the encryption of what it
  decrypts to (both algorithms recompute the tag over the whole ciphertext).\<close>

definition aead_correct :: "aead \<Rightarrow> bool" where
  "aead_correct A \<longleftrightarrow>
     (\<forall>alg k n a m. length n = nonce_len alg \<longrightarrow>
        length (aead_encrypt A alg k n a m) = length m + TAG_LEN \<and>
        aead_decrypt A alg k n a (aead_encrypt A alg k n a m) = Some m)"

definition aead_tidy :: "aead \<Rightarrow> bool" where
  "aead_tidy A \<longleftrightarrow>
     (\<forall>alg k n a c m. length n = nonce_len alg \<longrightarrow>
        aead_decrypt A alg k n a c = Some m \<longrightarrow> c = aead_encrypt A alg k n a m)"

section \<open>Frames\<close>

definition frame_aad :: "alg \<Rightarrow> u32 \<Rightarrow> u64 \<Rightarrow> bool \<Rightarrow> bytes" where
  "frame_aad alg part_number chunk_index is_last =
     str_bytes ''s3a1'' @ [alg_id alg] @ u32_to_le_bytes part_number
       @ u64_to_le_bytes chunk_index @ [if is_last then 1 else 0]"

definition seal_frame ::
  "aead \<Rightarrow> entropy \<Rightarrow> alg \<Rightarrow> bytes \<Rightarrow> u32 \<Rightarrow> u64 \<Rightarrow> bool \<Rightarrow> bytes \<Rightarrow> bytes \<times> entropy" where
  "seal_frame A g alg key part_number chunk_index is_last plaintext =
     (let aad = frame_aad alg part_number chunk_index is_last;
          (nonce, g') = fill_bytes g (nonce_len alg);
          ct = aead_encrypt A alg key nonce aad plaintext
      in (nonce @ ct, g'))"

definition open_frame ::
  "aead \<Rightarrow> alg \<Rightarrow> bytes \<Rightarrow> u32 \<Rightarrow> u64 \<Rightarrow> bool \<Rightarrow> bytes \<Rightarrow> error + bytes" where
  "open_frame A alg key part_number chunk_index is_last frame =
     (let nl = nonce_len alg in
      if length frame < nl + TAG_LEN then Inl (Truncated (nl + TAG_LEN) (length frame))
      else
        let nonce = take nl frame; ct = drop nl frame;
            aad = frame_aad alg part_number chunk_index is_last
        in ok_or (aead_decrypt A alg key nonce aad ct) AuthFailed)"

section \<open>Size arithmetic\<close>

text \<open>A chunk size of zero makes the divisions panic; every caller passes a chunk size that was
  checked against \<open>MIN_CHUNK_SIZE\<close> (\<open>from_map\<close>, the configuration), and the theorems assume a
  positive one.\<close>

definition div_ceil :: "u64 \<Rightarrow> u64 \<Rightarrow> u64" where
  "div_ceil a b = (if a mod b > 0 then a div b + 1 else a div b)"

definition n_chunks :: "u64 \<Rightarrow> u64 \<Rightarrow> u64" where
  "n_chunks pt_len chunk_size = max (div_ceil pt_len chunk_size) 1"

definition ciphertext_len :: "alg \<Rightarrow> u64 \<Rightarrow> u64 \<Rightarrow> u64" where
  "ciphertext_len alg pt_len chunk_size =
     pt_len + n_chunks pt_len chunk_size * word_of_nat (overhead alg)"

definition plaintext_len :: "alg \<Rightarrow> u64 \<Rightarrow> u64 \<Rightarrow> error + u64" where
  "plaintext_len alg ct_len chunk_size =
     (let ovh = word_of_nat (overhead alg); full = chunk_size + ovh in
      if ct_len < ovh then Inl InvalidLength
      else
        let n_minus_1 = (ct_len - ovh) div full;
            last = ct_len - n_minus_1 * full
        in if last < ovh \<or> last > full \<or> (last = ovh \<and> n_minus_1 > 0) then Inl InvalidLength
           else Inr (n_minus_1 * chunk_size + (last - ovh)))"

record range_plan =
  ct_start :: u64
  ct_end :: u64
  first_chunk :: u64
  last_chunk :: u64
  trim_start :: nat
  trim_end :: nat

definition saturating_sub :: "u64 \<Rightarrow> u64 \<Rightarrow> u64" where
  "saturating_sub a b = (if a < b then 0 else a - b)"

definition plan_range :: "alg \<Rightarrow> u64 \<Rightarrow> u64 \<Rightarrow> u64 \<Rightarrow> u64 \<Rightarrow> error + range_plan" where
  "plan_range alg pt_len chunk_size start stop =
     (if start > stop \<or> stop > pt_len \<or> (start = pt_len \<and> pt_len > 0) then Inl InvalidLength
      else
        let total_chunks = n_chunks pt_len chunk_size;
            ct_len = ciphertext_len alg pt_len chunk_size;
            last_byte = saturating_sub stop 1;
            first = start div chunk_size;
            last = (if stop = start then first else last_byte div chunk_size);
            ts = unat (start mod chunk_size);
            te = (if stop = start then ts else unat (last_byte mod chunk_size) + 1);
            full = chunk_size + word_of_nat (overhead alg)
        in Inr \<lparr> ct_start = first * full,
                 ct_end = (if last + 1 = total_chunks then ct_len else (last + 1) * full),
                 first_chunk = first, last_chunk = last, trim_start = ts, trim_end = te \<rparr>)"

section \<open>The streaming encryptor and decryptor\<close>

text \<open>\<open>new\<close> panics on a chunk size of zero (\<open>None\<close>). The loop of \<open>push\<close> is \<open>enc_loop\<close>; its test
  for a zero chunk size, which \<open>new\<close> excludes, only makes the recursion total.\<close>

record encryptor =
  e_alg :: alg
  e_key :: bytes
  e_part_number :: u32
  e_chunk_size :: nat
  e_chunk_index :: u64
  e_buf :: bytes

definition Encryptor_new :: "alg \<Rightarrow> bytes \<Rightarrow> u32 \<Rightarrow> nat \<Rightarrow> encryptor option" where
  "Encryptor_new alg key part_number chunk_size =
     (if chunk_size > 0
      then Some \<lparr> e_alg = alg, e_key = key, e_part_number = part_number,
                  e_chunk_size = chunk_size, e_chunk_index = 0, e_buf = [] \<rparr>
      else None)"

function enc_loop :: "aead \<Rightarrow> encryptor \<Rightarrow> entropy \<Rightarrow> (encryptor \<times> entropy) \<times> bytes" where
  "enc_loop A e g =
     (if e_chunk_size e = 0 \<or> length (e_buf e) \<le> e_chunk_size e then ((e, g), [])
      else
        let (frame, g') = seal_frame A g (e_alg e) (e_key e) (e_part_number e) (e_chunk_index e)
                            False (take (e_chunk_size e) (e_buf e));
            (s, out) = enc_loop A (e\<lparr> e_chunk_index := e_chunk_index e + 1,
                                      e_buf := drop (e_chunk_size e) (e_buf e) \<rparr>) g'
        in (s, frame @ out))"
  by pat_completeness auto
termination
  by (relation "measure (\<lambda>(A, e, g). length (e_buf e))") auto

definition Encryptor_push ::
  "aead \<Rightarrow> encryptor \<Rightarrow> entropy \<Rightarrow> bytes \<Rightarrow> (encryptor \<times> entropy) \<times> bytes" where
  "Encryptor_push A e g data = enc_loop A (e\<lparr> e_buf := e_buf e @ data \<rparr>) g"

definition Encryptor_finish :: "aead \<Rightarrow> encryptor \<Rightarrow> entropy \<Rightarrow> bytes \<times> entropy" where
  "Encryptor_finish A e g =
     seal_frame A g (e_alg e) (e_key e) (e_part_number e) (e_chunk_index e) True (e_buf e)"

record decryptor =
  d_alg :: alg
  d_key :: bytes
  d_part_number :: u32
  d_chunk_size :: nat
  d_chunk_index :: u64
  d_buf :: bytes
  d_final_frame_is_object_end :: bool

definition Decryptor_new_at ::
  "alg \<Rightarrow> bytes \<Rightarrow> u32 \<Rightarrow> nat \<Rightarrow> u64 \<Rightarrow> bool \<Rightarrow> decryptor option" where
  "Decryptor_new_at alg key part_number chunk_size first final_frame_is_object_end =
     (if chunk_size > 0
      then Some \<lparr> d_alg = alg, d_key = key, d_part_number = part_number,
                  d_chunk_size = chunk_size, d_chunk_index = first, d_buf = [],
                  d_final_frame_is_object_end = final_frame_is_object_end \<rparr>
      else None)"

definition Decryptor_new :: "alg \<Rightarrow> bytes \<Rightarrow> u32 \<Rightarrow> nat \<Rightarrow> decryptor option" where
  "Decryptor_new alg key part_number chunk_size =
     Decryptor_new_at alg key part_number chunk_size 0 True"

definition frame_size :: "decryptor \<Rightarrow> nat" where
  "frame_size d = d_chunk_size d + overhead (d_alg d)"

lemma frame_size_pos [simp]: "0 < frame_size d"
  by (simp add: frame_size_def overhead_def TAG_LEN_def)

lemma frame_size_diff: "frame_size d < n \<Longrightarrow> n - frame_size d < n"
  using frame_size_pos [of d] by linarith

function dec_loop :: "aead \<Rightarrow> decryptor \<Rightarrow> error + (decryptor \<times> bytes)" where
  "dec_loop A d =
     (if length (d_buf d) > frame_size d then
        rbind (open_frame A (d_alg d) (d_key d) (d_part_number d) (d_chunk_index d) False
                 (take (frame_size d) (d_buf d)))
          (\<lambda>pt. prepend pt (dec_loop A (d\<lparr> d_chunk_index := d_chunk_index d + 1,
                                            d_buf := drop (frame_size d) (d_buf d) \<rparr>)))
      else Inr (d, []))"
  by pat_completeness auto
termination
  by (relation "measure (\<lambda>(A, d). length (d_buf d))")
    (auto intro: frame_size_diff)

declare enc_loop.simps [simp del] dec_loop.simps [simp del]

definition Decryptor_push :: "aead \<Rightarrow> decryptor \<Rightarrow> bytes \<Rightarrow> error + (decryptor \<times> bytes)" where
  "Decryptor_push A d data = dec_loop A (d\<lparr> d_buf := d_buf d @ data \<rparr>)"

definition Decryptor_finish :: "aead \<Rightarrow> decryptor \<Rightarrow> error + bytes" where
  "Decryptor_finish A d =
     open_frame A (d_alg d) (d_key d) (d_part_number d) (d_chunk_index d)
       (d_final_frame_is_object_end d) (d_buf d)"

text \<open>The one-shot wrappers; the outer option is the panic of \<open>new\<close>.\<close>

definition encrypt_all ::
  "aead \<Rightarrow> entropy \<Rightarrow> alg \<Rightarrow> bytes \<Rightarrow> u32 \<Rightarrow> nat \<Rightarrow> bytes \<Rightarrow> (bytes \<times> entropy) option" where
  "encrypt_all A g alg key part_number chunk_size plaintext =
     map_option (\<lambda>e. let ((e', g'), out) = Encryptor_push A e g plaintext;
                         (fin, g'') = Encryptor_finish A e' g'
                     in (out @ fin, g''))
       (Encryptor_new alg key part_number chunk_size)"

definition decrypt_all ::
  "aead \<Rightarrow> alg \<Rightarrow> bytes \<Rightarrow> u32 \<Rightarrow> nat \<Rightarrow> bytes \<Rightarrow> (error + bytes) option" where
  "decrypt_all A alg key part_number chunk_size ciphertext =
     map_option (\<lambda>d. rbind (Decryptor_push A d ciphertext)
                       (\<lambda>(d', out). rbind (Decryptor_finish A d') (\<lambda>fin. Inr (out @ fin))))
       (Decryptor_new alg key part_number chunk_size)"


section \<open>Laws of a single frame\<close>

text \<open>The contract of the frame codec that the streams, the footer and the sealed checksum rely on.
  A context \<open>c\<close> is everything a frame is bound to. The laws are conditional on the primitive
  \<open>p\<close> meeting its own.\<close>

locale frame_codec =
  fixes correct :: "'p \<Rightarrow> bool" and tidy :: "'p \<Rightarrow> bool"
    and seal :: "'p \<Rightarrow> 'g \<Rightarrow> 'c \<Rightarrow> bytes \<Rightarrow> bytes \<times> 'g"
    and unseal :: "'p \<Rightarrow> 'c \<Rightarrow> bytes \<Rightarrow> 'e + bytes"
    and ovh :: "'c \<Rightarrow> nat"
  assumes unseal_seal: "correct p \<Longrightarrow> unseal p c (fst (seal p g c m)) = Inr m"
    and length_seal: "correct p \<Longrightarrow> length (fst (seal p g c m)) = length m + ovh c"
    and unseal_tidy: "tidy p \<Longrightarrow> unseal p c f = Inr m \<Longrightarrow> \<exists>g. f = fst (seal p g c m)"
begin

lemma unseal_front:
  assumes "correct p"
  shows "unseal p c (take (length m + ovh c) (fst (seal p g c m) @ rest)) = Inr m"
    and "drop (length m + ovh c) (fst (seal p g c m) @ rest) = rest"
  using assms by (simp_all add: unseal_seal length_seal)

lemma length_unseal:
  "correct p \<Longrightarrow> tidy p \<Longrightarrow> unseal p c f = Inr m \<Longrightarrow> length f = length m + ovh c"
  using unseal_tidy [of p c f m] length_seal [of p _ c m] by auto

lemma unseal_only_sealed:
  "correct p \<Longrightarrow> tidy p \<Longrightarrow> unseal p c f = Inr m \<longleftrightarrow> (\<exists>g. f = fst (seal p g c m))"
  using unseal_tidy unseal_seal by auto

end

type_synonym frame_ctx = "alg \<times> bytes \<times> u32 \<times> u64 \<times> bool"

definition seal_ctx :: "aead \<Rightarrow> entropy \<Rightarrow> frame_ctx \<Rightarrow> bytes \<Rightarrow> bytes \<times> entropy" where
  "seal_ctx A g = (\<lambda>(alg, key, part_number, chunk_index, is_last).
     seal_frame A g alg key part_number chunk_index is_last)"

definition open_ctx :: "aead \<Rightarrow> frame_ctx \<Rightarrow> bytes \<Rightarrow> error + bytes" where
  "open_ctx A = (\<lambda>(alg, key, part_number, chunk_index, is_last).
     open_frame A alg key part_number chunk_index is_last)"

lemma fill_bytes_length [simp]: "length (fst (fill_bytes g n)) = n"
  by (simp add: fill_bytes_def)

text \<open>Any bytes may come out of the generator, with any supply after them.\<close>

definition supply_of :: "bytes \<Rightarrow> entropy \<Rightarrow> entropy" where
  "supply_of bs g = (\<lambda>i. if i < length bs then bs ! i else g (i - length bs))"

lemma fill_bytes_supply [simp]: "fill_bytes (supply_of bs g) (length bs) = (bs, g)"
  by (auto simp: fill_bytes_def supply_of_def intro!: nth_equalityI)

lemma fill_bytes_supply_len: "length bs = n \<Longrightarrow> fill_bytes (supply_of bs g) n = (bs, g)"
  using fill_bytes_supply by blast

lemma open_frame_seal_frame:
  assumes "aead_correct A"
  shows "open_frame A alg k p i l (fst (seal_frame A g alg k p i l m)) = Inr m"
    and "length (fst (seal_frame A g alg k p i l m)) = length m + overhead alg"
  using assms
  by (simp_all add: aead_correct_def seal_frame_def open_frame_def overhead_def fill_bytes_def Let_def)

text \<open>With a tidy primitive, what opens was sealed: with the nonce it carries.\<close>

lemma open_frame_tidy:
  assumes "aead_tidy A" "open_frame A alg k p i l f = Inr m"
  shows "seal_frame A (supply_of (take (nonce_len alg) f) g) alg k p i l m = (f, g)"
proof -
  let ?n = "take (nonce_len alg) f"
  have len: "length ?n = nonce_len alg"
    and dec: "aead_decrypt A alg k ?n (frame_aad alg p i l) (drop (nonce_len alg) f) = Some m"
    using assms(2) by (auto simp: open_frame_def Let_def split: if_splits)
  from dec assms(1) len have "drop (nonce_len alg) f = aead_encrypt A alg k ?n (frame_aad alg p i l) m"
    by (simp add: aead_tidy_def)
  with len show ?thesis
    by (simp add: seal_frame_def fill_bytes_supply_len Let_def) (metis append_take_drop_id)
qed

interpretation frame: frame_codec aead_correct aead_tidy seal_ctx open_ctx "overhead \<circ> fst"
proof
  fix A :: aead and c :: frame_ctx and g m f
  obtain alg k p i l where c: "c = (alg, k, p, i, l)" by (cases c) auto
  show "aead_correct A \<Longrightarrow> open_ctx A c (fst (seal_ctx A g c m)) = Inr m"
    and "aead_correct A \<Longrightarrow> length (fst (seal_ctx A g c m)) = length m + (overhead \<circ> fst) c"
    by (simp_all add: c seal_ctx_def open_ctx_def open_frame_seal_frame)
  show "aead_tidy A \<Longrightarrow> open_ctx A c f = Inr m \<Longrightarrow> \<exists>g. f = fst (seal_ctx A g c m)"
    by (intro exI [of _ "supply_of (take (nonce_len alg) f) g"])
      (simp add: c seal_ctx_def open_ctx_def open_frame_tidy)
qed

lemma alg_id_inj [simp]: "alg_id a = alg_id b \<longleftrightarrow> a = b"
  by (cases a; cases b) (auto simp: alg_id_def)

lemma from_id_alg_id [simp]: "from_id (alg_id a) = Inr a"
  by (cases a) (auto simp: alg_id_def from_id_def)

lemma from_id_Inr_iff: "from_id i = Inr a \<longleftrightarrow> i = alg_id a"
  by (cases a) (auto simp: alg_id_def from_id_def)

lemma frame_aad_inj:
  "frame_aad a p i l = frame_aad a' p' i' l' \<longleftrightarrow> a = a' \<and> p = p' \<and> i = i' \<and> l = l'"
  by (auto simp: frame_aad_def append_eq_append_conv split: if_splits)

lemma length_frame_aad: "length (frame_aad a p i l) = 18"
  by (simp add: frame_aad_def)

end
