(* ===== verification/FrameSize.thy ===== *)
theory FrameSize
  imports Frame
begin

section \<open>The size arithmetic over natural numbers\<close>

definition n_chunks_spec :: "nat \<Rightarrow> nat \<Rightarrow> nat" where
  "n_chunks_spec pt c = (if pt = 0 then 1 else (pt - 1) div c + 1)"

definition ciphertext_len_spec :: "alg \<Rightarrow> nat \<Rightarrow> nat \<Rightarrow> nat" where
  "ciphertext_len_spec alg pt c = pt + n_chunks_spec pt c * overhead alg"

text \<open>Every positive plaintext length is uniquely \<open>c * q + r\<close> with \<open>0 < r \<le> c\<close>.\<close>

lemma pt_decompose:
  fixes pt c :: nat
  assumes "0 < c" "0 < pt"
  obtains q r where "pt = c * q + r" "0 < r" "r \<le> c"
proof
  have "c * ((pt - 1) div c) + (pt - 1) mod c = pt - 1" by simp
  with assms show "pt = c * ((pt - 1) div c) + ((pt - 1) mod c + 1)" by linarith
  show "0 < (pt - 1) mod c + 1" by simp
  show "(pt - 1) mod c + 1 \<le> c" using assms by (simp add: Suc_le_eq)
qed

lemma n_chunks_spec_mult_add:
  assumes "0 < c" "0 < r" "r \<le> c"
  shows "n_chunks_spec (c * q + r) c = q + 1"
proof -
  have "c * q + r - 1 = c * q + (r - 1)" using assms by simp
  moreover have "(c * q + (r - 1)) div c = q" using assms by (subst div_mult_self4) auto
  ultimately show ?thesis using assms by (simp add: n_chunks_spec_def)
qed

lemma n_chunks_spec_0 [simp]: "n_chunks_spec 0 c = 1"
  by (simp add: n_chunks_spec_def)

lemma n_chunks_ceil:
  fixes a b :: nat
  assumes "0 < b"
  shows "max (if a mod b > 0 then a div b + 1 else a div b) 1 = n_chunks_spec a b"
proof (cases "a = 0")
  case False
  with assms obtain q r where a: "a = b * q + r" "0 < r" "r \<le> b" by (auto elim: pt_decompose)
  then have spec: "n_chunks_spec a b = q + 1" using assms by (simp add: n_chunks_spec_mult_add)
  show ?thesis
  proof (cases "r = b")
    case True
    with a have "a = b * (q + 1)" by simp
    then have "a mod b = 0" "a div b = q + 1" using assms by (simp_all del: mult_Suc_right)
    with spec show ?thesis by simp
  next
    case False
    with a have "a mod b = r" "a div b = q" by (simp_all add: div_mult_self4)
    with spec a show ?thesis by simp
  qed
qed simp

lemma length_chunks_of: "0 < n \<Longrightarrow> length (chunks_of n xs) = n_chunks_spec (length xs) n"
proof (induction n xs rule: chunks_of.induct)
  case (1 n xs)
  show ?case
  proof (cases "length xs \<le> n")
    case True
    with 1 show ?thesis
      using n_chunks_spec_mult_add [of n "length xs" 0] by (cases xs) (auto simp: chunks_of_short)
  next
    case False
    obtain q r where q: "length (drop n xs) = n * q + r" "0 < r" "r \<le> n"
      using False 1(2) pt_decompose [of n "length (drop n xs)"] by auto
    with False have "length xs = n * (q + 1) + r" by (simp add: algebra_simps)
    then have "n_chunks_spec (length xs) n = q + 2"
      using n_chunks_spec_mult_add [OF 1(2) q(2,3), of "q + 1"] by simp
    moreover have "length (chunks_of n (drop n xs)) = q + 1"
      using 1 False q n_chunks_spec_mult_add [OF 1(2) q(2,3), of q] by simp
    ultimately show ?thesis using False 1(2) by (simp add: chunks_of_long)
  qed
qed

lemma overhead_bounds: "28 \<le> overhead a" "overhead a \<le> 40" "0 < overhead a"
  by (cases a; simp add: overhead_def nonce_len_def TAG_LEN_def)+

text \<open>The inversion: a ciphertext length splits uniquely into full frames and a last frame.\<close>

lemma plaintext_len_nat:
  fixes c ovh ct pt :: nat
  assumes "0 < c" "0 < ovh"
  defines "n \<equiv> (ct - ovh) div (c + ovh)"
  defines "l \<equiv> ct - n * (c + ovh)"
  shows "(ovh \<le> ct \<and> ovh \<le> l \<and> l \<le> c + ovh \<and> (l = ovh \<longrightarrow> n = 0) \<and> pt = n * c + (l - ovh))
     \<longleftrightarrow> ct = pt + n_chunks_spec pt c * ovh" (is "?L \<longleftrightarrow> ?R")
proof
  assume L: ?L
  show ?R
  proof (cases "l = ovh")
    case True
    with L have "n = 0" "pt = 0" by auto
    with L True show ?thesis by (simp add: l_def)
  next
    case False
    with L have "n_chunks_spec (c * n + (l - ovh)) c = n + 1"
      using assms(1) by (intro n_chunks_spec_mult_add) auto
    moreover have "ct = n * (c + ovh) + l" using L by (auto simp: l_def)
    moreover have "pt = c * n + (l - ovh)" using L by (simp add: mult.commute)
    ultimately show ?thesis using L by (simp add: algebra_simps)
  qed
next
  assume R: ?R
  show ?L
  proof (cases "pt = 0")
    case True
    with R have "ct = ovh" "n = 0" by (simp_all add: n_def)
    with True show ?thesis by (simp add: l_def)
  next
    case False
    with assms(1) obtain q r where pt: "pt = c * q + r" "0 < r" "r \<le> c"
      by (auto elim: pt_decompose)
    then have "n_chunks_spec pt c = q + 1" using assms(1) by (simp add: n_chunks_spec_mult_add)
    with R pt(1) have ct: "ct = q * (c + ovh) + (r + ovh)" by (simp add: algebra_simps)
    then have "ct - ovh = (c + ovh) * q + r" by (simp add: mult.commute)
    moreover have "((c + ovh) * q + r) div (c + ovh) = q"
      using pt assms by (subst div_mult_self4) auto
    ultimately have "n = q" by (simp add: n_def)
    with ct have "l = r + ovh" by (simp add: l_def)
    with pt ct \<open>n = q\<close> show ?thesis by (simp add: mult.commute)
  qed
qed

text \<open>No encoding ends in an empty frame after full ones.\<close>

lemma ciphertext_len_spec_no_empty_tail:
  assumes "0 < c" "0 < k"
  shows "k * (c + overhead alg) + overhead alg \<noteq> ciphertext_len_spec alg m c"
proof
  let ?ct = "k * (c + overhead alg) + overhead alg"
  assume eq: "?ct = ciphertext_len_spec alg m c"
  have d: "(?ct - overhead alg) div (c + overhead alg) = k" using assms by simp
  from plaintext_len_nat [OF assms(1) overhead_bounds(3), of alg ?ct m, unfolded d]
  have "?ct - k * (c + overhead alg) = overhead alg \<longrightarrow> k = 0"
    using eq unfolding ciphertext_len_spec_def by blast
  with assms(2) show False by simp
qed

lemma n_chunks_spec_mono: "a \<le> b \<Longrightarrow> n_chunks_spec a c \<le> n_chunks_spec b c"
  by (simp add: n_chunks_spec_def div_le_mono)

lemma ciphertext_len_spec_strict_mono: "a < b \<Longrightarrow> ciphertext_len_spec alg a c < ciphertext_len_spec alg b c"
  unfolding ciphertext_len_spec_def
  by (intro add_less_le_mono mult_le_mono1 n_chunks_spec_mono) simp_all

lemma ciphertext_len_spec_inj:
  "ciphertext_len_spec alg a c = ciphertext_len_spec alg b c \<Longrightarrow> a = b"
  using ciphertext_len_spec_strict_mono by (metis linorder_neqE_nat order_less_irrefl)

section \<open>The machine arithmetic refines it\<close>

lemma unat_overhead: "unat (word_of_nat (overhead a) :: u64) = overhead a"
  using overhead_bounds(2) [of a] by (simp add: unat_u64_of_nat)

lemma n_chunks_spec_le: "0 < c \<Longrightarrow> n_chunks_spec pt c \<le> pt + 1"
  by (simp add: n_chunks_spec_def le_trans [OF div_le_dividend])

lemma unat_n_chunks:
  assumes "0 < c"
  shows "unat (n_chunks pt c) = n_chunks_spec (unat pt) (unat c)"
proof -
  have c: "0 < unat c" using assms by (simp add: u64_nat)
  have "unat (div_ceil pt c) = (if unat pt mod unat c > 0 then unat pt div unat c + 1 else unat pt div unat c)"
  proof (cases "unat pt mod unat c > 0")
    case True
    then have "unat c \<noteq> 1" "0 < unat pt" by (auto intro: gr0I)
    with c have "unat pt div unat c < unat pt" by (intro div_less_dividend) linarith+
    with unat_u64_less [of pt] have "unat (pt div c) + 1 < 2 ^ 64" by (simp add: unat_div)
    then have "unat (pt div c + 1) = unat (pt div c) + 1" by (subst unat_u64_add) simp_all
    with True show ?thesis by (simp add: div_ceil_def u64_nat)
  next
    case False
    then show ?thesis by (simp add: div_ceil_def u64_nat)
  qed
  with n_chunks_ceil [OF c, of "unat pt"] show ?thesis by (simp add: n_chunks_def unat_u64_max)
qed

lemma unat_ciphertext_len:
  assumes "0 < c" and fits: "ciphertext_len_spec alg (unat pt) (unat c) < 2 ^ 64"
  shows "unat (ciphertext_len alg pt c) = ciphertext_len_spec alg (unat pt) (unat c)"
proof -
  let ?n = "n_chunks pt c * word_of_nat (overhead alg)"
  have "unat ?n = n_chunks_spec (unat pt) (unat c) * overhead alg"
    using fits assms(1) by (subst unat_u64_mult) (simp_all add: unat_n_chunks unat_overhead ciphertext_len_spec_def)
  with fits show ?thesis
    by (simp add: ciphertext_len_def ciphertext_len_spec_def) (subst unat_u64_add; simp)
qed

lemma overhead_le_spec: "overhead alg \<le> ciphertext_len_spec alg pt c"
  by (simp add: ciphertext_len_spec_def n_chunks_spec_def)

lemma plaintext_len_exact:
  assumes "0 < c" and full: "unat c + overhead alg < 2 ^ 64"
  shows "plaintext_len alg ct c = Inr pt \<longleftrightarrow> unat ct = ciphertext_len_spec alg (unat pt) (unat c)"
proof (cases "unat ct < overhead alg")
  case True
  then have "plaintext_len alg ct c = Inl InvalidLength"
    by (simp add: plaintext_len_def Let_def word_less_nat_alt unat_overhead)
  with True overhead_le_spec [of alg "unat pt" "unat c"] show ?thesis by auto
next
  case False
  define C where "C = unat c"
  define ovh where "ovh = overhead alg"
  define n where "n = (unat ct - ovh) div (C + ovh)"
  define l where "l = unat ct - n * (C + ovh)"
  let ?w = "word_of_nat (overhead alg) :: u64"
  let ?n = "(ct - ?w) div (c + ?w)"
  have pos: "0 < C" "0 < ovh" using assms(1) overhead_bounds by (simp_all add: C_def ovh_def u64_nat)
  have fullw: "unat (c + ?w) = C + ovh"
    using full by (subst unat_u64_add) (simp_all add: unat_overhead C_def ovh_def)
  have nw: "unat ?n = n"
    using False fullw by (simp add: unat_div unat_u64_sub unat_overhead n_def ovh_def)
  have n_le: "n * (C + ovh) \<le> unat ct - ovh" by (simp add: n_def)
  have "unat (?n * (c + ?w)) = n * (C + ovh)"
    using n_le unat_u64_less [of ct] by (subst unat_u64_mult) (simp_all add: nw fullw)
  with n_le have lw: "unat (ct - ?n * (c + ?w)) = l" by (simp add: unat_u64_sub l_def)
  have l_ge: "ovh \<le> l" using n_le False by (simp add: l_def ovh_def)
  have nc: "n * C \<le> n * (C + ovh)" by simp
  have "n * C + (l - ovh) < 2 ^ 64"
  proof -
    have "\<And>M. n * C \<le> M \<Longrightarrow> M \<le> unat ct - ovh \<Longrightarrow> n * C + (unat ct - M - ovh) \<le> unat ct" by linarith
    from this [OF nc n_le] unat_u64_less [of ct] show ?thesis by (simp add: l_def)
  qed
  then have ptw: "unat (?n * c + (ct - ?n * (c + ?w) - ?w)) = n * C + (l - ovh)"
    using lw nw l_ge nc by (subst unat_u64_add; subst unat_u64_mult)
      (simp_all add: unat_u64_sub unat_overhead C_def ovh_def)
  have "plaintext_len alg ct c = Inr pt \<longleftrightarrow>
          l \<le> C + ovh \<and> (l = ovh \<longrightarrow> n = 0) \<and> unat pt = n * C + (l - ovh)"
    using False l_ge lw nw fullw ptw
    by (auto simp: plaintext_len_def Let_def word_less_nat_alt word_unat_eq_iff unat_overhead ovh_def)
  also have "\<dots> \<longleftrightarrow> unat ct = ciphertext_len_spec alg (unat pt) C"
    using plaintext_len_nat [OF pos, of "unat ct" "unat pt"] False l_ge
    by (simp add: ciphertext_len_spec_def n_def l_def ovh_def)
  finally show ?thesis by (simp add: C_def)
qed

lemma plaintext_len_error: "plaintext_len alg ct c = Inl e \<Longrightarrow> e = InvalidLength"
  by (auto simp: plaintext_len_def Let_def split: if_splits)

section \<open>Range planning\<close>

text \<open>\<open>fits alg pt c\<close>: a positive chunk size and an object whose ciphertext length is a \<open>u64\<close>, the
  domain on which the size arithmetic does not wrap.\<close>

definition fits :: "alg \<Rightarrow> u64 \<Rightarrow> u64 \<Rightarrow> bool" where
  "fits alg pt c \<longleftrightarrow> 0 < c \<and> unat c + overhead alg < 2 ^ 64 \<and>
     ciphertext_len_spec alg (unat pt) (unat c) < 2 ^ 64"

lemma chunk_of_byte: "i < pt \<Longrightarrow> i div c < n_chunks_spec pt c"
  by (simp add: n_chunks_spec_def less_Suc_eq_le div_le_mono)

text \<open>Frames before the last one are full: \<open>k\<close> of them occupy \<open>k * (c + overhead)\<close> bytes.\<close>

lemma full_frames_le:
  assumes "0 < c" "k < n_chunks_spec pt c"
  shows "k * (c + overhead alg) \<le> ciphertext_len_spec alg pt c"
proof (cases "pt = 0")
  case True
  with assms show ?thesis by simp
next
  case False
  with assms obtain q r where pt: "pt = c * q + r" "0 < r" "r \<le> c" by (auto elim: pt_decompose)
  then have n: "n_chunks_spec pt c = q + 1" using assms by (simp add: n_chunks_spec_mult_add)
  with assms have "k \<le> q" by simp
  then have "k * (c + overhead alg) \<le> q * (c + overhead alg)" by (rule mult_le_mono1)
  also have "\<dots> \<le> ciphertext_len_spec alg pt c"
    using pt n by (simp add: ciphertext_len_spec_def algebra_simps)
  finally show ?thesis .
qed

lemma plan_range_facts:
  assumes "fits alg pt c" "plan_range alg pt c start stop = Inr p" "start < stop"
  defines "C \<equiv> unat c" and "S \<equiv> unat start" and "E \<equiv> unat stop"
  defines "full \<equiv> C + overhead alg" and "tot \<equiv> n_chunks_spec (unat pt) C"
  shows "E \<le> unat pt" "unat (first_chunk p) = S div C" "unat (last_chunk p) = (E - 1) div C"
    "trim_start p = S mod C" "trim_end p = (E - 1) mod C + 1" "unat (ct_start p) = S div C * full"
    "last_chunk p + 1 = n_chunks pt c \<longleftrightarrow> (E - 1) div C + 1 = tot"
    "unat (ct_end p) =
       (if (E - 1) div C + 1 = tot then ciphertext_len_spec alg (unat pt) C
        else ((E - 1) div C + 1) * full)"
proof -
  have c: "0 < c" "0 < C" and fullw: "unat (c + word_of_nat (overhead alg)) = full"
    and ct: "ciphertext_len_spec alg (unat pt) C < 2 ^ 64"
    using assms(1) unat_u64_add [of c "word_of_nat (overhead alg)"]
    by (auto simp: fits_def C_def full_def unat_overhead u64_nat)
  have se: "S < E" "E \<le> unat pt" and p: "p = \<lparr> ct_start = start div c * (c + word_of_nat (overhead alg)),
      ct_end = (if saturating_sub stop 1 div c + 1 = n_chunks pt c then ciphertext_len alg pt c
                else (saturating_sub stop 1 div c + 1) * (c + word_of_nat (overhead alg))),
      first_chunk = start div c, last_chunk = saturating_sub stop 1 div c,
      trim_start = unat (start mod c), trim_end = unat (saturating_sub stop 1 mod c) + 1 \<rparr>"
    using assms(2,3) by (auto simp: plan_range_def Let_def u64_nat S_def E_def split: if_splits)
  have lb: "unat (saturating_sub stop 1) = E - 1"
    using se by (auto simp: saturating_sub_def unat_u64_sub u64_nat E_def)
  have lt: "S div C < tot" "(E - 1) div C < tot"
    using se by (auto simp: tot_def intro!: chunk_of_byte)
  have tot64: "tot < 2 ^ 64"
    using ct overhead_bounds(3) [of alg] less_le_trans [OF _ mult_le_mono2, of _ tot 1 "overhead alg"]
    unfolding ciphertext_len_spec_def tot_def by (metis Suc_leI add_lessD1 add.commute le_less_trans mult.right_neutral mult_le_mono2 One_nat_def)
  have suc: "unat (saturating_sub stop 1 div c + 1) = (E - 1) div C + 1"
    using lt tot64 by (subst unat_u64_add) (simp_all add: unat_div lb C_def)
  show "E \<le> unat pt" by (rule se)
  show "unat (first_chunk p) = S div C" "unat (last_chunk p) = (E - 1) div C"
    "trim_start p = S mod C" "trim_end p = (E - 1) mod C + 1"
    by (simp_all add: p unat_div unat_mod lb S_def C_def)
  have "unat (start div c) * full < 2 ^ 64"
    using full_frames_le [OF c(2) lt(1) [unfolded tot_def], of alg] ct
    by (simp add: unat_div S_def C_def full_def)
  then show "unat (ct_start p) = S div C * full"
    by (simp add: p unat_u64_mult fullw unat_div S_def C_def)
  show iff: "last_chunk p + 1 = n_chunks pt c \<longleftrightarrow> (E - 1) div C + 1 = tot"
    using suc c by (simp add: p word_unat_eq_iff unat_n_chunks tot_def C_def)
  show "unat (ct_end p) = (if (E - 1) div C + 1 = tot then ciphertext_len_spec alg (unat pt) C
        else ((E - 1) div C + 1) * full)"
  proof (cases "(E - 1) div C + 1 = tot")
    case True
    with iff have "ct_end p = ciphertext_len alg pt c" by (simp add: p)
    with True c ct show ?thesis by (simp add: unat_ciphertext_len C_def)
  next
    case False
    with lt have "(E - 1) div C + 1 < tot" by simp
    from full_frames_le [OF c(2) this [unfolded tot_def], of alg] ct
    have "((E - 1) div C + 1) * full < 2 ^ 64" by (simp add: full_def)
    with False iff suc fullw show ?thesis by (simp add: p unat_u64_mult)
  qed
qed

end
