(* ===== verification/FrameStream.thy ===== *)
theory FrameStream
  imports FrameSize
begin

text \<open>
  Correctness of the streaming encryptor and decryptor of \<open>v1/frame.rs\<close>: both refine the
  reference encoding \<open>seal_chunks\<close>, which seals the pieces of \<open>chunks_of\<close> one after the other.
\<close>

section \<open>The reference encoding\<close>

text \<open>\<open>seal_chunks\<close> seals pieces under consecutive chunk indices; only the last piece carries the
  flag \<open>fin\<close>.\<close>

fun seal_chunks ::
  "aead \<Rightarrow> entropy \<Rightarrow> alg \<Rightarrow> bytes \<Rightarrow> u32 \<Rightarrow> bool \<Rightarrow> u64 \<Rightarrow> bytes list \<Rightarrow> bytes list \<times> entropy" where
  "seal_chunks A g alg k p fin i [] = ([], g)"
| "seal_chunks A g alg k p fin i (c # cs) =
     (let (f, g') = seal_frame A g alg k p i (fin \<and> cs = []) c;
          (fs, g'') = seal_chunks A g' alg k p fin (i + 1) cs
      in (f # fs, g''))"

lemma seal_chunks_length [simp]: "length (fst (seal_chunks A g alg k p fin i cs)) = length cs"
  by (induction cs arbitrary: g i) (simp_all split: prod.splits add: Let_def, metis fst_conv)

lemma seal_chunks_append:
  "ys \<noteq> [] \<Longrightarrow> seal_chunks A g alg k p fin i (xs @ ys) =
     (let (fs, g') = seal_chunks A g alg k p False i xs;
          (fs', g'') = seal_chunks A g' alg k p fin (i + word_of_nat (length xs)) ys
      in (fs @ fs', g''))"
  by (induction xs arbitrary: g i) (auto split: prod.splits simp: Let_def algebra_simps)

lemma seal_chunks_frame_length:
  assumes "aead_correct A" "j < length cs"
  shows "length (fst (seal_chunks A g alg k p fin i cs) ! j) = length (cs ! j) + overhead alg"
  using assms(2)
proof (induction cs arbitrary: g i j)
  case (Cons c cs)
  have "length (fst (seal_frame A g alg k p i (fin \<and> cs = []) c)) = length c + overhead alg"
    by (rule open_frame_seal_frame [OF assms(1)])
  with Cons show ?case by (cases j) (auto split: prod.splits simp: Let_def, metis fst_conv)
qed simp

lemma length_concat_seal_chunks:
  assumes "aead_correct A"
  shows "length (concat (fst (seal_chunks A g alg k p fin i cs))) = length (concat cs) + length cs * overhead alg"
proof (induction cs arbitrary: g i)
  case (Cons c cs)
  obtain f g1 where f: "seal_frame A g alg k p i (fin \<and> cs = []) c = (f, g1)" by fastforce
  have "length f = length c + overhead alg"
    using open_frame_seal_frame(2) [OF assms] f by (metis fst_conv)
  with f Cons [of g1 "i + 1"] show ?case by (cases "seal_chunks A g1 alg k p fin (i + 1) cs") simp
qed simp

section \<open>The encryptor\<close>

definition enc_finish_all :: "aead \<Rightarrow> encryptor \<Rightarrow> entropy \<Rightarrow> bytes \<times> entropy" where
  "enc_finish_all A e g =
     (let ((e', g'), out) = enc_loop A e g; (fin, g'') = Encryptor_finish A e' g'
      in (out @ fin, g''))"

lemma enc_finish_all_eq:
  assumes "0 < e_chunk_size e"
  shows "enc_finish_all A e g =
    (let (fs, g') = seal_chunks A g (e_alg e) (e_key e) (e_part_number e) True (e_chunk_index e)
                      (chunks_of (e_chunk_size e) (e_buf e))
     in (concat fs, g'))"
  using assms
proof (induction A e g rule: enc_loop.induct)
  case (1 A e g)
  show ?case
  proof (cases "length (e_buf e) \<le> e_chunk_size e")
    case True
    then show ?thesis
      by (simp add: enc_finish_all_def enc_loop.simps [of A e] Encryptor_finish_def chunks_of_short
          split: prod.splits)
  next
    case False
    let ?e = "e\<lparr> e_chunk_index := e_chunk_index e + 1, e_buf := drop (e_chunk_size e) (e_buf e) \<rparr>"
    obtain f g1 where f: "seal_frame A g (e_alg e) (e_key e) (e_part_number e) (e_chunk_index e)
        False (take (e_chunk_size e) (e_buf e)) = (f, g1)" by fastforce
    have "enc_finish_all A e g = (f @ fst (enc_finish_all A ?e g1), snd (enc_finish_all A ?e g1))"
      using False 1(2) f
      by (simp add: enc_finish_all_def enc_loop.simps [of A e] split: prod.splits)
    with 1 False f show ?thesis by (simp add: chunks_of_long split: prod.splits)
  qed
qed

definition enc_step :: "aead \<Rightarrow> encryptor \<times> entropy \<Rightarrow> bytes \<Rightarrow> error + ((encryptor \<times> entropy) \<times> bytes)" where
  "enc_step A s data = Inr (Encryptor_push A (fst s) (snd s) data)"

lemma enc_loop_append:
  assumes "enc_loop A e g = ((e', g'), out)"
  shows "enc_loop A (e\<lparr> e_buf := e_buf e @ b \<rparr>) g =
    (let (s, out') = enc_loop A (e'\<lparr> e_buf := e_buf e' @ b \<rparr>) g' in (s, out @ out'))"
  using assms
proof (induction A e g arbitrary: e' g' out rule: enc_loop.induct)
  case (1 A e g)
  show ?case
  proof (cases "e_chunk_size e = 0 \<or> length (e_buf e) \<le> e_chunk_size e")
    case True
    with 1(2) show ?thesis by (simp add: enc_loop.simps [of A e] split: prod.splits)
  next
    case False
    let ?e = "e\<lparr> e_chunk_index := e_chunk_index e + 1, e_buf := drop (e_chunk_size e) (e_buf e) \<rparr>"
    obtain f g1 where f: "seal_frame A g (e_alg e) (e_key e) (e_part_number e) (e_chunk_index e)
        False (take (e_chunk_size e) (e_buf e)) = (f, g1)" by fastforce
    obtain out1 where rec: "enc_loop A ?e g1 = ((e', g'), out1)" and out: "out = f @ out1"
      using False 1(2) f by (auto simp: enc_loop.simps [of A e] split: prod.splits)
    from 1(1) [OF False f [symmetric] refl rec] show ?thesis
      using False f out by (simp add: enc_loop.simps [of A "e\<lparr>e_buf := e_buf e @ b\<rparr>"] split: prod.splits)
  qed
qed

interpretation enc: strict_stream_machine "enc_step A" for A
proof
  fix s a s' out b e
  show "enc_step A s a = Inr (s', out) \<Longrightarrow> enc_step A s (a @ b) = prepend out (enc_step A s' b)"
    using enc_loop_append [of A "(fst s)\<lparr> e_buf := e_buf (fst s) @ a \<rparr>" "snd s" "fst s'" "snd s'" out b]
    by (auto simp: enc_step_def Encryptor_push_def split: prod.splits)
  show "enc_step A s a = Inl e \<Longrightarrow> enc_step A s (a @ b) = Inl e"
    by (simp add: enc_step_def)
qed

section \<open>The decryptor\<close>

text \<open>\<open>dec_finish_all\<close> drains the buffer and finishes, the tail of every complete read.\<close>

definition dec_finish_all :: "aead \<Rightarrow> decryptor \<Rightarrow> error + bytes" where
  "dec_finish_all A d =
     rbind (dec_loop A d) (\<lambda>(d', out). rbind (Decryptor_finish A d') (\<lambda>fin. Inr (out @ fin)))"

abbreviation advance :: "decryptor \<Rightarrow> decryptor" where
  "advance d \<equiv> d\<lparr> d_chunk_index := d_chunk_index d + 1, d_buf := drop (frame_size d) (d_buf d) \<rparr>"

abbreviation open_next :: "aead \<Rightarrow> decryptor \<Rightarrow> error + bytes" where
  "open_next A d \<equiv> open_frame A (d_alg d) (d_key d) (d_part_number d) (d_chunk_index d) False
     (take (frame_size d) (d_buf d))"

lemma dec_finish_all_short:
  "length (d_buf d) \<le> frame_size d \<Longrightarrow> dec_finish_all A d = Decryptor_finish A d"
  by (cases "Decryptor_finish A d") (simp_all add: dec_finish_all_def dec_loop.simps [of A d])

lemma dec_finish_all_long:
  assumes "frame_size d < length (d_buf d)"
  shows "dec_finish_all A d =
    rbind (open_next A d) (\<lambda>pt. rbind (dec_finish_all A (advance d)) (\<lambda>out. Inr (pt @ out)))"
  using assms
  by (cases "open_next A d"; cases "dec_loop A (advance d)")
    (auto simp: dec_finish_all_def dec_loop.simps [of A d] rbind_assoc split: prod.splits)

text \<open>Decrypting the reference encoding of well-framed pieces returns them.\<close>

lemma dec_loop_seal_chunks:
  assumes "aead_correct A" "framed (d_chunk_size d) cs"
    and "d_buf d = concat (fst (seal_chunks A g (d_alg d) (d_key d) (d_part_number d)
                      (d_final_frame_is_object_end d) (d_chunk_index d) cs))"
  shows "\<exists>d'. dec_loop A d = Inr (d', concat (butlast cs)) \<and> Decryptor_finish A d' = Inr (last cs)"
  using assms(2,3)
proof (induction cs arbitrary: d g)
  case Nil
  then show ?case by simp
next
  case (Cons c cs)
  obtain f g1 where f: "seal_frame A g (d_alg d) (d_key d) (d_part_number d) (d_chunk_index d)
      (d_final_frame_is_object_end d \<and> cs = []) c = (f, g1)" by fastforce
  have open_f: "open_frame A (d_alg d) (d_key d) (d_part_number d) (d_chunk_index d)
      (d_final_frame_is_object_end d \<and> cs = []) f = Inr c" "length f = length c + overhead (d_alg d)"
    using open_frame_seal_frame [OF assms(1)] f by (metis fst_conv)+
  let ?rest = "fst (seal_chunks A g1 (d_alg d) (d_key d) (d_part_number d)
      (d_final_frame_is_object_end d) (d_chunk_index d + 1) cs)"
  have buf: "d_buf d = f @ concat ?rest"
    using Cons.prems(2) f by (simp split: prod.splits)
  show ?case
  proof (cases cs)
    case Nil
    with Cons.prems(1) open_f buf f show ?thesis
      by (simp add: dec_loop.simps frame_size_def Decryptor_finish_def)
  next
    case (Cons c' cs')
    then have len: "length f = frame_size d" and fr: "framed (d_chunk_size d) cs"
      using Cons.prems(1) open_f(2) by (simp_all add: frame_size_def)
    have "0 < length (concat ?rest)"
      unfolding length_concat_seal_chunks [OF assms(1)] using Cons overhead_bounds(3) by simp
    then have long: "frame_size d < length (d_buf d)" using buf len by simp
    have "\<exists>d'. dec_loop A (advance d) = Inr (d', concat (butlast cs)) \<and> Decryptor_finish A d' = Inr (last cs)"
      using Cons.IH [of "advance d" g1] fr buf len by simp
    with long buf len open_f(1) Cons show ?thesis by (auto simp: dec_loop.simps [of A d])
  qed
qed

lemma dec_finish_all_seal_chunks:
  assumes "aead_correct A" "framed (d_chunk_size d) cs"
    and "d_buf d = concat (fst (seal_chunks A g (d_alg d) (d_key d) (d_part_number d)
                      (d_final_frame_is_object_end d) (d_chunk_index d) cs))"
  shows "dec_finish_all A d = Inr (concat cs)"
proof -
  have "concat cs = concat (butlast cs) @ last cs"
    using assms(2) by (metis append_butlast_last_id concat.simps concat_append append_Nil2 framed_not_Nil)
  with dec_loop_seal_chunks [OF assms] show ?thesis by (auto simp: dec_finish_all_def)
qed

text \<open>The converse: whatever the decryptor accepts is the reference encoding of what it returns.\<close>

lemma dec_finish_all_only_sealed:
  assumes "aead_correct A" "aead_tidy A" "dec_finish_all A d = Inr pt"
  shows "\<exists>cs g. framed (d_chunk_size d) cs \<and> pt = concat cs \<and>
           d_buf d = concat (fst (seal_chunks A g (d_alg d) (d_key d) (d_part_number d)
                      (d_final_frame_is_object_end d) (d_chunk_index d) cs))"
  using assms(3)
proof (induction "length (d_buf d)" arbitrary: d pt rule: less_induct)
  case less
  show ?case
  proof (cases "length (d_buf d) \<le> frame_size d")
    case True
    with less.prems have o: "open_frame A (d_alg d) (d_key d) (d_part_number d) (d_chunk_index d)
        (d_final_frame_is_object_end d) (d_buf d) = Inr pt"
      by (simp add: dec_finish_all_short Decryptor_finish_def)
    note s = open_frame_tidy [OF assms(2) o, of "\<lambda>_. 0"]
    with open_frame_seal_frame(2) [OF assms(1)] have "length (d_buf d) = length pt + overhead (d_alg d)"
      by (metis fst_conv)
    with True s show ?thesis
      by (intro exI [of _ "[pt]"] exI [of _ "supply_of (take (nonce_len (d_alg d)) (d_buf d)) (\<lambda>_. 0)"])
        (simp add: frame_size_def)
  next
    case False
    then obtain m out where m: "open_next A d = Inr m"
      and out: "dec_finish_all A (advance d) = Inr out" and pt: "pt = m @ out"
      using less.prems by (auto simp: dec_finish_all_long result_simps)
    have "length (d_buf (advance d)) < length (d_buf d)" using False by (simp add: frame_size_diff)
    from less.hyps [OF this out] obtain cs g where
      cs: "framed (d_chunk_size d) cs" "out = concat cs"
      and rest: "drop (frame_size d) (d_buf d) = concat (fst (seal_chunks A g (d_alg d) (d_key d)
         (d_part_number d) (d_final_frame_is_object_end d) (d_chunk_index d + 1) cs))" by auto
    note s = open_frame_tidy [OF assms(2) m, of g]
    from s open_frame_seal_frame(2) [OF assms(1)]
    have "length (take (frame_size d) (d_buf d)) = length m + overhead (d_alg d)" by (metis fst_conv)
    then have "length m = d_chunk_size d" using False by (simp add: frame_size_def)
    moreover have "cs \<noteq> []" using cs by auto
    ultimately show ?thesis using cs rest s pt
      by (intro exI [of _ "m # cs"] exI [of _ "supply_of (take (nonce_len (d_alg d)) (take (frame_size d) (d_buf d))) g"])
        (auto simp: framed_Cons split: prod.splits, metis append_take_drop_id)
  qed
qed

lemma dec_loop_append:
  assumes "dec_loop A d = Inr (d', out)"
  shows "dec_loop A (d\<lparr> d_buf := d_buf d @ b \<rparr>) = prepend out (dec_loop A (d'\<lparr> d_buf := d_buf d' @ b \<rparr>))"
  using assms
proof (induction A d arbitrary: out rule: dec_loop.induct)
  case (1 A d)
  show ?case
  proof (cases "length (d_buf d) > frame_size d")
    case True
    then obtain m out1 where m: "open_next A d = Inr m" and rec: "dec_loop A (advance d) = Inr (d', out1)"
      and out: "out = m @ out1"
      using 1(2) by (auto simp: dec_loop.simps [of A d] result_simps prepend_eq_Inr_iff)
    have fs: "frame_size (d\<lparr> d_buf := d_buf d @ b \<rparr>) = frame_size d" by (simp add: frame_size_def)
    from 1(1) [OF True m rec] True m out fs show ?thesis
      by (simp add: dec_loop.simps [of A "d\<lparr> d_buf := d_buf d @ b \<rparr>"] prepend_append)
  next
    case False
    with 1(2) show ?thesis by (simp add: dec_loop.simps [of A d])
  qed
qed

lemma dec_loop_error:
  "dec_loop A d = Inl e \<Longrightarrow> dec_loop A (d\<lparr> d_buf := d_buf d @ b \<rparr>) = Inl e"
proof (induction A d rule: dec_loop.induct)
  case (1 A d)
  have fs: "frame_size (d\<lparr> d_buf := d_buf d @ b \<rparr>) = frame_size d" by (simp add: frame_size_def)
  have True: "length (d_buf d) > frame_size d" 
    using 1(2) by (cases "length (d_buf d) > frame_size d") (simp_all add: dec_loop.simps [of A d])
  show ?case
  proof (cases "open_next A d")
    case (Inl e')
    with 1(2) True fs show ?thesis
      by (simp add: dec_loop.simps [of A d] dec_loop.simps [of A "d\<lparr> d_buf := d_buf d @ b \<rparr>"])
  next
    case (Inr m)
    with 1(2) True have "dec_loop A (advance d) = Inl e"
      by (simp add: dec_loop.simps [of A d] prepend_eq_Inl_iff)
    from 1(1) [OF True Inr this] True Inr fs show ?thesis
      by (simp add: dec_loop.simps [of A "d\<lparr> d_buf := d_buf d @ b \<rparr>"])
  qed
qed

interpretation dec: strict_stream_machine "Decryptor_push A" for A
proof
  fix s a s' out b e
  show "Decryptor_push A s a = Inr (s', out) \<Longrightarrow> Decryptor_push A s (a @ b) = prepend out (Decryptor_push A s' b)"
    using dec_loop_append [of A "s\<lparr> d_buf := d_buf s @ a \<rparr>" s' out b] by (simp add: Decryptor_push_def)
  show "Decryptor_push A s a = Inl e \<Longrightarrow> Decryptor_push A s (a @ b) = Inl e"
    using dec_loop_error [of A "s\<lparr> d_buf := d_buf s @ a \<rparr>" e b] by (simp add: Decryptor_push_def)
qed

section \<open>Whole objects\<close>

lemma encrypt_all_eq:
  "0 < n \<Longrightarrow> encrypt_all A g alg key p n pt =
     Some (let (fs, g') = seal_chunks A g alg key p True 0 (chunks_of n pt) in (concat fs, g'))"
  using enc_finish_all_eq [of "\<lparr> e_alg = alg, e_key = key, e_part_number = p, e_chunk_size = n,
      e_chunk_index = 0, e_buf = pt \<rparr>" A g]
  by (simp add: encrypt_all_def Encryptor_new_def Encryptor_push_def enc_finish_all_def)

lemma encrypt_all_Some:
  "0 < n \<Longrightarrow> encrypt_all A g alg key p n pt =
     Some (fst (the (encrypt_all A g alg key p n pt)), snd (the (encrypt_all A g alg key p n pt)))"
  by (simp add: encrypt_all_eq)

lemma decrypt_all_eq:
  "0 < n \<Longrightarrow> decrypt_all A alg key p n ct =
     Some (dec_finish_all A \<lparr> d_alg = alg, d_key = key, d_part_number = p, d_chunk_size = n,
       d_chunk_index = 0, d_buf = ct, d_final_frame_is_object_end = True \<rparr>)"
  by (simp add: decrypt_all_def Decryptor_new_def Decryptor_new_at_def Decryptor_push_def dec_finish_all_def)

lemma decrypt_encrypt_all:
  assumes "aead_correct A" "encrypt_all A g alg key p n pt = Some (ct, g')"
  shows "decrypt_all A alg key p n ct = Some (Inr pt)"
proof -
  have n: "0 < n" using assms(2) by (cases n) (simp_all add: encrypt_all_def Encryptor_new_def)
  have ct: "ct = concat (fst (seal_chunks A g alg key p True 0 (chunks_of n pt)))"
    using assms(2) n by (simp add: encrypt_all_eq split: prod.splits)
  show ?thesis
    unfolding decrypt_all_eq [OF n]
    by (subst dec_finish_all_seal_chunks [OF assms(1), where cs = "chunks_of n pt" and g = g])
      (simp_all add: ct framed_chunks_of n)
qed

lemma length_encrypt_all:
  assumes "aead_correct A" "encrypt_all A g alg key p n pt = Some (ct, g')"
  shows "length ct = ciphertext_len_spec alg (length pt) n"
proof -
  have n: "0 < n" using assms(2) by (cases n) (simp_all add: encrypt_all_def Encryptor_new_def)
  then have "ct = concat (fst (seal_chunks A g alg key p True 0 (chunks_of n pt)))"
    using assms(2) by (simp add: encrypt_all_eq split: prod.splits)
  then show ?thesis
    using length_concat_seal_chunks [OF assms(1)] n
    by (simp add: length_chunks_of ciphertext_len_spec_def)
qed

text \<open>An accepted ciphertext of a length the size arithmetic recognises is the output of the
  encryptor. The length test matters: the decryptor alone also accepts full frames followed by an
  empty last frame.\<close>

lemma decrypt_all_only_encrypted:
  assumes "aead_correct A" "aead_tidy A" "decrypt_all A alg key p n ct = Some (Inr pt)"
    and "length ct = ciphertext_len_spec alg m n"
  shows "\<exists>g g'. encrypt_all A g alg key p n pt = Some (ct, g')"
proof -
  have n: "0 < n"
    using assms(3) by (cases n) (simp_all add: decrypt_all_def Decryptor_new_def Decryptor_new_at_def)
  from assms(3) [unfolded decrypt_all_eq [OF n]] obtain cs g where cs: "framed n cs" "pt = concat cs"
    and ct: "ct = concat (fst (seal_chunks A g alg key p True 0 cs))"
    using dec_finish_all_only_sealed [OF assms(1,2)] by fastforce
  have len: "length (concat cs) + length cs * overhead alg = ciphertext_len_spec alg m n"
    using assms(4) ct length_concat_seal_chunks [OF assms(1)] by simp
  have "length cs = 1 \<or> last cs \<noteq> []"
  proof (rule ccontr)
    assume tail: "\<not> (length cs = 1 \<or> last cs \<noteq> [])"
    define k where "k = length cs - 1"
    have k: "0 < k" "length cs = k + 1" using tail cs(1) by (cases cs; cases "tl cs"; auto simp: k_def)+
    have "k * (n + overhead alg) + overhead alg = ciphertext_len_spec alg m n"
      using len framed_length [OF cs(1)] tail k by (simp add: algebra_simps)
    with ciphertext_len_spec_no_empty_tail [OF n k(1)] show False by blast
  qed
  with cs n have "chunks_of n pt = cs" by (simp add: chunks_of_framed)
  with n ct show ?thesis
    by (intro exI [of _ g] exI [of _ "snd (seal_chunks A g alg key p True 0 cs)"])
      (simp add: encrypt_all_eq split: prod.splits)
qed

section \<open>Ranges\<close>

lemma seal_chunks_split:
  assumes "k < length cs"
  shows "\<exists>g'. take k (fst (seal_chunks A g alg key p fin i cs)) = fst (seal_chunks A g alg key p False i (take k cs)) \<and>
    drop k (fst (seal_chunks A g alg key p fin i cs)) = fst (seal_chunks A g' alg key p fin (i + word_of_nat k) (drop k cs))"
proof -
  obtain fs g1 where fs: "seal_chunks A g alg key p False i (take k cs) = (fs, g1)" by fastforce
  have len: "length fs = k" using assms seal_chunks_length [of A g alg key p False i "take k cs"] fs by simp
  have "fst (seal_chunks A g alg key p fin i (take k cs @ drop k cs)) =
      fs @ fst (seal_chunks A g1 alg key p fin (i + word_of_nat k) (drop k cs))"
    using assms by (subst seal_chunks_append) (simp_all add: fs min_absorb2 split: prod.splits)
  with fs len show ?thesis by (intro exI [of _ g1]) simp
qed

lemma seal_chunks_slice:
  assumes "0 < k" "a + k \<le> length cs"
  shows "\<exists>g'. take k (drop a (fst (seal_chunks A g alg key p True i cs))) =
    fst (seal_chunks A g' alg key p (a + k = length cs) (i + word_of_nat a) (take k (drop a cs)))"
proof -
  from seal_chunks_split [of a cs] assms obtain g1 where
    g1: "drop a (fst (seal_chunks A g alg key p True i cs)) =
      fst (seal_chunks A g1 alg key p True (i + word_of_nat a) (drop a cs))" by fastforce
  show ?thesis
  proof (cases "a + k = length cs")
    case True
    then show ?thesis unfolding g1 by (intro exI [of _ g1]) simp
  next
    case False
    with assms have "k < length (drop a cs)" by simp
    with False seal_chunks_split [OF this] show ?thesis unfolding g1 by auto
  qed
qed

lemma frames_slice:
  fixes A g alg key p n cs
  assumes "aead_correct A" "framed n cs" "a < length cs" "0 < k" "a + k \<le> length cs"
  defines "fs \<equiv> fst (seal_chunks A g alg key p True 0 cs)" and "w \<equiv> n + overhead alg"
  shows "concat (take k (drop a fs)) =
    take ((if a + k = length cs then length (concat fs) else (a + k) * w) - a * w) (drop (a * w) (concat fs))"
proof -
  have len: "length fs = length cs" by (simp add: fs_def)
  have full: "length (fs ! j) = w" if "j + 1 < length cs" for j
    using that framed_butlast [OF assms(2) that] seal_chunks_frame_length [OF assms(1), of j cs]
    by (simp add: fs_def w_def)
  have "drop (a * w) (concat fs) = concat (drop a fs)"
    using assms(3) full by (intro drop_concat_equal) (auto simp: in_set_conv_nth len)
  moreover have "concat (take k (drop a fs)) = take (k * w) (concat (drop a fs))" if "a + k < length cs"
    using that full by (intro take_concat_equal [symmetric]) (auto simp: in_set_conv_nth len)
  moreover have "take k (drop a fs) = drop a fs" if "a + k = length cs"
    using that len by simp
  ultimately show ?thesis
    using assms(5) len
    by (cases "a + k = length cs") (simp_all add: algebra_simps length_drop [symmetric] del: length_drop)
qed

text \<open>\<open>trim_range\<close> keeps what a plan asks for of the decrypted chunks.\<close>

definition trim_range :: "nat \<Rightarrow> range_plan \<Rightarrow> bytes \<Rightarrow> bytes" where
  "trim_range n pl out =
     drop (trim_start pl) (take ((unat (last_chunk pl) - unat (first_chunk pl)) * n + trim_end pl) out)"

definition subrange :: "nat \<Rightarrow> nat \<Rightarrow> 'a list \<Rightarrow> 'a list" where
  "subrange a b xs = take (b - a) (drop a xs)"

lemma trim_list:
  fixes n :: nat
  assumes "a * n + s \<le> l * n + t" "a \<le> l" "t \<le> n"
  shows "drop s (take ((l - a) * n + t) (take ((l - a + 1) * n) (drop (a * n) xs))) =
     subrange (a * n + s) (l * n + t) xs"
proof -
  have "(l - a) * n + t \<le> (l - a + 1) * n" using assms(3) by simp
  moreover have "(l - a) * n = l * n - a * n" by (rule diff_mult_distrib)
  moreover have "a * n \<le> l * n" using assms(2) by simp
  ultimately show ?thesis
    using assms(1) by (simp add: subrange_def drop_take min_absorb1 add.commute)
qed

lemma ranged_decrypt_parts:
  assumes "aead_correct A" "encrypt_all A g alg key p (unat c) pt = Some (ct, g')"
    and "length pt < 2 ^ 64" "fits alg (word_of_nat (length pt)) c"
    and "plan_range alg (word_of_nat (length pt)) c start stop = Inr pl" "start < stop"
    and d: "Decryptor_new_at alg key p (unat c) (first_chunk pl)
              (last_chunk pl + 1 = n_chunks (word_of_nat (length pt)) c) = Some d"
  shows "\<exists>d' out fin. dec_loop A (d\<lparr> d_buf := subrange (unat (ct_start pl)) (unat (ct_end pl)) ct \<rparr>) = Inr (d', out) \<and>
           Decryptor_finish A d' = Inr fin \<and>
           length out = (unat (last_chunk pl) - unat (first_chunk pl)) * unat c \<and>
           trim_range (unat c) pl (out @ fin) = subrange (unat start) (unat stop) pt"
proof -
  define C where "C = unat c"
  define cs where "cs = chunks_of C pt"
  define a where "a = unat start div C"
  define l where "l = (unat stop - 1) div C"
  define k where "k = l - a + 1"
  have ptw: "unat (word_of_nat (length pt) :: u64) = length pt" using assms(3) by (rule unat_u64_of_nat)
  have C: "0 < C" using assms(4) by (simp add: fits_def C_def u64_nat)
  have ct: "ct = concat (fst (seal_chunks A g alg key p True 0 cs))"
    using assms(2) C by (simp add: encrypt_all_eq cs_def C_def split: prod.splits)
  have fr: "framed C cs" and total: "length cs = n_chunks_spec (length pt) C"
    using C by (simp_all add: cs_def framed_chunks_of length_chunks_of)
  note facts = plan_range_facts [OF assms(4,5,6), unfolded ptw, folded C_def, folded a_def l_def]
  have se: "unat start < unat stop" using assms(6) by (simp add: word_less_nat_alt)
  have al: "a \<le> l" using se by (auto simp: a_def l_def intro!: div_le_mono)
  have lt: "l < length cs" using facts(1) se unfolding total l_def by (intro chunk_of_byte) simp
  have ak: "a + k = l + 1" and k: "0 < k" "a + k \<le> length cs" "a < length cs"
    using al lt by (auto simp: k_def)
  let ?K = "take k (drop a cs)"
  have frK: "framed C ?K" by (rule framed_slice(1) [OF fr k(1,3)])
  have lenct: "length ct = ciphertext_len_spec alg (length pt) C"
    using length_encrypt_all [OF assms(1,2)] by (simp add: C_def)
  have "subrange (unat (ct_start pl)) (unat (ct_end pl)) ct =
      concat (take k (drop a (fst (seal_chunks A g alg key p True 0 cs))))"
    unfolding subrange_def frames_slice [OF assms(1) fr k(3,1,2)] facts(6) facts(8)
    by (simp add: ct [symmetric] lenct total ak)
  moreover obtain g1 where "take k (drop a (fst (seal_chunks A g alg key p True 0 cs))) =
      fst (seal_chunks A g1 alg key p (l + 1 = length cs) (word_of_nat a) (take k (drop a cs)))"
    using seal_chunks_slice [OF k(1,2), of A g alg key p 0] by (auto simp: ak)
  moreover have "first_chunk pl = word_of_nat a" using facts(2) by (metis of_nat_unat ucast_id)
  ultimately obtain d' where dl: "dec_loop A (d\<lparr> d_buf := subrange (unat (ct_start pl)) (unat (ct_end pl)) ct \<rparr>) =
      Inr (d', concat (butlast ?K))" "Decryptor_finish A d' = Inr (last ?K)"
    using d C facts(7) total frK dec_loop_seal_chunks [OF assms(1), of "d\<lparr> d_buf := subrange (unat (ct_start pl)) (unat (ct_end pl)) ct \<rparr>" ?K g1]
    by (auto simp: Decryptor_new_at_def C_def split: if_splits)
  have cK: "concat (butlast ?K) @ last ?K = concat ?K"
    using frK by (metis append_butlast_last_id concat.simps concat_append append_Nil2 framed_not_Nil)
  then have "length (concat (butlast ?K)) = (length ?K - 1) * C"
    using framed_length [OF frK] by (metis add_right_cancel length_append)
  moreover have "length ?K - 1 = unat (last_chunk pl) - unat (first_chunk pl)" using k facts(2,3) by (simp add: k_def)
  moreover have "trim_range C pl (concat (take k (drop a cs))) = subrange (unat start) (unat stop) pt"
  proof -
    have cc: "concat (take k (drop a cs)) = take ((l - a + 1) * C) (drop (a * C) pt)"
      unfolding framed_slice(2) [OF fr k(1,3)] by (simp add: k_def cs_def)
    have st: "unat start = a * C + trim_start pl" "unat stop = l * C + trim_end pl"
      using facts(4,5) se by (simp_all add: a_def l_def)
    have "trim_end pl \<le> C" using facts(5) C by (simp add: Suc_le_eq)
    with st se al show ?thesis
      unfolding trim_range_def cc facts(2,3) by (simp only: trim_list less_imp_le)
  qed
  ultimately show ?thesis using dl cK by (intro exI [of _ d'] exI [of _ "concat (butlast ?K)"] exI [of _ "last ?K"]) (simp add: C_def)
qed

lemma ranged_decrypt:
  assumes "aead_correct A" "encrypt_all A g alg key p (unat c) pt = Some (ct, g')"
    and "length pt < 2 ^ 64" "fits alg (word_of_nat (length pt)) c"
    and "plan_range alg (word_of_nat (length pt)) c start stop = Inr pl" "start < stop"
    and "Decryptor_new_at alg key p (unat c) (first_chunk pl)
              (last_chunk pl + 1 = n_chunks (word_of_nat (length pt)) c) = Some d"
  shows "\<exists>out. dec_finish_all A (d\<lparr> d_buf := subrange (unat (ct_start pl)) (unat (ct_end pl)) ct \<rparr>) = Inr out \<and>
           trim_range (unat c) pl out = subrange (unat start) (unat stop) pt"
  using ranged_decrypt_parts [OF assms] by (auto simp: dec_finish_all_def)

text \<open>What the decryptor has released before the end of its input is the plaintext of sealed frames at
  the front of that input.\<close>

lemma dec_loop_released:
  assumes "aead_tidy A" "dec_loop A d = Inr (d', out)"
  shows "\<exists>cs g. out = concat cs \<and> d_buf d = concat (fst (seal_chunks A g (d_alg d) (d_key d) (d_part_number d)
     False (d_chunk_index d) cs)) @ d_buf d'"
  using assms(2)
proof (induction "length (d_buf d)" arbitrary: d out rule: less_induct)
  case less
  show ?case
  proof (cases "length (d_buf d) \<le> frame_size d")
    case True
    with less.prems show ?thesis by (intro exI [of _ "[]"]) (auto simp: dec_loop.simps [of A d])
  next
    case False
    then obtain m o2 where m: "open_next A d = Inr m" and r: "dec_loop A (advance d) = Inr (d', o2)" "out = m @ o2"
      using less.prems by (auto simp: dec_loop.simps [of A d] result_simps prepend_eq_Inr_iff)
    have "length (d_buf (advance d)) < length (d_buf d)" using False by (simp add: frame_size_diff)
    from less.hyps [OF this r(1)] obtain cs g where "o2 = concat cs"
      "drop (frame_size d) (d_buf d) = concat (fst (seal_chunks A g (d_alg d) (d_key d) (d_part_number d)
         False (d_chunk_index d + 1) cs)) @ d_buf d'" by auto
    with open_frame_tidy [OF assms(1) m, of g] r(2) show ?thesis
      by (intro exI [of _ "m # cs"] exI [of _ "supply_of (take (nonce_len (d_alg d)) (take (frame_size d) (d_buf d))) g"])
        (auto split: prod.splits, metis append_take_drop_id)
  qed
qed

lemma trim_range_parts:
  assumes "length out = (unat (last_chunk pl) - unat (first_chunk pl)) * n"
  shows "trim_range n pl (out @ fin) = drop (trim_start pl) out @ drop (trim_start pl - length out) (take (trim_end pl) fin)"
  using assms by (simp add: trim_range_def)

end
