(* ===== verification/FrameProps.thy ===== *)
theory FrameProps
  imports FrameStream
begin

text \<open>
  The properties of the chunk framing (\<open>v1/frame.rs\<close>), and a sample AEAD on which their witnesses
  run. The sample leaves the message in the clear and computes its tag from the associated data; it
  satisfies the laws the real primitives promise.
\<close>

section \<open>A sample primitive\<close>

definition sample_tag :: "bytes \<Rightarrow> bytes" where
  "sample_tag aad = take 16 (rev aad @ replicate 16 0)"

definition sample_aead :: aead where
  "sample_aead = \<lparr>
     aead_encrypt = (\<lambda>alg k n a m. m @ sample_tag a),
     aead_decrypt = (\<lambda>alg k n a c.
       if drop (length c - 16) c = sample_tag a then Some (take (length c - 16) c) else None) \<rparr>"

lemma length_sample_tag [simp]: "length (sample_tag a) = 16"
  by (simp add: sample_tag_def)

lemma sample_aead_correct: "aead_correct sample_aead"
  by (simp add: aead_correct_def sample_aead_def TAG_LEN_def)

lemma sample_aead_tidy: "aead_tidy sample_aead"
  by (auto simp: aead_tidy_def sample_aead_def split: if_splits) (metis append_take_drop_id)

section \<open>Properties\<close>

text \<open>The associated data of a frame determines the algorithm, the part number, the chunk index
  and the last-chunk flag. In particular the reserved part number of the footer never produces the
  associated data of a client part (1 to 10000) or of a whole object (0).\<close>

theorem frame_aad_binds_position:
  "(frame_aad alg p i l = frame_aad alg' p' i' l' \<longleftrightarrow> alg = alg' \<and> p = p' \<and> i = i' \<and> l = l') \<and>
   length (frame_aad alg p i l) = 18"
  by (simp add: frame_aad_inj length_frame_aad)

text \<open>C18. \<open>plaintext_len\<close> accepts exactly the lengths that some plaintext encodes to, returns that
  plaintext's length, and answers \<open>InvalidLength\<close> otherwise; no wrap-around hides a bad length.\<close>

theorem plaintext_len_accepts_exactly_encodings:
  assumes "0 < c" "unat c + overhead alg < 2 ^ 64"
  shows "(plaintext_len alg ct c = Inr pt \<longleftrightarrow> unat ct = ciphertext_len_spec alg (unat pt) (unat c)) \<and>
    (plaintext_len alg ct c = Inl InvalidLength \<longleftrightarrow>
       (\<nexists>pt'. unat ct = ciphertext_len_spec alg (unat (pt' :: u64)) (unat c)))"
  using plaintext_len_exact [OF assms, of ct] plaintext_len_error [of alg ct c]
  by (cases "plaintext_len alg ct c") auto

theorem plaintext_len_witness:
  "(plaintext_len Aes256Gcm 131156 65536 = Inr 131100 \<longleftrightarrow>
      unat (131156 :: u64) = ciphertext_len_spec Aes256Gcm (unat (131100 :: u64)) (unat (65536 :: u64))) \<and>
   (plaintext_len Aes256Gcm 131156 65536 = Inl InvalidLength \<longleftrightarrow>
      (\<nexists>pt'. unat (131156 :: u64) = ciphertext_len_spec Aes256Gcm (unat (pt' :: u64)) (unat (65536 :: u64))))"
  by (rule plaintext_len_accepts_exactly_encodings)
    (simp_all add: overhead_def nonce_len_def TAG_LEN_def)

text \<open>C17. Decrypting what \<open>encrypt_all\<close> produced returns the plaintext, for every chunk size, part
  number, key and supply of nonces, and the ciphertext has exactly the length that
  \<open>ciphertext_len\<close> predicts.\<close>

theorem encrypt_decrypt_roundtrip:
  assumes "aead_correct A" "0 < n"
  shows "\<exists>ct g'. encrypt_all A g alg key p n pt = Some (ct, g') \<and>
    decrypt_all A alg key p n ct = Some (Inr pt) \<and>
    length ct = ciphertext_len_spec alg (length pt) n"
proof -
  obtain ct g' where e: "encrypt_all A g alg key p n pt = Some (ct, g')"
    using encrypt_all_eq [OF assms(2)] by (cases "the (encrypt_all A g alg key p n pt)") auto
  with decrypt_encrypt_all [OF assms(1) e] length_encrypt_all [OF assms(1) e] show ?thesis by blast
qed

theorem encrypt_decrypt_witness:
  "\<exists>ct g'. encrypt_all sample_aead (\<lambda>i. word_of_nat i) XChaCha20Poly1305 [1] 7 2 [10, 20, 30] = Some (ct, g') \<and>
    decrypt_all sample_aead XChaCha20Poly1305 [1] 7 2 ct = Some (Inr [10, 20, 30]) \<and>
    length ct = ciphertext_len_spec XChaCha20Poly1305 (length [10, 20, 30 :: u8]) 2"
  by (rule encrypt_decrypt_roundtrip) (simp_all add: sample_aead_correct)

text \<open>C3. Fail closed: a ciphertext whose length \<open>plaintext_len\<close> accepts and that \<open>decrypt_all\<close>
  accepts is, byte for byte, what \<open>encrypt_all\<close> produces from the plaintext returned, under some
  supply of nonces. Truncated, reordered or extended ciphertexts are rejected unless the primitive
  itself was broken.\<close>

theorem accepted_ciphertext_was_encrypted:
  assumes "aead_correct A" "aead_tidy A"
    and "0 < c" "unat c + overhead alg < 2 ^ 64" "length ct < 2 ^ 64"
    and "plaintext_len alg (word_of_nat (length ct)) c = Inr len"
    and "decrypt_all A alg key p (unat c) ct = Some (Inr pt)"
  shows "length pt = unat len \<and> (\<exists>g g'. encrypt_all A g alg key p (unat c) pt = Some (ct, g'))"
proof -
  have "length ct = ciphertext_len_spec alg (unat len) (unat c)"
    using plaintext_len_exact [OF assms(3,4), of "word_of_nat (length ct)" len] assms(5,6)
    by (simp add: unat_u64_of_nat)
  moreover from decrypt_all_only_encrypted [OF assms(1,2,7) this] obtain g g' where
    e: "encrypt_all A g alg key p (unat c) pt = Some (ct, g')" by blast
  ultimately have "ciphertext_len_spec alg (length pt) (unat c) = ciphertext_len_spec alg (unat len) (unat c)"
    using length_encrypt_all [OF assms(1) e] by simp
  then have "length pt = unat len" by (rule ciphertext_len_spec_inj)
  with e show ?thesis by blast
qed

definition sample_ct :: bytes where
  "sample_ct = fst (the (encrypt_all sample_aead (\<lambda>i. word_of_nat i) Aes256Gcm [1] 0 2 [10, 20, 30]))"

lemma sample_ct_encrypts:
  "encrypt_all sample_aead (\<lambda>i. word_of_nat i) Aes256Gcm [1] 0 (unat (2 :: u64)) [10, 20, 30] =
     Some (sample_ct, snd (the (encrypt_all sample_aead (\<lambda>i. word_of_nat i) Aes256Gcm [1] 0 2 [10, 20, 30])))"
  unfolding sample_ct_def by (simp add: encrypt_all_eq)

lemma sample_ct_decrypts: "decrypt_all sample_aead Aes256Gcm [1] 0 2 sample_ct = Some (Inr [10, 20, 30])"
  using decrypt_encrypt_all [OF sample_aead_correct sample_ct_encrypts] by simp

lemma sample_fits: "fits Aes256Gcm (word_of_nat (length [10, 20, 30 :: u8])) 2"
  by (simp add: fits_def ciphertext_len_spec_def n_chunks_spec_def overhead_def nonce_len_def TAG_LEN_def)

theorem accepted_ciphertext_witness:
  "length [10, 20, 30 :: u8] = unat (3 :: u64) \<and>
   (\<exists>g g'. encrypt_all sample_aead g Aes256Gcm [1] 0 (unat (2 :: u64)) [10, 20, 30] = Some (sample_ct, g'))"
proof (rule accepted_ciphertext_was_encrypted [OF sample_aead_correct sample_aead_tidy])
  have e: "encrypt_all sample_aead (\<lambda>i. word_of_nat i) Aes256Gcm [1] 0 2 [10, 20, 30] =
      Some (sample_ct, snd (the (encrypt_all sample_aead (\<lambda>i. word_of_nat i) Aes256Gcm [1] 0 2 [10, 20, 30])))"
    unfolding sample_ct_def by (simp add: encrypt_all_eq)
  have len: "length sample_ct = 59"
    using length_encrypt_all [OF sample_aead_correct e]
    by (simp add: ciphertext_len_spec_def n_chunks_spec_def overhead_def nonce_len_def TAG_LEN_def)
  show "0 < (2 :: u64)" "unat (2 :: u64) + overhead Aes256Gcm < 2 ^ 64" "length sample_ct < 2 ^ 64"
    using len by (simp_all add: overhead_def nonce_len_def TAG_LEN_def)
  show "plaintext_len Aes256Gcm (word_of_nat (length sample_ct)) 2 = Inr 3"
    unfolding len by code_simp
  show "decrypt_all sample_aead Aes256Gcm [1] 0 (unat (2 :: u64)) sample_ct = Some (Inr [10, 20, 30])"
    using decrypt_encrypt_all [OF sample_aead_correct e] by simp
qed

text \<open>C19. A ranged read returns the range: fetching the ciphertext span of the plan, decrypting it from
  \<open>first_chunk\<close> with the end-of-object flag set exactly when the plan reaches the last chunk, and
  trimming as the plan says gives the bytes \<open>[start, stop)\<close> of the plaintext.\<close>

theorem planned_range_decrypts_to_range:
  assumes "aead_correct A" "encrypt_all A g alg key p (unat c) pt = Some (ct, g')"
    and "length pt < 2 ^ 64" "fits alg (word_of_nat (length pt)) c"
    and "plan_range alg (word_of_nat (length pt)) c start stop = Inr pl" "start < stop"
  shows "\<exists>d d' out fin.
    Decryptor_new_at alg key p (unat c) (first_chunk pl)
      (last_chunk pl + 1 = n_chunks (word_of_nat (length pt)) c) = Some d \<and>
    Decryptor_push A d (subrange (unat (ct_start pl)) (unat (ct_end pl)) ct) = Inr (d', out) \<and>
    Decryptor_finish A d' = Inr fin \<and>
    trim_range (unat c) pl (out @ fin) = subrange (unat start) (unat stop) pt"
proof -
  have "0 < unat c" using assms(4) by (simp add: fits_def u64_nat)
  then obtain d where d: "Decryptor_new_at alg key p (unat c) (first_chunk pl)
      (last_chunk pl + 1 = n_chunks (word_of_nat (length pt)) c) = Some d" "d_buf d = []"
    by (simp add: Decryptor_new_at_def)
  with ranged_decrypt [OF assms d(1)] show ?thesis
    by (auto simp: dec_finish_all_def Decryptor_push_def result_simps)
qed

definition sample_plan :: range_plan where
  "sample_plan = \<lparr> ct_start = 0, ct_end = 59, first_chunk = 0, last_chunk = 1, trim_start = 1, trim_end = 1 \<rparr>"

lemma sample_plan_planned:
  "plan_range Aes256Gcm (word_of_nat (length [10, 20, 30 :: u8])) 2 1 3 = Inr sample_plan"
  by code_simp

theorem planned_range_witness:
  "\<exists>d d' out fin.
    Decryptor_new_at Aes256Gcm [1] 0 (unat (2 :: u64)) (first_chunk sample_plan)
      (last_chunk sample_plan + 1
        = n_chunks (word_of_nat (length [10, 20, 30 :: u8])) 2) = Some d \<and>
    Decryptor_push sample_aead d (subrange (unat (ct_start sample_plan)) (unat (ct_end sample_plan)) sample_ct) = Inr (d', out) \<and>
    Decryptor_finish sample_aead d' = Inr fin \<and>
    trim_range (unat (2 :: u64)) sample_plan (out @ fin) = subrange (unat (1 :: u64)) (unat (3 :: u64)) [10, 20, 30]"
proof (rule planned_range_decrypts_to_range [OF sample_aead_correct])
  show "length [10, 20, 30 :: u8] < 2 ^ 64" "1 < (3 :: u64)" by simp_all
qed (rule sample_ct_encrypts sample_fits sample_plan_planned)+

text \<open>C34. The result of encrypting or decrypting a stream does not depend on how the network cut it:
  pushing the pieces one by one is pushing their concatenation, errors included.\<close>

theorem framing_ignores_segmentation:
  assumes "concat xs = concat ys" "xs \<noteq> []" "ys \<noteq> []"
  shows "run_stream (enc_step A) (e, g) xs = run_stream (enc_step A) (e, g) ys \<and>
    run_stream (Decryptor_push A) d xs = run_stream (Decryptor_push A) d ys \<and>
    run_stream (Decryptor_push A) d xs = Decryptor_push A d (concat xs)"
  using enc.segmentation_independent [OF assms] dec.segmentation_independent [OF assms]
    dec.run_stream_eq_step [OF assms(2)] by blast

theorem framing_segmentation_witness:
  "run_stream (enc_step sample_aead) (the (Encryptor_new Aes256Gcm [1] 0 2), \<lambda>i. 0) [[1], [2, 3], []] =
     run_stream (enc_step sample_aead) (the (Encryptor_new Aes256Gcm [1] 0 2), \<lambda>i. 0) [[1, 2, 3]] \<and>
   run_stream (Decryptor_push sample_aead) (the (Decryptor_new Aes256Gcm [1] 0 2)) [[1], [2, 3], []] =
     run_stream (Decryptor_push sample_aead) (the (Decryptor_new Aes256Gcm [1] 0 2)) [[1, 2, 3]] \<and>
   run_stream (Decryptor_push sample_aead) (the (Decryptor_new Aes256Gcm [1] 0 2)) [[1], [2, 3], []] =
     Decryptor_push sample_aead (the (Decryptor_new Aes256Gcm [1] 0 2)) (concat [[1], [2, 3], []])"
  by (rule framing_ignores_segmentation) simp_all

end
