(* ===== verification/Footer.thy ===== *)
theory Footer
  imports FrameProps
begin

text \<open>
  The multipart footer (\<open>v1/footer.rs\<close>): the record codec over a bounds-checked cursor, the sealed
  footer frame and its trailer. \<open>sum\<close> over the part sizes is \<open>Iterator::sum\<close> on \<open>u64\<close>, which wraps.
\<close>

section \<open>The cursor\<close>

record cursor =
  cur_buf :: bytes
  cur_pos :: nat

definition Cursor_new :: "bytes \<Rightarrow> cursor" where
  "Cursor_new b = \<lparr> cur_buf = b, cur_pos = 0 \<rparr>"

definition cur_take :: "cursor \<Rightarrow> nat \<Rightarrow> error + (bytes \<times> cursor)" where
  "cur_take r n =
     (if length (cur_buf r) < cur_pos r + n then Inl InvalidFooter
      else Inr (take n (drop (cur_pos r) (cur_buf r)), r\<lparr> cur_pos := cur_pos r + n \<rparr>))"

definition cur_u8 :: "cursor \<Rightarrow> error + (u8 \<times> cursor)" where
  "cur_u8 r = rbind (cur_take r 1) (\<lambda>(s, r'). Inr (s ! 0, r'))"

definition cur_u32_le :: "cursor \<Rightarrow> error + (u32 \<times> cursor)" where
  "cur_u32_le r = rbind (cur_take r 4) (\<lambda>(s, r'). Inr (u32_from_le_bytes s, r'))"

definition cur_u64_le :: "cursor \<Rightarrow> error + (u64 \<times> cursor)" where
  "cur_u64_le r = rbind (cur_take r 8) (\<lambda>(s, r'). Inr (u64_from_le_bytes s, r'))"

definition cur_bytes16 :: "cursor \<Rightarrow> error + (bytes \<times> cursor)" where
  "cur_bytes16 r = cur_take r 16"

definition expect_empty :: "cursor \<Rightarrow> error + unit" where
  "expect_empty r = (if cur_pos r \<noteq> length (cur_buf r) then Inl InvalidFooter else Inr ())"

section \<open>The footer record\<close>

record footer =
  f_alg :: alg
  f_parts :: "(u32 \<times> u64) list"
  f_total_pt :: u64
  f_md5 :: "bytes option"

definition FOOTER_PART_NUMBER :: u32 where
  "FOOTER_PART_NUMBER = 4294967295"

definition TRAILER_LEN :: nat where
  "TRAILER_LEN = 16"

definition FOOTER_MAGIC :: bytes where
  "FOOTER_MAGIC = str_bytes ''S3A1FOOT''"

definition MAX_FOOTER_LEN :: u64 where
  "MAX_FOOTER_LEN = 128 * 1024"

definition RECORD_VERSION :: u8 where
  "RECORD_VERSION = 1"

definition encode_part :: "u32 \<times> u64 \<Rightarrow> bytes" where
  "encode_part p = u32_to_le_bytes (fst p) @ u64_to_le_bytes (snd p)"

definition encode_record :: "footer \<Rightarrow> bytes" where
  "encode_record f =
     [RECORD_VERSION] @ [alg_id (f_alg f)] @ u32_to_le_bytes (word_of_nat (length (f_parts f)))
     @ concat (map encode_part (f_parts f))
     @ u64_to_le_bytes (f_total_pt f)
     @ (case f_md5 f of Some m \<Rightarrow> [1] @ m | None \<Rightarrow> [0])"

fun read_parts :: "nat \<Rightarrow> cursor \<Rightarrow> error + ((u32 \<times> u64) list \<times> cursor)" where
  "read_parts 0 r = Inr ([], r)"
| "read_parts (Suc n) r =
     rbind (cur_u32_le r) (\<lambda>(number, r1). rbind (cur_u64_le r1) (\<lambda>(size, r2).
     rbind (read_parts n r2) (\<lambda>(parts, r3). Inr ((number, size) # parts, r3))))"

definition read_md5 :: "cursor \<Rightarrow> error + (bytes option \<times> cursor)" where
  "read_md5 r =
     rbind (cur_u8 r) (\<lambda>(tag, r1).
       if tag = 0 then Inr (None, r1)
       else if tag = 1 then rbind (cur_bytes16 r1) (\<lambda>(m, r2). Inr (Some m, r2))
       else Inl InvalidFooter)"

fun out_of_order :: "(u32 \<times> u64) list \<Rightarrow> bool" where
  "out_of_order (a # b # ps) = (fst a \<ge> fst b \<or> out_of_order (b # ps))"
| "out_of_order ps = False"

definition decode_record :: "bytes \<Rightarrow> error + footer" where
  "decode_record b =
     rbind (cur_u8 (Cursor_new b)) (\<lambda>(version, r1).
     if version \<noteq> RECORD_VERSION then Inl (UnknownVersion version)
     else rbind (cur_u8 r1) (\<lambda>(i, r2). rbind (from_id i) (\<lambda>alg.
       rbind (cur_u32_le r2) (\<lambda>(count, r3). rbind (read_parts (unat count) r3) (\<lambda>(parts, r4).
       rbind (cur_u64_le r4) (\<lambda>(total_pt, r5). rbind (read_md5 r5) (\<lambda>(md5, r6).
       rbind (expect_empty r6) (\<lambda>_.
         if out_of_order parts then Inl InvalidFooter
         else if sum_list (map snd parts) \<noteq> total_pt then Inl InvalidFooter
         else Inr \<lparr> f_alg = alg, f_parts = parts, f_total_pt = total_pt, f_md5 = md5 \<rparr>))))))))"

definition Footer_seal :: "aead \<Rightarrow> entropy \<Rightarrow> bytes \<Rightarrow> footer \<Rightarrow> bytes \<times> entropy" where
  "Footer_seal A g key f =
     (let (frame, g') = seal_frame A g (f_alg f) key FOOTER_PART_NUMBER 0 True (encode_record f);
          footer_len = word_of_nat (length frame)
      in (frame @ FOOTER_MAGIC @ u64_to_le_bytes footer_len, g'))"

definition parse_trailer :: "bytes \<Rightarrow> error + u64" where
  "parse_trailer trailer =
     (if length trailer \<noteq> TRAILER_LEN then Inl InvalidFooter
      else if take 8 trailer \<noteq> FOOTER_MAGIC then Inl InvalidFooter
      else
        let footer_len = u64_from_le_bytes (take 8 (drop 8 trailer))
        in if footer_len = 0 \<or> footer_len > MAX_FOOTER_LEN then Inl InvalidFooter
           else Inr footer_len)"

definition Footer_open :: "aead \<Rightarrow> alg \<Rightarrow> bytes \<Rightarrow> bytes \<Rightarrow> error + footer" where
  "Footer_open A alg key frame =
     rbind (open_frame A alg key FOOTER_PART_NUMBER 0 True frame) (\<lambda>record.
     rbind (decode_record record) (\<lambda>footer.
       if alg \<noteq> f_alg footer then Inl InvalidFooter else Inr footer))"

section \<open>The codec is exact\<close>

text \<open>A read consumes exactly the bytes it returns.\<close>

definition consumes :: "cursor \<Rightarrow> bytes \<Rightarrow> cursor \<Rightarrow> bool" where
  "consumes r bs r' \<longleftrightarrow>
     r' = r\<lparr> cur_pos := cur_pos r + length bs \<rparr> \<and> take (length bs) (drop (cur_pos r) (cur_buf r)) = bs"

lemma consumes_bound: "consumes r bs r' \<Longrightarrow> bs \<noteq> [] \<Longrightarrow> cur_pos r + length bs \<le> length (cur_buf r)"
proof -
  assume "consumes r bs r'" "bs \<noteq> []"
  then have "min (length (cur_buf r) - cur_pos r) (length bs) = length bs" "0 < length bs"
    by (auto simp: consumes_def dest: arg_cong [where f = length])
  then show ?thesis by linarith
qed

lemma cur_take_iff: "0 < n \<Longrightarrow> cur_take r n = Inr (s, r') \<longleftrightarrow> length s = n \<and> consumes r s r'"
  using consumes_bound [of r s r'] by (auto simp: cur_take_def consumes_def)

lemma take_add_iff: "take (length a + length b) xs = a @ b \<longleftrightarrow> take (length a) xs = a \<and> take (length b) (drop (length a) xs) = b"
proof
  assume "take (length a + length b) xs = a @ b"
  then have "take (length a) (take (length a + length b) xs) = a"
    "drop (length a) (take (length a + length b) xs) = b" by simp_all
  then show "take (length a) xs = a \<and> take (length b) (drop (length a) xs) = b" by (simp add: drop_take)
qed (simp add: take_add)

lemma consumes_append:
  "consumes r (a @ b) r' \<longleftrightarrow> (\<exists>r1. consumes r a r1 \<and> consumes r1 b r')"
proof -
  have "drop (length a) (drop (cur_pos r) (cur_buf r)) = drop (cur_pos r + length a) (cur_buf r)"
    by (simp add: add.commute)
  then show ?thesis unfolding consumes_def length_append take_add_iff by (simp add: add.assoc) blast
qed

lemma consumes_Nil [simp]: "consumes r [] r' \<longleftrightarrow> r' = r"
  by (auto simp: consumes_def)

lemma cur_u8_iff: "cur_u8 r = Inr (b, r') \<longleftrightarrow> consumes r [b] r'"
  by (fastforce simp: cur_u8_def result_simps cur_take_iff length_Suc_conv)

lemma cur_u32_le_iff: "cur_u32_le r = Inr (w, r') \<longleftrightarrow> consumes r (u32_to_le_bytes w) r'"
  by (auto simp: cur_u32_le_def result_simps cur_take_iff u32_bytes_roundtrip
      intro!: exI [of _ "u32_to_le_bytes w"])

lemma cur_u64_le_iff: "cur_u64_le r = Inr (w, r') \<longleftrightarrow> consumes r (u64_to_le_bytes w) r'"
  by (auto simp: cur_u64_le_def result_simps cur_take_iff u64_bytes_roundtrip
      intro!: exI [of _ "u64_to_le_bytes w"])

lemma read_parts_iff:
  "read_parts n r = Inr (ps, r') \<longleftrightarrow> length ps = n \<and> consumes r (concat (map encode_part ps)) r'"
proof (induction n arbitrary: r ps)
  case (Suc n)
  have "read_parts (Suc n) r = Inr ((a, b) # list, r') \<longleftrightarrow>
      (\<exists>r1 r2. cur_u32_le r = Inr (a, r1) \<and> cur_u64_le r1 = Inr (b, r2) \<and> read_parts n r2 = Inr (list, r'))"
    for a b list by (auto simp: result_simps)
  moreover have "read_parts (Suc n) r \<noteq> Inr ([], r')" by (auto simp: result_simps)
  moreover have "consumes r (concat (map encode_part ((a, b) # list))) r' \<longleftrightarrow>
      (\<exists>r1 r2. consumes r (u32_to_le_bytes a) r1 \<and> consumes r1 (u64_to_le_bytes b) r2 \<and>
         consumes r2 (concat (map encode_part list)) r')" for a b list
    unfolding list.map concat.simps encode_part_def fst_conv snd_conv consumes_append by blast
  ultimately show ?case
    unfolding cur_u32_le_iff cur_u64_le_iff Suc by (cases ps) (force simp del: read_parts.simps)+
qed auto

lemma read_md5_iff:
  "read_md5 r = Inr (m, r') \<longleftrightarrow>
     (case m of None \<Rightarrow> consumes r [0] r' | Some h \<Rightarrow> length h = 16 \<and> consumes r ([1] @ h) r')"
proof (cases "cur_u8 r")
  case (Inl e)
  then have "\<not> consumes r [b] r1" for b r1 using cur_u8_iff [of r b r1] by simp
  with Inl show ?thesis by (auto simp: read_md5_def consumes_append simp del: append_Cons split: option.splits)
next
  case (Inr p)
  then have "consumes r [b] r1 \<longleftrightarrow> p = (b, r1)" for b r1 using cur_u8_iff [of r b r1] by simp
  with Inr show ?thesis
    by (cases m; cases p) (auto simp: read_md5_def consumes_append cur_bytes16_def cur_take_iff result_simps
        simp del: append_Cons split: if_splits)
qed

lemma consumes_all: "consumes (Cursor_new b) bs r' \<and> cur_pos r' = length (cur_buf r') \<longleftrightarrow>
    b = bs \<and> r' = \<lparr> cur_buf = b, cur_pos = length b \<rparr>"
  by (auto simp: consumes_def Cursor_new_def)

text \<open>The invariant of a footer that was decoded, or that an upload produces.\<close>

definition footer_wf :: "footer \<Rightarrow> bool" where
  "footer_wf f \<longleftrightarrow> \<not> out_of_order (f_parts f) \<and> f_total_pt f = sum_list (map snd (f_parts f)) \<and>
     length (f_parts f) < 2 ^ 32 \<and> (\<forall>m. f_md5 f = Some m \<longrightarrow> length m = 16)"

lemma decode_record_steps:
  "decode_record b = Inr f \<longleftrightarrow>
     (\<exists>r1 r2 r3 r4 r5 r6. cur_u8 (Cursor_new b) = Inr (RECORD_VERSION, r1) \<and>
        cur_u8 r1 = Inr (alg_id (f_alg f), r2) \<and>
        (\<exists>count. cur_u32_le r2 = Inr (count, r3) \<and> read_parts (unat count) r3 = Inr (f_parts f, r4)) \<and>
        cur_u64_le r4 = Inr (f_total_pt f, r5) \<and> read_md5 r5 = Inr (f_md5 f, r6) \<and>
        cur_pos r6 = length (cur_buf r6)) \<and>
     \<not> out_of_order (f_parts f) \<and> f_total_pt f = sum_list (map snd (f_parts f))" (is "?L \<longleftrightarrow> ?R")
proof
  show "?L \<Longrightarrow> ?R"
    by (auto simp: decode_record_def expect_empty_def result_simps from_id_Inr_iff split: if_splits)
qed (auto simp: decode_record_def expect_empty_def)

lemma count_iff:
  "(\<exists>count. consumes r (u32_to_le_bytes count) r1 \<and> length ps = unat count \<and> Q) \<longleftrightarrow>
     length ps < 2 ^ 32 \<and> consumes r (u32_to_le_bytes (word_of_nat (length ps))) r1 \<and> Q"
proof
  assume "\<exists>count. consumes r (u32_to_le_bytes count) r1 \<and> length ps = unat count \<and> Q"
  then obtain count where "consumes r (u32_to_le_bytes count) r1" "length ps = unat count" Q by blast
  moreover from this have "word_of_nat (length ps) = count" by simp
  ultimately show "length ps < 2 ^ 32 \<and> consumes r (u32_to_le_bytes (word_of_nat (length ps))) r1 \<and> Q"
    using unat_u32_less [of count] by simp
next
  assume "length ps < 2 ^ 32 \<and> consumes r (u32_to_le_bytes (word_of_nat (length ps))) r1 \<and> Q"
  then show "\<exists>count. consumes r (u32_to_le_bytes count) r1 \<and> length ps = unat count \<and> Q"
    by (intro exI [of _ "word_of_nat (length ps)"]) (simp add: unat_of_nat)
qed

lemma decode_record_iff: "decode_record b = Inr f \<longleftrightarrow> b = encode_record f \<and> footer_wf f"
proof -
  let ?md5 = "case f_md5 f of Some m \<Rightarrow> [1] @ m | None \<Rightarrow> [0]"
  have md5: "read_md5 r = Inr (f_md5 f, r') \<longleftrightarrow>
      consumes r ?md5 r' \<and> (\<forall>m. f_md5 f = Some m \<longrightarrow> length m = 16)" for r r'
    by (cases "f_md5 f") (auto simp: read_md5_iff)
  have "decode_record b = Inr f \<longleftrightarrow> (\<exists>r6. consumes (Cursor_new b) (encode_record f) r6 \<and>
      cur_pos r6 = length (cur_buf r6)) \<and> footer_wf f"
    unfolding decode_record_steps cur_u8_iff cur_u32_le_iff cur_u64_le_iff read_parts_iff md5
      encode_record_def consumes_append footer_wf_def count_iff by blast
  also have "\<dots> \<longleftrightarrow> b = encode_record f \<and> footer_wf f" using consumes_all by simp
  finally show ?thesis .
qed

section \<open>Sealing and opening\<close>

lemma length_concat_parts: "length (concat (map encode_part ps)) = 12 * length ps"
  by (induction ps) (auto simp: encode_part_def)

lemma length_encode_record:
  "footer_wf f \<Longrightarrow> length (encode_record f) = 12 * length (f_parts f) + (case f_md5 f of None \<Rightarrow> 15 | Some _ \<Rightarrow> 31)"
  by (auto simp: encode_record_def length_concat_parts footer_wf_def split: option.splits)

lemma Footer_open_iff:
  assumes "aead_correct A" "aead_tidy A"
  shows "Footer_open A alg key frame = Inr f \<longleftrightarrow>
    footer_wf f \<and> f_alg f = alg \<and>
    (\<exists>g. frame = fst (seal_frame A g alg key FOOTER_PART_NUMBER 0 True (encode_record f)))"
  using frame.unseal_only_sealed [OF assms, of "(alg, key, FOOTER_PART_NUMBER, 0, True)" frame]
  by (auto simp: Footer_open_def result_simps decode_record_iff open_ctx_def seal_ctx_def)

lemma Footer_open_sealed:
  "aead_correct A \<Longrightarrow> footer_wf f \<Longrightarrow>
     Footer_open A (f_alg f) key (fst (seal_frame A g (f_alg f) key FOOTER_PART_NUMBER 0 True (encode_record f))) = Inr f"
  using decode_record_iff [of "encode_record f" f] by (simp add: Footer_open_def open_frame_seal_frame)

lemma parse_trailer_built:
  assumes "0 < n" "n \<le> 131072"
  shows "parse_trailer (FOOTER_MAGIC @ u64_to_le_bytes (word_of_nat n)) = Inr (word_of_nat n)"
proof -
  have "length FOOTER_MAGIC = 8" by (simp add: FOOTER_MAGIC_def)
  moreover have "(word_of_nat n :: u64) \<noteq> 0" "(word_of_nat n :: u64) \<le> MAX_FOOTER_LEN"
    using assms by (simp_all add: u64_nat unat_u64_of_nat MAX_FOOTER_LEN_def)
  ultimately show ?thesis by (simp add: parse_trailer_def TRAILER_LEN_def Let_def not_less)
qed

lemma parse_trailer_bounds:
  "parse_trailer t = Inr n \<Longrightarrow> length t = 16 \<and> 0 < unat n \<and> unat n \<le> 131072"
  by (auto simp: parse_trailer_def TRAILER_LEN_def MAX_FOOTER_LEN_def Let_def u64_nat not_less split: if_splits)

text \<open>Sealing, then reading the trailer and opening the frame it names.\<close>

lemma footer_part_reads:
  assumes "aead_correct A" "footer_wf f" "length (f_parts f) \<le> 10000"
  shows "let body = fst (Footer_seal A g key f); n = length body - TRAILER_LEN in
    TRAILER_LEN < length body \<and>
    parse_trailer (drop n body) = Inr (word_of_nat n) \<and> n \<le> unat MAX_FOOTER_LEN \<and>
    Footer_open A (f_alg f) key (take n body) = Inr f"
proof -
  let ?frame = "fst (seal_frame A g (f_alg f) key FOOTER_PART_NUMBER 0 True (encode_record f))"
  have body: "fst (Footer_seal A g key f) =
      ?frame @ FOOTER_MAGIC @ u64_to_le_bytes (word_of_nat (length ?frame))"
    by (simp add: Footer_seal_def case_prod_beta Let_def)
  have m: "length FOOTER_MAGIC = 8" by (simp add: FOOTER_MAGIC_def)
  have "length ?frame = length (encode_record f) + overhead (f_alg f)"
    by (rule open_frame_seal_frame [OF assms(1)])
  then have len: "0 < length ?frame" "length ?frame \<le> 131072"
    using length_encode_record [OF assms(2)] assms(3) overhead_bounds [of "f_alg f"]
    by (auto split: option.splits)
  show ?thesis
    unfolding Let_def body
    using len parse_trailer_built [OF len] Footer_open_sealed [OF assms(1,2)]
    by (simp add: TRAILER_LEN_def m MAX_FOOTER_LEN_def)
qed

section \<open>Properties\<close>

text \<open>C15. The footer codec is exact: a byte string decodes to a footer if and only if it is the
  encoding of that footer and the footer is well formed, that is, part numbers strictly ascend, the
  total is the sum of the sizes, and a checksum has 16 bytes. So the encoding is unambiguous and
  nothing else is ever accepted.\<close>

theorem footer_record_codec_exact:
  "(decode_record b = Inr f \<longleftrightarrow> b = encode_record f \<and> footer_wf f)"
  by (rule decode_record_iff)

end
