(* ===== verification/RustText.thy ===== *)
theory RustText
  imports Prelude
begin

text \<open>
  The text routines of the Rust standard library that the sources call: \<open>char::to_digit\<close>,
  \<open>str::parse\<close> and \<open>from_str_radix\<close> for the unsigned integers, \<open>Display\<close> of an unsigned
  integer (plain and zero-padded), \<open>str::trim\<close> and \<open>std::str::from_utf8\<close>. Each is the total function
  the library documents, over the UTF-8 bytes of the string. The lemmas give the round trip between
  printing and parsing and the facts about trimming that the components use.
\<close>

section \<open>Digits and unsigned integers\<close>

definition digit_value :: "nat \<Rightarrow> char \<Rightarrow> nat option" where
  "digit_value radix c =
     (let n = (of_char c :: nat);
          v = (if 48 \<le> n \<and> n \<le> 57 then Some (n - 48)
               else if 97 \<le> n \<and> n \<le> 122 then Some (n - 87)
               else if 65 \<le> n \<and> n \<le> 90 then Some (n - 55)
               else None)
      in case v of None \<Rightarrow> None | Some d \<Rightarrow> if d < radix then Some d else None)"

fun parse_digits :: "nat \<Rightarrow> nat \<Rightarrow> string \<Rightarrow> nat option" where
  "parse_digits radix acc [] = Some acc"
| "parse_digits radix acc (c # cs) =
     (case digit_value radix c of
        None \<Rightarrow> None
      | Some d \<Rightarrow> parse_digits radix (radix * acc + d) cs)"

text \<open>An optional leading \<open>+\<close>, at least one digit, no value at or above the bound of the type.\<close>

definition parse_unsigned :: "nat \<Rightarrow> nat \<Rightarrow> string \<Rightarrow> nat option" where
  "parse_unsigned radix bound s =
     (let d = (case s of [] \<Rightarrow> [] | c # r \<Rightarrow> if c = CHR ''+'' then r else s)
      in if d = [] then None
         else case parse_digits radix 0 d of
                None \<Rightarrow> None
              | Some n \<Rightarrow> if n < bound then Some n else None)"

definition parse_u8 :: "string \<Rightarrow> u8 option" where
  "parse_u8 s = map_option word_of_nat (parse_unsigned 10 (2 ^ 8) s)"

definition parse_u32 :: "string \<Rightarrow> u32 option" where
  "parse_u32 s = map_option word_of_nat (parse_unsigned 10 (2 ^ 32) s)"

definition parse_u64 :: "string \<Rightarrow> u64 option" where
  "parse_u64 s = map_option word_of_nat (parse_unsigned 10 (2 ^ 64) s)"

definition digit_char :: "nat \<Rightarrow> char" where
  "digit_char d = char_of (48 + d)"

fun dec_string :: "nat \<Rightarrow> string" where
  "dec_string n =
     (if n < 10 then [digit_char n] else dec_string (n div 10) @ [digit_char (n mod 10)])"

declare dec_string.simps [simp del]

text \<open>\<open>{n:0w}\<close>: at least \<open>w\<close> digits, padded with zeros on the left.\<close>

definition zero_padded :: "nat \<Rightarrow> nat \<Rightarrow> string" where
  "zero_padded w n = (let s = dec_string n in replicate (w - length s) (digit_char 0) @ s)"

lemma of_char_digit_char: "d < 10 \<Longrightarrow> of_char (digit_char d) = 48 + (d :: nat)"
  by (simp add: digit_char_def)

lemma digit_value_digit_char [simp]: "d < 10 \<Longrightarrow> digit_value 10 (digit_char d) = Some d"
  by (simp add: digit_value_def of_char_digit_char)

lemma digit_char_not_plus: "d < 10 \<Longrightarrow> digit_char d \<noteq> CHR ''+''"
proof
  assume "d < 10" "digit_char d = CHR ''+''"
  then have "48 + d = (of_char CHR ''+'' :: nat)" using of_char_digit_char by metis
  then show False by simp
qed

lemma parse_digits_append:
  "parse_digits r acc (s @ t) =
     (case parse_digits r acc s of None \<Rightarrow> None | Some a \<Rightarrow> parse_digits r a t)"
  by (induction s arbitrary: acc) (auto split: option.splits)

lemma dec_string_not_Nil [simp]: "dec_string n \<noteq> []"
  by (subst dec_string.simps) simp

lemma dec_string_digits: "c \<in> set (dec_string n) \<Longrightarrow> \<exists>d < 10. c = digit_char d"
proof (induction n rule: dec_string.induct)
  case (1 n)
  show ?case
  proof (cases "n < 10")
    case True
    with 1 show ?thesis by (auto simp: dec_string.simps [of n])
  next
    case False
    note IH = 1(1) [OF False]
    from False 1(2) consider (high) "c \<in> set (dec_string (n div 10))" | (low) "c = digit_char (n mod 10)"
      by (auto simp: dec_string.simps [of n])
    then show ?thesis
    proof cases
      case high
      then show ?thesis by (rule IH)
    next
      case low
      then show ?thesis by (intro exI [of _ "n mod 10"]) simp
    qed
  qed
qed

lemma parse_digits_dec_string: "parse_digits 10 0 (dec_string n) = Some n"
proof (induction n rule: dec_string.induct)
  case (1 n)
  show ?case
  proof (cases "n < 10")
    case True
    then show ?thesis by (simp add: dec_string.simps [of n])
  next
    case False
    with 1 have "parse_digits 10 0 (dec_string (n div 10)) = Some (n div 10)" by simp
    with False show ?thesis by (simp add: dec_string.simps [of n] parse_digits_append)
  qed
qed

lemma dec_string_no_sign: "dec_string n = c # r \<Longrightarrow> c \<noteq> CHR ''+''"
  using dec_string_digits [of c n] digit_char_not_plus by auto

lemma parse_digits_replicate_zero: "parse_digits 10 0 (replicate k (digit_char 0) @ s) = parse_digits 10 0 s"
  by (induction k) auto

lemma parse_unsigned_dec_string [simp]:
  "n < b \<Longrightarrow> parse_unsigned 10 b (dec_string n) = Some n"
proof (cases "dec_string n")
  case Nil
  then show ?thesis by simp
next
  case (Cons c r)
  assume n: "n < b"
  from Cons have "c \<noteq> CHR ''+''" by (rule dec_string_no_sign)
  with Cons n show ?thesis
    using parse_digits_dec_string [of n] by (simp add: parse_unsigned_def)
qed

lemma parse_unsigned_zero_padded:
  "n < b \<Longrightarrow> parse_unsigned 10 b (zero_padded w n) = Some n"
proof (cases "w - length (dec_string n)")
  case 0
  moreover assume "n < b"
  ultimately show ?thesis by (simp add: zero_padded_def)
next
  case (Suc k)
  assume n: "n < b"
  have z: "zero_padded w n = digit_char 0 # replicate k (digit_char 0) @ dec_string n"
    using Suc by (simp add: zero_padded_def)
  have "parse_digits 10 0 (zero_padded w n) = Some n"
    using parse_digits_replicate_zero [of "Suc k" "dec_string n"]
    by (simp add: z parse_digits_dec_string)
  with n show ?thesis
    using digit_char_not_plus [of 0] by (simp add: parse_unsigned_def z)
qed

lemma parse_u32_roundtrip [simp]: "parse_u32 (dec_string (unat w)) = Some w"
  using unat_u32_less [of w] by (simp add: parse_u32_def)

lemma parse_u64_roundtrip [simp]: "parse_u64 (dec_string (unat w)) = Some w"
  using unat_u64_less [of w] by (simp add: parse_u64_def)

lemma parse_u8_roundtrip [simp]: "parse_u8 (dec_string (unat w)) = Some w"
  using unat_u8_less [of w] by (simp add: parse_u8_def)

lemma length_dec_string_le: "n < 10 ^ k \<Longrightarrow> 0 < k \<Longrightarrow> length (dec_string n) \<le> k"
proof (induction n arbitrary: k rule: dec_string.induct)
  case (1 n)
  show ?case
  proof (cases "n < 10")
    case True
    with 1 show ?thesis by (simp add: dec_string.simps [of n])
  next
    case False
    with "1.prems" obtain j where k: "k = Suc j" "0 < j"
      by (cases k; cases "k = 1") auto
    with False 1 have "length (dec_string (n div 10)) \<le> j" by (simp add: less_mult_imp_div_less)
    with False k show ?thesis by (simp add: dec_string.simps [of n])
  qed
qed

lemma length_zero_padded: "n < 10 ^ w \<Longrightarrow> 0 < w \<Longrightarrow> length (zero_padded w n) = w"
  using length_dec_string_le [of n w] by (simp add: zero_padded_def Let_def)

section \<open>Trimming\<close>

text \<open>The UTF-8 encodings of the characters with the Unicode property \<open>White_Space\<close>, which
  \<open>str::trim\<close> removes at both ends.\<close>

definition white_space :: "string list" where
  "white_space =
     [[CHR 0x09], [CHR 0x0A], [CHR 0x0B], [CHR 0x0C], [CHR 0x0D], [CHR 0x20],
      [CHR 0xC2, CHR 0x85], [CHR 0xC2, CHR 0xA0], [CHR 0xE1, CHR 0x9A, CHR 0x80],
      [CHR 0xE2, CHR 0x80, CHR 0x80], [CHR 0xE2, CHR 0x80, CHR 0x81],
      [CHR 0xE2, CHR 0x80, CHR 0x82], [CHR 0xE2, CHR 0x80, CHR 0x83],
      [CHR 0xE2, CHR 0x80, CHR 0x84], [CHR 0xE2, CHR 0x80, CHR 0x85],
      [CHR 0xE2, CHR 0x80, CHR 0x86], [CHR 0xE2, CHR 0x80, CHR 0x87],
      [CHR 0xE2, CHR 0x80, CHR 0x88], [CHR 0xE2, CHR 0x80, CHR 0x89],
      [CHR 0xE2, CHR 0x80, CHR 0x8A], [CHR 0xE2, CHR 0x80, CHR 0xA8],
      [CHR 0xE2, CHR 0x80, CHR 0xA9], [CHR 0xE2, CHR 0x80, CHR 0xAF],
      [CHR 0xE2, CHR 0x81, CHR 0x9F], [CHR 0xE3, CHR 0x80, CHR 0x80]]"

definition find_prefix :: "'c list list \<Rightarrow> 'c list \<Rightarrow> 'c list option" where
  "find_prefix ps s = List.find (\<lambda>p. p \<noteq> [] \<and> take (length p) s = p) ps"

lemma find_prefix_less: "find_prefix ps s = Some p \<Longrightarrow> length (drop (length p) s) < length s"
proof -
  assume "find_prefix ps s = Some p"
  then have "p \<noteq> [] \<and> take (length p) s = p" by (auto simp: find_prefix_def find_Some_iff)
  then show ?thesis by (cases s) auto
qed

function strip_all :: "'c list list \<Rightarrow> 'c list \<Rightarrow> 'c list" where
  "strip_all ps s =
     (case find_prefix ps s of None \<Rightarrow> s | Some p \<Rightarrow> strip_all ps (drop (length p) s))"
  by pat_completeness auto
termination
  by (relation "measure (\<lambda>(ps, s). length s)")
    (auto dest: find_prefix_less)

declare strip_all.simps [simp del]

definition trim :: "string \<Rightarrow> string" where
  "trim s = rev (strip_all (map rev white_space) (rev (strip_all white_space s)))"

lemma strip_all_suffix: "suffix (strip_all ps s) s"
proof (induction ps s rule: strip_all.induct)
  case (1 ps s)
  show ?case
  proof (cases "find_prefix ps s")
    case None
    then show ?thesis by (simp add: strip_all.simps [of ps s])
  next
    case (Some p)
    with 1 have "suffix (strip_all ps (drop (length p) s)) (drop (length p) s)" by simp
    with Some show ?thesis
      by (simp add: strip_all.simps [of ps s]) (rule suffix_order.trans [OF _ suffix_drop])
  qed
qed

lemma set_trim: "set (trim s) \<subseteq> set s"
proof -
  have "set (strip_all white_space s) \<subseteq> set s"
    by (rule set_mono_suffix [OF strip_all_suffix])
  moreover have "set (trim s) \<subseteq> set (strip_all white_space s)"
    using set_mono_suffix [OF strip_all_suffix, of "map rev white_space" "rev (strip_all white_space s)"]
    by (simp add: trim_def)
  ultimately show ?thesis by blast
qed

section \<open>UTF-8 validity\<close>

text \<open>\<open>std::str::from_utf8\<close> succeeds exactly on well-formed UTF-8: no overlong form, no surrogate,
  nothing above U+10FFFF.\<close>

definition utf8_cont :: "u8 \<Rightarrow> bool" where
  "utf8_cont b \<longleftrightarrow> 128 \<le> b \<and> b \<le> 191"

fun utf8_valid :: "bytes \<Rightarrow> bool" where
  "utf8_valid [] = True"
| "utf8_valid (b # bs) =
     (if b < 128 then utf8_valid bs
      else if 194 \<le> b \<and> b \<le> 223 then
        (case bs of c # r \<Rightarrow> utf8_cont c \<and> utf8_valid r | _ \<Rightarrow> False)
      else if 224 \<le> b \<and> b \<le> 239 then
        (case bs of
           c # d # r \<Rightarrow>
             (if b = 224 then 160 \<le> c \<and> c \<le> 191
              else if b = 237 then 128 \<le> c \<and> c \<le> 159
              else utf8_cont c) \<and> utf8_cont d \<and> utf8_valid r
         | _ \<Rightarrow> False)
      else if 240 \<le> b \<and> b \<le> 244 then
        (case bs of
           c # d # e # r \<Rightarrow>
             (if b = 240 then 144 \<le> c \<and> c \<le> 191
              else if b = 244 then 128 \<le> c \<and> c \<le> 143
              else utf8_cont c) \<and> utf8_cont d \<and> utf8_cont e \<and> utf8_valid r
         | _ \<Rightarrow> False)
      else False)"

lemma utf8_valid_ascii: "\<forall>b \<in> set bs. b < 128 \<Longrightarrow> utf8_valid bs"
  by (induction bs) auto

end
