(* ===== verification/Meta.thy ===== *)
theory Meta
  imports Footer BTree_Map RustText
begin

text \<open>
  Object metadata v1 (\<open>v1/meta.rs\<close>): the \<open>s3a-*\<close> user metadata of an encrypted object and the sealed
  MD5. The crate \<open>base64\<close> is the parameter \<open>codec\<close>, an encoder and a decoder with \<open>codec_ok\<close>.
\<close>

section \<open>Text codecs\<close>

record codec =
  encode_text :: "bytes \<Rightarrow> string"
  decode_text :: "string \<Rightarrow> bytes option"

definition codec_ok :: "codec \<Rightarrow> bool" where
  "codec_ok B \<longleftrightarrow> (\<forall>b. decode_text B (encode_text B b) = Some b)"

section \<open>Keys and kinds\<close>

definition KEY_VERSION :: string where "KEY_VERSION = ''s3a-v''"
definition KEY_ALG :: string where "KEY_ALG = ''s3a-alg''"
definition KEY_KEK :: string where "KEY_KEK = ''s3a-kek''"
definition KEY_KID :: string where "KEY_KID = ''s3a-kid''"
definition KEY_DEK :: string where "KEY_DEK = ''s3a-dek''"
definition KEY_CHUNK :: string where "KEY_CHUNK = ''s3a-chunk''"
definition KEY_MP :: string where "KEY_MP = ''s3a-mp''"
definition KEY_EMD5 :: string where "KEY_EMD5 = ''s3a-emd5''"

definition MIN_CHUNK_SIZE :: u32 where "MIN_CHUNK_SIZE = 65536"
definition MAX_CHUNK_SIZE :: u32 where "MAX_CHUNK_SIZE = 8388608"

datatype kek = Aes | Rsa

definition kek_as_str :: "kek \<Rightarrow> string" where
  "kek_as_str k = (case k of Aes \<Rightarrow> ''aes'' | Rsa \<Rightarrow> ''rsa'')"

definition kek_parse :: "string \<Rightarrow> error + kek" where
  "kek_parse s = (if s = ''aes'' then Inr Aes else if s = ''rsa'' then Inr Rsa
                  else Inl (InvalidMetadata KEY_KEK s))"

record object_meta =
  m_alg :: alg
  m_kek :: kek
  m_kid :: string
  m_wrapped_dek :: bytes
  m_chunk_size :: u32
  m_multipart :: bool
  m_emd5 :: "bytes option"

section \<open>The sealed MD5\<close>

definition EMD5_PART_NUMBER :: u32 where "EMD5_PART_NUMBER = 4294967295"
definition EMD5_CHUNK_INDEX :: u64 where "EMD5_CHUNK_INDEX = 1"

definition seal_emd5 :: "aead \<Rightarrow> entropy \<Rightarrow> alg \<Rightarrow> bytes \<Rightarrow> bytes \<Rightarrow> bytes \<times> entropy" where
  "seal_emd5 A g alg key md5 = seal_frame A g alg key EMD5_PART_NUMBER EMD5_CHUNK_INDEX True md5"

definition open_emd5 :: "aead \<Rightarrow> alg \<Rightarrow> bytes \<Rightarrow> bytes \<Rightarrow> error + bytes" where
  "open_emd5 A alg key sealed =
     rbind (open_frame A alg key EMD5_PART_NUMBER EMD5_CHUNK_INDEX True sealed) (\<lambda>pt.
       if length pt = 16 then Inr pt
       else Inl (InvalidMetadata KEY_EMD5 ''wrong length after decrypt''))"

section \<open>The metadata map\<close>

type_synonym meta_map = "(string, string) btree"

definition meta_get :: "meta_map \<Rightarrow> string \<Rightarrow> error + string" where
  "meta_get m key = ok_or (bt_get m key) (MissingMetadata key)"

definition to_map :: "codec \<Rightarrow> object_meta \<Rightarrow> meta_map" where
  "to_map B om =
     (let m = bt_insert KEY_VERSION ''1'' [];
          m = bt_insert KEY_ALG (dec_string (unat (alg_id (m_alg om)))) m;
          m = bt_insert KEY_KEK (kek_as_str (m_kek om)) m;
          m = bt_insert KEY_KID (m_kid om) m;
          m = bt_insert KEY_DEK (encode_text B (m_wrapped_dek om)) m;
          m = bt_insert KEY_CHUNK (dec_string (unat (m_chunk_size om))) m;
          m = (if m_multipart om then bt_insert KEY_MP ''1'' m else m)
      in case m_emd5 om of Some e \<Rightarrow> bt_insert KEY_EMD5 (encode_text B e) m | None \<Rightarrow> m)"

definition chunk_size_ok :: "u32 \<Rightarrow> bool" where
  "chunk_size_ok n \<longleftrightarrow> MIN_CHUNK_SIZE \<le> n \<and> n \<le> MAX_CHUNK_SIZE"

definition parse_chunk :: "string \<Rightarrow> error + u32" where
  "parse_chunk s =
     (case parse_u32 s of
        Some n \<Rightarrow> if chunk_size_ok n then Inr n else Inl (InvalidMetadata KEY_CHUNK s)
      | None \<Rightarrow> Inl (InvalidMetadata KEY_CHUNK s))"

definition parse_emd5 :: "codec \<Rightarrow> string option \<Rightarrow> error + bytes option" where
  "parse_emd5 B v =
     (case v of
        Some s \<Rightarrow> rbind (ok_or (decode_text B s) (InvalidMetadata KEY_EMD5 ''not valid base64''))
                    (\<lambda>e. Inr (Some e))
      | None \<Rightarrow> Inr None)"

definition from_map :: "codec \<Rightarrow> meta_map \<Rightarrow> error + object_meta" where
  "from_map B m =
     rbind (meta_get m KEY_VERSION) (\<lambda>version.
     if version \<noteq> ''1'' then
       Inl (UnknownVersion (case parse_u8 version of Some v \<Rightarrow> v | None \<Rightarrow> 0))
     else
     rbind (meta_get m KEY_ALG) (\<lambda>alg_str.
     rbind (ok_or (parse_u8 alg_str) (InvalidMetadata KEY_ALG alg_str)) (\<lambda>alg_id.
     rbind (from_id alg_id) (\<lambda>alg.
     rbind (rbind (meta_get m KEY_KEK) kek_parse) (\<lambda>kek.
     rbind (meta_get m KEY_KID) (\<lambda>kid.
     rbind (meta_get m KEY_DEK) (\<lambda>dek_str.
     rbind (ok_or (decode_text B dek_str) (InvalidMetadata KEY_DEK ''not valid base64'')) (\<lambda>wrapped_dek.
     rbind (meta_get m KEY_CHUNK) (\<lambda>chunk_str.
     rbind (parse_chunk chunk_str) (\<lambda>chunk_size.
     rbind (parse_emd5 B (bt_get m KEY_EMD5)) (\<lambda>emd5.
     Inr \<lparr> m_alg = alg, m_kek = kek, m_kid = kid, m_wrapped_dek = wrapped_dek,
           m_chunk_size = chunk_size, m_multipart = (bt_get m KEY_MP = Some ''1''),
           m_emd5 = emd5 \<rparr>)))))))))))"

section \<open>Round trip\<close>

lemmas meta_keys = KEY_VERSION_def KEY_ALG_def KEY_KEK_def KEY_KID_def KEY_DEK_def KEY_CHUNK_def
  KEY_MP_def KEY_EMD5_def

lemma to_map_get:
  "bt_get (to_map B om) KEY_VERSION = Some ''1''"
  "bt_get (to_map B om) KEY_ALG = Some (dec_string (unat (alg_id (m_alg om))))"
  "bt_get (to_map B om) KEY_KEK = Some (kek_as_str (m_kek om))"
  "bt_get (to_map B om) KEY_KID = Some (m_kid om)"
  "bt_get (to_map B om) KEY_DEK = Some (encode_text B (m_wrapped_dek om))"
  "bt_get (to_map B om) KEY_CHUNK = Some (dec_string (unat (m_chunk_size om)))"
  "bt_get (to_map B om) KEY_MP = (if m_multipart om then Some ''1'' else None)"
  "bt_get (to_map B om) KEY_EMD5 = map_option (encode_text B) (m_emd5 om)"
  by (simp_all add: to_map_def Let_def meta_keys split: option.splits)

lemma bt_ok_to_map: "bt_ok (to_map B om)"
  by (simp add: to_map_def Let_def split: option.splits)

definition s3a_keys :: "string set" where
  "s3a_keys = {KEY_VERSION, KEY_ALG, KEY_KEK, KEY_KID, KEY_DEK, KEY_CHUNK, KEY_MP, KEY_EMD5}"

lemma kek_parse_as_str [simp]: "kek_parse (kek_as_str k) = Inr k"
  by (cases k) (simp_all add: kek_parse_def kek_as_str_def)

lemma from_map_to_map:
  assumes "codec_ok B" "chunk_size_ok (m_chunk_size om)"
    and "\<And>k. k \<in> s3a_keys \<Longrightarrow> bt_get m k = bt_get (to_map B om) k"
  shows "from_map B m = Inr om"
proof -
  note get = assms(3) [unfolded s3a_keys_def] to_map_get
  have "parse_emd5 B (bt_get m KEY_EMD5) = Inr (m_emd5 om)"
    using assms(1) by (cases "m_emd5 om") (simp_all add: parse_emd5_def get codec_ok_def)
  then show ?thesis
    using assms(1,2)
    by (simp add: from_map_def meta_get_def get codec_ok_def parse_chunk_def)
qed

lemma parse_chunk_ok: "parse_chunk s = Inr n \<Longrightarrow> chunk_size_ok n"
  by (auto simp: parse_chunk_def split: option.splits if_splits)

lemma from_map_chunk_bounds:
  assumes "from_map B m = Inr om"
  shows "chunk_size_ok (m_chunk_size om)"
proof -
  from assms obtain s where "parse_chunk s = Inr (m_chunk_size om)"
    by (auto simp: from_map_def result_simps split: if_splits)
  then show ?thesis by (rule parse_chunk_ok)
qed

lemma open_emd5_seal_emd5:
  "aead_correct A \<Longrightarrow> length md5 = 16 \<Longrightarrow> open_emd5 A alg key (fst (seal_emd5 A g alg key md5)) = Inr md5"
  by (simp add: open_emd5_def seal_emd5_def open_frame_seal_frame)

section \<open>Properties\<close>

text \<open>C33. Metadata round-trips: any stored map that agrees with \<open>to_map\<close> on the eight \<open>s3a-*\<close> keys,
  whatever else the client stored beside them, parses back to the same metadata, provided the
  chunk size is within the bounds; and every metadata that parses has a chunk size within them.\<close>

theorem metadata_roundtrip:
  assumes "codec_ok B" "chunk_size_ok (m_chunk_size om)"
    and "\<forall>k \<in> s3a_keys. bt_get m k = bt_get (to_map B om) k"
  shows "from_map B m = Inr om \<and> (\<forall>m' om'. from_map B m' = Inr om' \<longrightarrow>
    65536 \<le> unat (m_chunk_size om') \<and> unat (m_chunk_size om') \<le> 8388608)"
  using from_map_to_map [OF assms(1,2)] assms(3) from_map_chunk_bounds
  by (fastforce simp: chunk_size_ok_def MIN_CHUNK_SIZE_def MAX_CHUNK_SIZE_def word_le_nat_alt)

definition sample_codec :: codec where
  "sample_codec = \<lparr> encode_text = bytes_str, decode_text = (\<lambda>s. Some (str_bytes s)) \<rparr>"

lemma sample_codec_ok: "codec_ok sample_codec"
  by (simp add: codec_ok_def sample_codec_def)

definition sample_meta :: object_meta where
  "sample_meta = \<lparr> m_alg = Aes256Gcm, m_kek = Aes, m_kid = ''00aa'', m_wrapped_dek = [1, 2],
     m_chunk_size = 65536, m_multipart = True, m_emd5 = Some [7] \<rparr>"

theorem metadata_roundtrip_witness:
  "from_map sample_codec (bt_insert ''color'' ''red'' (to_map sample_codec sample_meta)) = Inr sample_meta"
  by (rule metadata_roundtrip [THEN conjunct1])
    (simp_all add: sample_codec_ok sample_meta_def chunk_size_ok_def MIN_CHUNK_SIZE_def
      MAX_CHUNK_SIZE_def word_le_nat_alt s3a_keys_def meta_keys)

end
