(* ===== verification/Wrap.thy ===== *)
theory Wrap
  imports Meta
begin

text \<open>
  DEK wrapping and key ids (\<open>v1/wrap.rs\<close>). The crates \<open>hkdf\<close>, \<open>sha2\<close>, \<open>hmac\<close>, \<open>hex\<close> and \<open>rsa\<close> are, with the
  AEAD, the parameter \<open>crypto\<close>. RSA keys are opaque to the program: they are the \<open>bytes\<close> of whatever
  representation the crate uses. \<open>zeroize\<close> has no effect on values and is left out.
\<close>

section \<open>Primitives\<close>

record crypto =
  c_aead :: aead
  hkdf_sha256 :: "bytes \<Rightarrow> bytes \<Rightarrow> nat \<Rightarrow> bytes"
  sha256 :: "bytes \<Rightarrow> bytes"
  hmac_sha256 :: "bytes \<Rightarrow> bytes \<Rightarrow> bytes"
  hex_encode :: "bytes \<Rightarrow> string"
  rsa_public_of :: "bytes \<Rightarrow> bytes"
  rsa_encrypt :: "bytes \<Rightarrow> entropy \<Rightarrow> string option \<Rightarrow> bytes \<Rightarrow> (bytes \<times> entropy) option"
  rsa_decrypt :: "bytes \<Rightarrow> string option \<Rightarrow> bytes \<Rightarrow> bytes option"
  rsa_size :: "bytes \<Rightarrow> nat"
  rsa_from_pkcs8_pem :: "string \<Rightarrow> bytes option"
  rsa_from_public_pem :: "string \<Rightarrow> bytes option"
  rsa_to_public_pem :: "bytes \<Rightarrow> string option"
  rsa_to_public_der :: "bytes \<Rightarrow> bytes option"

text \<open>Decryption inverts encryption under the same label; HKDF returns what was asked for.\<close>

definition rsa_correct :: "crypto \<Rightarrow> bool" where
  "rsa_correct C \<longleftrightarrow> (\<forall>k g g' label m c.
     rsa_encrypt C (rsa_public_of C k) g label m = Some (c, g') \<longrightarrow> rsa_decrypt C k label c = Some m)"

definition hex_text :: "crypto \<Rightarrow> bool" where
  "hex_text C \<longleftrightarrow> (\<forall>b. length (hex_encode C b) = 2 * length b \<and> 0 \<notin> set (str_bytes (hex_encode C b)))"

definition hkdf_length :: "crypto \<Rightarrow> bool" where
  "hkdf_length C \<longleftrightarrow> (\<forall>k info n. n \<le> 255 * 32 \<longrightarrow> length (hkdf_sha256 C k info n) = n)"

section \<open>Path binding\<close>

definition path_binding :: "bytes \<Rightarrow> bytes \<Rightarrow> bytes" where
  "path_binding bucket key = bucket @ [0] @ key"

definition wrap_aad :: "string \<Rightarrow> bytes \<Rightarrow> bytes" where
  "wrap_aad kid binding =
     str_bytes ''s3a1-kek'' @ str_bytes kid @ (if binding \<noteq> [] then [0] @ binding else [])"

section \<open>The AES master key\<close>

datatype master_key = MasterKey bytes

primrec key_bytes :: "master_key \<Rightarrow> bytes" where
  "key_bytes (MasterKey b) = b"

definition MasterKey_kek :: "crypto \<Rightarrow> master_key \<Rightarrow> bytes" where
  "MasterKey_kek C k = hkdf_sha256 C (key_bytes k) (str_bytes ''s3a/v1/kek'') 32"

definition MasterKey_key_id :: "crypto \<Rightarrow> master_key \<Rightarrow> string" where
  "MasterKey_key_id C k = hex_encode C (take 8 (hkdf_sha256 C (key_bytes k) (str_bytes ''s3a/v1/kid'') 32))"

definition MasterKey_wrap ::
  "crypto \<Rightarrow> entropy \<Rightarrow> master_key \<Rightarrow> bytes \<Rightarrow> bytes \<Rightarrow> bytes \<times> entropy" where
  "MasterKey_wrap C g k dek binding =
     (let (nonce, g') = fill_bytes g (nonce_len Aes256Gcm);
          aad = wrap_aad (MasterKey_key_id C k) binding;
          ct = aead_encrypt (c_aead C) Aes256Gcm (MasterKey_kek C k) nonce aad dek
      in (nonce @ ct, g'))"

definition MasterKey_unwrap :: "crypto \<Rightarrow> master_key \<Rightarrow> bytes \<Rightarrow> bytes \<Rightarrow> error + bytes" where
  "MasterKey_unwrap C k wrapped binding =
     (if length wrapped < 12 + TAG_LEN then Inl UnwrapFailed
      else
        let nonce = take 12 wrapped; ct = drop 12 wrapped;
            aad = wrap_aad (MasterKey_key_id C k) binding
        in rbind (ok_or (aead_decrypt (c_aead C) Aes256Gcm (MasterKey_kek C k) nonce aad ct) UnwrapFailed)
             (\<lambda>pt. if length pt = 32 then Inr pt else Inl UnwrapFailed))"

section \<open>The RSA key-encryption key\<close>

record rsa_kek =
  rsa_private :: "bytes option"
  rsa_public :: bytes

definition RsaKek_from_private :: "crypto \<Rightarrow> bytes \<Rightarrow> rsa_kek" where
  "RsaKek_from_private C key = \<lparr> rsa_private = Some key, rsa_public = rsa_public_of C key \<rparr>"

definition RsaKek_from_public :: "bytes \<Rightarrow> rsa_kek" where
  "RsaKek_from_public key = \<lparr> rsa_private = None, rsa_public = key \<rparr>"

definition RsaKek_from_private_pem :: "crypto \<Rightarrow> string \<Rightarrow> error + rsa_kek" where
  "RsaKek_from_private_pem C pem =
     rbind (ok_or (rsa_from_pkcs8_pem C (trim pem)) UnwrapFailed) (\<lambda>k. Inr (RsaKek_from_private C k))"

definition RsaKek_from_public_pem :: "crypto \<Rightarrow> string \<Rightarrow> error + rsa_kek" where
  "RsaKek_from_public_pem C pem =
     rbind (ok_or (rsa_from_public_pem C (trim pem)) UnwrapFailed) (\<lambda>k. Inr (RsaKek_from_public k))"

definition RsaKek_public_pem :: "crypto \<Rightarrow> rsa_kek \<Rightarrow> error + string" where
  "RsaKek_public_pem C r = ok_or (rsa_to_public_pem C (rsa_public r)) UnwrapFailed"

definition RsaKek_can_read :: "rsa_kek \<Rightarrow> bool" where
  "RsaKek_can_read r \<longleftrightarrow> rsa_private r \<noteq> None"

definition RsaKek_modulus_bits :: "crypto \<Rightarrow> rsa_kek \<Rightarrow> nat" where
  "RsaKek_modulus_bits C r = rsa_size C (rsa_public r) * 8"

definition RsaKek_key_id :: "crypto \<Rightarrow> rsa_kek \<Rightarrow> error + string" where
  "RsaKek_key_id C r =
     rbind (ok_or (rsa_to_public_der C (rsa_public r)) UnwrapFailed)
       (\<lambda>der. Inr (hex_encode C (take 8 (sha256 C der))))"

definition oaep_label :: "crypto \<Rightarrow> bytes \<Rightarrow> string option" where
  "oaep_label C binding = (if binding = [] then None else Some (hex_encode C (sha256 C binding)))"

definition RsaKek_wrap ::
  "crypto \<Rightarrow> entropy \<Rightarrow> rsa_kek \<Rightarrow> bytes \<Rightarrow> bytes \<Rightarrow> error + (bytes \<times> entropy)" where
  "RsaKek_wrap C g r dek binding = ok_or (rsa_encrypt C (rsa_public r) g (oaep_label C binding) dek) UnwrapFailed"

definition RsaKek_unwrap :: "crypto \<Rightarrow> rsa_kek \<Rightarrow> bytes \<Rightarrow> bytes \<Rightarrow> error + bytes" where
  "RsaKek_unwrap C r wrapped binding =
     rbind (ok_or (rsa_private r) KeyNotAvailable) (\<lambda>private.
     rbind (ok_or (rsa_decrypt C private (oaep_label C binding) wrapped) UnwrapFailed) (\<lambda>pt.
       if length pt = 32 then Inr pt else Inl UnwrapFailed))"

section \<open>Laws\<close>

lemma path_binding_not_Nil [simp]: "path_binding b k \<noteq> []"
  by (simp add: path_binding_def)

lemma path_binding_inj:
  assumes "0 \<notin> set b" "0 \<notin> set b'"
  shows "path_binding b k = path_binding b' k' \<longleftrightarrow> b = b' \<and> k = k'"
proof
  assume "path_binding b k = path_binding b' k'"
  then have "split_once 0 (b @ 0 # k) = split_once 0 (b' @ 0 # k')" by (simp add: path_binding_def)
  with assms show "b = b' \<and> k = k'" by (simp add: split_once_append)
qed simp

lemma wrap_aad_inj:
  assumes "length kid = length kid'"
  shows "wrap_aad kid b = wrap_aad kid' b' \<longleftrightarrow> kid = kid' \<and> b = b'"
  using assms by (auto simp: wrap_aad_def append_eq_append_conv)

lemma MasterKey_unwrap_wrap:
  assumes "aead_correct (c_aead C)" "length dek = 32"
  shows "MasterKey_unwrap C k (fst (MasterKey_wrap C g k dek b)) b = Inr dek"
  using assms
  by (simp add: MasterKey_unwrap_def MasterKey_wrap_def fill_bytes_def nonce_len_def TAG_LEN_def
      aead_correct_def)

text \<open>What unwraps was wrapped with the same key and the same binding.\<close>

lemma MasterKey_unwrap_only_wrapped:
  assumes "aead_tidy (c_aead C)" "MasterKey_unwrap C k w b = Inr dek"
  shows "length dek = 32 \<and> (\<exists>g. w = fst (MasterKey_wrap C g k dek b))"
proof -
  have len: "length (take 12 w) = 12" "length dek = 32"
    and dec: "aead_decrypt (c_aead C) Aes256Gcm (MasterKey_kek C k) (take 12 w)
      (wrap_aad (MasterKey_key_id C k) b) (drop 12 w) = Some dek"
    using assms(2) by (auto simp: MasterKey_unwrap_def Let_def result_simps split: if_splits)
  with assms(1) have "drop 12 w = aead_encrypt (c_aead C) Aes256Gcm (MasterKey_kek C k) (take 12 w)
      (wrap_aad (MasterKey_key_id C k) b) dek"
    by (simp add: aead_tidy_def nonce_len_def)
  then have "w = fst (MasterKey_wrap C (supply_of (take 12 w) (\<lambda>_. 0)) k dek b)"
    using fill_bytes_supply_len [OF len(1), of "\<lambda>_. 0"]
    by (simp add: MasterKey_wrap_def nonce_len_def) (metis append_take_drop_id)
  with len show ?thesis by blast
qed

lemma RsaKek_unwrap_wrap:
  assumes "rsa_correct C" "rsa_private r = Some k" "rsa_public r = rsa_public_of C k" "length dek = 32"
    and "RsaKek_wrap C g r dek b = Inr (w, g')"
  shows "RsaKek_unwrap C r w b = Inr dek"
  using assms by (auto simp: RsaKek_unwrap_def RsaKek_wrap_def rsa_correct_def)

section \<open>Properties\<close>

text \<open>C21. The wrap is bound to the object's path. For buckets without a NUL byte (S3 allows none)
  different bucket/key pairs have different associated data, all different from the unbound one; a
  wrapped key unwraps under the binding it was wrapped with; and whatever unwraps under a binding
  was wrapped under exactly that binding with that master key.\<close>

theorem wrap_bound_to_path:
  assumes "aead_correct (c_aead C)" "aead_tidy (c_aead C)" "0 \<notin> set b" "0 \<notin> set b'"
  shows "(wrap_aad kid (path_binding b k) = wrap_aad kid (path_binding b' k') \<longleftrightarrow> b = b' \<and> k = k') \<and>
    wrap_aad kid (path_binding b k) \<noteq> wrap_aad kid [] \<and>
    (MasterKey_unwrap C mk w binding = Inr dek \<longleftrightarrow>
       length dek = 32 \<and> (\<exists>g. w = fst (MasterKey_wrap C g mk dek binding)))"
  using path_binding_inj [OF assms(3,4)] MasterKey_unwrap_only_wrapped [OF assms(2)]
    MasterKey_unwrap_wrap [OF assms(1)] by (auto simp: wrap_aad_inj)

definition sample_crypto :: crypto where
  "sample_crypto = \<lparr> c_aead = sample_aead,
     hkdf_sha256 = (\<lambda>k info n. take n (k @ info @ replicate n 0)),
     sha256 = (\<lambda>b. take 32 (b @ replicate 32 0)),
     hmac_sha256 = (\<lambda>k b. take 32 (k @ b @ replicate 32 0)),
     hex_encode = (\<lambda>b. concat (map (\<lambda>x. [char_of (97 + unat x div 16), char_of (97 + unat x mod 16)]) b)),
     rsa_public_of = (\<lambda>k. k),
     rsa_encrypt = (\<lambda>k g label m. Some (m, g)),
     rsa_decrypt = (\<lambda>k label c. Some c),
     rsa_size = length,
     rsa_from_pkcs8_pem = (\<lambda>s. Some (str_bytes s)),
     rsa_from_public_pem = (\<lambda>s. Some (str_bytes s)),
     rsa_to_public_pem = (\<lambda>k. Some (bytes_str k)),
     rsa_to_public_der = (\<lambda>k. Some k) \<rparr>"

lemma sample_crypto_aead [simp]: "c_aead sample_crypto = sample_aead"
  by (simp add: sample_crypto_def)

lemma sample_crypto_rsa: "rsa_correct sample_crypto"
  by (simp add: rsa_correct_def sample_crypto_def)

theorem wrap_bound_witness:
  "(wrap_aad ''00'' (path_binding [98] [97, 0]) = wrap_aad ''00'' (path_binding [98, 97] [0]) \<longleftrightarrow>
      [98] = [98, 97 :: u8] \<and> [97, 0] = [0 :: u8]) \<and>
    wrap_aad ''00'' (path_binding [98] [97, 0]) \<noteq> wrap_aad ''00'' [] \<and>
    (MasterKey_unwrap sample_crypto (MasterKey [1]) (fst (MasterKey_wrap sample_crypto (\<lambda>i. 0) (MasterKey [1]) (replicate 32 5) [7])) [7]
        = Inr (replicate 32 5) \<longleftrightarrow>
       length (replicate 32 (5 :: u8)) = 32 \<and>
       (\<exists>g. fst (MasterKey_wrap sample_crypto (\<lambda>i. 0) (MasterKey [1]) (replicate 32 5) [7])
          = fst (MasterKey_wrap sample_crypto g (MasterKey [1]) (replicate 32 5) [7])))"
  by (rule wrap_bound_to_path) (simp_all add: sample_aead_correct sample_aead_tidy)

end
