(* ===== verification/Keyring.thy ===== *)
theory Keyring
  imports Wrap
begin

text \<open>
  The keyring (\<open>s3armor/src/keys.rs\<close>): AES master keys by key id, an optional RSA key, and the key
  that new writes use. The two \<open>expect\<close> calls of \<open>wrap_active\<close> are the value \<open>None\<close>.
\<close>

definition RSA_ACTIVE_NAME :: string where
  "RSA_ACTIVE_NAME = ''RSA''"

datatype capability = ReadWrite | WriteOnly

record keyring =
  kr_active_kid :: string
  kr_active_is_rsa :: bool
  kr_by_kid :: "(string, master_key) btree"
  kr_rsa :: "rsa_kek option"

definition Keyring_new ::
  "crypto \<Rightarrow> string \<Rightarrow> (string, master_key) btree \<Rightarrow> rsa_kek option \<Rightarrow> keyring option" where
  "Keyring_new C active_name named rsa =
     (let active =
        (if active_name = RSA_ACTIVE_NAME then
           (case rsa of None \<Rightarrow> None | Some r \<Rightarrow> map_option (\<lambda>kid. (kid, True)) (ok (RsaKek_key_id C r)))
         else map_option (\<lambda>k. (MasterKey_key_id C k, False)) (bt_get named active_name))
      in map_option (\<lambda>(active_kid, active_is_rsa).
           \<lparr> kr_active_kid = active_kid, kr_active_is_rsa = active_is_rsa,
             kr_by_kid = bt_from_list (map (\<lambda>(_, k). (MasterKey_key_id C k, k)) named),
             kr_rsa = rsa \<rparr>) active)"

definition Keyring_capability :: "keyring \<Rightarrow> capability" where
  "Keyring_capability kr =
     (if kr_active_is_rsa kr \<and> (case kr_rsa kr of Some r \<Rightarrow> \<not> RsaKek_can_read r | None \<Rightarrow> False)
      then WriteOnly else ReadWrite)"

definition wrap_active ::
  "crypto \<Rightarrow> entropy \<Rightarrow> keyring \<Rightarrow> bytes \<Rightarrow> bytes \<Rightarrow> (error + ((kek \<times> string \<times> bytes) \<times> entropy)) option" where
  "wrap_active C g kr dek binding =
     (if kr_active_is_rsa kr then
        map_option (\<lambda>rsa. rbind (RsaKek_wrap C g rsa dek binding)
                      (\<lambda>(wrapped, g'). Inr ((Rsa, kr_active_kid kr, wrapped), g')))
          (kr_rsa kr)
      else
        map_option (\<lambda>key. let (wrapped, g') = MasterKey_wrap C g key dek binding
                          in Inr ((Aes, kr_active_kid kr, wrapped), g'))
          (bt_get (kr_by_kid kr) (kr_active_kid kr)))"

definition Keyring_unwrap :: "crypto \<Rightarrow> keyring \<Rightarrow> kek \<Rightarrow> string \<Rightarrow> bytes \<Rightarrow> bytes \<Rightarrow> error + bytes" where
  "Keyring_unwrap C kr kek kid wrapped binding =
     (case kek of
        Aes \<Rightarrow> rbind (ok_or (bt_get (kr_by_kid kr) kid) KeyNotAvailable)
                 (\<lambda>key. MasterKey_unwrap C key wrapped binding)
      | Rsa \<Rightarrow> rbind (ok_or (kr_rsa kr) KeyNotAvailable) (\<lambda>rsa.
               rbind (RsaKek_key_id C rsa) (\<lambda>id.
                 if id \<noteq> kid then Inl KeyNotAvailable else RsaKek_unwrap C rsa wrapped binding)))"

section \<open>Invariant\<close>

text \<open>What \<open>new\<close> establishes: the active key is present under the active key id.\<close>

definition keyring_ok :: "crypto \<Rightarrow> keyring \<Rightarrow> bool" where
  "keyring_ok C kr \<longleftrightarrow>
     (if kr_active_is_rsa kr
      then \<exists>r. kr_rsa kr = Some r \<and> RsaKek_key_id C r = Inr (kr_active_kid kr)
      else bt_get (kr_by_kid kr) (kr_active_kid kr) \<noteq> None)"

text \<open>An RSA key whose private half, when present, matches the public half.\<close>

definition rsa_pair_ok :: "crypto \<Rightarrow> rsa_kek option \<Rightarrow> bool" where
  "rsa_pair_ok C rsa \<longleftrightarrow> (\<forall>r k. rsa = Some r \<longrightarrow> rsa_private r = Some k \<longrightarrow> rsa_public r = rsa_public_of C k)"

lemma rsa_pair_ok_from:
  "rsa_pair_ok C (Some (RsaKek_from_private C k))" "rsa_pair_ok C (Some (RsaKek_from_public p))"
  by (simp_all add: rsa_pair_ok_def RsaKek_from_private_def RsaKek_from_public_def)

lemma bt_get_from_list: "bt_get (bt_from_list kvs) k = map_of (rev kvs) k"
  using bt.get_fold [of kvs "[]" k] by (simp add: bt_from_list_def split: option.splits)

lemma Keyring_new_ok:
  assumes "Keyring_new C active named rsa = Some kr"
  shows "keyring_ok C kr" "kr_rsa kr = rsa"
proof -
  show "kr_rsa kr = rsa" using assms by (auto simp: Keyring_new_def Let_def)
  have "map_of (rev (map (\<lambda>(_, k). (MasterKey_key_id C k, k)) named)) (MasterKey_key_id C k) \<noteq> None"
    if "bt_get named active = Some k" for k
  proof -
    have "(active, k) \<in> set named" using that by (simp add: bt_get_def map_of_SomeD)
    then have "MasterKey_key_id C k \<in> fst ` set (rev (map (\<lambda>(_, k). (MasterKey_key_id C k, k)) named))" by force
    then show ?thesis by (simp only: map_of_eq_None_iff not_not simp_thms)
  qed
  then show "keyring_ok C kr"
    using assms
    by (auto simp: Keyring_new_def Let_def keyring_ok_def bt_get_from_list split: if_splits option.splits)
qed

lemma Keyring_unwrap_wrap:
  assumes "aead_correct (c_aead C)" "rsa_correct C" "keyring_ok C kr" "rsa_pair_ok C (kr_rsa kr)"
    and "length dek = 32" "wrap_active C g kr dek b = Some (Inr ((kek, kid, w), g'))"
  shows "Keyring_unwrap C kr kek kid w b =
    (if kek = Rsa \<and> Keyring_capability kr = WriteOnly then Inl KeyNotAvailable else Inr dek)"
proof (cases "kr_active_is_rsa kr")
  case True
  with assms(3) obtain r where r: "kr_rsa kr = Some r" "RsaKek_key_id C r = Inr (kr_active_kid kr)"
    by (auto simp: keyring_ok_def)
  with True assms(6) have w: "kek = Rsa" "kid = kr_active_kid kr" "RsaKek_wrap C g r dek b = Inr (w, g')"
    by (auto simp: wrap_active_def result_simps)
  show ?thesis
  proof (cases "rsa_private r")
    case None
    with True r w show ?thesis
      by (simp add: Keyring_unwrap_def Keyring_capability_def RsaKek_can_read_def RsaKek_unwrap_def)
  next
    case (Some k)
    with assms(4) r have "rsa_public r = rsa_public_of C k" by (simp add: rsa_pair_ok_def)
    from RsaKek_unwrap_wrap [OF assms(2) Some this assms(5) w(3)] Some True r w show ?thesis
      by (simp add: Keyring_unwrap_def Keyring_capability_def RsaKek_can_read_def)
  qed
next
  case False
  with assms(6) obtain key where "bt_get (kr_by_kid kr) kid = Some key" "kek = Aes"
    "w = fst (MasterKey_wrap C g key dek b)"
    by (auto simp: wrap_active_def case_prod_beta)
  with MasterKey_unwrap_wrap [OF assms(1,5)] show ?thesis by (simp add: Keyring_unwrap_def)
qed

section \<open>Properties\<close>

text \<open>C22. A keyring that \<open>new\<close> accepted never panics when it wraps. What it wraps under any binding
  it unwraps again under the same binding, except on a write-only node (an RSA public key alone),
  where unwrapping answers \<open>KeyNotAvailable\<close>.\<close>

theorem keyring_wrap_unwrap:
  assumes "aead_correct (c_aead C)" "rsa_correct C" "rsa_pair_ok C rsa"
    and "Keyring_new C active named rsa = Some kr" "length dek = 32"
  shows "wrap_active C g kr dek b \<noteq> None \<and>
    (\<forall>kek kid w g'. wrap_active C g kr dek b = Some (Inr ((kek, kid, w), g')) \<longrightarrow>
       kid = kr_active_kid kr \<and>
       Keyring_unwrap C kr kek kid w b =
         (if kek = Rsa \<and> Keyring_capability kr = WriteOnly then Inl KeyNotAvailable else Inr dek))"
proof -
  note ok = Keyring_new_ok [OF assms(4)]
  have "wrap_active C g kr dek b \<noteq> None" using ok(1) by (auto simp: wrap_active_def keyring_ok_def)
  moreover have "kid = kr_active_kid kr" if "wrap_active C g kr dek b = Some (Inr ((kek, kid, w), g'))" for kek kid w g'
    using that by (auto simp: wrap_active_def case_prod_beta result_simps split: if_splits)
  ultimately show ?thesis
    using Keyring_unwrap_wrap [OF assms(1,2) ok(1) _ assms(5)] assms(3) ok(2) by auto
qed

definition sample_keyring :: keyring where
  "sample_keyring = the (Keyring_new sample_crypto ''A'' [(''A'', MasterKey [1]), (''B'', MasterKey [2])] None)"

theorem keyring_wrap_witness:
  "\<exists>kek kid w g'. wrap_active sample_crypto (\<lambda>i. 0) sample_keyring (replicate 32 5) [7] = Some (Inr ((kek, kid, w), g')) \<and>
     Keyring_unwrap sample_crypto sample_keyring kek kid w [7] = Inr (replicate 32 5)"
proof -
  have kr: "Keyring_new sample_crypto ''A'' [(''A'', MasterKey [1]), (''B'', MasterKey [2])] None = Some sample_keyring"
    by (simp add: sample_keyring_def Keyring_new_def RSA_ACTIVE_NAME_def bt_get_def)
  have pair: "rsa_pair_ok sample_crypto None" by (simp add: rsa_pair_ok_def)
  have "aead_correct (c_aead sample_crypto)" "length (replicate 32 (5 :: u8)) = 32"
    by (simp_all add: sample_aead_correct)
  note * = keyring_wrap_unwrap [OF this(1) sample_crypto_rsa pair kr this(2), of "\<lambda>i. 0" "[7]"]
  have no_rsa: "kr_rsa sample_keyring = None" "\<not> kr_active_is_rsa sample_keyring"
    by (simp_all add: sample_keyring_def Keyring_new_def RSA_ACTIVE_NAME_def bt_get_def)
  from conjunct1 [OF *] no_rsa obtain key where
    "bt_get (kr_by_kid sample_keyring) (kr_active_kid sample_keyring) = Some key"
    by (cases "bt_get (kr_by_kid sample_keyring) (kr_active_kid sample_keyring)") (simp_all add: wrap_active_def)
  then obtain kid w g' where
    w: "wrap_active sample_crypto (\<lambda>i. 0) sample_keyring (replicate 32 5) [7] = Some (Inr ((Aes, kid, w), g'))"
    using no_rsa
    by (cases "MasterKey_wrap sample_crypto (\<lambda>i. 0) key (replicate 32 5) [7]") (simp add: wrap_active_def)
  from conjunct2 [OF *, rule_format, OF w] have "Keyring_unwrap sample_crypto sample_keyring Aes kid w [7] = Inr (replicate 32 5)"
    by (auto split: if_splits)
  with w show ?thesis by blast
qed

end
