(* ===== verification/SigTime.thy ===== *)
theory SigTime
  imports RustText
begin

text \<open>
  \<open>X-Amz-Date\<close> timestamps (\<open>sigv4/time.rs\<close>). A \<open>SystemTime\<close> is the integer number of nanoseconds
  since the Unix epoch. The calendar arithmetic is on \<open>i64\<close> in the source; all values stay far inside
  that range (years of at most four digits), so \<open>int\<close> is exact. \<open>rust_div\<close> truncates towards zero.
\<close>

section \<open>The calendar\<close>

type_synonym system_time = int

definition rust_div :: "int \<Rightarrow> int \<Rightarrow> int" where
  "rust_div a b = (if a \<ge> 0 then a div b else - ((- a) div b))"

definition days_from_civil :: "int \<Rightarrow> nat \<Rightarrow> nat \<Rightarrow> int option" where
  "days_from_civil y0 m d =
     (if \<not> (1 \<le> m \<and> m \<le> 12) \<or> \<not> (1 \<le> d \<and> d \<le> 31) then None
      else
        let y = (if m \<le> 2 then y0 - 1 else y0);
            era = rust_div (if y \<ge> 0 then y else y - 399) 400;
            yoe = y - era * 400;
            mp = (int m + 9) mod 12;
            doy = rust_div (153 * mp + 2) 5 + int d - 1;
            doe = yoe * 365 + rust_div yoe 4 - rust_div yoe 100 + doy
        in Some (era * 146097 + doe - 719468))"

definition yoe_of :: "int \<Rightarrow> int" where
  "yoe_of doe = rust_div (doe - rust_div doe 1460 + rust_div doe 36524 - rust_div doe 146096) 365"

definition civil_from_days :: "int \<Rightarrow> int \<times> nat \<times> nat" where
  "civil_from_days z0 =
     (let z = z0 + 719468;
          era = rust_div (if z \<ge> 0 then z else z - 146096) 146097;
          doe = z - era * 146097;
          yoe = yoe_of doe;
          y = yoe + era * 400;
          doy = doe - (365 * yoe + rust_div yoe 4 - rust_div yoe 100);
          mp = rust_div (5 * doy + 2) 153;
          d = nat (doy - rust_div (153 * mp + 2) 5 + 1);
          m = nat (if mp < 10 then mp + 3 else mp - 9)
      in (if m \<le> 2 then y + 1 else y, m, d))"

section \<open>Timestamps\<close>

definition str_get :: "nat \<Rightarrow> nat \<Rightarrow> string \<Rightarrow> string" where
  "str_get a b s = take (b - a) (drop a s)"

definition digit_run :: "string \<Rightarrow> nat \<Rightarrow> nat \<Rightarrow> nat option" where
  "digit_run s a b = map_option unat (parse_u32 (str_get a b s))"

definition parse_amz_date :: "string \<Rightarrow> system_time option" where
  "parse_amz_date s =
     (if length s \<noteq> 16 \<or> s ! 8 \<noteq> CHR ''T'' \<or> s ! 15 \<noteq> CHR ''Z''
         \<or> \<not> list_all (\<lambda>c. of_char c < (128 :: nat)) s
      then None
      else case (digit_run s 0 4, digit_run s 4 6, digit_run s 6 8,
                 digit_run s 9 11, digit_run s 11 13, digit_run s 13 15) of
        (Some year, Some month, Some day, Some hour, Some mn, Some sec) \<Rightarrow>
          if hour > 23 \<or> mn > 59 \<or> sec > 60 then None
          else (case days_from_civil (int year) month day of
                  None \<Rightarrow> None
                | Some days \<Rightarrow>
                    if days < 0 then None
                    else Some ((days * 86400 + int hour * 3600 + int mn * 60 + int sec) * 1000000000))
      | _ \<Rightarrow> None)"

definition date8 :: "string \<Rightarrow> string" where
  "date8 amz_date =
     (if length amz_date < 8 \<or> (8 < length amz_date \<and> utf8_cont (char_byte (amz_date ! 8))) then []
      else take 8 amz_date)"

definition duration_since :: "system_time \<Rightarrow> system_time \<Rightarrow> int option" where
  "duration_since a b = (if b \<le> a then Some (a - b) else None)"

definition as_secs :: "int \<Rightarrow> int" where
  "as_secs d = d div 1000000000"

definition unwrap_or :: "'a option \<Rightarrow> 'a \<Rightarrow> 'a" where
  "unwrap_or x d = (case x of Some a \<Rightarrow> a | None \<Rightarrow> d)"

definition format_amz_date :: "system_time \<Rightarrow> string" where
  "format_amz_date now =
     (let secs = as_secs (unwrap_or (duration_since now 0) 0);
          days = secs div 86400;
          r = secs mod 86400;
          (y, m, d) = civil_from_days days
      in zero_padded 4 (nat y) @ zero_padded 2 m @ zero_padded 2 d @ ''T''
         @ zero_padded 2 (nat (r div 3600)) @ zero_padded 2 (nat (r mod 3600 div 60))
         @ zero_padded 2 (nat (r mod 60)) @ ''Z'')"

definition skew_seconds :: "system_time \<Rightarrow> system_time \<Rightarrow> int" where
  "skew_seconds now t =
     as_secs (case duration_since now t of
                Some d \<Rightarrow> d
              | None \<Rightarrow> unwrap_or (duration_since t now) 0)"

section \<open>The calendar round trip\<close>

lemma rust_div_nonneg [simp]: "0 \<le> a \<Longrightarrow> rust_div a b = a div b"
  by (simp add: rust_div_def)

definition year_start :: "int \<Rightarrow> int" where
  "year_start y = 365 * y + y div 4 - y div 100"

lemma minus_div_mono:
  fixes a b k :: int
  assumes "a \<le> b" "0 < k"
  shows "a - a div k \<le> b - b div k"
proof -
  have "b - a \<le> k * (b - a)" using assms by (simp add: mult_le_cancel_right1)
  then have "b div k \<le> (a + k * (b - a)) div k" using assms by (intro zdiv_mono1) simp_all
  also have "\<dots> = a div k + (b - a)" using assms by simp
  finally show ?thesis by simp
qed

lemma yoe_of_mono:
  assumes "0 \<le> a" "a \<le> b"
  shows "yoe_of a \<le> yoe_of b"
proof -
  have f: "yoe_of x = ((x - x div 1460) + (x div 36524 - x div 36524 div 4)) div 365" if "0 \<le> x" for x
  proof -
    have "x div 146096 = x div 36524 div 4" by (simp add: zdiv_zmult2_eq [symmetric])
    moreover have "0 \<le> x - x div 1460 + x div 36524 - x div 146096" using that by linarith
    ultimately show ?thesis using that by (simp add: yoe_of_def add_diff_eq)
  qed
  have "a - a div 1460 \<le> b - b div 1460" using assms by (simp add: minus_div_mono)
  moreover have "a div 36524 - a div 36524 div 4 \<le> b div 36524 - b div 36524 div 4"
    using assms by (simp add: minus_div_mono zdiv_mono1)
  ultimately show ?thesis
    unfolding f [OF assms(1)] f [OF order.trans [OF assms]] by (intro zdiv_mono1 add_mono) simp_all
qed

text \<open>Each year of an era starts and ends where \<open>yoe_of\<close> says; 400 years are checked by evaluation.\<close>

definition year_end :: "int \<Rightarrow> int" where
  "year_end y = (if y = 399 then 146096 else year_start (y + 1) - 1)"

lemma years_checked:
  "list_all (\<lambda>y. yoe_of (year_start y) = y \<and> yoe_of (year_end y) = y \<and> year_end y - year_start y \<le> 365
      \<and> 0 \<le> year_start y) [0..399]"
  by code_simp

lemma year_checked:
  assumes "0 \<le> y" "y \<le> 399"
  shows "yoe_of (year_start y) = y" "yoe_of (year_end y) = y" "year_end y - year_start y \<le> 365" "0 \<le> year_start y"
proof -
  have "y \<in> set [0..399]" using assms by simp
  with years_checked show "yoe_of (year_start y) = y" "yoe_of (year_end y) = y"
    "year_end y - year_start y \<le> 365" "0 \<le> year_start y"
    unfolding list_all_iff by blast+
qed

lemma year_found:
  assumes "0 \<le> doe" "doe \<le> 146096"
  shows "\<exists>y. 0 \<le> y \<and> y \<le> 399 \<and> year_start y \<le> doe \<and> doe \<le> year_end y"
proof (rule ccontr)
  assume "\<not> ?thesis"
  then have none: "year_end y < doe" if "0 \<le> y" "y \<le> 399" "year_start y \<le> doe" for y
    using that by force
  have "doe > year_end (int n)" if "n \<le> 399" for n
    using that
  proof (induction n)
    case 0
    have "year_start 0 \<le> doe" using assms by (simp add: year_start_def)
    with none [of 0] show ?case by simp
  next
    case (Suc n)
    then have "year_end (int n) < doe" by simp
    then have "year_start (int (Suc n)) \<le> doe" using Suc.prems by (simp add: year_end_def add.commute)
    with none [of "int (Suc n)"] Suc.prems show ?case by simp
  qed
  from this [of 399] assms show False by (simp add: year_end_def)
qed

lemma yoe_bounds:
  assumes "0 \<le> doe" "doe \<le> 146096"
  shows "0 \<le> yoe_of doe" "yoe_of doe \<le> 399" "0 \<le> doe - year_start (yoe_of doe)" "doe - year_start (yoe_of doe) \<le> 365"
proof -
  obtain y where y: "0 \<le> y" "y \<le> 399" "year_start y \<le> doe" "doe \<le> year_end y" using year_found [OF assms] by blast
  note c = year_checked [OF y(1,2)]
  have eq: "yoe_of doe = y"
    using yoe_of_mono [OF c(4) y(3)] yoe_of_mono [OF assms(1) y(4)] c by simp
  show "0 \<le> yoe_of doe" "yoe_of doe \<le> 399" "0 \<le> doe - year_start (yoe_of doe)"
    "doe - year_start (yoe_of doe) \<le> 365" unfolding eq using y c by linarith+
qed

lemma era_floor: "0 < n \<Longrightarrow> rust_div (if z \<ge> 0 then z else z - (n - 1)) n = z div n" for z n :: int
proof (cases "z \<ge> 0")
  case False
  assume n: "0 < n"
  have "(- (z - (n - 1))) div n = - (z div n)"
  proof -
    have "- (z - (n - 1)) = (n - 1 - z mod n) + n * (- (z div n))"
      using mult_div_mod_eq [of n z] by (simp add: algebra_simps)
    moreover have "(n - 1 - z mod n) div n = 0"
      using n pos_mod_bound [OF n, of z] pos_mod_sign [OF n, of z] by (intro div_pos_pos_trivial) linarith+
    ultimately show ?thesis using n by (simp only: div_mult_self2 div_0 add_0)
  qed
  with False n show ?thesis by (simp add: rust_div_def)
qed simp

text \<open>The month and day of a day of the year that starts in March.\<close>

lemma month_day_bounds:
  fixes doy :: int
  assumes "0 \<le> doy" "doy \<le> 365"
  defines "mp \<equiv> (5 * doy + 2) div 153"
  shows "0 \<le> mp" "mp \<le> 11" "1 \<le> doy - (153 * mp + 2) div 5 + 1" "doy - (153 * mp + 2) div 5 + 1 \<le> 31"
proof -
  have mp: "153 * mp \<le> 5 * doy + 2" "5 * doy + 2 < 153 * mp + 153"
    unfolding mp_def by linarith+
  have q: "5 * ((153 * mp + 2) div 5) \<le> 153 * mp + 2" "153 * mp + 2 < 5 * ((153 * mp + 2) div 5) + 5"
    by linarith+
  show "0 \<le> mp" "mp \<le> 11" using mp assms by linarith+
  show "1 \<le> doy - (153 * mp + 2) div 5 + 1" "doy - (153 * mp + 2) div 5 + 1 \<le> 31" using mp q by linarith+
qed

lemma days_civil_roundtrip:
  assumes "civil_from_days z = (y, m, d)"
  shows "days_from_civil y m d = Some z" "1 \<le> m" "m \<le> 12" "1 \<le> d" "d \<le> 31"
    and "0 \<le> z \<Longrightarrow> 0 \<le> y" "z < 2932897 \<Longrightarrow> y \<le> 9999"
proof -
  define era where "era = (z + 719468) div 146097"
  define doe where "doe = z + 719468 - era * 146097"
  define yoe where "yoe = yoe_of doe"
  define doy where "doy = doe - year_start yoe"
  define mp where "mp = (5 * doy + 2) div 153"
  have "doe = (z + 719468) mod 146097" by (simp add: doe_def era_def minus_div_mult_eq_mod)
  then have doe: "0 \<le> doe" "doe \<le> 146096" using pos_mod_bound [of 146097 "z + 719468"] by simp_all
  note yb = yoe_bounds [OF doe, folded yoe_def, folded doy_def]
  note mb = month_day_bounds [OF yb(3,4), folded mp_def]
  have era: "rust_div (if z + 719468 \<ge> 0 then z + 719468 else z + 719468 - 146096) 146097 = era"
  proof -
    have k: "(146096 :: int) = 146097 - 1" by simp
    show ?thesis unfolding era_def k by (rule era_floor) simp
  qed
  have doy': "doe - (365 * yoe + rust_div yoe 4 - rust_div yoe 100) = doy"
    using yb by (simp only: rust_div_nonneg doy_def year_start_def)
  have mp': "rust_div (5 * doy + 2) 153 = mp" using yb by (simp only: rust_div_def mp_def) simp
  have q': "rust_div (153 * mp + 2) 5 = (153 * mp + 2) div 5" using mb by simp
  let ?m = "nat (if mp < 10 then mp + 3 else mp - 9)"
  have "civil_from_days z = (if ?m \<le> 2 then yoe + era * 400 + 1 else yoe + era * 400, ?m,
      nat (doy - (153 * mp + 2) div 5 + 1))"
    unfolding civil_from_days_def Let_def era doe_def [symmetric] yoe_def [symmetric] doy' mp' q' by (rule refl)
  note eq = trans [OF assms [symmetric] this]
  have md: "m = ?m" using arg_cong [OF eq, of "\<lambda>x. fst (snd x)"] by (simp only: fst_conv snd_conv)
  have d: "d = nat (doy - (153 * mp + 2) div 5 + 1)"
    using arg_cong [OF eq, of "\<lambda>x. snd (snd x)"] by (simp only: snd_conv)
  have y: "y = (if ?m \<le> 2 then yoe + era * 400 + 1 else yoe + era * 400)"
    using arg_cong [OF eq, of fst] by (simp only: fst_conv)
  note ymd = md d y [folded md]
  show "0 \<le> y" if "0 \<le> z"
  proof -
    have "0 \<le> era" using that by (simp add: era_def pos_imp_zdiv_nonneg_iff)
    with ymd(3) yb show ?thesis by auto
  qed
  show "y \<le> 9999" if "z < 2932897"
  proof -
    have "era \<le> 24" using that unfolding era_def by linarith
    moreover have "\<not> m \<le> 2" if "yoe = 399" "era = 24"
    proof -
      have "doy \<le> 305" using \<open>z < 2932897\<close> that unfolding doy_def doe_def year_start_def by simp
      then have "mp < 10" unfolding mp_def by linarith
      with ymd(1) mb show ?thesis by auto
    qed
    ultimately show ?thesis using ymd(3) yb by (cases "yoe = 399"; cases "era = 24") auto
  qed
  show "1 \<le> m" "m \<le> 12" "1 \<le> d" "d \<le> 31" using ymd mb by auto
  moreover have "(int m + 9) mod 12 = mp" using ymd(1) mb by auto
  moreover have "(if m \<le> 2 then y - 1 else y) = yoe + era * 400" using ymd by simp
  moreover have "rust_div (if yoe + era * 400 \<ge> 0 then yoe + era * 400 else yoe + era * 400 - 399) 400 = era"
  proof -
    have k: "(399 :: int) = 400 - 1" by simp
    have "(yoe + era * 400) div 400 = era" using yb by simp
    then show ?thesis unfolding k using era_floor [of 400 "yoe + era * 400"] by (simp only: zero_less_numeral)
  qed
  moreover have "int d = doy - (153 * mp + 2) div 5 + 1" using ymd(2) mb by simp
  ultimately show "days_from_civil y m d = Some z"
    using yb mb by (simp add: days_from_civil_def doy_def year_start_def doe_def)
qed

section \<open>The timestamp round trip\<close>

lemma zero_padded_ascii: "c \<in> set (zero_padded w n) \<Longrightarrow> of_char c < (128 :: nat)"
proof -
  assume "c \<in> set (zero_padded w n)"
  then have "c = digit_char 0 \<or> c \<in> set (dec_string n)"
    by (auto simp: zero_padded_def Let_def split: if_splits)
  then have "\<exists>k < 10. c = digit_char k" using dec_string_digits [of c n] by (auto intro: exI [of _ 0])
  then show ?thesis by (auto simp: of_char_digit_char)
qed

lemma digit_run_padded:
  assumes "length p = a" "n < 10 ^ w" "0 < w" "w < 9" "b = a + w"
  shows "digit_run (p @ zero_padded w n @ q) a b = Some n"
proof -
  have "(10 :: nat) ^ w \<le> 10 ^ 8" using assms(4) by (intro power_increasing) simp_all
  then have "n < 2 ^ 32" using assms(2) by simp
  moreover have "str_get a b (p @ zero_padded w n @ q) = zero_padded w n"
    using assms length_zero_padded [OF assms(2,3)] by (simp add: str_get_def)
  ultimately show ?thesis
    by (simp add: digit_run_def parse_u32_def parse_unsigned_zero_padded unat_of_nat)
qed

lemma clock_fields:
  fixes r :: int
  assumes "0 \<le> r" "r < 86400"
  shows "nat (r div 3600) \<le> 23" "nat (r mod 3600 div 60) \<le> 59" "nat (r mod 60) \<le> 59"
    "int (nat (r div 3600)) * 3600 + int (nat (r mod 3600 div 60)) * 60 + int (nat (r mod 60)) = r"
proof -
  define a b c e where "a = r div 3600" and "b = r mod 3600" and "c = b div 60" and "e = r mod 60"
  have "b mod 60 = e" by (simp add: b_def e_def mod_mod_cancel)
  then have "b = c * 60 + e" using div_mult_mod_eq [of b 60] by (simp add: c_def)
  moreover have "r = a * 3600 + b" "0 \<le> b" "b < 3600" "0 \<le> e" "e < 60"
    by (simp_all add: a_def b_def e_def)
  moreover from calculation assms have "0 \<le> a" "a \<le> 23" "0 \<le> c" "c \<le> 59" by linarith+
  ultimately show "nat (r div 3600) \<le> 23" "nat (r mod 3600 div 60) \<le> 59" "nat (r mod 60) \<le> 59"
    "int (nat (r div 3600)) * 3600 + int (nat (r mod 3600 div 60)) * 60 + int (nat (r mod 60)) = r"
    unfolding a_def [symmetric] b_def [symmetric] c_def [symmetric] e_def [symmetric] by simp_all
qed

lemma format_parse_amz_date:
  assumes "0 \<le> now" "now < 253402300800 * 1000000000"
  shows "parse_amz_date (format_amz_date now) = Some (now div 1000000000 * 1000000000)"
proof -
  define secs where "secs = now div 1000000000"
  define r where "r = secs mod 86400"
  obtain y m d where c: "civil_from_days (secs div 86400) = (y, m, d)" by (cases "civil_from_days (secs div 86400)")
  have secs: "0 \<le> secs" "secs < 253402300800" using assms unfolding secs_def by linarith+
  have days: "0 \<le> secs div 86400" "secs div 86400 < 2932897" using secs by linarith+
  note civil = days_civil_roundtrip [OF c]
  have r: "0 \<le> r" "r < 86400" by (simp_all add: r_def)
  define h mi s where "h = nat (r div 3600)" and "mi = nat (r mod 3600 div 60)" and "s = nat (r mod 60)"
  note hms = clock_fields [OF r, folded h_def mi_def s_def]
  let ?z = "zero_padded" and ?t = "format_amz_date now"
  have fmt: "?t = ?z 4 (nat y) @ ?z 2 m @ ?z 2 d @ ''T'' @ ?z 2 h @ ?z 2 mi @ ?z 2 s @ ''Z''"
    using assms c
    by (simp add: format_amz_date_def duration_since_def unwrap_or_def as_secs_def h_def mi_def s_def
        secs_def [symmetric] r_def [symmetric])
  have y: "nat y < 10 ^ 4" using civil(6,7) days by simp
  have two: "m < 10 ^ 2" "d < 10 ^ 2" "h < 10 ^ 2" "mi < 10 ^ 2" "s < 10 ^ 2" using civil hms by simp_all
  have len: "length (?z 4 (nat y)) = 4" "length (?z 2 m) = 2" "length (?z 2 d) = 2" "length (?z 2 h) = 2"
    "length (?z 2 mi) = 2" "length (?z 2 s) = 2"
    using y two by (simp_all add: length_zero_padded)
  have runs: "digit_run ?t 0 4 = Some (nat y)" "digit_run ?t 4 6 = Some m" "digit_run ?t 6 8 = Some d"
    "digit_run ?t 9 11 = Some h" "digit_run ?t 11 13 = Some mi" "digit_run ?t 13 15 = Some s"
    unfolding fmt using y two len
      digit_run_padded [of "[]" 0 "nat y" 4 4] digit_run_padded [of "?z 4 (nat y)" 4 m 2 6]
      digit_run_padded [of "?z 4 (nat y) @ ?z 2 m" 6 d 2 8]
      digit_run_padded [of "?z 4 (nat y) @ ?z 2 m @ ?z 2 d @ ''T''" 9 h 2 11]
      digit_run_padded [of "?z 4 (nat y) @ ?z 2 m @ ?z 2 d @ ''T'' @ ?z 2 h" 11 mi 2 13]
      digit_run_padded [of "?z 4 (nat y) @ ?z 2 m @ ?z 2 d @ ''T'' @ ?z 2 h @ ?z 2 mi" 13 s 2 15]
    by simp_all
  have "length ?t = 16" "?t ! 8 = CHR ''T''" "?t ! 15 = CHR ''Z''" "list_all (\<lambda>c. of_char c < (128 :: nat)) ?t"
    unfolding fmt using len zero_padded_ascii by (simp_all add: nth_append list_all_iff ball_Un)
  then have "parse_amz_date ?t = Some ((secs div 86400 * 86400 + int h * 3600 + int mi * 60 + int s) * 1000000000)"
    using hms(1-3) civil(1,6) days by (simp add: parse_amz_date_def runs)
  also have "secs div 86400 * 86400 + int h * 3600 + int mi * 60 + int s = secs"
    using hms(4) div_mult_mod_eq [of secs 86400] unfolding r_def by linarith
  finally show ?thesis by (simp only: secs_def)
qed

lemma skew_seconds_sym: "skew_seconds a b = skew_seconds b a"
  by (auto simp: skew_seconds_def duration_since_def unwrap_or_def)

lemma skew_seconds_eq: "skew_seconds a b = \<bar>a - b\<bar> div 1000000000"
  by (auto simp: skew_seconds_def duration_since_def unwrap_or_def as_secs_def)

section \<open>Properties\<close>

text \<open>Timestamps round-trip: for every instant from 1970 to the end of year 9999, parsing the
  formatted \<open>X-Amz-Date\<close> gives that instant rounded down to the second; so the calendar conversion is
  exact on every day in that range.\<close>

theorem amz_date_roundtrip:
  assumes "0 \<le> now" "now < 253402300800 * 1000000000"
  shows "parse_amz_date (format_amz_date now) = Some (now div 1000000000 * 1000000000)"
  by (rule format_parse_amz_date [OF assms])

theorem amz_date_witness:
  "parse_amz_date (format_amz_date 1709210096500000000) = Some (1709210096500000000 div 1000000000 * 1000000000)"
  by (rule amz_date_roundtrip) simp_all

text \<open>\<open>parse_amz_date\<close> accepts timestamps that are not well formed: a field may carry a plus sign,
  because the integer parser of the standard library accepts one, and a day that the month does not
  have, such as 30 February, is carried into the next month.\<close>

lemma amz_date_accepts_signs_and_overlong_months:
  "parse_amz_date ''2024+1+1T000000Z'' = parse_amz_date ''20240101T000000Z'' \<and>
   parse_amz_date ''20240101T000000Z'' = Some (1704067200 * 1000000000) \<and>
   parse_amz_date ''20240230T000000Z'' = parse_amz_date ''20240301T000000Z''"
  by (simp add: parse_amz_date_def digit_run_def str_get_def parse_u32_def parse_unsigned_def
      digit_value_def days_from_civil_def unat_of_nat)

end
