(* ===== verification/Canonical.thy ===== *)
theory Canonical
  imports Wrap SigTime "HOL-Library.Product_Lexorder"
begin

text \<open>
  The SigV4 canonicalizer (\<open>sigv4/canonical.rs\<close>) and outbound signing (\<open>sigv4/sign.rs\<close>). The crate
  \<open>percent_encoding\<close> is the parameter \<open>pct\<close>: encoding of the bytes that a predicate selects, and
  decoding. \<open>pct_ok\<close> is what its documentation promises and the code uses.
\<close>

section \<open>Percent encoding\<close>

record pct =
  percent_encode :: "(u8 \<Rightarrow> bool) \<Rightarrow> bytes \<Rightarrow> string"
  percent_decode :: "string \<Rightarrow> bytes"
  decode_utf8_lossy :: "bytes \<Rightarrow> string"

definition is_alnum :: "u8 \<Rightarrow> bool" where
  "is_alnum b \<longleftrightarrow> (48 \<le> b \<and> b \<le> 57) \<or> (65 \<le> b \<and> b \<le> 90) \<or> (97 \<le> b \<and> b \<le> 122)"

text \<open>The set \<open>UNRESERVED\<close> names the bytes to encode: all but the unreserved ones.\<close>

definition UNRESERVED :: "u8 \<Rightarrow> bool" where
  "UNRESERVED b \<longleftrightarrow> \<not> is_alnum b \<and> b \<notin> {45, 95, 46, 126}"

definition pct_ok :: "pct \<Rightarrow> bool" where
  "pct_ok P \<longleftrightarrow>
     (\<forall>E b. E 37 \<longrightarrow> percent_decode P (percent_encode P E b) = b) \<and>
     (\<forall>E b c. c \<in> set (percent_encode P E b) \<longrightarrow>
        c = CHR ''%'' \<or> is_alnum (char_byte c) \<or> (char_byte c < 128 \<and> \<not> E (char_byte c)))"

section \<open>The canonical request\<close>

definition encode_component :: "pct \<Rightarrow> bytes \<Rightarrow> string" where
  "encode_component P bs = percent_encode P UNRESERVED bs"

definition normalize_segment :: "string list \<Rightarrow> string \<Rightarrow> string list" where
  "normalize_segment segments seg =
     (if seg = '''' \<or> seg = ''.'' then segments
      else if seg = ''..'' then butlast segments
      else segments @ [seg])"

definition normalize_path :: "string \<Rightarrow> string" where
  "normalize_path raw =
     (let had_trailing_slash = length raw > 1 \<and> ends_with raw ''/'';
          segments = foldl normalize_segment [] (split_on CHR ''/'' raw);
          result = ''/'' @ join ''/'' segments
      in if had_trailing_slash \<and> \<not> ends_with result ''/'' then result @ ''/'' else result)"

definition canonical_uri :: "pct \<Rightarrow> string \<Rightarrow> bool \<Rightarrow> bool \<Rightarrow> string" where
  "canonical_uri P raw_path norm_path decode_existing =
     (let path = (if raw_path = '''' then ''/'' else raw_path);
          path = (if norm_path then normalize_path path else path)
      in join ''/''
           (map (\<lambda>seg. if decode_existing then encode_component P (percent_decode P seg)
                        else encode_component P (str_bytes seg))
             (split_on CHR ''/'' path)))"

definition split_pair :: "string \<Rightarrow> string \<times> string" where
  "split_pair pair = (case split_once CHR ''='' pair of Some kv \<Rightarrow> kv | None \<Rightarrow> (pair, ''''))"

definition canonical_query :: "pct \<Rightarrow> string \<Rightarrow> string list \<Rightarrow> string" where
  "canonical_query P raw_query exclude =
     (if raw_query = '''' then ''''
      else
        let pairs = map (\<lambda>pair. let (k, v) = split_pair pair in (percent_decode P k, percent_decode P v))
                      (filter (\<lambda>p. p \<noteq> '''') (split_on CHR ''&'' raw_query));
            pairs = filter (\<lambda>(k, _). \<not> list_ex (\<lambda>e. str_bytes e = k) exclude) pairs;
            pairs = sort (map (\<lambda>(k, v). (encode_component P k, encode_component P v)) pairs)
        in join ''&'' (map (\<lambda>(k, v). k @ ''='' @ v) pairs))"

fun collapse :: "bool \<Rightarrow> string \<Rightarrow> string" where
  "collapse prev_space [] = []"
| "collapse prev_space (c # cs) =
     (if c = CHR '' '' \<or> c = CHR 0x09
      then (if prev_space then [] else '' '') @ collapse True cs
      else c # collapse False cs)"

definition collapse_whitespace :: "string \<Rightarrow> string" where
  "collapse_whitespace s = collapse False (trim s)"

definition header_line :: "headers \<Rightarrow> string \<Rightarrow> string" where
  "header_line hs name =
     name @ '':'' @ join '','' (map (\<lambda>(_, v). collapse_whitespace v)
                              (filter (\<lambda>(k, _). eq_ignore_ascii_case k name) hs)) @ [CHR 0x0A]"

definition canonical_headers_in_order :: "headers \<Rightarrow> string list \<Rightarrow> string \<times> string" where
  "canonical_headers_in_order hs names = (concat (map (header_line hs) names), join '';'' names)"

definition canonical_headers :: "headers \<Rightarrow> string list \<Rightarrow> string \<times> string" where
  "canonical_headers hs signed_names =
     canonical_headers_in_order hs (remdups_adj (sort (map to_ascii_lowercase signed_names)))"

definition hex_sha256 :: "crypto \<Rightarrow> bytes \<Rightarrow> string" where
  "hex_sha256 C bs = hex_encode C (sha256 C bs)"

definition canonical_request :: "string \<Rightarrow> string \<Rightarrow> string \<Rightarrow> string \<Rightarrow> string \<Rightarrow> string \<Rightarrow> string" where
  "canonical_request meth uri query headers_block signed_headers payload_hash =
     join [CHR 0x0A] [meth, uri, query, headers_block, signed_headers, payload_hash]"

definition string_to_sign :: "crypto \<Rightarrow> string \<Rightarrow> string \<Rightarrow> string \<Rightarrow> string" where
  "string_to_sign C timestamp credential_scope cr =
     join [CHR 0x0A] [''AWS4-HMAC-SHA256'', timestamp, credential_scope, hex_sha256 C (str_bytes cr)]"

definition signing_key :: "crypto \<Rightarrow> string \<Rightarrow> string \<Rightarrow> string \<Rightarrow> string \<Rightarrow> bytes" where
  "signing_key C secret d8 region service =
     (let k_date = hmac_sha256 C (str_bytes (''AWS4'' @ secret)) (str_bytes d8);
          k_region = hmac_sha256 C k_date (str_bytes region);
          k_service = hmac_sha256 C k_region (str_bytes service)
      in hmac_sha256 C k_service (str_bytes ''aws4_request''))"

definition signature_hex :: "crypto \<Rightarrow> bytes \<Rightarrow> string \<Rightarrow> string" where
  "signature_hex C key sts = hex_encode C (hmac_sha256 C key (str_bytes sts))"

section \<open>Outbound signing\<close>

definition credential_scope_of :: "string \<Rightarrow> string \<Rightarrow> string \<Rightarrow> string" where
  "credential_scope_of d8 region service = join ''/'' [d8, region, service, ''aws4_request'']"

definition authorization_header ::
  "crypto \<Rightarrow> pct \<Rightarrow> string \<Rightarrow> string \<Rightarrow> string \<Rightarrow> headers \<Rightarrow> string list \<Rightarrow> string \<Rightarrow>
   string \<Rightarrow> string \<Rightarrow> string \<Rightarrow> string \<Rightarrow> string \<Rightarrow> string" where
  "authorization_header C P meth raw_path raw_query hs signed_header_names payload_hash
     access_key secret_key region service amz_date =
     (let uri = canonical_uri P raw_path False True;
          query = canonical_query P raw_query [];
          (headers_block, signed_headers) = canonical_headers hs signed_header_names;
          cr = canonical_request meth uri query headers_block signed_headers payload_hash;
          d8 = date8 amz_date;
          scope = credential_scope_of d8 region service;
          sts = string_to_sign C amz_date scope cr;
          key = signing_key C secret_key d8 region service;
          signature = signature_hex C key sts
      in ''AWS4-HMAC-SHA256 Credential='' @ access_key @ ''/'' @ scope
         @ '', SignedHeaders='' @ signed_headers @ '', Signature='' @ signature)"

section \<open>What the canonical form determines\<close>

lemma UNRESERVED_percent [simp]: "UNRESERVED 37"
  by (simp add: UNRESERVED_def is_alnum_def)

lemma encode_component_inj: "pct_ok P \<Longrightarrow> encode_component P a = encode_component P b \<longleftrightarrow> a = b"
  unfolding pct_ok_def encode_component_def by (metis UNRESERVED_percent)

lemma encode_component_chars:
  assumes "pct_ok P" "c \<in> set (encode_component P b)"
  shows "c = CHR ''%'' \<or> \<not> UNRESERVED (char_byte c)"
proof -
  have "c = CHR ''%'' \<or> is_alnum (char_byte c) \<or> (char_byte c < 128 \<and> \<not> UNRESERVED (char_byte c))"
    using assms unfolding pct_ok_def encode_component_def by blast
  then show ?thesis unfolding UNRESERVED_def by blast
qed

lemma not_unreserved:
  "UNRESERVED (char_byte CHR ''/'')" "UNRESERVED (char_byte CHR ''&'')" "UNRESERVED (char_byte CHR ''='')"
  "UNRESERVED (char_byte CHR 0x0A)" "UNRESERVED (char_byte CHR '','')"
  by (simp_all add: UNRESERVED_def is_alnum_def char_byte_def)

lemma encode_component_no_sep:
  assumes "pct_ok P"
  shows "CHR ''/'' \<notin> set (encode_component P b)" "CHR ''&'' \<notin> set (encode_component P b)"
    "CHR ''='' \<notin> set (encode_component P b)" "CHR 0x0A \<notin> set (encode_component P b)"
  using encode_component_chars [OF assms] not_unreserved by fastforce+

abbreviation newline :: char where
  "newline \<equiv> CHR 0x0A"

lemma append_sep_inj: "c \<notin> set a \<Longrightarrow> c \<notin> set b \<Longrightarrow> a @ c # x = b @ c # y \<longleftrightarrow> a = b \<and> x = y"
  by (metis Pair_inject option.inject split_once_append)

lemma append_sep_inj_last: "c \<notin> set x \<Longrightarrow> c \<notin> set y \<Longrightarrow> a @ c # x = b @ c # y \<longleftrightarrow> a = b \<and> x = y"
proof -
  assume "c \<notin> set x" "c \<notin> set y"
  then have "rev x @ c # rev a = rev y @ c # rev b \<longleftrightarrow> x = y \<and> a = b" by (simp add: append_sep_inj)
  moreover have "a @ c # x = b @ c # y \<longleftrightarrow> rev (a @ c # x) = rev (b @ c # y)" by (simp only: rev_is_rev_conv)
  ultimately show ?thesis by auto
qed

lemma set_join: "set (join sep xs) \<subseteq> set sep \<union> (\<Union>x \<in> set xs. set x)"
  by (induction sep xs rule: join.induct) auto

lemma join_no: "c \<notin> set sep \<Longrightarrow> \<forall>x \<in> set xs. c \<notin> set x \<Longrightarrow> c \<notin> set (join sep xs)"
  using set_join [of sep xs] by auto

lemma canonical_uri_no_newline: "pct_ok P \<Longrightarrow> newline \<notin> set (canonical_uri P p False True)"
  unfolding canonical_uri_def Let_def by (rule join_no) (auto simp: encode_component_no_sep)

lemma canonical_query_no_newline: "pct_ok P \<Longrightarrow> newline \<notin> set (canonical_query P q ex)"
proof -
  assume "pct_ok P"
  then have "newline \<notin> set (join ''&'' (map (\<lambda>(k, v). k @ ''='' @ v)
      (sort (map (\<lambda>(k, v). (encode_component P k, encode_component P v)) kvs))))" for kvs
    by (intro join_no) (auto simp: encode_component_no_sep)
  then show ?thesis by (simp add: canonical_query_def Let_def del: append_Cons append_Nil)
qed

text \<open>The canonical URI determines the decoded path segments: two request targets share it only if
  they name the same object.\<close>

definition path_segments :: "pct \<Rightarrow> string \<Rightarrow> bytes list" where
  "path_segments P raw = map (percent_decode P) (split_on CHR ''/'' (if raw = '''' then ''/'' else raw))"

lemma canonical_uri_eq: "canonical_uri P p False True = join ''/'' (map (encode_component P) (path_segments P p))"
  by (simp add: canonical_uri_def path_segments_def comp_def)

lemma canonical_uri_inj:
  assumes "pct_ok P"
  shows "canonical_uri P p False True = canonical_uri P p' False True \<longleftrightarrow> path_segments P p = path_segments P p'"
proof
  assume "canonical_uri P p False True = canonical_uri P p' False True"
  then have "map (encode_component P) (path_segments P p) = map (encode_component P) (path_segments P p')"
    unfolding canonical_uri_eq using encode_component_no_sep(1) [OF assms]
    by (intro join_inj [of "CHR ''/''"]) (auto simp: path_segments_def)
  moreover have "inj (encode_component P)" using encode_component_inj [OF assms] by (auto intro: injI)
  ultimately show "path_segments P p = path_segments P p'" by (metis map_injective)
qed (simp add: canonical_uri_eq)

lemma canonical_request_inj:
  assumes "newline \<notin> set m" "newline \<notin> set u" "newline \<notin> set q" "newline \<notin> set s" "newline \<notin> set h"
    and "newline \<notin> set m'" "newline \<notin> set u'" "newline \<notin> set q'" "newline \<notin> set s'" "newline \<notin> set h'"
  shows "canonical_request m u q b s h = canonical_request m' u' q' b' s' h' \<longleftrightarrow>
    m = m' \<and> u = u' \<and> q = q' \<and> b = b' \<and> s = s' \<and> h = h'"
proof -
  have "b @ newline # s @ newline # h = b' @ newline # s' @ newline # h' \<longleftrightarrow> b = b' \<and> s = s' \<and> h = h'"
    using append_sep_inj_last [OF assms(5,10), of "b @ newline # s" "b' @ newline # s'"]
      append_sep_inj_last [OF assms(4,9), of b b'] by simp
  with assms show ?thesis by (simp add: canonical_request_def append_sep_inj)
qed

section \<open>Properties\<close>

text \<open>C30. The canonical request determines everything that is signed: two requests with the same
  canonical request have the same method, the same decoded path segments (so the same object), the
  same canonical query, header block, signed-header list and payload hash. The method, the
  signed-header list and the payload hash are single lines.\<close>

theorem canonical_request_binds_request:
  assumes "pct_ok P" "newline \<notin> set m" "newline \<notin> set s" "newline \<notin> set h"
    and "newline \<notin> set m'" "newline \<notin> set s'" "newline \<notin> set h'"
    and "canonical_request m (canonical_uri P p False True) (canonical_query P q ex) b s h =
         canonical_request m' (canonical_uri P p' False True) (canonical_query P q' ex') b' s' h'"
  shows "m = m' \<and> path_segments P p = path_segments P p' \<and> canonical_query P q ex = canonical_query P q' ex' \<and>
    b = b' \<and> s = s' \<and> h = h'"
proof -
  note no = canonical_uri_no_newline [OF assms(1)] canonical_query_no_newline [OF assms(1)]
  from assms(8) show ?thesis
    unfolding canonical_request_inj [OF assms(2) no(1) no(2) assms(3,4,5) no(1) no(2) assms(6,7)]
      canonical_uri_inj [OF assms(1)] .
qed

definition hex_digit :: "nat \<Rightarrow> char" where
  "hex_digit n = (if n < 10 then char_of (48 + n) else char_of (55 + n))"

definition hex_nibble :: "char \<Rightarrow> nat" where
  "hex_nibble c = (let n = of_char c in if n < 58 then n - 48 else n - 55)"

fun sample_decode :: "string \<Rightarrow> bytes" where
  "sample_decode (c # a # b # s) =
     (if c = CHR ''%'' then word_of_nat (16 * hex_nibble a + hex_nibble b) # sample_decode s
      else char_byte c # sample_decode (a # b # s))"
| "sample_decode (c # s) = char_byte c # sample_decode s"
| "sample_decode [] = []"

definition sample_encode :: "(u8 \<Rightarrow> bool) \<Rightarrow> bytes \<Rightarrow> string" where
  "sample_encode E bs = concat (map (\<lambda>b. if E b \<or> 128 \<le> b
     then [CHR ''%'', hex_digit (unat b div 16), hex_digit (unat b mod 16)] else [byte_char b]) bs)"

definition sample_pct :: pct where
  "sample_pct = \<lparr> percent_encode = sample_encode, percent_decode = sample_decode,
     decode_utf8_lossy = bytes_str \<rparr>"

lemma hex_nibble_digit: "n < 16 \<Longrightarrow> hex_nibble (hex_digit n) = n"
  by (simp add: hex_nibble_def hex_digit_def Let_def)

lemma hex_digit_alnum: "n < 16 \<Longrightarrow> is_alnum (char_byte (hex_digit n))"
  by (auto simp: is_alnum_def hex_digit_def char_byte_def word_le_nat_alt unat_of_nat)

lemma sample_decode_Cons: "c \<noteq> CHR ''%'' \<Longrightarrow> sample_decode (c # s) = char_byte c # sample_decode s"
  by (cases s; cases "tl s") auto

lemma sample_decode_hex:
  "sample_decode (CHR ''%'' # hex_digit (unat b div 16) # hex_digit (unat b mod 16) # s) = b # sample_decode s"
proof -
  have "unat b div 16 < 16" using unat_u8_less [of b] by simp
  then show ?thesis by (simp add: hex_nibble_digit)
qed

lemma byte_char_percent: "byte_char b = CHR ''%'' \<Longrightarrow> b = 37"
  using char_byte_byte_char [of b] by (simp add: char_byte_def)

lemma sample_pct_ok: "pct_ok sample_pct"
proof -
  have "sample_decode (sample_encode E b) = b" if "E 37" for E b
  proof (induction b)
    case (Cons x b)
    show ?case
    proof (cases "E x \<or> 128 \<le> x")
      case True
      with Cons show ?thesis by (simp add: sample_encode_def sample_decode_hex del: sample_decode.simps)
    next
      case False
      with that byte_char_percent [of x] have "byte_char x \<noteq> CHR ''%''" by auto
      with False Cons show ?thesis by (simp add: sample_encode_def sample_decode_Cons del: sample_decode.simps)
    qed
  qed (simp add: sample_encode_def)
  moreover have "c = CHR ''%'' \<or> is_alnum (char_byte c) \<or> (char_byte c < 128 \<and> \<not> E (char_byte c))"
    if "c \<in> set (sample_encode E b)" for E b c
  proof -
    from that obtain x where x: "c \<in> set (if E x \<or> 128 \<le> x
        then [CHR ''%'', hex_digit (unat x div 16), hex_digit (unat x mod 16)] else [byte_char x])"
      unfolding sample_encode_def set_concat set_map by blast
    have "unat x div 16 < 16" using unat_u8_less [of x] by simp
    with x show ?thesis by (auto simp: hex_digit_alnum not_le split: if_splits)
  qed
  ultimately show ?thesis unfolding pct_ok_def sample_pct_def by simp
qed

theorem canonical_request_witness:
  "''GET'' = ''GET'' \<and> path_segments sample_pct ''/b/a%20b'' = path_segments sample_pct ''/b/a b'' \<and>
   canonical_query sample_pct '''' [] = canonical_query sample_pct '''' [] \<and>
   ''host:h'' = ''host:h'' \<and> ''host'' = ''host'' \<and> ''UNSIGNED-PAYLOAD'' = ''UNSIGNED-PAYLOAD''"
proof (rule canonical_request_binds_request [OF sample_pct_ok])
  show "canonical_request ''GET'' (canonical_uri sample_pct ''/b/a%20b'' False True)
      (canonical_query sample_pct '''' []) ''host:h'' ''host'' ''UNSIGNED-PAYLOAD'' =
    canonical_request ''GET'' (canonical_uri sample_pct ''/b/a b'' False True)
      (canonical_query sample_pct '''' []) ''host:h'' ''host'' ''UNSIGNED-PAYLOAD''"
    unfolding canonical_uri_def sample_pct_def by (simp add: hex_nibble_def char_byte_def)
qed simp_all

end
