(* ===== verification/Verify.thy ===== *)
theory Verify
  imports Canonical
begin

text \<open>
  Inbound SigV4 verification (\<open>sigv4/verify.rs\<close>): header authentication and presigned URLs, every
  check in the order of the source. \<open>ct_eq\<close> of the crate \<open>subtle\<close> compares byte strings of equal
  length, so the constant-time comparison is equality here.
\<close>

section \<open>Data\<close>

record client_credentials =
  cc_access_key :: string
  cc_secret_key :: string
  cc_backend :: string

record chunk_seed =
  cs_signing_key :: bytes
  cs_seed_signature :: string
  cs_amz_date :: string
  cs_credential_scope :: string

record identity =
  id_access_key :: string
  id_backend :: string
  id_chunk_seed :: chunk_seed

datatype verify_error =
    NoAuth
  | MalformedAuthHeader
  | MalformedPresignedQuery
  | UnknownAccessKey
  | BadSignedHeaders string
  | MissingHeader string
  | ClockSkew
  | DateMismatch
  | BadScope
  | BadSignature
  | Expired
  | BadExpires
  | UnsignedAmzHeader string

definition MAX_SKEW_SECS :: int where
  "MAX_SKEW_SECS = 15 * 60"

record credential =
  cr_access_key :: string
  cr_date8 :: string
  cr_region :: string
  cr_service :: string

section \<open>Parsers\<close>

fun find_map :: "('a \<Rightarrow> 'b option) \<Rightarrow> 'a list \<Rightarrow> 'b option" where
  "find_map f [] = None"
| "find_map f (x # xs) = (case f x of None \<Rightarrow> find_map f xs | Some y \<Rightarrow> Some y)"

definition unsigned_amz_header :: "headers \<Rightarrow> string list \<Rightarrow> string option" where
  "unsigned_amz_header hs signed_names =
     find_map (\<lambda>(k, _). let lower = to_ascii_lowercase k in
                 if starts_with lower ''x-amz-'' \<and> \<not> list_ex (\<lambda>s. s = lower) signed_names
                 then Some lower else None) hs"

fun splitn :: "nat \<Rightarrow> 'c \<Rightarrow> 'c list \<Rightarrow> 'c list list" where
  "splitn 0 c s = []"
| "splitn (Suc 0) c s = [s]"
| "splitn (Suc (Suc n)) c s =
     (case split_once c s of None \<Rightarrow> [s] | Some (a, b) \<Rightarrow> a # splitn (Suc n) c b)"

definition parse_credential :: "string \<Rightarrow> credential option" where
  "parse_credential s =
     (case splitn 5 CHR ''/'' s of
        [access_key, d8, region, service, terminator] \<Rightarrow>
          if terminator \<noteq> ''aws4_request'' then None
          else Some \<lparr> cr_access_key = access_key, cr_date8 = d8, cr_region = region, cr_service = service \<rparr>
      | _ \<Rightarrow> None)"

definition validate_signed_headers :: "string \<Rightarrow> string list option" where
  "validate_signed_headers raw =
     (let names = split_on CHR '';'' raw in
      if names = [] \<or> ''host'' \<notin> set names then None
      else if list_ex (\<lambda>n. n = '''' \<or> to_ascii_lowercase n \<noteq> n) names then None
      else if length (remdups_adj (sort names)) \<noteq> length names then None
      else Some names)"

definition header_value :: "headers \<Rightarrow> string \<Rightarrow> string option" where
  "header_value hs name = map_option snd (find (\<lambda>(k, _). eq_ignore_ascii_case k name) hs)"

definition parse_query_pairs :: "pct \<Rightarrow> string \<Rightarrow> (string, string) btree" where
  "parse_query_pairs P raw_query =
     bt_from_list
       (map (\<lambda>pair. let (k, v) = split_pair pair
                     in (decode_utf8_lossy P (percent_decode P k), decode_utf8_lossy P (percent_decode P v)))
         (filter (\<lambda>p. p \<noteq> '''') (split_on CHR ''&'' raw_query)))"

definition resolve_client :: "(string, client_credentials) btree \<Rightarrow> string \<Rightarrow> client_credentials option" where
  "resolve_client clients access_key = find (\<lambda>c. cc_access_key c = access_key) (map snd clients)"

definition constant_time_eq_hex :: "string \<Rightarrow> string \<Rightarrow> bool" where
  "constant_time_eq_hex a b \<longleftrightarrow> length a = length b \<and> str_bytes a = str_bytes b"

section \<open>The two schemes\<close>

record auth_fields =
  af_credential :: "string option"
  af_signed_headers :: "string option"
  af_signature :: "string option"

fun auth_header_fields :: "auth_fields \<Rightarrow> string list \<Rightarrow> verify_error + auth_fields" where
  "auth_header_fields f [] = Inr f"
| "auth_header_fields f (field # rest) =
     rbind (ok_or (split_once CHR ''='' field) MalformedAuthHeader) (\<lambda>(key, value).
       auth_header_fields
         (if trim key = ''Credential'' then f\<lparr> af_credential := Some (trim value) \<rparr>
          else if trim key = ''SignedHeaders'' then f\<lparr> af_signed_headers := Some (trim value) \<rparr>
          else if trim key = ''Signature'' then f\<lparr> af_signature := Some (trim value) \<rparr>
          else f) rest)"

definition no_fields :: auth_fields where
  "no_fields = \<lparr> af_credential = None, af_signed_headers = None, af_signature = None \<rparr>"

text \<open>The last part of both schemes: rebuild the canonical request, compare the signature.\<close>

definition check_signature ::
  "crypto \<Rightarrow> pct \<Rightarrow> string \<Rightarrow> string \<Rightarrow> string \<Rightarrow> string list \<Rightarrow> headers \<Rightarrow> string list \<Rightarrow> string \<Rightarrow>
   credential \<Rightarrow> client_credentials \<Rightarrow> string \<Rightarrow> string \<Rightarrow> verify_error + identity" where
  "check_signature C P meth raw_path raw_query exclude hs signed_names payload_hash
     cred client amz_date signature =
     (let uri = canonical_uri P raw_path False True;
          query = canonical_query P raw_query exclude;
          (headers_block, signed_headers_joined) = canonical_headers_in_order hs signed_names;
          cr = canonical_request meth uri query headers_block signed_headers_joined payload_hash;
          scope = credential_scope_of (cr_date8 cred) (cr_region cred) (cr_service cred);
          sts = string_to_sign C amz_date scope cr;
          key = signing_key C (cc_secret_key client) (cr_date8 cred) (cr_region cred) (cr_service cred);
          expected = signature_hex C key sts
      in if \<not> constant_time_eq_hex expected signature then Inl BadSignature
         else Inr \<lparr> id_access_key = cr_access_key cred, id_backend = cc_backend client,
                    id_chunk_seed = \<lparr> cs_signing_key = key, cs_seed_signature = expected,
                                      cs_amz_date = amz_date, cs_credential_scope = scope \<rparr> \<rparr>)"

definition verify_header ::
  "crypto \<Rightarrow> pct \<Rightarrow> string \<Rightarrow> string \<Rightarrow> string \<Rightarrow> headers \<Rightarrow> string \<Rightarrow> string \<Rightarrow>
   (string, client_credentials) btree \<Rightarrow> system_time \<Rightarrow> verify_error + identity" where
  "verify_header C P meth raw_path raw_query hs auth payload_hash clients now =
     rbind (ok_or (strip_prefix ''AWS4-HMAC-SHA256 '' auth) MalformedAuthHeader) (\<lambda>rest.
     rbind (auth_header_fields no_fields (split_on CHR '','' rest)) (\<lambda>f.
     rbind (ok_or (af_credential f) MalformedAuthHeader) (\<lambda>cred_raw.
     rbind (ok_or (parse_credential cred_raw) MalformedAuthHeader) (\<lambda>cred.
     rbind (ok_or (af_signed_headers f) MalformedAuthHeader) (\<lambda>signed_headers_raw.
     rbind (ok_or (af_signature f) MalformedAuthHeader) (\<lambda>signature.
     rbind (ok_or (validate_signed_headers signed_headers_raw) (BadSignedHeaders signed_headers_raw)) (\<lambda>signed_names.
     case unsigned_amz_header hs signed_names of
       Some name \<Rightarrow> Inl (UnsignedAmzHeader name)
     | None \<Rightarrow>
         if cr_service cred \<noteq> ''s3'' then Inl BadScope
         else
           rbind (ok_or (header_value hs ''x-amz-date'') (MissingHeader ''x-amz-date'')) (\<lambda>amz_date.
           rbind (ok_or (parse_amz_date amz_date) (MissingHeader ''x-amz-date'')) (\<lambda>request_time.
           if date8 amz_date \<noteq> cr_date8 cred then Inl DateMismatch
           else if skew_seconds now request_time > MAX_SKEW_SECS then Inl ClockSkew
           else
             rbind (ok_or (resolve_client clients (cr_access_key cred)) UnknownAccessKey) (\<lambda>client.
               check_signature C P meth raw_path raw_query [] hs signed_names payload_hash
                 cred client amz_date signature))))))))))"

definition verify_presigned ::
  "crypto \<Rightarrow> pct \<Rightarrow> string \<Rightarrow> string \<Rightarrow> string \<Rightarrow> (string, string) btree \<Rightarrow> headers \<Rightarrow>
   (string, client_credentials) btree \<Rightarrow> system_time \<Rightarrow> verify_error + identity" where
  "verify_presigned C P meth raw_path raw_query query hs clients now =
     (let get = (\<lambda>k. ok_or (bt_get query k) MalformedPresignedQuery) in
     rbind (get ''X-Amz-Algorithm'') (\<lambda>algorithm.
     if algorithm \<noteq> ''AWS4-HMAC-SHA256'' then Inl MalformedPresignedQuery
     else
     rbind (get ''X-Amz-Credential'') (\<lambda>cred_raw.
     rbind (ok_or (parse_credential cred_raw) MalformedPresignedQuery) (\<lambda>cred.
     rbind (get ''X-Amz-Date'') (\<lambda>amz_date.
     rbind (get ''X-Amz-SignedHeaders'') (\<lambda>signed_headers_raw.
     rbind (get ''X-Amz-Signature'') (\<lambda>signature.
     rbind (get ''X-Amz-Expires'') (\<lambda>expires_raw.
     rbind (ok_or (parse_u64 expires_raw) BadExpires) (\<lambda>expires.
     if expires = 0 \<or> expires > 604800 then Inl BadExpires
     else
     rbind (ok_or (validate_signed_headers signed_headers_raw) (BadSignedHeaders signed_headers_raw)) (\<lambda>signed_names.
     case unsigned_amz_header hs signed_names of
       Some name \<Rightarrow> Inl (UnsignedAmzHeader name)
     | None \<Rightarrow>
         if cr_service cred \<noteq> ''s3'' then Inl BadScope
         else
           rbind (ok_or (parse_amz_date amz_date) MalformedPresignedQuery) (\<lambda>request_time.
           if date8 amz_date \<noteq> cr_date8 cred then Inl DateMismatch
           else if request_time > now \<and> skew_seconds now request_time > MAX_SKEW_SECS then Inl ClockSkew
           else
             let age = as_secs (unwrap_or (duration_since now request_time) 0) in
             if age > int (unat expires) then Inl Expired
             else
               rbind (ok_or (resolve_client clients (cr_access_key cred)) UnknownAccessKey) (\<lambda>client.
                 check_signature C P meth raw_path raw_query [''X-Amz-Signature''] hs signed_names
                   ''UNSIGNED-PAYLOAD'' cred client amz_date signature))))))))))))"

definition verify ::
  "crypto \<Rightarrow> pct \<Rightarrow> string \<Rightarrow> string \<Rightarrow> string \<Rightarrow> headers \<Rightarrow> string \<Rightarrow>
   (string, client_credentials) btree \<Rightarrow> system_time \<Rightarrow> verify_error + identity" where
  "verify C P meth raw_path raw_query hs payload_hash clients now =
     (let query = parse_query_pairs P raw_query in
      if bt_get query ''X-Amz-Signature'' \<noteq> None
      then verify_presigned C P meth raw_path raw_query query hs clients now
      else (case header_value hs ''authorization'' of
              Some auth \<Rightarrow> verify_header C P meth raw_path raw_query hs auth payload_hash clients now
            | None \<Rightarrow> Inl NoAuth))"

section \<open>What acceptance means\<close>

lemma find_map_None: "find_map f xs = None \<longleftrightarrow> (\<forall>x \<in> set xs. f x = None)"
  by (induction xs) (auto split: option.splits)

definition amz_headers_signed :: "headers \<Rightarrow> string list \<Rightarrow> bool" where
  "amz_headers_signed hs names \<longleftrightarrow>
     (\<forall>(k, v) \<in> set hs. starts_with (to_ascii_lowercase k) ''x-amz-'' \<longrightarrow> to_ascii_lowercase k \<in> set names)"

lemma unsigned_amz_header_None: "unsigned_amz_header hs names = None \<longleftrightarrow> amz_headers_signed hs names"
  unfolding unsigned_amz_header_def find_map_None amz_headers_signed_def
  by (auto simp: Let_def list_ex_iff split: if_splits)

text \<open>A valid signed-header list: lowercase, no duplicates, with \<open>host\<close>.\<close>

definition signed_list_ok :: "string list \<Rightarrow> bool" where
  "signed_list_ok names \<longleftrightarrow> ''host'' \<in> set names \<and> distinct names \<and>
     (\<forall>n \<in> set names. n \<noteq> '''' \<and> to_ascii_lowercase n = n)"

lemma sorted_distinct_remdups_adj: "sorted xs \<Longrightarrow> distinct (remdups_adj xs)" for xs :: "'a::linorder list"
proof (induction xs rule: remdups_adj.induct)
  case (3 x y xs)
  then have "x \<noteq> y \<Longrightarrow> x \<notin> set (y # xs)" by auto
  with 3 show ?case by simp
qed simp_all

lemma remdups_adj_sort_length: "length (remdups_adj (sort xs)) = length xs \<longleftrightarrow> distinct xs" for xs :: "'a::linorder list"
proof -
  have "length (remdups_adj (sort xs)) = card (set xs)"
    using distinct_card [of "remdups_adj (sort xs)"] by (simp add: sorted_distinct_remdups_adj)
  then show ?thesis by (metis card_distinct distinct_card)
qed

lemma validate_signed_headers_iff:
  "validate_signed_headers raw = Some names \<longleftrightarrow> split_on CHR '';'' raw = names \<and> signed_list_ok names"
  by (auto simp: validate_signed_headers_def Let_def list_ex_iff remdups_adj_sort_length signed_list_ok_def)

lemma constant_time_eq_hex_iff: "constant_time_eq_hex a b \<longleftrightarrow> a = b"
  by (auto simp: constant_time_eq_hex_def)

lemma resolve_client_SomeD:
  "resolve_client clients k = Some c \<Longrightarrow> c \<in> snd ` set clients \<and> cc_access_key c = k"
  unfolding resolve_client_def by (force simp: find_Some_iff in_set_conv_nth image_iff)

text \<open>The signature that a client's secret gives to a request.\<close>

definition request_signature ::
  "crypto \<Rightarrow> pct \<Rightarrow> string \<Rightarrow> string \<Rightarrow> string \<Rightarrow> string list \<Rightarrow> headers \<Rightarrow> string list \<Rightarrow> string \<Rightarrow>
   string \<Rightarrow> string \<Rightarrow> string \<Rightarrow> string \<Rightarrow> string \<Rightarrow> string" where
  "request_signature C P meth raw_path raw_query exclude hs names payload_hash secret d8 region service amz_date =
     signature_hex C (signing_key C secret d8 region service)
       (string_to_sign C amz_date (credential_scope_of d8 region service)
         (canonical_request meth (canonical_uri P raw_path False True) (canonical_query P raw_query exclude)
           (fst (canonical_headers_in_order hs names)) (snd (canonical_headers_in_order hs names)) payload_hash))"

lemma check_signature_iff:
  "check_signature C P meth raw_path raw_query exclude hs names ph cred client amz_date sig = Inr i \<longleftrightarrow>
     sig = request_signature C P meth raw_path raw_query exclude hs names ph (cc_secret_key client)
             (cr_date8 cred) (cr_region cred) (cr_service cred) amz_date \<and>
     i = \<lparr> id_access_key = cr_access_key cred, id_backend = cc_backend client,
            id_chunk_seed = \<lparr> cs_signing_key = signing_key C (cc_secret_key client) (cr_date8 cred) (cr_region cred) (cr_service cred),
              cs_seed_signature = sig, cs_amz_date = amz_date,
              cs_credential_scope = credential_scope_of (cr_date8 cred) (cr_region cred) (cr_service cred) \<rparr> \<rparr>"
  unfolding check_signature_def Let_def request_signature_def case_prod_beta
  by (auto simp: constant_time_eq_hex_iff)

lemma verify_header_Inr:
  assumes "verify_header C P meth raw_path raw_query hs auth ph clients now = Inr i"
  obtains f cred_raw cred raw sig names amz_date t client where
    "auth_header_fields no_fields (split_on CHR '','' (drop 17 auth)) = Inr f"
    "af_credential f = Some cred_raw" "parse_credential cred_raw = Some cred"
    "af_signed_headers f = Some raw" "af_signature f = Some sig"
    "split_on CHR '';'' raw = names" "signed_list_ok names" "amz_headers_signed hs names"
    "cr_service cred = ''s3''" "header_value hs ''x-amz-date'' = Some amz_date" "parse_amz_date amz_date = Some t"
    "date8 amz_date = cr_date8 cred" "skew_seconds now t \<le> 900"
    "resolve_client clients (cr_access_key cred) = Some client"
    "check_signature C P meth raw_path raw_query [] hs names ph cred client amz_date sig = Inr i"
proof -
  have pre: "drop 17 auth = rest" if "strip_prefix ''AWS4-HMAC-SHA256 '' auth = Some rest" for rest
    using strip_prefix_SomeD [OF that] by simp
  show ?thesis
    using assms unfolding verify_header_def rbind_eq_Inr_iff ok_or_eq_Inr_iff
    by (auto simp: validate_signed_headers_iff unsigned_amz_header_None [symmetric] MAX_SKEW_SECS_def
        rbind_eq_Inr_iff not_less dest!: pre split: option.splits if_splits intro!: that)
qed

lemma verify_presigned_Inr:
  assumes "verify_presigned C P meth raw_path raw_query query hs clients now = Inr i"
  obtains cred amz_date raw sig eraw expires names t client where
    "bt_get query ''X-Amz-Date'' = Some amz_date" "bt_get query ''X-Amz-Signature'' = Some sig"
    "bt_get query ''X-Amz-Expires'' = Some eraw" "parse_u64 eraw = Some expires"
    "0 < unat expires" "unat expires \<le> 604800"
    "split_on CHR '';'' raw = names" "signed_list_ok names" "amz_headers_signed hs names"
    "cr_service cred = ''s3''" "parse_amz_date amz_date = Some t" "date8 amz_date = cr_date8 cred"
    "t \<le> now \<or> skew_seconds now t \<le> 900"
    "as_secs (unwrap_or (duration_since now t) 0) \<le> int (unat expires)"
    "resolve_client clients (cr_access_key cred) = Some client"
    "check_signature C P meth raw_path raw_query [''X-Amz-Signature''] hs names ''UNSIGNED-PAYLOAD''
       cred client amz_date sig = Inr i"
  using assms unfolding verify_presigned_def Let_def rbind_eq_Inr_iff ok_or_eq_Inr_iff
  by (auto simp: validate_signed_headers_iff unsigned_amz_header_None [symmetric] MAX_SKEW_SECS_def
      rbind_eq_Inr_iff not_less word_le_nat_alt unat_gt_0 split: option.splits if_splits intro!: that)

section \<open>Signing and verifying agree\<close>

text \<open>Plain text: visible ASCII without the separators of the \<open>Authorization\<close> header.\<close>

definition plain_char :: "char \<Rightarrow> bool" where
  "plain_char c \<longleftrightarrow> (33 :: nat) \<le> of_char c \<and> of_char c \<le> (126 :: nat) \<and> c \<noteq> CHR '','' \<and> c \<noteq> CHR ''/''"

definition plain :: "string \<Rightarrow> bool" where
  "plain s \<longleftrightarrow> list_all plain_char s"

lemma strip_all_plain:
  assumes "s = c # r" "plain_char c" "\<And>p. p \<in> set ps \<Longrightarrow> p \<noteq> [] \<and> \<not> plain_char (hd p)"
  shows "strip_all ps s = s"
proof -
  have "find_prefix ps s = None"
    unfolding find_prefix_def find_None_iff
  proof
    assume "\<exists>p. p \<in> set ps \<and> p \<noteq> [] \<and> take (length p) s = p"
    then obtain p where p: "p \<in> set ps" "p \<noteq> []" "take (length p) s = p" by blast
    have "hd (take (length p) s) = c" using p(2) assms(1) by (cases p) auto
    then have "hd p = c" using p(3) by simp
    with assms(2,3) p show False by blast
  qed
  then show ?thesis by (simp add: strip_all.simps)
qed

lemma white_space_not_plain:
  "p \<in> set white_space \<Longrightarrow> p \<noteq> [] \<and> \<not> plain_char (hd p)"
  "p \<in> set (map rev white_space) \<Longrightarrow> p \<noteq> [] \<and> \<not> plain_char (hd p)"
  by (auto simp: white_space_def plain_char_def)

lemma trim_plain_ends:
  assumes "s \<noteq> []" "plain_char (hd s)" "plain_char (last s)"
  shows "trim s = s"
proof -
  have "strip_all white_space s = s"
    using assms white_space_not_plain(1) by (cases s) (auto intro: strip_all_plain)
  moreover have "strip_all (map rev white_space) (rev s) = rev s"
  proof -
    obtain ys y where s: "s = ys @ [y]" using assms(1) by (cases s rule: rev_cases) auto
    then have "rev s = y # rev ys" "plain_char y" using assms(3) by simp_all
    then show ?thesis using white_space_not_plain(2) by (rule strip_all_plain)
  qed
  ultimately show ?thesis by (simp add: trim_def)
qed

lemma trim_Nil [simp]: "trim [] = []"
proof -
  have "strip_all ps [] = []" for ps :: "string list"
  proof -
    have "find_prefix ps [] = None" by (auto simp: find_prefix_def find_None_iff)
    then show ?thesis by (simp add: strip_all.simps)
  qed
  then show ?thesis by (simp add: trim_def)
qed

lemma plain_simps [simp]:
  "plain []" "plain (c # s) \<longleftrightarrow> plain_char c \<and> plain s" "plain (s @ t) \<longleftrightarrow> plain s \<and> plain t"
  by (simp_all add: plain_def)

lemma plain_no_sep: "plain s \<Longrightarrow> CHR '','' \<notin> set s" "plain s \<Longrightarrow> CHR ''/'' \<notin> set s"
  by (auto simp: plain_def list_all_iff plain_char_def)

lemma plain_hd_last: "plain s \<Longrightarrow> s \<noteq> [] \<Longrightarrow> plain_char (hd s) \<and> plain_char (last s)"
  by (auto simp: plain_def list_all_iff)

lemma trim_plain: "plain s \<Longrightarrow> trim s = s"
  by (cases "s = []") (auto intro!: trim_plain_ends simp: plain_hd_last)

lemma trim_keys:
  "trim '' SignedHeaders'' = ''SignedHeaders''" "trim '' Signature'' = ''Signature''"
  "trim ''Credential'' = ''Credential''"
  by (simp_all add: trim_def strip_all.simps find_prefix_def white_space_def)

lemma parse_credential_built:
  assumes "CHR ''/'' \<notin> set ak" "CHR ''/'' \<notin> set d8" "CHR ''/'' \<notin> set region" "CHR ''/'' \<notin> set service"
  shows "parse_credential (ak @ ''/'' @ credential_scope_of d8 region service) =
    Some \<lparr> cr_access_key = ak, cr_date8 = d8, cr_region = region, cr_service = service \<rparr>"
  using assms
  by (simp add: parse_credential_def credential_scope_of_def numeral_eq_Suc split_once_append)

lemma auth_fields_built:
  assumes "CHR '','' \<notin> set cred" "CHR '','' \<notin> set sh" "CHR '','' \<notin> set sig"
    and "trim cred = cred" "trim sh = sh" "trim sig = sig"
  shows "auth_header_fields no_fields
      (split_on CHR '','' (''Credential='' @ cred @ '', SignedHeaders='' @ sh @ '', Signature='' @ sig)) =
    Inr \<lparr> af_credential = Some cred, af_signed_headers = Some sh, af_signature = Some sig \<rparr>"
proof -
  have "split_on CHR '','' (''Credential='' @ cred @ '', SignedHeaders='' @ sh @ '', Signature='' @ sig) =
      [''Credential='' @ cred, '' SignedHeaders='' @ sh, '' Signature='' @ sig]"
    using split_on_append [of "CHR '',''" "''Credential='' @ cred"]
      split_on_append [of "CHR '',''" "'' SignedHeaders='' @ sh"] split_on_single [of "CHR '',''" "'' Signature='' @ sig"]
      assms(1-3) by simp
  then show ?thesis using assms(4-6) trim_keys by (simp add: no_fields_def)
qed

text \<open>The signature covers only the named headers, so adding the \<open>Authorization\<close> header itself does
  not change it.\<close>

lemma header_line_authorization:
  "\<not> eq_ignore_ascii_case ''authorization'' n \<Longrightarrow> header_line (hs @ [(''authorization'', v)]) n = header_line hs n"
  by (simp add: header_line_def)

lemma canonical_headers_authorization:
  "(\<And>n. n \<in> set names \<Longrightarrow> \<not> eq_ignore_ascii_case ''authorization'' n) \<Longrightarrow>
     canonical_headers_in_order (hs @ [(''authorization'', v)]) names = canonical_headers_in_order hs names"
  by (simp add: canonical_headers_in_order_def header_line_authorization cong: map_cong)

lemma header_value_append:
  "header_value hs n = None \<Longrightarrow> header_value (hs @ [(k, v)]) n = (if eq_ignore_ascii_case k n then Some v else None)"
  "header_value hs n = Some w \<Longrightarrow> header_value (hs @ [(k, v)]) n = Some w"
  by (induction hs) (auto simp: header_value_def split: if_splits)

definition hex_plain :: "crypto \<Rightarrow> bool" where
  "hex_plain C \<longleftrightarrow> (\<forall>b. plain (hex_encode C b))"

text \<open>What a caller of \<open>authorization_header\<close> sends: the signed names are in canonical order, and they
  cover \<open>host\<close> and every \<open>x-amz-*\<close> header.\<close>

definition signable :: "headers \<Rightarrow> string list \<Rightarrow> bool" where
  "signable hs names \<longleftrightarrow> sorted names \<and> signed_list_ok names \<and> amz_headers_signed hs names \<and>
     (\<forall>n \<in> set names. plain n \<and> CHR '';'' \<notin> set n \<and> \<not> eq_ignore_ascii_case ''authorization'' n) \<and>
     header_value hs ''authorization'' = None"

lemma signable_canonical:
  assumes "signable hs names"
  shows "canonical_headers hs names = canonical_headers_in_order hs names"
proof -
  have "map to_ascii_lowercase names = names"
    using assms by (auto simp: signable_def signed_list_ok_def intro: map_idI)
  moreover have "remdups_adj (sort names) = names"
    using assms by (simp add: signable_def signed_list_ok_def sorted_sort_id remdups_adj_distinct)
  ultimately show ?thesis by (simp add: canonical_headers_def)
qed

lemma plain_join: "plain sep \<Longrightarrow> (\<And>x. x \<in> set xs \<Longrightarrow> plain x) \<Longrightarrow> plain (join sep xs)"
  by (induction sep xs rule: join.induct) auto

lemma sign_verify_header:
  assumes "hex_plain C" "signable hs names"
    and "plain ak" "ak \<noteq> []" "plain region" "plain amz_date" "parse_amz_date amz_date = Some t"
    and "header_value hs ''x-amz-date'' = Some amz_date" "skew_seconds now t \<le> 900"
    and "resolve_client clients ak = Some client"
    and auth: "auth = authorization_header C P meth raw_path raw_query hs names ph ak (cc_secret_key client)
                 region ''s3'' amz_date"
  shows "\<exists>i. verify_header C P meth raw_path raw_query (hs @ [(''authorization'', auth)]) auth ph clients now = Inr i \<and>
    id_access_key i = ak \<and> id_backend i = cc_backend client"
proof -
  let ?d8 = "date8 amz_date" and ?sh = "join '';'' names"
  let ?hs = "hs @ [(''authorization'', auth)]"
  let ?scope = "credential_scope_of ?d8 region ''s3''"
  define sig where "sig = request_signature C P meth raw_path raw_query [] hs names ph (cc_secret_key client)
      ?d8 region ''s3'' amz_date"
  have auth_eq: "auth = ''AWS4-HMAC-SHA256 '' @ (''Credential='' @ (ak @ ''/'' @ ?scope) @ '', SignedHeaders='' @ ?sh
      @ '', Signature='' @ sig)"
    unfolding auth sig_def authorization_header_def request_signature_def signable_canonical [OF assms(2)]
    by (simp add: canonical_headers_in_order_def Let_def)
  have d8: "plain ?d8" using assms(6) by (auto simp: date8_def plain_def list_all_iff dest: in_set_takeD)
  have sh: "plain ?sh" using assms(2) by (intro plain_join) (auto simp: signable_def plain_char_def)
  have sg: "plain sig" using assms(1) by (simp add: sig_def request_signature_def signature_hex_def hex_plain_def)
  have cred: "trim (ak @ ''/'' @ ?scope) = ak @ ''/'' @ ?scope" "CHR '','' \<notin> set (ak @ ''/'' @ ?scope)"
  proof -
    show "trim (ak @ ''/'' @ ?scope) = ak @ ''/'' @ ?scope"
      using plain_hd_last [OF assms(3,4)] assms(4)
      by (intro trim_plain_ends) (auto simp: credential_scope_of_def plain_char_def)
    show "CHR '','' \<notin> set (ak @ ''/'' @ ?scope)"
      using plain_no_sep(1) [OF assms(3)] plain_no_sep(1) [OF assms(5)] plain_no_sep(1) [OF d8]
      by (simp add: credential_scope_of_def)
  qed
  have fields: "auth_header_fields no_fields (split_on CHR '','' (''Credential='' @ (ak @ ''/'' @ ?scope) @ '', SignedHeaders='' @ ?sh
      @ '', Signature='' @ sig)) = Inr \<lparr> af_credential = Some (ak @ ''/'' @ ?scope), af_signed_headers = Some ?sh, af_signature = Some sig \<rparr>"
    using cred sh sg by (intro auth_fields_built) (auto simp: plain_no_sep trim_plain)
  have pc: "parse_credential (ak @ ''/'' @ ?scope) =
      Some \<lparr> cr_access_key = ak, cr_date8 = ?d8, cr_region = region, cr_service = ''s3'' \<rparr>"
    using assms(3,5) d8 by (intro parse_credential_built) (auto simp: plain_no_sep)
  have names: "validate_signed_headers ?sh = Some names" "unsigned_amz_header ?hs names = None"
  proof -
    have "split_on CHR '';'' ?sh = names"
      using assms(2) by (intro split_on_join) (auto simp: signable_def signed_list_ok_def)
    then show "validate_signed_headers ?sh = Some names"
      using assms(2) by (simp add: validate_signed_headers_iff signable_def)
    have "\<not> starts_with (to_ascii_lowercase ''authorization'') ''x-amz-''"
      by (simp add: starts_with_def to_ascii_lowercase_def lower_char_def)
    then show "unsigned_amz_header ?hs names = None"
      using assms(2) by (auto simp: unsigned_amz_header_None signable_def amz_headers_signed_def)
  qed
  have hdr: "header_value ?hs ''x-amz-date'' = Some amz_date" using assms(8) by (rule header_value_append)
  have chk: "check_signature C P meth raw_path raw_query [] ?hs names ph
      \<lparr> cr_access_key = ak, cr_date8 = ?d8, cr_region = region, cr_service = ''s3'' \<rparr> client amz_date sig =
    Inr \<lparr> id_access_key = ak, id_backend = cc_backend client,
          id_chunk_seed = \<lparr> cs_signing_key = signing_key C (cc_secret_key client) ?d8 region ''s3'',
            cs_seed_signature = sig, cs_amz_date = amz_date, cs_credential_scope = ?scope \<rparr> \<rparr>"
    using assms(2) unfolding check_signature_iff sig_def request_signature_def
    by (simp add: canonical_headers_authorization signable_def)
  have sp: "strip_prefix ''AWS4-HMAC-SHA256 '' auth = Some (''Credential='' @ (ak @ ''/'' @ ?scope)
      @ '', SignedHeaders='' @ ?sh @ '', Signature='' @ sig)"
    unfolding auth_eq by (rule strip_prefix_append)
  show ?thesis
    unfolding verify_header_def sp ok_or_simps rbind_Inr fields auth_fields.select_convs pc names
    by (simp add: hdr chk assms(7,9,10) MAX_SKEW_SECS_def not_less)
qed

section \<open>Properties\<close>

definition presigned :: "pct \<Rightarrow> string \<Rightarrow> bool" where
  "presigned P raw_query \<longleftrightarrow> bt_get (parse_query_pairs P raw_query) ''X-Amz-Signature'' \<noteq> None"

lemma verify_Inr_cases:
  assumes "verify C P meth raw_path raw_query hs ph clients now = Inr i"
  shows "if presigned P raw_query
    then verify_presigned C P meth raw_path raw_query (parse_query_pairs P raw_query) hs clients now = Inr i
    else \<exists>auth. verify_header C P meth raw_path raw_query hs auth ph clients now = Inr i"
  using assms by (auto simp: verify_def presigned_def Let_def split: option.splits if_splits)

lemma presigned_window:
  assumes "t \<le> now \<or> skew_seconds now t \<le> 900" "as_secs (unwrap_or (duration_since now t) 0) \<le> e" "0 < e" "e \<le> 604800"
  shows "(t - now) div 1000000000 \<le> 900" "(now - t) div 1000000000 \<le> 604800"
proof -
  show "(t - now) div 1000000000 \<le> 900"
  proof (cases "t \<le> now")
    case True
    then have "(t - now) div 1000000000 \<le> 0" by linarith
    then show ?thesis by simp
  next
    case False
    with assms(1) have "\<bar>now - t\<bar> div 1000000000 \<le> 900" by (simp add: skew_seconds_eq)
    moreover have "\<bar>now - t\<bar> = t - now" using False by simp
    ultimately show ?thesis by simp
  qed
  show "(now - t) div 1000000000 \<le> 604800"
  proof (cases "t \<le> now")
    case True
    with assms(2,4) show ?thesis by (simp add: duration_since_def unwrap_or_def as_secs_def)
  next
    case False
    then have "(now - t) div 1000000000 \<le> 0" by linarith
    then show ?thesis by simp
  qed
qed


text \<open>C31. Signing and verifying agree: a request signed by \<open>authorization_header\<close> with a client's own
  secret is accepted as that client, as long as the signed names are in canonical order and cover
  \<open>host\<close> and every \<open>x-amz-*\<close> header, the clock is within 15 minutes and the query is not presigned.\<close>

theorem signed_request_is_accepted:
  assumes "hex_plain C" "signable hs names"
    and "plain ak" "ak \<noteq> []" "plain region" "plain amz_date" "parse_amz_date amz_date = Some t"
    and "header_value hs ''x-amz-date'' = Some amz_date" "skew_seconds now t \<le> 900"
    and "resolve_client clients ak = Some client" "\<not> presigned P raw_query"
    and "auth = authorization_header C P meth raw_path raw_query hs names ph ak (cc_secret_key client)
                 region ''s3'' amz_date"
  shows "\<exists>i. verify C P meth raw_path raw_query (hs @ [(''authorization'', auth)]) ph clients now = Inr i \<and>
    id_access_key i = ak \<and> id_backend i = cc_backend client"
proof -
  have "header_value (hs @ [(''authorization'', auth)]) ''authorization'' = Some auth"
    using assms(2) header_value_append(1) [of hs "''authorization''"] by (simp add: signable_def)
  with sign_verify_header [OF assms(1-10) assms(12)] assms(11) show ?thesis
    by (simp add: verify_def presigned_def)
qed

definition sample_headers :: headers where
  "sample_headers = [(''Host'', ''h''), (''X-Amz-Date'', ''20240101T000000Z'')]"

definition sample_clients :: "(string, client_credentials) btree" where
  "sample_clients = [(''main'', \<lparr> cc_access_key = ''AK'', cc_secret_key = ''SK'', cc_backend = ''default'' \<rparr>)]"

definition sample_auth :: string where
  "sample_auth = authorization_header sample_crypto sample_pct ''GET'' ''/b/k'' '''' sample_headers
     [''host'', ''x-amz-date''] ''UNSIGNED-PAYLOAD'' ''AK'' ''SK'' ''r'' ''s3'' ''20240101T000000Z''"

lemma sample_hex_plain: "hex_plain sample_crypto"
proof -
  have "plain_char (char_of (97 + unat x div 16))" "plain_char (char_of (97 + unat x mod 16))" for x :: u8
  proof -
    have "unat x div 16 < 16" using unat_u8_less [of x] by simp
    then show "plain_char (char_of (97 + unat x div 16))" "plain_char (char_of (97 + unat x mod 16))"
      by (auto simp: plain_char_def dest: arg_cong [where f = "of_char :: char \<Rightarrow> nat"])
  qed
  then show ?thesis by (auto simp: hex_plain_def sample_crypto_def plain_def list_all_iff)
qed

lemma sample_signable: "signable sample_headers [''host'', ''x-amz-date'']"
  by (auto simp: signable_def sample_headers_def signed_list_ok_def amz_headers_signed_def plain_char_def
      header_value_def eq_ignore_ascii_case_def to_ascii_lowercase_def lower_char_def starts_with_def
      less_char_def char_of_eq_iff)

lemma sample_date: "parse_amz_date ''20240101T000000Z'' = Some 1704067200000000000"
  by (simp add: parse_amz_date_def digit_run_def str_get_def parse_u32_def parse_unsigned_def
      digit_value_def days_from_civil_def unat_of_nat)

lemma sample_not_presigned: "\<not> presigned sample_pct ''''"
  by (simp add: presigned_def parse_query_pairs_def bt_from_list_def)

definition sample_client :: client_credentials where
  "sample_client = \<lparr> cc_access_key = ''AK'', cc_secret_key = ''SK'', cc_backend = ''default'' \<rparr>"

lemma sample_facts:
  "plain ''AK''" "''AK'' \<noteq> ''''" "plain ''r''" "plain ''20240101T000000Z''"
  "header_value sample_headers ''x-amz-date'' = Some ''20240101T000000Z''"
  "skew_seconds 1704067260000000000 1704067200000000000 \<le> 900"
  "resolve_client sample_clients ''AK'' = Some sample_client"
  "sample_auth = authorization_header sample_crypto sample_pct ''GET'' ''/b/k'' '''' sample_headers
     [''host'', ''x-amz-date''] ''UNSIGNED-PAYLOAD'' ''AK'' (cc_secret_key sample_client) ''r'' ''s3'' ''20240101T000000Z''"
  by (simp_all add: plain_char_def sample_headers_def header_value_def eq_ignore_ascii_case_def
      to_ascii_lowercase_def lower_char_def skew_seconds_eq resolve_client_def sample_clients_def
      sample_client_def sample_auth_def char_of_eq_iff)

theorem signed_request_witness:
  "\<exists>i. verify sample_crypto sample_pct ''GET'' ''/b/k'' '''' (sample_headers @ [(''authorization'', sample_auth)])
      ''UNSIGNED-PAYLOAD'' sample_clients 1704067260000000000 = Inr i \<and>
    id_access_key i = ''AK'' \<and> id_backend i = cc_backend sample_client"
  by (rule signed_request_is_accepted [OF sample_hex_plain sample_signable sample_facts(1-4) sample_date
        sample_facts(5-7) sample_not_presigned sample_facts(8)])


end
