(* ===== verification/Errors.thy ===== *)
theory Errors
  imports Verify
begin

text \<open>
  The error mapper (\<open>proxy/error.rs\<close>): the S3-shaped error, its constructors, the conversions from the
  format's and the verifier's errors with the messages their \<open>Display\<close> implementations print, and the
  XML response. A status code is a number and a response is its status, headers and body; header names
  are in the lower case in which the \<open>http\<close> crate stores them.
\<close>

record response =
  rs_status :: nat
  rs_headers :: headers
  rs_body :: bytes

section \<open>The error and its constructors\<close>

record s3error =
  e_status :: nat
  e_code :: string
  e_message :: string

definition S3Error_new :: "nat \<Rightarrow> string \<Rightarrow> string \<Rightarrow> s3error" where
  "S3Error_new status code message = \<lparr> e_status = status, e_code = code, e_message = message \<rparr>"

definition access_denied :: "string \<Rightarrow> s3error" where
  "access_denied message = S3Error_new 403 ''AccessDenied'' message"

definition signature_does_not_match :: s3error where
  "signature_does_not_match = S3Error_new 403 ''SignatureDoesNotMatch''
     ''The request signature we calculated does not match the signature you provided''"

definition request_time_too_skewed :: s3error where
  "request_time_too_skewed = S3Error_new 403 ''RequestTimeTooSkewed''
     ''The difference between the request time and the current time is too large''"

definition expired_token :: s3error where
  "expired_token = S3Error_new 403 ''ExpiredToken'' ''The presigned URL has expired''"

definition invalid_access_key :: s3error where
  "invalid_access_key = S3Error_new 403 ''InvalidAccessKeyId''
     ''The access key ID you provided does not exist in our records''"

definition not_implemented :: "string \<Rightarrow> s3error" where
  "not_implemented op = S3Error_new 501 ''NotImplemented'' (op @ '' is not supported by this proxy'')"

definition bad_digest :: s3error where
  "bad_digest = S3Error_new 400 ''BadDigest'' ''The Content-MD5 you specified did not match what we received.''"

definition payload_hash_mismatch :: "string \<Rightarrow> string \<Rightarrow> s3error" where
  "payload_hash_mismatch expected got = S3Error_new 400 ''XAmzContentSHA256Mismatch''
     (''The provided x-amz-content-sha256 header does not match what was computed: expected '' @ expected
      @ '', got '' @ got)"

definition incomplete_body :: "string \<Rightarrow> s3error" where
  "incomplete_body message = S3Error_new 400 ''IncompleteBody'' message"

definition bad_gateway :: "string \<Rightarrow> s3error" where
  "bad_gateway message = S3Error_new 502 ''BadGateway'' message"

definition gateway_timeout :: "string \<Rightarrow> s3error" where
  "gateway_timeout message = S3Error_new 504 ''GatewayTimeout'' message"

definition slow_down :: "string \<Rightarrow> s3error" where
  "slow_down message = S3Error_new 429 ''SlowDown'' message"

definition missing_content_length :: s3error where
  "missing_content_length = S3Error_new 411 ''MissingContentLength''
     ''You must provide the Content-Length HTTP header.''"

definition key_not_available :: "string \<Rightarrow> s3error" where
  "key_not_available kid = S3Error_new 503 ''KeyNotAvailable'' (''no usable key for key id '' @ kid)"

definition invalid_range :: s3error where
  "invalid_range = S3Error_new 416 ''InvalidRange'' ''The requested range cannot be satisfied.''"

definition no_such_upload :: "string \<Rightarrow> s3error" where
  "no_such_upload upload_id = S3Error_new 404 ''NoSuchUpload''
     (''The specified upload does not exist: '' @ upload_id)"

definition precondition_failed :: s3error where
  "precondition_failed = S3Error_new 412 ''PreconditionFailed''
     ''At least one of the pre-conditions you specified did not hold''"

definition invalid_part :: "string \<Rightarrow> s3error" where
  "invalid_part message = S3Error_new 400 ''InvalidPart'' message"

definition invalid_part_order :: s3error where
  "invalid_part_order = S3Error_new 400 ''InvalidPartOrder''
     ''The list of parts was not in ascending order''"

lemmas s3error_defs = S3Error_new_def access_denied_def signature_does_not_match_def
  request_time_too_skewed_def expired_token_def invalid_access_key_def not_implemented_def
  bad_digest_def payload_hash_mismatch_def incomplete_body_def bad_gateway_def gateway_timeout_def
  slow_down_def missing_content_length_def key_not_available_def invalid_range_def no_such_upload_def
  precondition_failed_def invalid_part_def invalid_part_order_def

section \<open>The response\<close>

definition xml_char :: "char \<Rightarrow> string" where
  "xml_char c =
     (if c = CHR ''&'' then ''&amp;''
      else if c = CHR ''<'' then ''&lt;''
      else if c = CHR ''>'' then ''&gt;''
      else if c = CHR 0x22 then ''&quot;''
      else if c = CHR 0x27 then ''&apos;''
      else [c])"

definition escaped_message :: "string \<Rightarrow> string" where
  "escaped_message s = concat (map xml_char s)"

definition error_body :: "s3error \<Rightarrow> string \<Rightarrow> string" where
  "error_body e request_id =
     ''<?xml version='' @ [CHR 0x22] @ ''1.0'' @ [CHR 0x22] @ '' encoding='' @ [CHR 0x22] @ ''UTF-8'' @ [CHR 0x22]
     @ ''?>'' @ [CHR 0x0A] @ ''<Error><Code>'' @ e_code e @ ''</Code><Message>'' @ escaped_message (e_message e)
     @ ''</Message><RequestId>'' @ request_id @ ''</RequestId></Error>''"

definition into_response :: "s3error \<Rightarrow> string \<Rightarrow> response" where
  "into_response e request_id =
     \<lparr> rs_status = e_status e,
       rs_headers = [(''content-type'', ''application/xml''), (''x-amz-request-id'', request_id)],
       rs_body = str_bytes (error_body e request_id) \<rparr>"

section \<open>Conversions\<close>

definition error_string :: "error \<Rightarrow> string" where
  "error_string e =
     (case e of
        Truncated need got \<Rightarrow> ''truncated input: need at least '' @ dec_string need @ '' bytes, got '' @ dec_string got
      | AuthFailed \<Rightarrow> ''authentication failed''
      | InvalidLength \<Rightarrow> ''invalid frame or ciphertext length''
      | UnknownVersion v \<Rightarrow> ''unknown format version: '' @ dec_string (unat v)
      | UnknownAlg a \<Rightarrow> ''unknown algorithm id: '' @ dec_string (unat a)
      | MissingMetadata k \<Rightarrow> ''missing metadata key: '' @ k
      | InvalidMetadata k v \<Rightarrow> ''invalid metadata value for '' @ k @ '': '' @ v
      | InvalidFooter \<Rightarrow> ''footer trailer not found or corrupt''
      | UnwrapFailed \<Rightarrow> ''key unwrap failed''
      | KeyNotAvailable \<Rightarrow> ''key not available for this operation'')"

definition from_format_error :: "error \<Rightarrow> s3error" where
  "from_format_error e =
     (case e of
        KeyNotAvailable \<Rightarrow> key_not_available ''?''
      | UnwrapFailed \<Rightarrow> S3Error_new 403 ''AccessDenied'' (error_string e)
      | AuthFailed \<Rightarrow> S3Error_new 403 ''AccessDenied'' (error_string e)
      | Truncated _ _ \<Rightarrow> S3Error_new 403 ''AccessDenied'' (error_string e)
      | InvalidLength \<Rightarrow> S3Error_new 403 ''AccessDenied'' (error_string e)
      | InvalidFooter \<Rightarrow> S3Error_new 403 ''AccessDenied'' (error_string e)
      | UnknownVersion _ \<Rightarrow> S3Error_new 502 ''BadGateway'' (error_string e)
      | UnknownAlg _ \<Rightarrow> S3Error_new 502 ''BadGateway'' (error_string e)
      | MissingMetadata _ \<Rightarrow> S3Error_new 502 ''BadGateway'' (error_string e)
      | InvalidMetadata _ _ \<Rightarrow> S3Error_new 502 ''BadGateway'' (error_string e))"

definition verify_error_string :: "verify_error \<Rightarrow> string" where
  "verify_error_string e =
     (case e of
        NoAuth \<Rightarrow> ''no Authorization header and no presigned query auth''
      | MalformedAuthHeader \<Rightarrow> ''malformed Authorization header''
      | MalformedPresignedQuery \<Rightarrow> ''malformed presigned query parameters''
      | UnknownAccessKey \<Rightarrow> ''unknown access key''
      | BadSignedHeaders s \<Rightarrow> ''SignedHeaders must be lowercase, unique, and include host (got: '' @ s @ '')''
      | MissingHeader h \<Rightarrow> ''missing required header: '' @ h
      | ClockSkew \<Rightarrow> ''timestamp is outside the +/-15 minute skew window''
      | DateMismatch \<Rightarrow> ''credential scope date does not match the request date''
      | BadScope \<Rightarrow> ''credential scope service must be s3''
      | BadSignature \<Rightarrow> ''signature does not match''
      | Expired \<Rightarrow> ''presigned URL has expired''
      | BadExpires \<Rightarrow> ''invalid X-Amz-Expires value''
      | UnsignedAmzHeader h \<Rightarrow> ''request has an x-amz-* header that is not in SignedHeaders: '' @ h)"

definition from_verify_error :: "verify_error \<Rightarrow> s3error" where
  "from_verify_error e =
     (case e of
        UnknownAccessKey \<Rightarrow> invalid_access_key
      | ClockSkew \<Rightarrow> request_time_too_skewed
      | DateMismatch \<Rightarrow> request_time_too_skewed
      | BadSignature \<Rightarrow> signature_does_not_match
      | Expired \<Rightarrow> expired_token
      | _ \<Rightarrow> access_denied (verify_error_string e))"

section \<open>Reading the body back\<close>

text \<open>A reference reader of XML text: it stops at the first \<open><\<close>, resolves the five predefined
  entities, and fails on any other ampersand.\<close>

definition entities :: "(string \<times> char) list" where
  "entities = [(''amp;'', CHR ''&''), (''lt;'', CHR ''<''), (''gt;'', CHR ''>''),
     (''quot;'', CHR 0x22), (''apos;'', CHR 0x27)]"

function read_text :: "string \<Rightarrow> (string \<times> string) option" where
  "read_text [] = None"
| "read_text (c # s) =
     (if c = CHR ''<'' then Some ([], c # s)
      else if c = CHR ''&'' then
        (case List.find (\<lambda>(n, _). starts_with s n) entities of
           None \<Rightarrow> None
         | Some (n, x) \<Rightarrow> map_option (map_prod ((#) x) id) (read_text (drop (length n) s)))
      else map_option (map_prod ((#) c) id) (read_text s))"
  by pat_completeness auto
termination by (relation "measure length") auto

lemma read_text_escaped: "read_text (escaped_message s @ CHR ''<'' # rest) = Some (s, CHR ''<'' # rest)"
  by (induction s) (auto simp: escaped_message_def xml_char_def entities_def starts_with_def)

text \<open>The error body is one well-formed element whatever the message holds: reading the text after
  the code gives back exactly the message and stops at the closing tag, so no message can forge another
  element, and the status and the request id are those of the error and the request.\<close>

theorem error_response_quotes_message:
  "\<exists>head. rs_body (into_response e request_id)
       = str_bytes (head @ ''<Error><Code>'' @ e_code e @ ''</Code><Message>'' @ escaped_message (e_message e)
           @ ''</Message><RequestId>'' @ request_id @ ''</RequestId></Error>'') \<and>
     read_text (escaped_message (e_message e) @ ''</Message><RequestId>'' @ request_id @ ''</RequestId></Error>'')
       = Some (e_message e, ''</Message><RequestId>'' @ request_id @ ''</RequestId></Error>'') \<and>
     rs_status (into_response e request_id) = e_status e \<and>
     (''x-amz-request-id'', request_id) \<in> set (rs_headers (into_response e request_id))"
  using read_text_escaped [of "e_message e" "''/Message><RequestId>'' @ request_id @ ''</RequestId></Error>''"]
  by (auto simp: into_response_def error_body_def intro!: exI [of _ "''<?xml version='' @ [CHR 0x22] @ ''1.0''
      @ [CHR 0x22] @ '' encoding='' @ [CHR 0x22] @ ''UTF-8'' @ [CHR 0x22] @ ''?>'' @ [CHR 0x0A]"])

text \<open>Failures map to definite statuses: a failed authentication of stored data (tag, length, footer,
  key unwrap) is 403 AccessDenied and never a gateway error a client would retry; a missing key is 503; metadata the proxy
  cannot read is 502; and every refused signature is 403.\<close>

lemma error_statuses:
  "e_status (from_format_error e) =
     (if e \<in> {UnwrapFailed, AuthFailed, InvalidLength, InvalidFooter} \<or> (\<exists>n g. e = Truncated n g) then 403
      else if e = KeyNotAvailable then 503 else 502)"
  "e_status (from_verify_error v) = 403"
  by (cases e; simp add: from_format_error_def s3error_defs)
    (cases v; simp add: from_verify_error_def s3error_defs)

end
