(* ===== verification/Headers.thy ===== *)
theory Headers
  imports Errors
begin

text \<open>
  Header and query rewriting (\<open>proxy/headers.rs\<close> and the helpers of \<open>proxy/mod.rs\<close>): what is stripped
  before a request goes to the backend, what is stripped from a decrypted response, and the list
  operations \<open>header_value\<close> and \<open>set_header\<close>, whose contract is the locale \<open>header_store\<close>. A header map is
  the list of its pairs, as \<open>to_pairs\<close> produces it.
\<close>

section \<open>Header lists\<close>

text \<open>The pairs of a header map whose values are still bytes. Requests and responses enter the model after it.\<close>

definition to_pairs :: "pct \<Rightarrow> (string \<times> bytes) list \<Rightarrow> headers" where
  "to_pairs P hm = map (\<lambda>(name, value). (name, decode_utf8_lossy P value)) hm"

definition set_header :: "headers \<Rightarrow> string \<Rightarrow> string \<Rightarrow> headers" where
  "set_header hs name value = filter (\<lambda>(k, _). \<not> eq_ignore_ascii_case k name) hs @ [(name, value)]"

definition remove_header :: "string \<Rightarrow> headers \<Rightarrow> headers" where
  "remove_header name hs = filter (\<lambda>(k, _). \<not> eq_ignore_ascii_case k name) hs"

locale header_store =
  fixes get :: "'h \<Rightarrow> string \<Rightarrow> 'v option" and set :: "'h \<Rightarrow> string \<Rightarrow> 'v \<Rightarrow> 'h"
    and same :: "string \<Rightarrow> string \<Rightarrow> bool"
  assumes get_set: "get (set h n v) m = (if same n m then Some v else get h m)"
    and same_refl: "same n n"
begin

lemma get_set_same: "get (set h n v) n = Some v"
  by (simp add: get_set same_refl)

text \<open>Setting a list of headers one after the other: the last one with the name wins.\<close>

lemma get_set_all:
  "get (fold (\<lambda>(n, v) h. set h n v) kvs h) m =
     (case List.find (\<lambda>(n, _). same n m) (rev kvs) of Some (_, v) \<Rightarrow> Some v | None \<Rightarrow> get h m)"
proof (induction kvs arbitrary: h)
  case (Cons kv kvs)
  have "List.find P (xs @ [x]) = (case List.find P xs of None \<Rightarrow> if P x then Some x else None | Some y \<Rightarrow> Some y)"
    for P and xs :: "(string \<times> 'v) list" and x by (induction xs) auto
  with Cons show ?case by (cases kv) (auto simp: get_set split: option.splits)
qed simp

lemma get_set_all_other:
  "\<forall>(n, v) \<in> List.set kvs. \<not> same n m \<Longrightarrow> get (fold (\<lambda>(n, v) h. set h n v) kvs h) m = get h m"
  by (induction kvs arbitrary: h) (auto simp: get_set)

end

lemma find_filter_other: "(\<And>x. P x \<Longrightarrow> Q x) \<Longrightarrow> List.find P (filter Q xs) = List.find P xs"
  by (induction xs) auto

lemma find_append: "List.find P (xs @ ys) = (case List.find P xs of None \<Rightarrow> List.find P ys | Some y \<Rightarrow> Some y)"
  by (induction xs) auto

lemma find_None: "(\<And>x. x \<in> set xs \<Longrightarrow> \<not> P x) \<Longrightarrow> List.find P xs = None"
  by (induction xs) auto

lemma header_value_set_header:
  "header_value (set_header hs n v) m = (if eq_ignore_ascii_case n m then Some v else header_value hs m)"
proof (cases "eq_ignore_ascii_case n m")
  case True
  have "List.find (\<lambda>(k, _). eq_ignore_ascii_case k m) (filter (\<lambda>(k, _). \<not> eq_ignore_ascii_case k n) hs) = None"
    by (rule find_None) (use True in \<open>auto simp: eq_ignore_ascii_case_def\<close>)
  with True show ?thesis by (simp add: header_value_def set_header_def find_append)
next
  case False
  have "List.find (\<lambda>(k, _). eq_ignore_ascii_case k m) (filter (\<lambda>(k, _). \<not> eq_ignore_ascii_case k n) hs)
      = List.find (\<lambda>(k, _). eq_ignore_ascii_case k m) hs"
    by (rule find_filter_other) (use False in \<open>auto simp: eq_ignore_ascii_case_def\<close>)
  with False show ?thesis by (simp add: header_value_def set_header_def find_append split: option.splits)
qed

interpretation hdr: header_store header_value set_header eq_ignore_ascii_case
  by unfold_locales (simp_all add: header_value_set_header)

definition is_hop_by_hop_response_header :: "string \<Rightarrow> bool" where
  "is_hop_by_hop_response_header name \<longleftrightarrow>
     to_ascii_lowercase name \<in>
       {''connection'', ''keep-alive'', ''te'', ''trailer'', ''transfer-encoding'', ''upgrade''}"

definition header_u64 :: "headers \<Rightarrow> string \<Rightarrow> u64 option" where
  "header_u64 hs name = Option.bind (header_value hs name) parse_u64"

section \<open>Stripping\<close>

definition STRIP_ALWAYS :: "string list" where
  "STRIP_ALWAYS =
     [''authorization'', ''content-md5'', ''x-amz-sdk-checksum-algorithm'', ''x-amz-checksum-algorithm'',
      ''expect'', ''connection'', ''keep-alive'', ''te'', ''trailer'', ''transfer-encoding'', ''upgrade'',
      ''proxy-authenticate'', ''proxy-authorization'', ''proxy-connection'']"

definition is_checksum_header :: "string \<Rightarrow> bool" where
  "is_checksum_header name \<longleftrightarrow>
     eq_ignore_ascii_case name ''x-amz-checksum-crc32''
     \<or> eq_ignore_ascii_case name ''x-amz-checksum-crc32c''
     \<or> eq_ignore_ascii_case name ''x-amz-checksum-crc64nvme''
     \<or> eq_ignore_ascii_case name ''x-amz-checksum-sha1''
     \<or> eq_ignore_ascii_case name ''x-amz-checksum-sha256''"

definition is_own_metadata_header :: "string \<Rightarrow> bool" where
  "is_own_metadata_header header_name =
     (case strip_prefix ''x-amz-meta-'' (to_ascii_lowercase header_name) of
        None \<Rightarrow> False
      | Some rest \<Rightarrow> starts_with rest ''s3a-'')"

definition strip_for_backend :: "headers \<Rightarrow> headers" where
  "strip_for_backend hs =
     filter (\<lambda>(name, _). \<not> list_ex (\<lambda>s. eq_ignore_ascii_case name s) STRIP_ALWAYS
        \<and> \<not> is_checksum_header name \<and> \<not> is_own_metadata_header name) hs"

definition strip_aws_chunked_token :: "string \<Rightarrow> string option" where
  "strip_aws_chunked_token content_encoding =
     (let remaining = filter (\<lambda>tok. \<not> eq_ignore_ascii_case tok ''aws-chunked'' \<and> tok \<noteq> '''')
            (map trim (split_on CHR '','' content_encoding)) in
      if remaining = [] then None else Some (join '','' remaining))"

definition strip_s3armor_metadata :: "headers \<Rightarrow> headers" where
  "strip_s3armor_metadata hs =
     (let doomed = map fst (filter (\<lambda>(k, _). is_own_metadata_header k \<or> is_checksum_header k) hs)
      in fold remove_header doomed hs)"

definition PRESIGNED_QUERY_PARAMS :: "string list" where
  "PRESIGNED_QUERY_PARAMS =
     [''X-Amz-Algorithm'', ''X-Amz-Credential'', ''X-Amz-Date'', ''X-Amz-Expires'', ''X-Amz-SignedHeaders'',
      ''X-Amz-Signature'', ''X-Amz-Security-Token'']"

definition query_key :: "string \<Rightarrow> string" where
  "query_key pair = hd (split_on CHR ''='' pair)"

definition filter_query :: "pct \<Rightarrow> string \<Rightarrow> string list \<Rightarrow> string" where
  "filter_query P raw_query drop_keys =
     join ''&''
       (filter (\<lambda>pair. \<not> list_ex (\<lambda>d. eq_ignore_ascii_case d (decode_utf8_lossy P (percent_decode P (query_key pair)))) drop_keys)
         (filter (\<lambda>pair. pair \<noteq> '''') (split_on CHR ''&'' raw_query)))"

text \<open>The rewriting of a verified request's headers in \<open>handle_inner\<close>, in its order: the decoded length
  becomes the length, the chunked-transfer headers and the \<open>aws-chunked\<close> token go, then the strip list.\<close>

definition outbound_headers_of :: "headers \<Rightarrow> headers" where
  "outbound_headers_of header_pairs =
     (let hs = (case header_value header_pairs ''x-amz-decoded-content-length'' of
                  Some decoded_len \<Rightarrow> set_header header_pairs ''content-length'' decoded_len
                | None \<Rightarrow> header_pairs);
          hs = filter (\<lambda>(k, _). \<not> eq_ignore_ascii_case k ''x-amz-decoded-content-length''
                             \<and> \<not> eq_ignore_ascii_case k ''x-amz-trailer'') hs;
          hs = (case header_value hs ''content-encoding'' of
                  Some ce \<Rightarrow> (case strip_aws_chunked_token ce of
                                Some new_ce \<Rightarrow> set_header hs ''content-encoding'' new_ce
                              | None \<Rightarrow> remove_header ''content-encoding'' hs)
                | None \<Rightarrow> hs)
      in strip_for_backend hs)"

section \<open>What stripping leaves\<close>

text \<open>The headers the proxy claims for itself, hides or owns towards the backend.\<close>

definition never_forwarded :: "string \<Rightarrow> bool" where
  "never_forwarded name \<longleftrightarrow>
     to_ascii_lowercase name \<in> set STRIP_ALWAYS
     \<or> to_ascii_lowercase name \<in> {''x-amz-checksum-crc32'', ''x-amz-checksum-crc32c'', ''x-amz-checksum-crc64nvme'',
          ''x-amz-checksum-sha1'', ''x-amz-checksum-sha256''}
     \<or> (\<exists>rest. to_ascii_lowercase name = ''x-amz-meta-s3a-'' @ rest)"

lemma lower_char_eq: "of_char c < (65::nat) \<or> 90 < (of_char c :: nat) \<Longrightarrow> lower_char c = c"
  by (auto simp: lower_char_def Let_def)

lemma lowercase_eqI: "list_all (\<lambda>c. of_char c < (65::nat) \<or> 90 < (of_char c :: nat)) s \<Longrightarrow> to_ascii_lowercase s = s"
  by (induction s) (auto simp: to_ascii_lowercase_def lower_char_eq)

lemma lowercase_literals:
  "to_ascii_lowercase ''x-amz-checksum-crc32'' = ''x-amz-checksum-crc32''"
  "to_ascii_lowercase ''x-amz-checksum-crc32c'' = ''x-amz-checksum-crc32c''"
  "to_ascii_lowercase ''x-amz-checksum-crc64nvme'' = ''x-amz-checksum-crc64nvme''"
  "to_ascii_lowercase ''x-amz-checksum-sha1'' = ''x-amz-checksum-sha1''"
  "to_ascii_lowercase ''x-amz-checksum-sha256'' = ''x-amz-checksum-sha256''"
  by (rule lowercase_eqI, simp)+

lemma strip_always_lowercase: "list_all (\<lambda>s. to_ascii_lowercase s = s) STRIP_ALWAYS"
  by (simp add: STRIP_ALWAYS_def lowercase_eqI)

lemma starts_with_iff: "starts_with s p \<longleftrightarrow> (\<exists>rest. s = p @ rest)"
  by (metis append_take_drop_id append_eq_conv_conj starts_with_def)

lemma own_metadata_iff:
  "is_own_metadata_header n \<longleftrightarrow> (\<exists>rest. to_ascii_lowercase n = ''x-amz-meta-s3a-'' @ rest)"
proof (cases "strip_prefix ''x-amz-meta-'' (to_ascii_lowercase n)")
  case None
  then have "to_ascii_lowercase n \<noteq> ''x-amz-meta-'' @ r" for r by (metis option.simps(3) strip_prefix_append)
  from this [of "''s3a-'' @ r" for r] None show ?thesis by (simp add: is_own_metadata_header_def)
next
  case (Some r)
  from strip_prefix_SomeD [OF this] Some show ?thesis
    by (simp add: is_own_metadata_header_def starts_with_iff)
qed

lemma stripped_iff:
  "list_ex (\<lambda>s. eq_ignore_ascii_case n s) STRIP_ALWAYS \<or> is_checksum_header n \<or> is_own_metadata_header n
   \<longleftrightarrow> never_forwarded n"
proof -
  have "list_ex (\<lambda>s. eq_ignore_ascii_case n s) STRIP_ALWAYS \<longleftrightarrow> to_ascii_lowercase n \<in> set STRIP_ALWAYS"
    using strip_always_lowercase by (auto simp: list_ex_iff list_all_iff eq_ignore_ascii_case_def)
  then show ?thesis
    by (simp add: never_forwarded_def eq_ignore_ascii_case_def lowercase_literals is_checksum_header_def
        own_metadata_iff)
qed

lemma set_strip_for_backend: "set (strip_for_backend hs) = {(n, v) \<in> set hs. \<not> never_forwarded n}"
  using stripped_iff by (auto simp: strip_for_backend_def)


lemma never_forwarded_cong: "eq_ignore_ascii_case n m \<Longrightarrow> never_forwarded n = never_forwarded m"
  by (simp add: never_forwarded_def eq_ignore_ascii_case_def)

text \<open>A header is untouched by a rewriting that only sets or removes names outside the predicate.\<close>

lemma filter_set_header_other:
  "(\<And>k. eq_ignore_ascii_case k n \<Longrightarrow> \<not> Q k)
   \<Longrightarrow> filter (\<lambda>(k, _). Q k) (set_header hs n v) = filter (\<lambda>(k, _). Q k) hs"
proof -
  assume Q: "\<And>k. eq_ignore_ascii_case k n \<Longrightarrow> \<not> Q k"
  have "filter (\<lambda>(k, _). Q k) (filter (\<lambda>(k, _). \<not> eq_ignore_ascii_case k n) hs) = filter (\<lambda>(k, _). Q k) hs"
    unfolding filter_filter by (rule filter_cong) (use Q in auto)
  moreover have "\<not> Q n" using Q by simp
  ultimately show ?thesis by (simp add: set_header_def)
qed

lemma filter_remove_header_other:
  "(\<And>k. eq_ignore_ascii_case k n \<Longrightarrow> \<not> Q k)
   \<Longrightarrow> filter (\<lambda>(k, _). Q k) (remove_header n hs) = filter (\<lambda>(k, _). Q k) hs"
  unfolding remove_header_def filter_filter by (rule filter_cong) auto

lemma header_value_filter:
  "(\<And>k. eq_ignore_ascii_case k n \<Longrightarrow> Q k)
   \<Longrightarrow> header_value (filter (\<lambda>(k, _). Q k) hs) n = header_value hs n"
  unfolding header_value_def by (subst find_filter_other) auto

lemma header_value_remove_other:
  "\<not> eq_ignore_ascii_case n m \<Longrightarrow> header_value (remove_header n hs) m = header_value hs m"
  unfolding remove_header_def
  by (rule header_value_filter) (auto simp: eq_ignore_ascii_case_def)

definition rewritten :: "string list" where
  "rewritten = [''content-length'', ''content-encoding'', ''x-amz-decoded-content-length'', ''x-amz-trailer'']"

definition untouched :: "string \<Rightarrow> bool" where
  "untouched n \<longleftrightarrow> \<not> never_forwarded n \<and> to_ascii_lowercase n \<notin> set rewritten"

lemma lowercase_rewritten: "list_all (\<lambda>s. to_ascii_lowercase s = s) rewritten"
  by (simp add: rewritten_def lowercase_eqI)

lemma rewritten_names [simp]:
  "to_ascii_lowercase ''content-length'' = ''content-length''"
  "to_ascii_lowercase ''content-encoding'' = ''content-encoding''"
  "to_ascii_lowercase ''x-amz-decoded-content-length'' = ''x-amz-decoded-content-length''"
  "to_ascii_lowercase ''x-amz-trailer'' = ''x-amz-trailer''"
  using lowercase_rewritten by (simp_all add: rewritten_def)

lemma untouched_other:
  assumes "untouched k"
  shows "\<not> eq_ignore_ascii_case k ''content-length''" "\<not> eq_ignore_ascii_case k ''content-encoding''"
    "\<not> eq_ignore_ascii_case k ''x-amz-decoded-content-length''" "\<not> eq_ignore_ascii_case k ''x-amz-trailer''"
  using assms by (auto simp: untouched_def rewritten_def eq_ignore_ascii_case_def)

lemma rewritten_forwarded: "n \<in> set rewritten \<Longrightarrow> \<not> never_forwarded n"
  by (auto simp: rewritten_def never_forwarded_def STRIP_ALWAYS_def)

lemma strip_for_backend_eq: "strip_for_backend hs = filter (\<lambda>(n, _). \<not> never_forwarded n) hs"
  unfolding strip_for_backend_def using stripped_iff by (intro filter_cong) auto

lemma filter_untouched_strip: "filter (\<lambda>(n, _). untouched n) (strip_for_backend hs) = filter (\<lambda>(n, _). untouched n) hs"
  unfolding strip_for_backend_eq filter_filter by (rule filter_cong) (auto simp: untouched_def)

text \<open>The three stages of the rewriting, named.\<close>

definition with_decoded_length :: "headers \<Rightarrow> headers" where
  "with_decoded_length hs =
     (case header_value hs ''x-amz-decoded-content-length'' of
        Some decoded_len \<Rightarrow> set_header hs ''content-length'' decoded_len | None \<Rightarrow> hs)"

definition without_transfer :: "headers \<Rightarrow> headers" where
  "without_transfer hs = filter (\<lambda>(k, _). \<not> eq_ignore_ascii_case k ''x-amz-decoded-content-length''
                             \<and> \<not> eq_ignore_ascii_case k ''x-amz-trailer'') hs"

definition without_chunked :: "headers \<Rightarrow> headers" where
  "without_chunked hs =
     (case header_value hs ''content-encoding'' of
        Some ce \<Rightarrow> (case strip_aws_chunked_token ce of
                      Some new_ce \<Rightarrow> set_header hs ''content-encoding'' new_ce
                    | None \<Rightarrow> remove_header ''content-encoding'' hs)
      | None \<Rightarrow> hs)"

lemma outbound_stages:
  "outbound_headers_of hs = strip_for_backend (without_chunked (without_transfer (with_decoded_length hs)))"
  by (simp add: outbound_headers_of_def with_decoded_length_def without_transfer_def without_chunked_def Let_def)

lemma stages_untouched:
  "filter (\<lambda>(n, _). untouched n) (with_decoded_length hs) = filter (\<lambda>(n, _). untouched n) hs"
  "filter (\<lambda>(n, _). untouched n) (without_transfer hs) = filter (\<lambda>(n, _). untouched n) hs"
  "filter (\<lambda>(n, _). untouched n) (without_chunked hs) = filter (\<lambda>(n, _). untouched n) hs"
proof -
  note u = untouched_other
  show "filter (\<lambda>(n, _). untouched n) (with_decoded_length hs) = filter (\<lambda>(n, _). untouched n) hs"
    using u by (auto simp: with_decoded_length_def intro!: filter_set_header_other split: option.splits)
  show "filter (\<lambda>(n, _). untouched n) (without_transfer hs) = filter (\<lambda>(n, _). untouched n) hs"
    unfolding without_transfer_def filter_filter by (rule filter_cong) (use u in auto)
  show "filter (\<lambda>(n, _). untouched n) (without_chunked hs) = filter (\<lambda>(n, _). untouched n) hs"
    using u by (auto simp: without_chunked_def intro!: filter_set_header_other filter_remove_header_other split: option.splits)
qed

lemma outbound_clean:
  "filter (\<lambda>(n, _). never_forwarded n \<or> eq_ignore_ascii_case n ''x-amz-decoded-content-length''
     \<or> eq_ignore_ascii_case n ''x-amz-trailer'') (outbound_headers_of hs) = []"
proof -
  have "set (without_chunked hs) \<subseteq> set hs \<union> {(''content-encoding'', v) | v. True}" for hs
    by (auto simp: without_chunked_def set_header_def remove_header_def split: option.splits)
  then have "set (outbound_headers_of hs) \<subseteq>
      {(n, v) \<in> set (without_transfer (with_decoded_length hs)). \<not> never_forwarded n} \<union>
      {(''content-encoding'', v) | v. \<not> never_forwarded ''content-encoding''}"
    unfolding outbound_stages set_strip_for_backend by blast
  moreover have "\<not> eq_ignore_ascii_case ''content-encoding'' ''x-amz-decoded-content-length''"
    "\<not> eq_ignore_ascii_case ''content-encoding'' ''x-amz-trailer''"
    by (simp_all add: eq_ignore_ascii_case_def)
  ultimately show ?thesis
    unfolding filter_empty_conv by (fastforce simp: without_transfer_def)
qed

lemma outbound_content_length:
  "header_value (outbound_headers_of hs) ''content-length'' =
     (case header_value hs ''x-amz-decoded-content-length'' of
        Some l \<Rightarrow> Some l | None \<Rightarrow> header_value hs ''content-length'')"
proof -
  have forwarded: "\<not> never_forwarded k" if "eq_ignore_ascii_case k ''content-length''" for k
    using never_forwarded_cong [OF that] rewritten_forwarded by (simp add: rewritten_def)
  have other: "\<not> eq_ignore_ascii_case ''content-encoding'' ''content-length''"
    by (simp add: eq_ignore_ascii_case_def)
  have "header_value (outbound_headers_of hs) ''content-length''
      = header_value (without_chunked (without_transfer (with_decoded_length hs))) ''content-length''"
    unfolding outbound_stages strip_for_backend_eq by (rule header_value_filter) (rule forwarded)
  also have "\<dots> = header_value (without_transfer (with_decoded_length hs)) ''content-length''"
    using other by (auto simp: without_chunked_def header_value_set_header header_value_remove_other split: option.splits)
  also have "\<dots> = header_value (with_decoded_length hs) ''content-length''"
    unfolding without_transfer_def by (rule header_value_filter) (simp add: eq_ignore_ascii_case_def)
  finally show ?thesis by (simp add: with_decoded_length_def header_value_set_header split: option.splits)
qed

lemma strip_s3armor_metadata_eq:
  "strip_s3armor_metadata hs = filter (\<lambda>(k, _). \<not> (is_own_metadata_header k \<or> is_checksum_header k)) hs"
proof -
  have fold: "fold remove_header ns hs = filter (\<lambda>(k, _). \<not> list_ex (\<lambda>n. eq_ignore_ascii_case k n) ns) hs" for ns hs
    by (induction ns arbitrary: hs) (auto simp: remove_header_def conj_commute intro: filter_cong)
  have cong: "is_own_metadata_header k = is_own_metadata_header n \<and> is_checksum_header k = is_checksum_header n"
    if "eq_ignore_ascii_case k n" for k n
    using that by (simp add: is_own_metadata_header_def is_checksum_header_def eq_ignore_ascii_case_def)
  show ?thesis unfolding strip_s3armor_metadata_def Let_def fold
    by (rule filter_cong [OF refl]) (use cong in \<open>fastforce simp: list_ex_iff\<close>)
qed

lemma forwarded_headers_facts:
  "filter (\<lambda>(n, _). never_forwarded n \<or> eq_ignore_ascii_case n ''x-amz-decoded-content-length''
     \<or> eq_ignore_ascii_case n ''x-amz-trailer'') (outbound_headers_of hs) = []"
  "header_value (outbound_headers_of hs) ''content-length'' =
     (case header_value hs ''x-amz-decoded-content-length'' of
        Some l \<Rightarrow> Some l | None \<Rightarrow> header_value hs ''content-length'')"
  "filter (\<lambda>(n, _). untouched n) (outbound_headers_of hs) = filter (\<lambda>(n, _). untouched n) hs"
  "strip_s3armor_metadata hs = filter (\<lambda>(k, _). \<not> (is_own_metadata_header k \<or> is_checksum_header k)) hs"
  by (rule outbound_clean, rule outbound_content_length,
      simp add: outbound_stages filter_untouched_strip stages_untouched, rule strip_s3armor_metadata_eq)


end
