(* ===== verification/Route.thy ===== *)
theory Route
  imports Headers
begin

text \<open>
  Routing (\<open>proxy/route.rs\<close>): the split of a path-style request target, the classification of a request
  into the operation that handles it, the object key's wire encoding, and the request target the session
  sweeper builds from a stored session key (\<open>abort_expired_upload\<close> in \<open>proxy/mod.rs\<close>).
\<close>

section \<open>Model\<close>

record route =
  r_bucket :: "string option"
  r_key :: "string option"

datatype mpu_op = Create | UploadPart | UploadPartCopy | Complete | Abort | ListParts | GetPart

datatype op = PutObject | GetObject | HeadObject | CopyObject | Mpu mpu_op | SelectObjectContent | Passthrough

definition query_pairs :: "string \<Rightarrow> string list" where
  "query_pairs raw_query = map query_key (filter (\<lambda>pair. pair \<noteq> '''') (split_on CHR ''&'' raw_query))"

definition query_has :: "string \<Rightarrow> string \<Rightarrow> bool" where
  "query_has raw_query key = list_ex (\<lambda>k. eq_ignore_ascii_case k key) (query_pairs raw_query)"

definition classify_mpu :: "string \<Rightarrow> string \<Rightarrow> bool \<Rightarrow> mpu_op option" where
  "classify_mpu meth raw_query has_copy_source =
     (let has_uploads = query_has raw_query ''uploads'';
          has_upload_id = query_has raw_query ''uploadId'';
          has_part_number = query_has raw_query ''partNumber'' in
      if \<not> has_uploads \<and> \<not> has_upload_id \<and> \<not> has_part_number then None
      else if has_upload_id \<and> has_part_number \<and> meth = ''PUT''
        then Some (if has_copy_source then UploadPartCopy else UploadPart)
      else if has_uploads \<and> meth = ''POST'' then Some Create
      else if has_upload_id then
        (if meth = ''POST'' then Some Complete
         else if meth = ''DELETE'' then Some Abort
         else if meth = ''GET'' then Some ListParts
         else None)
      else if has_part_number \<and> meth = ''GET'' then Some GetPart
      else None)"

definition OBJECT_SUB_RESOURCES :: "string list" where
  "OBJECT_SUB_RESOURCES = [''acl'', ''tagging'', ''retention'', ''legal-hold'', ''torrent'', ''attributes'']"

definition has_sub_resource_query :: "string \<Rightarrow> bool" where
  "has_sub_resource_query raw_query =
     list_ex (\<lambda>key. list_ex (\<lambda>s. eq_ignore_ascii_case key s) OBJECT_SUB_RESOURCES) (query_pairs raw_query)"

definition classify :: "string \<Rightarrow> route \<Rightarrow> string \<Rightarrow> bool \<Rightarrow> op" where
  "classify meth route raw_query has_copy_source =
     (if r_bucket route = None \<or> r_key route = None then Passthrough
      else case classify_mpu meth raw_query has_copy_source of
        Some op \<Rightarrow> Mpu op
      | None \<Rightarrow>
          if meth = ''POST'' \<and> query_has raw_query ''select'' then SelectObjectContent
          else if has_sub_resource_query raw_query then Passthrough
          else if meth = ''PUT'' \<and> has_copy_source then CopyObject
          else if meth = ''PUT'' then PutObject
          else if meth = ''GET'' then GetObject
          else if meth = ''HEAD'' then HeadObject
          else Passthrough)"

definition route_parse :: "string \<Rightarrow> route" where
  "route_parse raw_path =
     (let trimmed = trim_start_matches CHR ''/'' raw_path in
      if trimmed = '''' then \<lparr> r_bucket = None, r_key = None \<rparr>
      else case split_once CHR ''/'' trimmed of
        Some (bucket, key) \<Rightarrow>
          if key \<noteq> '''' then \<lparr> r_bucket = Some bucket, r_key = Some key \<rparr>
          else \<lparr> r_bucket = Some bucket, r_key = None \<rparr>
      | None \<Rightarrow> \<lparr> r_bucket = Some trimmed, r_key = None \<rparr>)"

definition decode_key :: "pct \<Rightarrow> string \<Rightarrow> bytes" where
  "decode_key P raw_key = percent_decode P raw_key"

definition PATH_UNRESERVED :: "u8 \<Rightarrow> bool" where
  "PATH_UNRESERVED b \<longleftrightarrow> \<not> is_alnum b \<and> b \<notin> {45, 95, 46, 126}"

definition encode_key_for_path :: "pct \<Rightarrow> string \<Rightarrow> string" where
  "encode_key_for_path P key =
     join ''/'' (map (\<lambda>seg. percent_encode P PATH_UNRESERVED (str_bytes seg)) (split_on CHR ''/'' key))"

definition parse_copy_source :: "string \<Rightarrow> route option" where
  "parse_copy_source header =
     (let trimmed = trim_start_matches CHR ''/'' header;
          without_version = hd (split_on CHR ''?'' trimmed) in
      case split_once CHR ''/'' without_version of
        None \<Rightarrow> None
      | Some (bucket, key) \<Rightarrow>
          if bucket = '''' \<or> key = '''' then None
          else Some \<lparr> r_bucket = Some bucket, r_key = Some key \<rparr>)"

text \<open>The request target of the sweeper's abort, from the bucket and key of a session.\<close>

definition NON_ALPHANUMERIC :: "u8 \<Rightarrow> bool" where
  "NON_ALPHANUMERIC b \<longleftrightarrow> \<not> is_alnum b"

definition abort_target :: "pct \<Rightarrow> string \<Rightarrow> string \<Rightarrow> string \<Rightarrow> string \<times> string" where
  "abort_target P bucket key upload_id =
     (''/'' @ bucket @ ''/'' @ encode_key_for_path P key,
      ''uploadId='' @ percent_encode P NON_ALPHANUMERIC (str_bytes upload_id))"

section \<open>Splitting a request path\<close>

lemma hd_trim_start: "trim_start_matches c s = x # xs \<Longrightarrow> x \<noteq> c"
  unfolding trim_start_matches_def by (metis (mono_tags) dropWhile_eq_Cons_conv)


lemma route_parse_object:
  "CHR ''/'' \<notin> set b \<Longrightarrow> b \<noteq> [] \<Longrightarrow> k \<noteq> [] \<Longrightarrow>
   route_parse (''/'' @ b @ ''/'' @ k) = \<lparr> r_bucket = Some b, r_key = Some k \<rparr>"
  by (cases b) (auto simp: route_parse_def trim_start_matches_def split_once_append)

lemma route_parse_SomeD:
  assumes "r_bucket (route_parse p) = Some b" "r_key (route_parse p) = Some k"
  shows "CHR ''/'' \<notin> set b \<and> b \<noteq> [] \<and> k \<noteq> [] \<and> trim_start_matches CHR ''/'' p = b @ ''/'' @ k"
proof -
  have "b \<noteq> []" if "split_once CHR ''/'' (trim_start_matches CHR ''/'' p) = Some (b, k)"
    using split_once_SomeD [OF that] hd_trim_start [of "CHR ''/''" p] by (cases b) auto
  with assms show ?thesis
    by (auto simp: route_parse_def Let_def split: if_splits option.splits dest!: split_once_SomeD)
qed


section \<open>The wire form of a key\<close>

text \<open>The documented behaviour of percent decoding that the key functions rely on: it reads the text from
  left to right, undoes what the encoder wrote, and copies a slash.\<close>

definition pct_stream :: "pct \<Rightarrow> bool" where
  "pct_stream P \<longleftrightarrow>
     (\<forall>E b s. E 37 \<longrightarrow> percent_decode P (percent_encode P E b @ s) = b @ percent_decode P s) \<and>
     (\<forall>s. percent_decode P (CHR ''/'' # s) = char_byte CHR ''/'' # percent_decode P s) \<and>
     percent_decode P [] = []"

lemma path_unreserved_percent: "PATH_UNRESERVED 37" "NON_ALPHANUMERIC 37"
  by (simp_all add: PATH_UNRESERVED_def NON_ALPHANUMERIC_def is_alnum_def)

lemma decode_join_segments:
  assumes "pct_stream P"
  shows "percent_decode P (join ''/'' (map (\<lambda>seg. percent_encode P PATH_UNRESERVED (str_bytes seg)) segs))
    = str_bytes (join ''/'' segs)"
proof (induction "''/''" segs rule: join.induct)
  case 1
  then show ?case using assms by (simp add: pct_stream_def)
next
  case (2 x)
  from assms path_unreserved_percent have
    "percent_decode P (percent_encode P PATH_UNRESERVED (str_bytes x) @ []) = str_bytes x @ percent_decode P []"
    unfolding pct_stream_def by blast
  with assms show ?case by (simp add: pct_stream_def)
next
  case (3 x y xs)
  from assms path_unreserved_percent(1) have step:
    "percent_decode P (percent_encode P PATH_UNRESERVED (str_bytes x) @ s) = str_bytes x @ percent_decode P s"
    "percent_decode P (CHR ''/'' # s) = char_byte CHR ''/'' # percent_decode P s" for s
    unfolding pct_stream_def by blast+
  from 3 step show ?case by simp
qed

lemma decode_encoded_key: "pct_stream P \<Longrightarrow> decode_key P (encode_key_for_path P key) = str_bytes key"
  by (simp add: decode_key_def encode_key_for_path_def decode_join_segments)

lemma encode_key_not_Nil: 
  assumes "pct_stream P" "key \<noteq> []"
  shows "encode_key_for_path P key \<noteq> []"
proof
  assume "encode_key_for_path P key = []"
  moreover from assms(1) have "percent_decode P [] = []" unfolding pct_stream_def by blast
  ultimately show False using decode_encoded_key [OF assms(1), of key] assms(2) by (simp add: decode_key_def str_bytes_def)
qed

lemma sample_pct_stream: "pct_stream sample_pct"
proof -
  have enc: "sample_decode (sample_encode E b @ s) = b @ sample_decode s" if "E 37" for E b s
  proof (induction b)
    case (Cons x b)
    show ?case
    proof (cases "E x \<or> 128 \<le> x")
      case True
      with Cons show ?thesis by (simp add: sample_encode_def sample_decode_hex del: sample_decode.simps)
    next
      case False
      with that byte_char_percent [of x] have "byte_char x \<noteq> CHR ''%''" by auto
      with False Cons show ?thesis by (simp add: sample_encode_def sample_decode_Cons del: sample_decode.simps)
    qed
  qed (simp add: sample_encode_def)
  have "sample_decode (CHR ''/'' # s) = char_byte CHR ''/'' # sample_decode s" for s
    by (rule sample_decode_Cons) simp
  then show ?thesis unfolding pct_stream_def sample_pct_def pct.select_convs
    by (intro conjI allI impI enc) simp_all
qed

section \<open>Properties\<close>

lemma object_requests_are_intercepted_facts:
  assumes "r_bucket r \<noteq> None" "r_key r \<noteq> None"
  shows "classify ''PUT'' r q cs =
      (if query_has q ''uploadId'' \<and> query_has q ''partNumber'' then Mpu (if cs then UploadPartCopy else UploadPart)
       else if has_sub_resource_query q then Passthrough
       else if cs then CopyObject else PutObject)"
    and "classify ''GET'' r q cs =
      (if query_has q ''uploadId'' then Mpu ListParts
       else if query_has q ''partNumber'' then Mpu GetPart
       else if has_sub_resource_query q then Passthrough else GetObject)"
    and "classify ''HEAD'' r q cs = (if has_sub_resource_query q then Passthrough else HeadObject)"
    and "classify ''POST'' r q cs =
      (if query_has q ''uploads'' then Mpu Create
       else if query_has q ''uploadId'' then Mpu Complete
       else if query_has q ''select'' then SelectObjectContent else Passthrough)"
    and "classify ''DELETE'' r q cs = (if query_has q ''uploadId'' then Mpu Abort else Passthrough)"
  using assms by (auto simp: classify_def classify_mpu_def Let_def)



text \<open>C38. The sweeper's abort of an expired upload names another object when the client's path had
  percent escapes. A session is stored under the key as it stood in the request path, still encoded, and
  the sweeper encodes it again: the request it sends decodes to the undecoded text, so it hits the
  uploaded object only if decoding left that text unchanged.\<close>

theorem sweeper_abort_target:
  assumes "pct_stream P" "r_bucket (route_parse raw_path) = Some bucket" "r_key (route_parse raw_path) = Some key"
  shows "\<exists>k. route_parse (fst (abort_target P bucket key upload_id)) = \<lparr> r_bucket = Some bucket, r_key = Some k \<rparr> \<and>
      decode_key P k = str_bytes key \<and> (decode_key P k = decode_key P key \<longleftrightarrow> decode_key P key = str_bytes key)"
proof -
  from route_parse_SomeD [OF assms(2,3)] have b: "CHR ''/'' \<notin> set bucket" "bucket \<noteq> []" "key \<noteq> []" by auto
  show ?thesis
    using route_parse_object [OF b(1,2) encode_key_not_Nil [OF assms(1) b(3)]] decode_encoded_key [OF assms(1), of key]
    by (auto simp: abort_target_def)
qed

theorem sweeper_abort_witness:
  "\<exists>k. route_parse (fst (abort_target sample_pct ''b'' ''a%20c'' ''u'')) = \<lparr> r_bucket = Some ''b'', r_key = Some k \<rparr> \<and>
     decode_key sample_pct k \<noteq> decode_key sample_pct ''a%20c''"
proof -
  have r: "route_parse ''/b/a%20c'' = \<lparr> r_bucket = Some ''b'', r_key = Some ''a%20c'' \<rparr>"
    using route_parse_object [of "''b''" "''a%20c''"] by simp
  have d: "decode_key sample_pct ''a%20c'' \<noteq> str_bytes ''a%20c''"
    by (simp add: decode_key_def sample_pct_def hex_nibble_def char_byte_def)
  have "\<exists>k. route_parse (fst (abort_target sample_pct ''b'' ''a%20c'' ''u'')) = \<lparr> r_bucket = Some ''b'', r_key = Some k \<rparr> \<and>
      decode_key sample_pct k = str_bytes ''a%20c'' \<and>
      (decode_key sample_pct k = decode_key sample_pct ''a%20c'' \<longleftrightarrow> decode_key sample_pct ''a%20c'' = str_bytes ''a%20c'')"
    by (rule sweeper_abort_target [OF sample_pct_stream, of "''/b/a%20c''"]) (simp_all add: r)
  with d show ?thesis by metis
qed

end
