(* ===== verification/MpuState.thy ===== *)
theory MpuState
  imports Frame BTree_Map
begin

text \<open>
  Multipart-upload sessions (\<open>mpu.rs\<close>): one session, the capped buffer of small parts, and the table of
  sessions. The table (\<open>DashMap\<close>) is an association list in the order a scan visits it. \<open>Instant\<close> is a
  natural number and \<open>now\<close> an argument. The last section puts concurrent creations side by side, one
  atomic map operation at a time.
\<close>

section \<open>Sessions\<close>

record part_record =
  pr_pt_len :: u64
  pr_etag :: string

record cached_complete =
  ca_status :: nat
  ca_headers :: headers
  ca_body :: bytes

definition MAX_TAIL_BYTES :: nat where
  "MAX_TAIL_BYTES = 3 * 5 * 1024 * 1024"

definition MAX_SESSIONS :: nat where
  "MAX_SESSIONS = 1024"

record session =
  s_dek :: "bytes option"
  s_alg :: alg
  s_chunk_size :: u32
  s_parts :: "(u32, part_record) btree"
  s_tails :: "(u32, bytes) btree"
  s_last_activity :: nat
  s_completed :: "cached_complete option"
  s_completing :: bool

definition Session_new :: "nat \<Rightarrow> bytes \<Rightarrow> alg \<Rightarrow> u32 \<Rightarrow> session" where
  "Session_new now dek alg chunk_size =
     \<lparr> s_dek = Some dek, s_alg = alg, s_chunk_size = chunk_size, s_parts = [], s_tails = [],
       s_last_activity = now, s_completed = None, s_completing = False \<rparr>"

definition touch :: "nat \<Rightarrow> session \<Rightarrow> session" where
  "touch now s = s\<lparr> s_last_activity := now \<rparr>"

definition finish :: "nat \<Rightarrow> cached_complete \<Rightarrow> session \<Rightarrow> session" where
  "finish now cached s =
     touch now (s\<lparr> s_dek := None, s_parts := [], s_tails := [], s_completed := Some cached \<rparr>)"

definition tail_bytes :: "(u32, bytes) btree \<Rightarrow> nat" where
  "tail_bytes t = sum_list (map (\<lambda>(_, ct). length ct) t)"

lemma bt_remove_first: "bt_remove k ((k, v) # m) = m"
  by (simp add: bt_remove.simps)

function evict_tails :: "(u32, bytes) btree \<Rightarrow> (u32, bytes) btree" where
  "evict_tails t =
     (if tail_bytes t > MAX_TAIL_BYTES then
        (case t of [] \<Rightarrow> t | (lowest, _) # _ \<Rightarrow> evict_tails (bt_remove lowest t))
      else t)"
  by pat_completeness auto
termination
  by (relation "measure length") (auto simp: bt_remove_first)

declare evict_tails.simps [simp del]

definition buffer_tail :: "u32 \<Rightarrow> bytes \<Rightarrow> session \<Rightarrow> session" where
  "buffer_tail part_number ct s = s\<lparr> s_tails := evict_tails (bt_insert part_number ct (s_tails s)) \<rparr>"

definition Session_record_part :: "nat \<Rightarrow> u32 \<Rightarrow> u64 \<Rightarrow> string \<Rightarrow> bytes option \<Rightarrow> session \<Rightarrow> session" where
  "Session_record_part now part_number pt_len etag ct s =
     (if s_completed s \<noteq> None then s
      else
        let s = s\<lparr> s_parts := bt_insert part_number \<lparr> pr_pt_len = pt_len, pr_etag = etag \<rparr> (s_parts s) \<rparr>;
            s = (case ct of
                   Some c \<Rightarrow> buffer_tail part_number c s
                 | None \<Rightarrow> s\<lparr> s_tails := bt_remove part_number (s_tails s) \<rparr>)
        in touch now s)"

definition session_expired :: "nat \<Rightarrow> nat \<Rightarrow> session \<Rightarrow> bool" where
  "session_expired now ttl s \<longleftrightarrow> now - s_last_activity s > ttl"

section \<open>The table\<close>

type_synonym session_key = "string \<times> string \<times> string \<times> string"

text \<open>The table's operations do not look into the key, so they are stated for any type of keys.\<close>

type_synonym 'k sessions = "('k \<times> session) list"

definition ss_get :: "'k sessions \<Rightarrow> 'k \<Rightarrow> session option" where
  "ss_get ss k = map_of ss k"

definition ss_remove :: "'k \<Rightarrow> 'k sessions \<Rightarrow> 'k sessions" where
  "ss_remove k ss = filter (\<lambda>(k', _). k' \<noteq> k) ss"

definition ss_insert :: "'k \<Rightarrow> session \<Rightarrow> 'k sessions \<Rightarrow> 'k sessions" where
  "ss_insert k s ss =
     (if k \<in> fst ` set ss then map (\<lambda>(k', s'). if k' = k then (k, s) else (k', s')) ss else ss @ [(k, s)])"

text \<open>\<open>get_mut\<close>: change the session in place if it is there.\<close>

definition ss_update :: "'k \<Rightarrow> (session \<Rightarrow> session) \<Rightarrow> 'k sessions \<Rightarrow> 'k sessions" where
  "ss_update k f ss = map (\<lambda>(k', s). if k' = k then (k', f s) else (k', s)) ss"

text \<open>\<open>min_by_key\<close>: the first of the entries with the least key.\<close>

fun min_by_key :: "('a \<Rightarrow> nat) \<Rightarrow> 'a list \<Rightarrow> 'a option" where
  "min_by_key f [] = None"
| "min_by_key f (x # xs) = (case min_by_key f xs of None \<Rightarrow> Some x | Some y \<Rightarrow> if f x \<le> f y then Some x else Some y)"

definition oldest_finished :: "'k sessions \<Rightarrow> 'k option" where
  "oldest_finished ss =
     map_option fst (min_by_key (\<lambda>(_, s). s_last_activity s) (filter (\<lambda>(_, s). s_completed s \<noteq> None) ss))"

definition remove_if_finished :: "'k \<Rightarrow> 'k sessions \<Rightarrow> 'k sessions option" where
  "remove_if_finished k ss =
     (case ss_get ss k of
        Some s \<Rightarrow> if s_completed s \<noteq> None then Some (ss_remove k ss) else None
      | None \<Rightarrow> None)"

text \<open>With no other thread at work the victim found is still there, so the loop of \<open>make_room\<close> runs once;
  a lost race (\<open>None\<close> from \<open>remove_if_finished\<close>) is the concurrent model's business.\<close>

definition make_room :: "'k sessions \<Rightarrow> bool \<times> 'k sessions" where
  "make_room ss =
     (if length ss < MAX_SESSIONS then (True, ss)
      else case oldest_finished ss of
        None \<Rightarrow> (False, ss)
      | Some key \<Rightarrow> (case remove_if_finished key ss of Some ss' \<Rightarrow> (True, ss') | None \<Rightarrow> (False, ss)))"

definition Sessions_create :: "nat \<Rightarrow> 'k \<Rightarrow> bytes \<Rightarrow> alg \<Rightarrow> u32 \<Rightarrow> 'k sessions \<Rightarrow> bool \<times> 'k sessions" where
  "Sessions_create now key dek alg chunk_size ss =
     (let (room, ss') = (if key \<in> fst ` set ss then (True, ss) else make_room ss) in
      if \<not> room then (False, ss') else (True, ss_insert key (Session_new now dek alg chunk_size) ss'))"

definition take_expired :: "nat \<Rightarrow> nat \<Rightarrow> 'k sessions \<Rightarrow> ('k \<times> bool) list \<times> 'k sessions" where
  "take_expired now ttl ss =
     (let expired = map fst (filter (\<lambda>(_, s). session_expired now ttl s) ss) in
      fold (\<lambda>key (out, ss). case ss_get ss key of
                None \<Rightarrow> (out, ss)
              | Some s \<Rightarrow> (out @ [(key, s_completed s \<noteq> None)], ss_remove key ss)) expired ([], ss))"

section \<open>The buffer of small parts\<close>

lemma evict_tails_drop:
  "\<exists>n. evict_tails t = drop n t \<and> tail_bytes (drop n t) \<le> MAX_TAIL_BYTES \<and>
     (\<forall>m < n. tail_bytes (drop m t) > MAX_TAIL_BYTES)"
proof (induction t rule: evict_tails.induct)
  case (1 t)
  show ?case
  proof (cases "tail_bytes t > MAX_TAIL_BYTES")
    case True
    then obtain k v r where t: "t = (k, v) # r" by (cases t) (auto simp: tail_bytes_def)
    then have "\<exists>n. evict_tails r = drop n r \<and> tail_bytes (drop n r) \<le> MAX_TAIL_BYTES \<and>
        (\<forall>m < n. tail_bytes (drop m r) > MAX_TAIL_BYTES)"
      using "1.IH" [OF True t refl] by (simp add: bt_remove_first)
    then obtain n where n: "evict_tails r = drop n r" "tail_bytes (drop n r) \<le> MAX_TAIL_BYTES"
      "\<forall>m < n. tail_bytes (drop m r) > MAX_TAIL_BYTES" by blast
    have "evict_tails t = drop (Suc n) t"
      using True n(1) by (subst evict_tails.simps) (simp add: t bt_remove_first)
    moreover have "tail_bytes (drop m t) > MAX_TAIL_BYTES" if "m < Suc n" for m
      using that n(3) True t by (cases m) auto
    ultimately show ?thesis using n(2) t by (intro exI [of _ "Suc n"]) simp
  next
    case False
    then show ?thesis by (intro exI [of _ 0]) (simp add: evict_tails.simps [of t])
  qed
qed

lemma tail_bytes_evict: "tail_bytes (evict_tails t) \<le> MAX_TAIL_BYTES"
  using evict_tails_drop [of t] by auto

text \<open>The three highest parts are kept whenever every buffered part is below 5 MiB.\<close>

lemma tail_bytes_le: "\<forall>(_, ct) \<in> set t. length ct \<le> b \<Longrightarrow> tail_bytes t \<le> length t * b"
  by (induction t) (auto simp: tail_bytes_def)

lemma evict_keeps_three:
  assumes "\<forall>(_, ct) \<in> set t. length ct \<le> 5 * 1024 * 1024"
  obtains n where "evict_tails t = drop n t" "n \<le> length t - 3"
proof -
  obtain n where n: "evict_tails t = drop n t" "\<forall>m < n. tail_bytes (drop m t) > MAX_TAIL_BYTES"
    using evict_tails_drop by blast
  have "n \<le> length t - 3"
  proof (rule ccontr)
    assume "\<not> n \<le> length t - 3"
    then have big: "tail_bytes (drop (length t - 3) t) > MAX_TAIL_BYTES" using n(2) by simp
    have "\<forall>(_, ct) \<in> set (drop (length t - 3) t). length ct \<le> 5 * 1024 * 1024"
      using assms by (auto dest: in_set_dropD)
    then have "tail_bytes (drop (length t - 3) t) \<le> length (drop (length t - 3) t) * (5 * 1024 * 1024)"
      by (rule tail_bytes_le)
    also have "\<dots> \<le> 3 * (5 * 1024 * 1024)" by (rule mult_le_mono1) simp
    finally have "tail_bytes (drop (length t - 3) t) \<le> MAX_TAIL_BYTES" by (simp add: MAX_TAIL_BYTES_def)
    with big show False by simp
  qed
  then show ?thesis using n(1) that by blast
qed


text \<open>What holds of every session: the tables are ordered, the buffer is within its cap, an open session
  has its key, and a finished one has released everything but its answer.\<close>

definition session_ok :: "session \<Rightarrow> bool" where
  "session_ok s \<longleftrightarrow> bt_ok (s_parts s) \<and> bt_ok (s_tails s) \<and> tail_bytes (s_tails s) \<le> MAX_TAIL_BYTES \<and>
     (case s_completed s of
        None \<Rightarrow> s_dek s \<noteq> None
      | Some _ \<Rightarrow> s_dek s = None \<and> s_parts s = [] \<and> s_tails s = [])"

lemma bt_ok_drop: "bt_ok t \<Longrightarrow> bt_ok (drop n t)"
  by (simp add: bt_ok_def drop_map [symmetric] sorted_wrt_drop)

lemma bt_ok_evict: "bt_ok t \<Longrightarrow> bt_ok (evict_tails t)"
  using evict_tails_drop [of t] bt_ok_drop by metis

lemma tail_bytes_remove: "tail_bytes (bt_remove k t) \<le> tail_bytes t"
  by (induction k t rule: bt_remove.induct) (auto simp: bt_remove.simps tail_bytes_def)

lemma Session_new_ok: "session_ok (Session_new now dek alg cs)"
  by (simp add: session_ok_def Session_new_def tail_bytes_def)

lemma finish_ok: "session_ok (finish now cached s)"
  by (simp add: session_ok_def finish_def touch_def tail_bytes_def)

lemma record_part_ok:
  assumes "session_ok s"
  shows "session_ok (Session_record_part now n len etag ct s)"
proof -
  have "tail_bytes (bt_remove n (s_tails s)) \<le> MAX_TAIL_BYTES"
    using tail_bytes_remove [of n "s_tails s"] assms by (simp add: session_ok_def)
  with assms show ?thesis
    by (cases ct; cases "s_completed s")
      (auto simp: session_ok_def Session_record_part_def buffer_tail_def touch_def tail_bytes_evict bt_ok_evict Let_def)
qed

text \<open>The entries of an ordered map are unique, so dropping the low ones is a restriction of the lookup.\<close>

lemma bt_get_suffix:
  assumes "bt_ok t" "bt_get t k = Some v" "k \<in> fst ` set (drop n t)"
  shows "bt_get (drop n t) k = Some v"
proof -
  obtain v' where v': "(k, v') \<in> set (drop n t)" using assms(3) by auto
  then have "(k, v') \<in> set t" by (rule in_set_dropD)
  then have "v' = v" using assms(1,2) bt.entries_get by fastforce
  with v' show ?thesis using bt.entries_get [OF bt_ok_drop [OF assms(1)]] by blast
qed


lemma drop_highest:
  assumes "bt_ok t" "k \<in> fst ` set t" "card {k' \<in> fst ` set t. k < k'} < m"
  shows "k \<in> fst ` set (drop (length t - m) t)"
  using assms
proof (induction t)
  case (Cons x t)
  have s: "bt_ok t" "\<forall>k' \<in> fst ` set t. fst x < k'" using Cons.prems(1) by (auto simp: bt_ok_def)
  show ?case
  proof (cases "k = fst x")
    case True
    have "{k' \<in> fst ` set (x # t). k < k'} = fst ` set t" using s True by auto
    moreover have "card (fst ` set t) = length t"
      using bt.distinct_keys [OF s(1)] by (metis distinct_card length_map set_map)
    ultimately have "length t < m" using Cons.prems(3) by simp
    with True show ?thesis by simp
  next
    case False
    then have k: "k \<in> fst ` set t" using Cons.prems(2) by auto
    have "{k' \<in> fst ` set t. k < k'} \<subseteq> {k' \<in> fst ` set (x # t). k < k'}" by auto
    then have "card {k' \<in> fst ` set t. k < k'} \<le> card {k' \<in> fst ` set (x # t). k < k'}"
      by (rule card_mono [rotated]) simp
    with Cons.prems(3) have "card {k' \<in> fst ` set t. k < k'} < m" by simp
    from Cons.IH [OF s(1) k this] show ?thesis
      by (cases "m \<le> length t") (auto simp: Suc_diff_le)
  qed
qed simp


lemma evict_keeps:
  assumes "bt_ok t" "\<forall>(_, ct) \<in> set t. length ct \<le> 5 * 1024 * 1024"
    and "bt_get t k = Some ct" "card {k' \<in> fst ` set t. k < k'} < 3"
  shows "bt_get (evict_tails t) k = Some ct"
proof -
  obtain n where n: "evict_tails t = drop n t" "n \<le> length t - 3" using evict_keeps_three [OF assms(2)] .
  have "k \<in> fst ` set t" using assms(1,3) bt.entries_get by force
  from drop_highest [OF assms(1) this assms(4)] have "k \<in> fst ` set (drop (length t - 3) t)" .
  also have "\<dots> \<subseteq> fst ` set (drop n t)" using n(2) by (intro image_mono set_drop_subset_set_drop)
  finally show ?thesis using bt_get_suffix [OF assms(1,3)] n(1) by simp
qed

lemma in_bt_insert: "(k', v') \<in> set (bt_insert k v m) \<Longrightarrow> (k', v') = (k, v) \<or> (k', v') \<in> set m"
  by (induction k v m rule: bt_insert.induct) (auto simp: bt_insert.simps split: if_splits)

lemma tail_buffer_keeps_highest_facts:
  assumes "session_ok s" "s_completed s = None"
    and "\<forall>(_, c) \<in> set (s_tails s). length c \<le> 5 * 1024 * 1024" "length ct \<le> 5 * 1024 * 1024"
    and "k \<in> insert n (fst ` set (s_tails s))" "card {k' \<in> insert n (fst ` set (s_tails s)). k < k'} < 3"
  shows "bt_get (s_tails (Session_record_part now n len etag (Some ct) s)) k
       = (if k = n then Some ct else bt_get (s_tails s) k)"
    and "tail_bytes (s_tails (Session_record_part now n len etag (Some ct) s)) \<le> 15728640"
    and "bt_get (s_parts (Session_record_part now n len etag (Some ct) s)) n = Some \<lparr> pr_pt_len = len, pr_etag = etag \<rparr>"
    and "session_ok (Session_record_part now n len etag (Some ct) s)"
proof -
  define t where "t = bt_insert n ct (s_tails s)"
  have ok: "bt_ok t" "\<forall>(_, c) \<in> set t. length c \<le> 5 * 1024 * 1024" "fst ` set t = insert n (fst ` set (s_tails s))"
    using assms(1,3,4) by (auto simp: t_def session_ok_def set_bt_insert dest!: in_bt_insert)
  have tails: "s_tails (Session_record_part now n len etag (Some ct) s) = evict_tails t"
    using assms(2) by (simp add: Session_record_part_def buffer_tail_def touch_def t_def)
  from assms(5) obtain c where c: "bt_get t k = Some c"
    by (cases "bt_get t k") (auto simp: t_def bt_get_def [of "s_tails s"] map_of_eq_None_iff split: if_splits)
  have "bt_get (evict_tails t) k = Some c" using evict_keeps [OF ok(1,2) c] assms(6) ok(3) by simp
  with tails c show "bt_get (s_tails (Session_record_part now n len etag (Some ct) s)) k
       = (if k = n then Some ct else bt_get (s_tails s) k)" by (simp add: t_def)
  show "tail_bytes (s_tails (Session_record_part now n len etag (Some ct) s)) \<le> 15728640"
    using tail_bytes_evict [of t] by (simp add: tails MAX_TAIL_BYTES_def)
  show "bt_get (s_parts (Session_record_part now n len etag (Some ct) s)) n = Some \<lparr> pr_pt_len = len, pr_etag = etag \<rparr>"
    using assms(2) by (simp add: Session_record_part_def buffer_tail_def touch_def)
  show "session_ok (Session_record_part now n len etag (Some ct) s)" by (rule record_part_ok [OF assms(1)])
qed

text \<open>C27. The buffer of small parts: recording a part of at most 5 MiB keeps the buffered bytes within
  15 MiB, records the part, and after it the three highest-numbered of the buffered parts are
  all still there with their bytes. So the highest small part, which a client's Complete normally ends
  with, is never the one the cap evicts.\<close>

theorem tail_buffer_keeps_highest:
  assumes "session_ok s" "s_completed s = None"
    and "\<forall>(_, c) \<in> set (s_tails s). length c \<le> 5 * 1024 * 1024" "length ct \<le> 5 * 1024 * 1024"
    and "k \<in> insert n (fst ` set (s_tails s))" "card {k' \<in> insert n (fst ` set (s_tails s)). k < k'} < 3"
  shows "bt_get (s_tails (Session_record_part now n len etag (Some ct) s)) k
       = (if k = n then Some ct else bt_get (s_tails s) k) \<and>
    tail_bytes (s_tails (Session_record_part now n len etag (Some ct) s)) \<le> 15728640 \<and>
    bt_get (s_parts (Session_record_part now n len etag (Some ct) s)) n = Some \<lparr> pr_pt_len = len, pr_etag = etag \<rparr> \<and>
    session_ok (Session_record_part now n len etag (Some ct) s)"
  by (intro conjI tail_buffer_keeps_highest_facts [OF assms])

theorem tail_buffer_witness:
  "bt_get (s_tails (Session_record_part 1 7 3 ''e'' (Some [1, 2, 3]) (Session_new 0 [] Aes256Gcm 65536))) 7
     = Some [1, 2, 3]"
proof -
  have none: "{k' \<in> insert 7 (fst ` set (s_tails (Session_new 0 [] Aes256Gcm 65536))). 7 < k'} = {}"
    by (simp add: Session_new_def)
  have "card {k' \<in> insert 7 (fst ` set (s_tails (Session_new 0 [] Aes256Gcm 65536))). 7 < k'} < 3"
    by (simp only: none) simp
  from tail_buffer_keeps_highest [OF Session_new_ok _ _ _ _ this, of "[1, 2, 3]" 1 3 "''e''"]
  show ?thesis by (simp add: Session_new_def)
qed


section \<open>The table of sessions\<close>

definition ss_ok :: "'k sessions \<Rightarrow> bool" where
  "ss_ok ss \<longleftrightarrow> distinct (map fst ss)"

lemma keys_remove [simp]: "fst ` set (ss_remove k ss) = fst ` set ss - {k}"
  by (force simp: ss_remove_def)

lemma ss_get_remove [simp]: "ss_get (ss_remove k ss) k' = (if k' = k then None else ss_get ss k')"
  by (induction ss) (auto simp: ss_remove_def ss_get_def)

lemma ss_get_update [simp]: "ss_get (ss_update k f ss) k' = (if k' = k then map_option f (ss_get ss k) else ss_get ss k')"
  by (induction ss) (auto simp: ss_update_def ss_get_def)

lemma ss_get_insert [simp]: "ss_get (ss_insert k s ss) k' = (if k' = k then Some s else ss_get ss k')"
proof (cases "k \<in> fst ` set ss")
  case True
  have "ss_insert k s ss = ss_update k (\<lambda>_. s) ss" using True by (auto simp: ss_insert_def ss_update_def)
  moreover have "ss_get ss k \<noteq> None" using True by (simp add: ss_get_def map_of_eq_None_iff)
  ultimately show ?thesis by auto
next
  case False
  then have "ss_get ss k = None" by (simp add: ss_get_def map_of_eq_None_iff)
  with False show ?thesis by (auto simp: ss_insert_def ss_get_def map_add_def split: option.splits)
qed

lemma ss_get_None_iff: "ss_get ss k = None \<longleftrightarrow> k \<notin> fst ` set ss"
  by (simp add: ss_get_def map_of_eq_None_iff)

lemma ss_ok_ops:
  "ss_ok ss \<Longrightarrow> ss_ok (ss_remove k ss)" "ss_ok ss \<Longrightarrow> ss_ok (ss_insert k s ss)" "ss_ok ss \<Longrightarrow> ss_ok (ss_update k f ss)"
proof -
  have m: "map fst (map (\<lambda>(k', s'). if k' = k then (k, s) else (k', s')) ss) = map fst ss"
    "map fst (ss_update k f ss) = map fst ss"
    by (auto simp: ss_update_def)
  show "ss_ok ss \<Longrightarrow> ss_ok (ss_insert k s ss)"
    unfolding ss_ok_def ss_insert_def by (cases "k \<in> fst ` set ss") (simp_all only: m if_True if_False, simp)
  show "ss_ok ss \<Longrightarrow> ss_ok (ss_update k f ss)" unfolding ss_ok_def by (simp only: m)
  show "ss_ok ss \<Longrightarrow> ss_ok (ss_remove k ss)" by (simp add: ss_ok_def ss_remove_def distinct_map_filter)
qed

lemma length_ss_insert: "length (ss_insert k s ss) \<le> Suc (length ss)"
  by (simp add: ss_insert_def)

lemma length_ss_update [simp]: "length (ss_update k f ss) = length ss"
  by (simp add: ss_update_def)

lemma length_ss_remove_le: "length (ss_remove k ss) \<le> length ss"
  by (simp add: ss_remove_def)

lemma length_ss_remove: "ss_get ss k \<noteq> None \<Longrightarrow> length (ss_remove k ss) < length ss"
  unfolding ss_remove_def ss_get_def by (induction ss) (auto simp: less_Suc_eq_le split: if_splits)

lemma min_by_key_None [simp]: "min_by_key f xs = None \<longleftrightarrow> xs = []"
  by (cases xs) (auto split: option.splits)

lemma min_by_key_SomeD: "min_by_key f xs = Some x \<Longrightarrow> x \<in> set xs \<and> (\<forall>y \<in> set xs. f x \<le> f y)"
proof (induction xs arbitrary: x)
  case (Cons a xs)
  then show ?case by (cases "min_by_key f xs") (auto split: if_splits dest: order.trans)
qed simp

lemma oldest_finished_SomeD:
  assumes "ss_ok ss" "oldest_finished ss = Some k"
  obtains s where "ss_get ss k = Some s" "s_completed s \<noteq> None"
    "\<And>k' s'. ss_get ss k' = Some s' \<Longrightarrow> s_completed s' \<noteq> None \<Longrightarrow> s_last_activity s \<le> s_last_activity s'"
proof -
  from assms(2) obtain s where
    m: "min_by_key (\<lambda>(_, s). s_last_activity s) (filter (\<lambda>(_, s). s_completed s \<noteq> None) ss) = Some (k, s)"
    by (auto simp: oldest_finished_def)
  note * = min_by_key_SomeD [OF m]
  have "ss_get ss k = Some s" using * assms(1) by (simp add: ss_get_def ss_ok_def)
  moreover have "s_completed s \<noteq> None" using * by simp
  moreover have "s_last_activity s \<le> s_last_activity s'" if "ss_get ss k' = Some s'" "s_completed s' \<noteq> None" for k' s'
    using * that by (auto simp: ss_get_def dest: map_of_SomeD)
  ultimately show ?thesis by (rule that)
qed

lemma oldest_finished_None: "ss_ok ss \<Longrightarrow> oldest_finished ss = None \<longleftrightarrow> (\<forall>k s. ss_get ss k = Some s \<longrightarrow> s_completed s = None)"
  by (auto simp: oldest_finished_def filter_empty_conv ss_get_def ss_ok_def dest: map_of_SomeD)

text \<open>Making room: a session is evicted only at the cap, only when it has finished, and it is the one
  that finished longest ago; the answer is no exactly when the table is full of open uploads.\<close>

lemma make_room_cases:
  assumes "ss_ok ss" "make_room ss = (room, ss')"
  shows "(room \<longleftrightarrow> length ss < MAX_SESSIONS \<or> (\<exists>k s. ss_get ss k = Some s \<and> s_completed s \<noteq> None)) \<and>
    (ss' = ss \<or> (room \<and> MAX_SESSIONS \<le> length ss \<and> (\<exists>k s. ss' = ss_remove k ss \<and> ss_get ss k = Some s \<and>
       s_completed s \<noteq> None \<and>
       (\<forall>k' s'. ss_get ss k' = Some s' \<longrightarrow> s_completed s' \<noteq> None \<longrightarrow> s_last_activity s \<le> s_last_activity s'))))"
proof (cases "length ss < MAX_SESSIONS")
  case True
  with assms show ?thesis by (simp add: make_room_def)
next
  case False
  show ?thesis
  proof (cases "oldest_finished ss")
    case None
    with assms False oldest_finished_None [OF assms(1)] show ?thesis by (auto simp: make_room_def)
  next
    case (Some k)
    from oldest_finished_SomeD [OF assms(1) Some] obtain s where s: "ss_get ss k = Some s" "s_completed s \<noteq> None"
      "\<And>k' s'. ss_get ss k' = Some s' \<Longrightarrow> s_completed s' \<noteq> None \<Longrightarrow> s_last_activity s \<le> s_last_activity s'" by blast
    with assms(2) False Some have "room" "ss' = ss_remove k ss"
      by (auto simp: make_room_def remove_if_finished_def)
    with s False show ?thesis by auto
  qed
qed


lemma make_room_length: "ss_ok ss \<Longrightarrow> make_room ss = (True, ss') \<Longrightarrow> length ss \<le> MAX_SESSIONS \<Longrightarrow> length ss' < MAX_SESSIONS"
proof -
  assume a: "ss_ok ss" "make_room ss = (True, ss')" "length ss \<le> MAX_SESSIONS"
  show ?thesis
  proof (cases "length ss < MAX_SESSIONS")
    case True
    with a(2) show ?thesis by (simp add: make_room_def)
  next
    case False
    from a(2) False obtain k where "remove_if_finished k ss = Some ss'"
      by (auto simp: make_room_def split: option.splits)
    then have "length ss' < length ss"
      by (auto simp: remove_if_finished_def length_ss_remove split: option.splits if_splits)
    with a(3) show ?thesis by simp
  qed
qed

lemma create_session_keeps_open_uploads_facts:
  assumes "ss_ok ss" "length ss \<le> 1024" "Sessions_create now key dek alg cs ss = (created, ss')"
  shows "created \<longleftrightarrow> key \<in> fst ` set ss \<or> length ss < 1024 \<or> (\<exists>k s. ss_get ss k = Some s \<and> s_completed s \<noteq> None)"
    and "\<not> created \<Longrightarrow> ss' = ss"
    and "created \<Longrightarrow> ss_get ss' key = Some (Session_new now dek alg cs)"
    and "ss_ok ss' \<and> length ss' \<le> 1024"
    and "k \<noteq> key \<Longrightarrow> ss_get ss' k \<noteq> ss_get ss k \<Longrightarrow> ss_get ss' k = None \<and> length ss = 1024 \<and>
      (\<exists>s. ss_get ss k = Some s \<and> s_completed s \<noteq> None \<and>
        (\<forall>k' s'. ss_get ss k' = Some s' \<longrightarrow> s_completed s' \<noteq> None \<longrightarrow> s_last_activity s \<le> s_last_activity s'))"
proof -
  define known where "known \<longleftrightarrow> key \<in> fst ` set ss"
  obtain room ss1 where r: "make_room ss = (room, ss1)" by (cases "make_room ss")
  note mr = make_room_cases [OF assms(1) r]
  have max: "MAX_SESSIONS = 1024" by (simp add: MAX_SESSIONS_def)
  have c: "created \<longleftrightarrow> known \<or> room" "ss' = (if known then ss_insert key (Session_new now dek alg cs) ss
      else if room then ss_insert key (Session_new now dek alg cs) ss1 else ss1)"
    using assms(3) r by (auto simp: Sessions_create_def known_def split: if_splits)
  show "created \<longleftrightarrow> key \<in> fst ` set ss \<or> length ss < 1024 \<or> (\<exists>k s. ss_get ss k = Some s \<and> s_completed s \<noteq> None)"
    using c(1) mr max by (simp add: known_def)
  show "\<not> created \<Longrightarrow> ss' = ss" using c mr by auto
  show "created \<Longrightarrow> ss_get ss' key = Some (Session_new now dek alg cs)" using c by auto
  have ok1: "ss_ok ss1" using mr assms(1) ss_ok_ops(1) by auto
  have len: "length (ss_insert key s ss) = length ss" if known for s
    using that by (simp add: ss_insert_def known_def)
  have "length ss1 < 1024" if room
    using make_room_length [OF assms(1)] r that assms(2) max by simp
  then have "room \<Longrightarrow> length (ss_insert key s ss1) \<le> 1024" for s
    using length_ss_insert [of key s ss1] by linarith
  moreover have "length ss1 \<le> 1024" using mr assms(2) length_ss_remove_le [of _ ss] by (auto intro: order.trans)
  ultimately show "ss_ok ss' \<and> length ss' \<le> 1024"
    using c(2) ok1 assms(1,2) len ss_ok_ops(2) [OF ok1] ss_ok_ops(2) [OF assms(1)] by simp
  show "k \<noteq> key \<Longrightarrow> ss_get ss' k \<noteq> ss_get ss k \<Longrightarrow> ss_get ss' k = None \<and> length ss = 1024 \<and>
      (\<exists>s. ss_get ss k = Some s \<and> s_completed s \<noteq> None \<and>
        (\<forall>k' s'. ss_get ss k' = Some s' \<longrightarrow> s_completed s' \<noteq> None \<longrightarrow> s_last_activity s \<le> s_last_activity s'))"
    using c(2) mr assms(2) max by (auto split: if_splits)
qed

text \<open>Creating an upload session, one request at a time: it is refused exactly when the table is full
  (1024) of other sessions that are all still open, and then nothing changes; otherwise the new session is
  there. In every case the table stays within 1024 entries and every open session is kept: the only other
  entry that can disappear is a finished one, the one untouched for longest.\<close>

theorem create_session_keeps_open_uploads:
  assumes "ss_ok ss" "length ss \<le> 1024" "Sessions_create now key dek alg cs ss = (created, ss')"
  shows "(created \<longleftrightarrow> key \<in> fst ` set ss \<or> length ss < 1024 \<or> (\<exists>k s. ss_get ss k = Some s \<and> s_completed s \<noteq> None)) \<and>
    (if created then ss_get ss' key = Some (Session_new now dek alg cs) else ss' = ss) \<and>
    ss_ok ss' \<and> length ss' \<le> 1024 \<and>
    (\<forall>k. k \<noteq> key \<longrightarrow> ss_get ss' k \<noteq> ss_get ss k \<longrightarrow> ss_get ss' k = None \<and> length ss = 1024 \<and>
      (\<exists>s. ss_get ss k = Some s \<and> s_completed s \<noteq> None \<and>
        (\<forall>k' s'. ss_get ss k' = Some s' \<longrightarrow> s_completed s' \<noteq> None \<longrightarrow> s_last_activity s \<le> s_last_activity s')))"
  using create_session_keeps_open_uploads_facts(1-4) [OF assms] create_session_keeps_open_uploads_facts(5) [OF assms]
  by (intro conjI allI impI) simp_all

theorem create_session_witness:
  "\<exists>ss'. Sessions_create 5 (''b'', ''c'', ''k'', ''u'') [1] Aes256Gcm 65536 [] = (True, ss') \<and>
     ss_get ss' (''b'', ''c'', ''k'', ''u'') = Some (Session_new 5 [1] Aes256Gcm 65536)"
proof -
  obtain created ss' where c: "Sessions_create 5 (''b'', ''c'', ''k'', ''u'') [1] Aes256Gcm 65536 [] = (created, ss')"
    by (cases "Sessions_create 5 (''b'', ''c'', ''k'', ''u'') [1] Aes256Gcm 65536 []")
  have ok: "ss_ok []" "length ([] :: session_key sessions) \<le> 1024" by (simp_all add: ss_ok_def)
  note * = create_session_keeps_open_uploads [OF ok c]
  from conjunct1 [OF *] have created by simp
  with conjunct1 [OF conjunct2 [OF *]] c show ?thesis by simp
qed

text \<open>The sweep takes exactly the expired sessions, in scan order, and says which of them had finished.\<close>

lemma take_fold:
  assumes "distinct (map fst es)" "\<And>k s. (k, s) \<in> set es \<Longrightarrow> ss_get ss k = Some s"
  shows "fold (\<lambda>key (out, ss). case ss_get ss key of
            None \<Rightarrow> (out, ss)
          | Some s \<Rightarrow> (out @ [(key, s_completed s \<noteq> None)], ss_remove key ss)) (map fst es) (out, ss)
    = (out @ map (\<lambda>(k, s). (k, s_completed s \<noteq> None)) es, filter (\<lambda>(k, _). k \<notin> fst ` set es) ss)"
  using assms
proof (induction es arbitrary: out ss)
  case (Cons e es)
  obtain k s where e: "e = (k, s)" by (cases e)
  have get: "ss_get ss k = Some s" using Cons.prems(2) e by simp
  have "ss_get (ss_remove k ss) k' = Some s'" if "(k', s') \<in> set es" for k' s'
    using that Cons.prems e by (force simp: image_iff)
  with Cons.IH [of "ss_remove k ss"] Cons.prems(1) show ?case
    by (auto simp: e get ss_remove_def intro!: filter_cong)
qed (simp add: filter_True split_beta)

lemma take_expired_exact:
  assumes "ss_ok ss"
  shows "take_expired now ttl ss =
    (map (\<lambda>(k, s). (k, s_completed s \<noteq> None)) (filter (\<lambda>(_, s). session_expired now ttl s) ss),
     filter (\<lambda>(_, s). \<not> session_expired now ttl s) ss)"
proof -
  let ?es = "filter (\<lambda>(_, s). session_expired now ttl s) ss"
  have d: "distinct (map fst ?es)" using assms by (simp add: ss_ok_def distinct_map_filter)
  have g: "ss_get ss k = Some s" if "(k, s) \<in> set ?es" for k s
    using that assms by (simp add: ss_get_def ss_ok_def)
  have f: "filter (\<lambda>(k, _). k \<notin> fst ` set ?es) ss = filter (\<lambda>(_, s). \<not> session_expired now ttl s) ss"
    by (rule filter_cong [OF refl]) (use assms in \<open>force simp: ss_ok_def dest: eq_key_imp_eq_value\<close>)
  show ?thesis using take_fold [OF d g, of "[]"] unfolding take_expired_def Let_def f by (simp only: append_Nil)
qed

section \<open>Concurrent creations\<close>

text \<open>Each request thread is at one point of \<open>create\<close>; each of its map operations is one atomic step and
  the steps of the threads interleave freely. A scan for a victim is not atomic in the concurrent map, so it
  may come out with any key; \<open>remove_if\<close> decides. Between the steps, other requests and the sweeper may
  change or remove any session.\<close>

datatype 'k phase =
    Idle
  | CheckRoom 'k session
  | Scan 'k session
  | RemoveIf 'k session 'k
  | Insert 'k session

type_synonym 'k mpu_state = "'k sessions \<times> 'k phase list"

inductive mpu_step :: "'k mpu_state \<Rightarrow> 'k mpu_state \<Rightarrow> bool" where
  create_known: "i < length ts \<Longrightarrow> ts ! i = Idle \<Longrightarrow> ss_get ss k \<noteq> None \<Longrightarrow> mpu_step (ss, ts) (ss, ts[i := Insert k s])"
| create_new: "i < length ts \<Longrightarrow> ts ! i = Idle \<Longrightarrow> ss_get ss k = None \<Longrightarrow> mpu_step (ss, ts) (ss, ts[i := CheckRoom k s])"
| below_cap: "i < length ts \<Longrightarrow> ts ! i = CheckRoom k s \<Longrightarrow> length ss < MAX_SESSIONS
     \<Longrightarrow> mpu_step (ss, ts) (ss, ts[i := Insert k s])"
| at_cap: "i < length ts \<Longrightarrow> ts ! i = CheckRoom k s \<Longrightarrow> MAX_SESSIONS \<le> length ss
     \<Longrightarrow> mpu_step (ss, ts) (ss, ts[i := Scan k s])"
| no_victim: "i < length ts \<Longrightarrow> ts ! i = Scan k s \<Longrightarrow> mpu_step (ss, ts) (ss, ts[i := Idle])"
| victim: "i < length ts \<Longrightarrow> ts ! i = Scan k s \<Longrightarrow> mpu_step (ss, ts) (ss, ts[i := RemoveIf k s v])"
| removed: "i < length ts \<Longrightarrow> ts ! i = RemoveIf k s v \<Longrightarrow> remove_if_finished v ss = Some ss'
     \<Longrightarrow> mpu_step (ss, ts) (ss', ts[i := Insert k s])"
| lost_race: "i < length ts \<Longrightarrow> ts ! i = RemoveIf k s v \<Longrightarrow> remove_if_finished v ss = None
     \<Longrightarrow> mpu_step (ss, ts) (ss, ts[i := Scan k s])"
| inserted: "i < length ts \<Longrightarrow> ts ! i = Insert k s \<Longrightarrow> mpu_step (ss, ts) (ss_insert k s ss, ts[i := Idle])"
| updated: "mpu_step (ss, ts) (ss_update k f ss, ts)"
| dropped: "mpu_step (ss, ts) (ss_remove k ss, ts)"

text \<open>Upload ids come from the backend and do not repeat: no creation starts for a key the table
  already holds. \<open>mpu_reachable n\<close> are the states that \<open>n\<close> request threads can reach under that.\<close>

definition fresh_step :: "'k mpu_state \<Rightarrow> 'k mpu_state \<Rightarrow> bool" where
  "fresh_step st st' \<longleftrightarrow> (\<forall>i k s. i < length (snd st) \<longrightarrow> snd st ! i = Idle \<longrightarrow> snd st' ! i \<noteq> Insert k s)"

inductive mpu_reachable :: "nat \<Rightarrow> 'k mpu_state \<Rightarrow> bool" for n where
  start: "mpu_reachable n ([], replicate n Idle)"
| step: "mpu_reachable n st \<Longrightarrow> mpu_step st st' \<Longrightarrow> fresh_step st st' \<Longrightarrow> mpu_reachable n st'"

definition permits :: "'k phase list \<Rightarrow> nat" where
  "permits ts = length (filter (\<lambda>p. case p of Insert _ _ \<Rightarrow> True | _ \<Rightarrow> False) ts)"

lemma permits_le: "permits ts \<le> length ts"
  by (simp add: permits_def)

lemma permits_update:
  "i < length ts \<Longrightarrow> permits (ts[i := p]) + (case ts ! i of Insert _ _ \<Rightarrow> 1 | _ \<Rightarrow> 0)
     = permits ts + (case p of Insert _ _ \<Rightarrow> 1 | _ \<Rightarrow> 0)"
proof (induction ts arbitrary: i)
  case (Cons q ts)
  then show ?case by (cases i) (auto simp: permits_def split: phase.splits)
qed simp

lemma permits_same:
  assumes "i < length ts" "\<And>k s. ts ! i \<noteq> Insert k s" "\<And>k s. p \<noteq> Insert k s"
  shows "permits (ts[i := p]) = permits ts"
  using permits_update [OF assms(1), of p] assms(2,3) by (auto split: phase.splits)

definition mpu_bound :: "nat \<Rightarrow> 'k mpu_state \<Rightarrow> bool" where
  "mpu_bound n st \<longleftrightarrow> length (snd st) = n \<and> length (fst st) + permits (snd st) \<le> MAX_SESSIONS - 1 + n"

lemma mpu_step_bound:
  assumes "mpu_step st st'" "fresh_step st st'" "mpu_bound n st"
  shows "mpu_bound n st'"
  using assms
proof (induction rule: mpu_step.induct)
  case (create_known i ts ss k s)
  then have False by (auto simp: fresh_step_def)
  then show ?case ..
next
  case (below_cap i ts k s ss)
  then have "permits (ts[i := Insert k s]) \<le> n" using permits_le [of "ts[i := Insert k s]"] by (simp add: mpu_bound_def)
  with below_cap show ?case by (auto simp: mpu_bound_def)
next
  case (removed i ts k s v ss ss')
  then have "length ss' < length ss"
    by (auto simp: remove_if_finished_def length_ss_remove split: option.splits if_splits)
  with removed permits_update [of i ts "Insert k s"] show ?case by (auto simp: mpu_bound_def)
next
  case (inserted i ts k s ss)
  then show ?case using permits_update [of i ts Idle] length_ss_insert [of k s ss] by (auto simp: mpu_bound_def)
next
  case (dropped ss ts k)
  then show ?case using length_ss_remove_le [of k ss] by (auto simp: mpu_bound_def)
qed (auto simp: mpu_bound_def permits_same)

lemma mpu_reachable_bound: "mpu_reachable n st \<Longrightarrow> mpu_bound n st"
proof (induction rule: mpu_reachable.induct)
  case start
  show ?case by (simp add: mpu_bound_def permits_def)
next
  case (step st st')
  then show ?case using mpu_step_bound by blast
qed

text \<open>C28. However the creations of \<open>n\<close> concurrent requests interleave with each other, with the other
  operations and with the sweeper, the table never holds more than 1023 + n sessions: the cap is
  overshot by less than the number of requests in flight. With one request at a time it is a hard cap.\<close>

theorem concurrent_creations_bounded:
  assumes "mpu_reachable n (ss, ts)"
  shows "length ss \<le> 1023 + n"
  using mpu_reachable_bound [OF assms] by (simp add: mpu_bound_def MAX_SESSIONS_def)

theorem concurrent_creations_witness:
  "\<exists>s ts. mpu_reachable 1 ([((''b'', ''c'', ''k'', ''u''), s)], ts) \<and>
     length [((''b'', ''c'', ''k'', ''u''), s)] \<le> 1023 + 1"
proof -
  define k s where "k = (''b'', ''c'', ''k'', ''u'')" and "s = Session_new 0 [] Aes256Gcm 65536"
  have "mpu_reachable 1 ([], [Idle])" using mpu_reachable.start [of 1] by simp
  then have "mpu_reachable 1 ([], [CheckRoom k s])"
    by (rule mpu_reachable.step) (use create_new [of 0 "[Idle]" "[]" k s] in \<open>simp_all add: ss_get_def fresh_step_def\<close>)
  then have "mpu_reachable 1 ([], [Insert k s])"
    by (rule mpu_reachable.step) (use below_cap [of 0 "[CheckRoom k s]" k s "[]"] in \<open>simp_all add: MAX_SESSIONS_def fresh_step_def\<close>)
  then have r: "mpu_reachable 1 ([(k, s)], [Idle])"
    by (rule mpu_reachable.step) (use inserted [of 0 "[Insert k s]" k s "[]"] in \<open>simp_all add: ss_insert_def fresh_step_def\<close>)
  from r concurrent_creations_bounded [OF r] show ?thesis unfolding k_def by blast
qed

end
