(* ===== verification/Chunked.thy ===== *)
theory Chunked
  imports Verify
begin

text \<open>
  The \<open>aws-chunked\<close> decoder (\<open>chunked.rs\<close>): the per-chunk signature chain and the sans-io framer.
  A failed call leaves the framer in a state its callers never use again, so errors carry no state;
  the signature chain returns its state with every result, to show that a failure does not advance it.
\<close>

section \<open>The signature chain\<close>

datatype chunked_error =
    MalformedHeader
  | ChunkTooLarge
  | MissingCrlf
  | BadChunkSignature
  | MalformedTrailer
  | AlreadyDone

definition EMPTY_SHA256 :: string where
  "EMPTY_SHA256 = ''e3b0c44298fc1c149afbf4c8996fb92427ae41e4649b934ca495991b7852b855''"

definition MAX_DECLARED_CHUNK :: nat where
  "MAX_DECLARED_CHUNK = 64 * 1024 * 1024"

definition MAX_LINE_BYTES :: nat where
  "MAX_LINE_BYTES = 8 * 1024"

definition MAX_TRAILERS :: nat where
  "MAX_TRAILERS = 32"

record chunk_verifier =
  cv_signing_key :: bytes
  cv_amz_date :: string
  cv_credential_scope :: string
  cv_prev_signature :: string

definition ChunkVerifier_new :: "bytes \<Rightarrow> string \<Rightarrow> string \<Rightarrow> string \<Rightarrow> chunk_verifier" where
  "ChunkVerifier_new key amz_date scope seed =
     \<lparr> cv_signing_key = key, cv_amz_date = amz_date, cv_credential_scope = scope, cv_prev_signature = seed \<rparr>"

definition cv_expected :: "crypto \<Rightarrow> chunk_verifier \<Rightarrow> bytes \<Rightarrow> string" where
  "cv_expected C v chunk_data =
     signature_hex C (cv_signing_key v)
       (join [CHR 0x0A] [''AWS4-HMAC-SHA256-PAYLOAD'', cv_amz_date v, cv_credential_scope v,
          cv_prev_signature v, EMPTY_SHA256, hex_sha256 C chunk_data])"

definition verify_and_advance ::
  "crypto \<Rightarrow> chunk_verifier \<Rightarrow> bytes \<Rightarrow> string \<Rightarrow> chunk_verifier \<times> (chunked_error + unit)" where
  "verify_and_advance C v chunk_data provided =
     (let expected = cv_expected C v chunk_data in
      if \<not> constant_time_eq_hex expected provided then (v, Inl BadChunkSignature)
      else (v\<lparr> cv_prev_signature := expected \<rparr>, Inr ()))"

section \<open>The framer\<close>

datatype dk_state = Header | Data nat "string option" | DataCrlf | Trailers | Done

record dechunker =
  dk_buf :: bytes
  dk_state :: dk_state
  dk_trailers :: "(string \<times> string) list"

type_synonym decoded_chunk = "bytes \<times> string option"

definition Dechunker_new :: dechunker where
  "Dechunker_new = \<lparr> dk_buf = [], dk_state = Header, dk_trailers = [] \<rparr>"

definition is_done :: "dechunker \<Rightarrow> bool" where
  "is_done d \<longleftrightarrow> dk_state d = Done"

fun find_crlf :: "bytes \<Rightarrow> nat option" where
  "find_crlf (a # b # bs) = (if a = 13 \<and> b = 10 then Some 0 else map_option Suc (find_crlf (b # bs)))"
| "find_crlf bs = None"

definition parse_chunk_header :: "string \<Rightarrow> chunked_error + (nat \<times> string option)" where
  "parse_chunk_header line =
     (let (size_hex, rest) = (case split_once CHR '';'' line of Some p \<Rightarrow> p | None \<Rightarrow> (line, '''')) in
      rbind (ok_or (parse_unsigned 16 (2 ^ 64) (trim size_hex)) MalformedHeader) (\<lambda>size.
      if size > MAX_DECLARED_CHUNK then Inl ChunkTooLarge
      else if rest = '''' then Inr (size, None)
      else rbind (ok_or (strip_prefix ''chunk-signature='' rest) MalformedHeader) (\<lambda>sig.
             Inr (size, Some (trim sig)))))"

text \<open>A step returns the new state, the chunks it emits and whether to go on.\<close>

type_synonym dk_step = "chunked_error + (dechunker \<times> decoded_chunk list \<times> bool)"

definition step_header :: "dechunker \<Rightarrow> dk_step" where
  "step_header d =
     (case find_crlf (dk_buf d) of
        None \<Rightarrow> if length (dk_buf d) > MAX_LINE_BYTES then Inl MalformedHeader else Inr (d, [], False)
      | Some pos \<Rightarrow>
          if \<not> utf8_valid (take pos (dk_buf d)) then Inl MalformedHeader
          else rbind (parse_chunk_header (bytes_str (take pos (dk_buf d)))) (\<lambda>(size, signature).
            let d = d\<lparr> dk_buf := drop (pos + 2) (dk_buf d) \<rparr> in
            if size = 0 then Inr (d\<lparr> dk_state := Trailers \<rparr>, [([], signature)], True)
            else Inr (d\<lparr> dk_state := Data size signature \<rparr>, [], True)))"

definition step_data :: "nat \<Rightarrow> string option \<Rightarrow> dechunker \<Rightarrow> dk_step" where
  "step_data remaining signature d =
     (if length (dk_buf d) < remaining then Inr (d, [], False)
      else Inr (d\<lparr> dk_state := DataCrlf, dk_buf := drop remaining (dk_buf d) \<rparr>,
                [(take remaining (dk_buf d), signature)], True))"

definition step_data_crlf :: "dechunker \<Rightarrow> dk_step" where
  "step_data_crlf d =
     (if length (dk_buf d) < 2 then Inr (d, [], False)
      else if take 2 (dk_buf d) \<noteq> [13, 10] then Inl MissingCrlf
      else Inr (d\<lparr> dk_state := Header, dk_buf := drop 2 (dk_buf d) \<rparr>, [], True))"

definition step_trailers :: "dechunker \<Rightarrow> dk_step" where
  "step_trailers d =
     (case find_crlf (dk_buf d) of
        None \<Rightarrow> if length (dk_buf d) > MAX_LINE_BYTES then Inl MalformedTrailer else Inr (d, [], False)
      | Some pos \<Rightarrow>
          let line = take pos (dk_buf d); rest = drop (pos + 2) (dk_buf d) in
          if line = [] then
            (if rest \<noteq> [] then Inl AlreadyDone
             else Inr (d\<lparr> dk_state := Done, dk_buf := rest \<rparr>, [], False))
          else if length (dk_trailers d) \<ge> MAX_TRAILERS then Inl MalformedTrailer
          else if \<not> utf8_valid line then Inl MalformedTrailer
          else rbind (ok_or (split_once CHR '':'' (bytes_str line)) MalformedTrailer) (\<lambda>(name, value).
            Inr (d\<lparr> dk_buf := rest, dk_trailers := dk_trailers d @ [(trim name, trim value)] \<rparr>, [], True)))"

definition dk_step :: "dechunker \<Rightarrow> dk_step" where
  "dk_step d =
     (case dk_state d of
        Header \<Rightarrow> step_header d
      | Data remaining signature \<Rightarrow> step_data remaining signature d
      | DataCrlf \<Rightarrow> step_data_crlf d
      | Trailers \<Rightarrow> step_trailers d
      | Done \<Rightarrow> Inr (d, [], False))"

text \<open>Every step that asks to go on consumes input or moves from a chunk's data to its end.\<close>

definition dk_rank :: "dechunker \<Rightarrow> nat" where
  "dk_rank d = (case dk_state d of Data _ _ \<Rightarrow> 1 | _ \<Rightarrow> 0)"

lemma find_crlf_bound: "find_crlf bs = Some pos \<Longrightarrow> pos + 2 \<le> length bs"
proof (induction bs arbitrary: pos rule: find_crlf.induct)
  case (1 a b bs)
  then show ?case by (auto split: if_splits)
qed auto

lemma dk_step_progress:
  assumes "dk_step d = Inr (d', out, True)"
  shows "length (dk_buf d') < length (dk_buf d) \<or> (length (dk_buf d') \<le> length (dk_buf d) \<and> dk_rank d' < dk_rank d)"
  using assms
  by (auto simp: dk_step_def step_header_def step_data_def step_data_crlf_def step_trailers_def
      dk_rank_def Let_def result_simps dest: find_crlf_bound split: dk_state.splits option.splits if_splits)

function dk_loop :: "dechunker \<Rightarrow> chunked_error + (dechunker \<times> decoded_chunk list)" where
  "dk_loop d =
     rbind (dk_step d) (\<lambda>(d', out, more). if more then prepend out (dk_loop d') else Inr (d', out))"
  by pat_completeness auto
termination
proof (relation "measures [\<lambda>d. length (dk_buf d), dk_rank]")
  fix d :: dechunker and a d' p out more
  assume "dk_step d = Inr a" "(d', p) = a" "(out, more) = p" more
  then show "(d', d) \<in> measures [\<lambda>d. length (dk_buf d), dk_rank]" using dk_step_progress [of d d' out] by auto
qed simp

declare dk_loop.simps [simp del]

definition feed :: "dechunker \<Rightarrow> bytes \<Rightarrow> chunked_error + (dechunker \<times> decoded_chunk list)" where
  "feed d bs =
     (if dk_state d = Done \<and> bs \<noteq> [] then Inl AlreadyDone
      else dk_loop (d\<lparr> dk_buf := dk_buf d @ bs \<rparr>))"


section \<open>Segmentation\<close>

text \<open>\<open>extended d b\<close>: the framer with more bytes already received.\<close>

abbreviation extended :: "dechunker \<Rightarrow> bytes \<Rightarrow> dechunker" where
  "extended d b \<equiv> d\<lparr> dk_buf := dk_buf d @ b \<rparr>"

lemmas dk_step_defs = dk_step_def step_header_def step_data_def step_data_crlf_def step_trailers_def

lemma find_crlf_append: "find_crlf bs = Some pos \<Longrightarrow> find_crlf (bs @ cs) = Some pos"
proof (induction bs arbitrary: pos rule: find_crlf.induct)
  case (1 a b bs)
  then show ?case by (auto split: if_splits)
qed auto

lemma dk_step_more:
  assumes "dk_step d = Inr (d', out, True)"
  shows "dk_step (extended d b) = Inr (extended d' b, out, True)"
  using assms find_crlf_bound [of "dk_buf d"] find_crlf_append [of "dk_buf d"]
  by (cases d; cases "dk_state d"; cases "find_crlf (dk_buf d)")
    (auto simp: dk_step_defs Let_def result_simps split: if_splits)

lemma dk_step_more_not_done: "dk_step d = Inr (d', out, True) \<Longrightarrow> dk_state d' \<noteq> Done"
  by (cases "dk_state d") (auto simp: dk_step_defs Let_def result_simps split: if_splits option.splits)

lemma dk_step_stop:
  assumes "dk_step d = Inr (d', out, False)"
  obtains "d' = d" "out = []"
  | "dk_state d = Trailers" "dk_buf d = [13, 10]" "d' = d\<lparr> dk_state := Done, dk_buf := [] \<rparr>" "out = []"
proof (cases "d' = d \<and> out = []")
  case True
  then show ?thesis using that(1) by blast
next
  case False
  have two: "bs = [13, 10]" if "find_crlf bs = Some 0" "length bs \<le> 2" for bs :: bytes
    using that by (cases bs rule: find_crlf.cases) (auto split: if_splits)
  show ?thesis using assms False find_crlf_bound [of "dk_buf d"] two [of "dk_buf d"]
    by (intro that(2); cases "dk_state d"; cases "find_crlf (dk_buf d)")
      (auto simp: dk_step_defs Let_def result_simps split: if_splits)
qed

lemma dk_loop_append:
  "dk_loop d = Inr (d', out) \<Longrightarrow> dk_state d \<noteq> Done \<Longrightarrow> dk_loop (extended d b) = prepend out (feed d' b)"
proof (induction d arbitrary: out rule: dk_loop.induct)
  case (1 d)
  from "1.prems" obtain d1 o1 more where s: "dk_step d = Inr (d1, o1, more)"
    by (subst (asm) dk_loop.simps) (auto simp: result_simps)
  show ?case
  proof (cases more)
    case True
    with "1.prems" s obtain o2 where l: "dk_loop d1 = Inr (d', o2)" and out: "out = o1 @ o2"
      by (subst (asm) dk_loop.simps) (auto simp: result_simps prepend_eq_Inr_iff)
    have "dk_loop (extended d b) = prepend o1 (dk_loop (extended d1 b))"
      using dk_step_more [of d d1 o1 b] s True by (subst dk_loop.simps) (simp add: result_simps)
    also have "\<dots> = prepend out (feed d' b)"
      using "1.IH" [OF s refl refl True l] dk_step_more_not_done s True out by (simp add: prepend_append)
    finally show ?thesis .
  next
    case False
    with "1.prems" s have "d' = d1" "out = o1"
      by (subst (asm) dk_loop.simps, simp add: result_simps)+
    with s False have s': "dk_step d = Inr (d', out, False)" by simp
    from s' show ?thesis
    proof (cases rule: dk_step_stop)
      case 1
      then show ?thesis using "1.prems"(2) by (simp add: feed_def)
    next
      case 2
      then show ?thesis
        by (simp add: feed_def dk_loop.simps dk_step_defs result_simps)
    qed
  qed
qed


lemma feed_append: "feed d a = Inr (d', out) \<Longrightarrow> feed d (a @ b) = prepend out (feed d' b)"
proof (cases "dk_state d = Done")
  case True
  moreover assume "feed d a = Inr (d', out)"
  ultimately show ?thesis
    by (cases "a = []") (auto simp: feed_def dk_loop.simps [of d] dk_step_def result_simps)
next
  case False
  moreover assume "feed d a = Inr (d', out)"
  ultimately show ?thesis
    using dk_loop_append [of "extended d a" d' out b] by (simp add: feed_def)
qed

interpretation dechunk: stream_machine feed
  by unfold_locales (rule feed_append)

section \<open>What the framer buffers\<close>

text \<open>\<open>dk_ok\<close> holds between calls; \<open>dk_pending_ok\<close> bounds the bytes a stopped framer still holds.\<close>

definition dk_ok :: "dechunker \<Rightarrow> bool" where
  "dk_ok d \<longleftrightarrow> length (dk_trailers d) \<le> MAX_TRAILERS \<and>
     (case dk_state d of Data n _ \<Rightarrow> 0 < n \<and> n \<le> MAX_DECLARED_CHUNK | _ \<Rightarrow> True)"

definition dk_pending_ok :: "dechunker \<Rightarrow> bool" where
  "dk_pending_ok d \<longleftrightarrow>
     (case dk_state d of
        Header \<Rightarrow> length (dk_buf d) \<le> MAX_LINE_BYTES
      | Data n _ \<Rightarrow> length (dk_buf d) < n
      | DataCrlf \<Rightarrow> length (dk_buf d) < 2
      | Trailers \<Rightarrow> length (dk_buf d) \<le> MAX_LINE_BYTES
      | Done \<Rightarrow> dk_buf d = [])"

lemma parse_chunk_header_bound: "parse_chunk_header line = Inr (n, sig) \<Longrightarrow> n \<le> MAX_DECLARED_CHUNK"
  by (auto simp: parse_chunk_header_def Let_def result_simps split: prod.splits if_splits)

lemma dk_step_ok: "dk_step d = Inr (d', out, go_on) \<Longrightarrow> dk_ok d \<Longrightarrow> dk_ok d'"
  by (cases "dk_state d")
    (auto simp: dk_step_defs dk_ok_def Let_def result_simps split: if_splits option.splits
      dest: parse_chunk_header_bound)

lemma dk_step_stop_pending:
  "dk_step d = Inr (d', out, False) \<Longrightarrow> dk_state d = Done \<longrightarrow> dk_buf d = [] \<Longrightarrow> dk_pending_ok d'"
  by (cases "dk_state d")
    (auto simp: dk_step_defs dk_pending_ok_def Let_def result_simps split: if_splits option.splits)

lemma dk_loop_pending:
  "dk_loop d = Inr (d', out) \<Longrightarrow> dk_ok d \<Longrightarrow> dk_state d = Done \<longrightarrow> dk_buf d = []
   \<Longrightarrow> dk_ok d' \<and> dk_pending_ok d'"
proof (induction d arbitrary: out rule: dk_loop.induct)
  case (1 d)
  from "1.prems" obtain d1 o1 more where s: "dk_step d = Inr (d1, o1, more)"
    by (subst (asm) dk_loop.simps) (auto simp: result_simps)
  show ?case
  proof (cases more)
    case True
    with "1.prems" s obtain o2 where "dk_loop d1 = Inr (d', o2)"
      by (subst (asm) dk_loop.simps) (auto simp: result_simps prepend_eq_Inr_iff)
    with "1.IH" [OF s refl refl True] dk_step_ok [OF s "1.prems"(2)] dk_step_more_not_done s True
    show ?thesis by simp
  next
    case False
    with "1.prems"(1) s have "d' = d1" by (subst (asm) dk_loop.simps) (simp add: result_simps)
    with dk_step_ok [OF s "1.prems"(2)] dk_step_stop_pending s "1.prems"(3) False show ?thesis by simp
  qed
qed

lemma feed_pending:
  assumes "feed d a = Inr (d', out)" "dk_ok d" "dk_pending_ok d"
  shows "dk_ok d' \<and> dk_pending_ok d'"
proof -
  from assms(1) have *: "dk_state d = Done \<longrightarrow> a = []" and l: "dk_loop (extended d a) = Inr (d', out)"
    by (auto simp: feed_def split: if_splits)
  from assms(2) have "dk_ok (extended d a)" by (simp add: dk_ok_def)
  moreover have "dk_state (extended d a) = Done \<longrightarrow> dk_buf (extended d a) = []"
    using * assms(3) by (auto simp: dk_pending_ok_def)
  ultimately show ?thesis using dk_loop_pending [OF l] by blast
qed

lemma run_feed_pending:
  "run_stream feed d xs = Inr (d', out) \<Longrightarrow> dk_ok d \<Longrightarrow> dk_pending_ok d \<Longrightarrow> dk_ok d' \<and> dk_pending_ok d'"
proof (induction xs arbitrary: d out)
  case (Cons x xs)
  then show ?case by (auto simp: result_simps prepend_eq_Inr_iff dest: feed_pending)
qed simp

section \<open>The accepted language\<close>

text \<open>The grammar of an \<open>aws-chunked\<close> body, as a relation between the bytes, the chunks and the
  trailers they carry. A line is what precedes the first \<open>\r\n\<close>.\<close>

definition crlf_line :: "bytes \<Rightarrow> bool" where
  "crlf_line l \<longleftrightarrow> find_crlf (l @ [13, 10]) = Some (length l)"

definition chunk_line :: "bytes \<Rightarrow> nat \<Rightarrow> string option \<Rightarrow> bool" where
  "chunk_line l n sig \<longleftrightarrow> crlf_line l \<and> utf8_valid l \<and> parse_chunk_header (bytes_str l) = Inr (n, sig)"

definition trailer_line :: "bytes \<Rightarrow> string \<times> string \<Rightarrow> bool" where
  "trailer_line l t \<longleftrightarrow> crlf_line l \<and> l \<noteq> [] \<and> utf8_valid l \<and>
     map_option (map_prod trim trim) (split_once CHR '':'' (bytes_str l)) = Some t"

inductive trailer_section :: "bytes \<Rightarrow> (string \<times> string) list \<Rightarrow> bool" where
  no_trailer: "trailer_section [13, 10] []"
| trailer: "trailer_line l t \<Longrightarrow> trailer_section rest ts \<Longrightarrow> trailer_section (l @ [13, 10] @ rest) (t # ts)"

inductive chunked_body :: "bytes \<Rightarrow> decoded_chunk list \<Rightarrow> (string \<times> string) list \<Rightarrow> bool" where
  data_chunk: "chunk_line l (length data) sig \<Longrightarrow> data \<noteq> [] \<Longrightarrow> chunked_body rest cs ts
     \<Longrightarrow> chunked_body (l @ [13, 10] @ data @ [13, 10] @ rest) ((data, sig) # cs) ts"
| final_chunk: "chunk_line l 0 sig \<Longrightarrow> trailer_section rest ts \<Longrightarrow> length ts \<le> MAX_TRAILERS
     \<Longrightarrow> chunked_body (l @ [13, 10] @ rest) [([], sig)] ts"

lemma crlf_line_append: "crlf_line l \<Longrightarrow> find_crlf (l @ 13 # 10 # rest) = Some (length l)"
  using find_crlf_append [of "l @ [13, 10]" "length l" rest] by (simp add: crlf_line_def)

lemma find_crlf_split:
  "find_crlf bs = Some pos \<Longrightarrow> crlf_line (take pos bs) \<and> bs = take pos bs @ [13, 10] @ drop (pos + 2) bs"
proof (induction bs arbitrary: pos rule: find_crlf.induct)
  case (1 a b bs)
  show ?case
  proof (cases "a = 13 \<and> b = 10")
    case True
    with 1 show ?thesis by (simp add: crlf_line_def)
  next
    case False
    with "1.prems" obtain p where p: "find_crlf (b # bs) = Some p" "pos = Suc p" by auto
    with "1.IH" False have *: "crlf_line (take p (b # bs))" "b # bs = take p (b # bs) @ [13, 10] @ drop (p + 2) (b # bs)"
      by auto
    from p False * show ?thesis by (cases p) (auto simp: crlf_line_def)
  qed
qed auto


lemma chunked_body_iff:
  "chunked_body bs cs ts \<longleftrightarrow>
     (\<exists>pos n sig. find_crlf bs = Some pos \<and> utf8_valid (take pos bs) \<and>
        parse_chunk_header (bytes_str (take pos bs)) = Inr (n, sig) \<and>
        (if n = 0 then cs = [([], sig)] \<and> trailer_section (drop (pos + 2) bs) ts \<and> length ts \<le> MAX_TRAILERS
         else \<exists>data rest cs'. drop (pos + 2) bs = data @ 13 # 10 # rest \<and> length data = n \<and>
                cs = (data, sig) # cs' \<and> chunked_body rest cs' ts))"
  (is "_ \<longleftrightarrow> ?R")
proof
  assume "chunked_body bs cs ts"
  then show ?R
    by (cases rule: chunked_body.cases) (auto simp: chunk_line_def crlf_line_append)
next
  assume ?R
  then obtain pos n sig where f: "find_crlf bs = Some pos"
    and h: "utf8_valid (take pos bs)" "parse_chunk_header (bytes_str (take pos bs)) = Inr (n, sig)"
    and r: "if n = 0 then cs = [([], sig)] \<and> trailer_section (drop (pos + 2) bs) ts \<and> length ts \<le> MAX_TRAILERS
         else \<exists>data rest cs'. drop (pos + 2) bs = data @ 13 # 10 # rest \<and> length data = n \<and>
                cs = (data, sig) # cs' \<and> chunked_body rest cs' ts"
    by blast
  from find_crlf_split [OF f] h have hl: "chunk_line (take pos bs) n sig"
    and bs: "bs = take pos bs @ [13, 10] @ drop (pos + 2) bs" by (auto simp: chunk_line_def)
  show "chunked_body bs cs ts"
  proof (cases "n = 0")
    case True
    with r hl final_chunk [of "take pos bs" sig "drop (pos + 2) bs" ts] show ?thesis by (subst bs) simp
  next
    case False
    with r obtain data rest cs' where d: "drop (pos + 2) bs = data @ [13, 10] @ rest" "length data = n"
      "cs = (data, sig) # cs'" "chunked_body rest cs' ts" by auto
    from d(2) hl have "chunk_line (take pos bs) (length data) sig" by simp
    from data_chunk [OF this _ d(4)] False d show ?thesis by (subst bs) auto
  qed
qed

lemma trailer_section_iff:
  "trailer_section bs ts \<longleftrightarrow>
     (\<exists>pos. find_crlf bs = Some pos \<and>
        (if pos = 0 then drop 2 bs = [] \<and> ts = []
         else utf8_valid (take pos bs) \<and> (\<exists>name value ts'.
           split_once CHR '':'' (bytes_str (take pos bs)) = Some (name, value) \<and>
           ts = (trim name, trim value) # ts' \<and> trailer_section (drop (pos + 2) bs) ts')))"
  (is "_ \<longleftrightarrow> ?R")
proof
  assume "trailer_section bs ts"
  then show ?R
    by (cases rule: trailer_section.cases) (auto simp: trailer_line_def crlf_line_append)
next
  assume ?R
  then obtain pos where f: "find_crlf bs = Some pos" and
    r: "if pos = 0 then drop 2 bs = [] \<and> ts = []
         else utf8_valid (take pos bs) \<and> (\<exists>name value ts'.
           split_once CHR '':'' (bytes_str (take pos bs)) = Some (name, value) \<and>
           ts = (trim name, trim value) # ts' \<and> trailer_section (drop (pos + 2) bs) ts')" by blast
  from find_crlf_split [OF f] have l: "crlf_line (take pos bs)"
    and bs: "bs = take pos bs @ [13, 10] @ drop (pos + 2) bs" by auto
  show "trailer_section bs ts"
  proof (cases "pos = 0")
    case True
    with r bs have "bs = [13, 10]" "ts = []" by auto
    then show ?thesis by (simp add: no_trailer)
  next
    case False
    with r obtain name val ts' where t: "ts = (trim name, trim val) # ts'"
      "trailer_section (drop (pos + 2) bs) ts'" "utf8_valid (take pos bs)"
      "split_once CHR '':'' (bytes_str (take pos bs)) = Some (name, val)" by auto
    moreover have "take pos bs \<noteq> []" using False find_crlf_bound [OF f] by auto
    ultimately have "trailer_line (take pos bs) (trim name, trim val)" using l by (simp add: trailer_line_def)
    from trailer [OF this t(2)] t(1) bs show ?thesis by simp
  qed
qed

text \<open>What a framer in each state still has to read.\<close>

definition accepts :: "dechunker \<Rightarrow> decoded_chunk list \<Rightarrow> (string \<times> string) list \<Rightarrow> bool" where
  "accepts d cs ts \<longleftrightarrow>
     (case dk_state d of
        Header \<Rightarrow> chunked_body (dk_buf d) cs ts
      | Data n sig \<Rightarrow> (\<exists>data rest cs'. dk_buf d = data @ 13 # 10 # rest \<and> length data = n \<and>
                         cs = (data, sig) # cs' \<and> chunked_body rest cs' ts)
      | DataCrlf \<Rightarrow> (\<exists>rest. dk_buf d = 13 # 10 # rest \<and> chunked_body rest cs ts)
      | Trailers \<Rightarrow> cs = [] \<and> (\<exists>new. ts = dk_trailers d @ new \<and> trailer_section (dk_buf d) new \<and>
                      length ts \<le> MAX_TRAILERS)
      | Done \<Rightarrow> cs = [] \<and> ts = dk_trailers d)"

definition dk_shape :: "dechunker \<Rightarrow> bool" where
  "dk_shape d \<longleftrightarrow> (dk_state d = Done \<longrightarrow> dk_buf d = []) \<and>
     (dk_state d \<noteq> Trailers \<and> dk_state d \<noteq> Done \<longrightarrow> dk_trailers d = []) \<and>
     length (dk_trailers d) \<le> MAX_TRAILERS"

lemma dk_step_shape: "dk_step d = Inr (d', out, go_on) \<Longrightarrow> dk_shape d \<Longrightarrow> dk_shape d'"
  by (cases "dk_state d")
    (auto simp: dk_step_defs dk_shape_def Let_def result_simps split: if_splits option.splits)

lemma take_2_crlf: "take 2 bs = [13, 10] \<longleftrightarrow> (\<exists>rest. bs = 13 # 10 # (rest :: bytes))"
  by (cases bs rule: find_crlf.cases) auto

lemma accepts_simps:
  "dk_state d = Header \<Longrightarrow> accepts d cs ts \<longleftrightarrow> chunked_body (dk_buf d) cs ts"
  "dk_state d = Data n sig \<Longrightarrow> accepts d cs ts \<longleftrightarrow> (\<exists>data rest cs'. dk_buf d = data @ 13 # 10 # rest \<and> length data = n \<and>
                         cs = (data, sig) # cs' \<and> chunked_body rest cs' ts)"
  "dk_state d = DataCrlf \<Longrightarrow> accepts d cs ts \<longleftrightarrow> (\<exists>rest. dk_buf d = 13 # 10 # rest \<and> chunked_body rest cs ts)"
  "dk_state d = Trailers \<Longrightarrow> accepts d cs ts \<longleftrightarrow> cs = [] \<and> (\<exists>new. ts = dk_trailers d @ new \<and>
                         trailer_section (dk_buf d) new \<and> length ts \<le> MAX_TRAILERS)"
  "dk_state d = Done \<Longrightarrow> accepts d cs ts \<longleftrightarrow> cs = [] \<and> ts = dk_trailers d"
  by (simp_all add: accepts_def)

text \<open>A step either fails and nothing is accepted, or goes on with what is left to accept.\<close>

definition accepts_step :: "dk_step \<Rightarrow> decoded_chunk list \<Rightarrow> (string \<times> string) list \<Rightarrow> bool" where
  "accepts_step r cs ts \<longleftrightarrow>
    (case r of
       Inl _ \<Rightarrow> False
     | Inr (d', out, go_on) \<Rightarrow>
         if go_on then \<exists>cs'. cs = out @ cs' \<and> accepts d' cs' ts
         else dk_state d' = Done \<and> cs = [] \<and> ts = dk_trailers d')"

lemma accepts_step_simps [simp]:
  "accepts_step (Inl e) cs ts = False"
  "accepts_step (Inr (d', out, True)) cs ts = (\<exists>cs'. cs = out @ cs' \<and> accepts d' cs' ts)"
  "accepts_step (Inr (d', out, False)) cs ts = (dk_state d' = Done \<and> cs = [] \<and> ts = dk_trailers d')"
  by (simp_all add: accepts_step_def)

lemma step_header_accepts:
  assumes "dk_shape d" "dk_state d = Header"
  shows "accepts d cs ts \<longleftrightarrow> accepts_step (step_header d) cs ts"
proof (cases "find_crlf (dk_buf d)")
  case None
  with assms show ?thesis by (simp add: accepts_simps chunked_body_iff [of "dk_buf d"] step_header_def)
next
  case (Some pos)
  show ?thesis
  proof (cases "utf8_valid (take pos (dk_buf d))")
    case utf8: True
    show ?thesis
    proof (cases "parse_chunk_header (bytes_str (take pos (dk_buf d)))")
      case (Inl e)
      with assms Some utf8 show ?thesis
        by (simp add: accepts_simps chunked_body_iff [of "dk_buf d"] step_header_def)
    next
      case (Inr p)
      with assms Some utf8 show ?thesis
        by (cases p) (simp add: accepts_simps chunked_body_iff [of "dk_buf d"] step_header_def dk_shape_def)
    qed
  next
    case False
    with assms Some show ?thesis by (simp add: accepts_simps chunked_body_iff [of "dk_buf d"] step_header_def)
  qed
qed

lemma split_at_iff:
  assumes "n \<le> length bs"
  shows "(\<exists>data rest. bs = data @ f rest \<and> length data = n \<and> P data rest)
      \<longleftrightarrow> (\<exists>rest. drop n bs = f rest \<and> P (take n bs) rest)"
proof
  assume "\<exists>rest. drop n bs = f rest \<and> P (take n bs) rest"
  then obtain rest where "drop n bs = f rest" "P (take n bs) rest" by blast
  moreover from this(1) have "bs = take n bs @ f rest" by (metis append_take_drop_id)
  moreover have "length (take n bs) = n" using assms by simp
  ultimately show "\<exists>data rest. bs = data @ f rest \<and> length data = n \<and> P data rest" by blast
qed auto

lemma step_data_accepts:
  assumes "dk_state d = Data n sig"
  shows "accepts d cs ts \<longleftrightarrow> accepts_step (step_data n sig d) cs ts"
proof (cases "length (dk_buf d) < n")
  case True
  with assms show ?thesis by (auto simp: accepts_simps step_data_def)
next
  case False
  then have n: "n \<le> length (dk_buf d)" by simp
  show ?thesis
    using split_at_iff [OF n, of "\<lambda>r. 13 # 10 # r" "\<lambda>data rest. \<exists>cs'. cs = (data, sig) # cs' \<and> chunked_body rest cs' ts"]
      assms False by (auto simp: accepts_simps step_data_def)
qed

lemma step_data_crlf_accepts:
  assumes "dk_state d = DataCrlf"
  shows "accepts d cs ts \<longleftrightarrow> accepts_step (step_data_crlf d) cs ts"
proof (cases "length (dk_buf d) < 2")
  case True
  with assms show ?thesis by (auto simp: accepts_simps step_data_crlf_def)
next
  case False
  with assms take_2_crlf [of "dk_buf d"] show ?thesis by (auto simp: accepts_simps step_data_crlf_def)
qed

lemma step_trailers_accepts:
  assumes "dk_shape d" "dk_state d = Trailers"
  shows "accepts d cs ts \<longleftrightarrow> accepts_step (step_trailers d) cs ts"
proof (cases "find_crlf (dk_buf d)")
  case None
  with assms show ?thesis by (simp add: accepts_simps trailer_section_iff [of "dk_buf d"] step_trailers_def)
next
  case (Some pos)
  show ?thesis
  proof (cases "pos = 0")
    case True
    with assms find_crlf_bound [OF Some] show ?thesis
      by (auto simp: Some accepts_simps trailer_section_iff [of "dk_buf d"] step_trailers_def dk_shape_def)
  next
    case False
    then have "take pos (dk_buf d) \<noteq> []" using find_crlf_bound [OF Some] by auto
    with False assms show ?thesis
      by (cases "split_once CHR '':'' (bytes_str (take pos (dk_buf d)))")
        (auto simp: Some accepts_simps trailer_section_iff [of "dk_buf d"] step_trailers_def Let_def)
  qed
qed


lemma dk_step_accepts: "dk_shape d \<Longrightarrow> accepts d cs ts \<longleftrightarrow> accepts_step (dk_step d) cs ts"
  by (cases "dk_state d")
    (simp_all add: dk_step_def step_header_accepts step_data_accepts step_data_crlf_accepts
      step_trailers_accepts accepts_simps)

lemma dk_loop_accepts:
  "dk_shape d \<Longrightarrow>
     accepts d cs ts \<longleftrightarrow> (\<exists>d'. dk_loop d = Inr (d', cs) \<and> is_done d' \<and> dk_trailers d' = ts)"
proof (induction d arbitrary: cs rule: dk_loop.induct)
  case (1 d)
  show ?case
  proof (cases "dk_step d")
    case (Inl e)
    then show ?thesis using "1.prems" dk_step_accepts [of d cs ts] by (simp add: dk_loop.simps [of d])
  next
    case (Inr r)
    then obtain d1 o1 go_on where s: "dk_step d = Inr (d1, o1, go_on)" by (cases r) auto
    note acc = dk_step_accepts [OF "1.prems", of cs ts]
    show ?thesis
    proof (cases go_on)
      case True
      with "1.IH" [OF s refl refl True dk_step_shape [OF s "1.prems"]] acc s show ?thesis
        by (auto simp: dk_loop.simps [of d] result_simps prepend_eq_Inr_iff)
    next
      case False
      have "o1 = []" using s False by (auto elim: dk_step_stop)
      with acc s False show ?thesis by (auto simp: dk_loop.simps [of d] is_done_def)
    qed
  qed
qed

lemma feed_new_accepts:
  "(\<exists>d. feed Dechunker_new bs = Inr (d, cs) \<and> is_done d \<and> dk_trailers d = ts) \<longleftrightarrow> chunked_body bs cs ts"
  using dk_loop_accepts [of "Dechunker_new\<lparr> dk_buf := bs \<rparr>" cs ts]
  by (simp add: feed_def Dechunker_new_def dk_shape_def accepts_simps)

text \<open>C16. The \<open>aws-chunked\<close> framer accepts exactly the grammar: a body drives it to \<open>Done\<close>, emitting the
  chunks \<open>cs\<close> and collecting the trailers \<open>ts\<close>, if and only if the body is a sequence of non-empty chunks
  with their declared lengths, a zero chunk, and at most 32 trailer lines ended by an empty one.\<close>

theorem dechunker_accepts_exactly_grammar:
  "(\<exists>d. feed Dechunker_new bs = Inr (d, cs) \<and> is_done d \<and> dk_trailers d = ts) \<longleftrightarrow> chunked_body bs cs ts"
  by (rule feed_new_accepts)

lemma dechunker_pieces_and_memory_facts:
  assumes "run_stream feed Dechunker_new xs = Inr (d, cs)"
  shows "feed Dechunker_new (concat xs) = Inr (d, cs)"
    and "case dk_state d of
           Header \<Rightarrow> length (dk_buf d) \<le> 8192
         | Data n _ \<Rightarrow> length (dk_buf d) < n \<and> n \<le> 67108864
         | DataCrlf \<Rightarrow> length (dk_buf d) \<le> 1
         | Trailers \<Rightarrow> length (dk_buf d) \<le> 8192
         | Done \<Rightarrow> dk_buf d = []"
    and "length (dk_trailers d) \<le> 32"
proof -
  have new: "feed Dechunker_new [] = Inr (Dechunker_new, [])"
    by (simp add: feed_def Dechunker_new_def dk_loop.simps dk_step_defs)
  show "feed Dechunker_new (concat xs) = Inr (d, cs)"
    using dechunk.run_stream_concat [OF assms] assms new by (cases "xs = []") auto
  have "dk_ok d \<and> dk_pending_ok d"
    by (rule run_feed_pending [OF assms]) (simp_all add: dk_ok_def dk_pending_ok_def Dechunker_new_def)
  then show "case dk_state d of
           Header \<Rightarrow> length (dk_buf d) \<le> 8192
         | Data n _ \<Rightarrow> length (dk_buf d) < n \<and> n \<le> 67108864
         | DataCrlf \<Rightarrow> length (dk_buf d) \<le> 1
         | Trailers \<Rightarrow> length (dk_buf d) \<le> 8192
         | Done \<Rightarrow> dk_buf d = []" "length (dk_trailers d) \<le> 32"
    by (auto simp: dk_ok_def dk_pending_ok_def MAX_LINE_BYTES_def MAX_DECLARED_CHUNK_def MAX_TRAILERS_def
        split: dk_state.splits)
qed

text \<open>C36. However the network cuts a body, if the framer takes all the pieces then it emits the same
  chunks as for the whole body; and between two pieces it never holds more than an unfinished line of
  8 KiB, the declared bytes of one chunk of at most 64 MiB, or one byte of a line end.\<close>

theorem dechunker_pieces_and_memory:
  assumes "run_stream feed Dechunker_new xs = Inr (d, cs)"
  shows "feed Dechunker_new (concat xs) = Inr (d, cs) \<and>
    (case dk_state d of
       Header \<Rightarrow> length (dk_buf d) \<le> 8192
     | Data n _ \<Rightarrow> length (dk_buf d) < n \<and> n \<le> 67108864
     | DataCrlf \<Rightarrow> length (dk_buf d) \<le> 1
     | Trailers \<Rightarrow> length (dk_buf d) \<le> 8192
     | Done \<Rightarrow> dk_buf d = []) \<and>
    length (dk_trailers d) \<le> 32"
  by (intro conjI dechunker_pieces_and_memory_facts [OF assms])

lemma chunk_line_sample: "parse_chunk_header ''2'' = Inr (2, None)"
proof -
  have "trim ''2'' = ''2''" by (simp add: trim_def strip_all.simps find_prefix_def white_space_def)
  then show ?thesis
    by (simp add: parse_chunk_header_def parse_unsigned_def digit_value_def MAX_DECLARED_CHUNK_def)
qed

theorem dechunker_pieces_witness:
  "run_stream feed Dechunker_new [[50, 13], [10, 1]]
     = Inr (\<lparr> dk_buf = [1], dk_state = Data 2 None, dk_trailers = [] \<rparr>, []) \<and>
   feed Dechunker_new [50, 13, 10, 1] = Inr (\<lparr> dk_buf = [1], dk_state = Data 2 None, dk_trailers = [] \<rparr>, [])"
proof -
  have line: "bytes_str [50] = ''2''" "utf8_valid [50]" by (simp_all add: bytes_str_def byte_char_def char_of_eq_iff)
  have *: "run_stream feed Dechunker_new [[50, 13], [10, 1]]
     = Inr (\<lparr> dk_buf = [1], dk_state = Data 2 None, dk_trailers = [] \<rparr>, [])"
    by (simp add: feed_def Dechunker_new_def dk_loop.simps dk_step_defs MAX_LINE_BYTES_def line chunk_line_sample)
  show ?thesis using * dechunker_pieces_and_memory [OF *] by simp
qed

end
