(* ===== verification/RequestBody.thy ===== *)
theory RequestBody
  imports Errors Chunked FrameProps
begin

text \<open>
  The request-body transforms (\<open>proxy/body.rs\<close>, first half): hashing, \<open>aws-chunked\<close> decoding with the
  signature chain, and encryption. A body is the list of its frames and how it ends: cleanly, with an
  error that a verifying wrapper recorded in the request's abort slot, or with a transport error. The
  channel to the HTTP client is the list itself, in order; a receiver that goes away only cuts it short.
\<close>

section \<open>Bodies\<close>

datatype frame = DataFrame bytes | TrailersFrame

datatype stream_end = Eof | Aborted s3error | Broken string

type_synonym proxy_body = "frame list \<times> stream_end"

fun frame_data :: "frame \<Rightarrow> bytes" where
  "frame_data (DataFrame bs) = bs"
| "frame_data TrailersFrame = []"

definition body_data :: "frame list \<Rightarrow> bytes" where
  "body_data fs = concat (map frame_data fs)"

definition body_empty :: proxy_body where
  "body_empty = ([], Eof)"

definition body_full :: "bytes \<Rightarrow> proxy_body" where
  "body_full bs = ([DataFrame bs], Eof)"

text \<open>\<open>send_then\<close>: what was sent before, then the rest of the stream.\<close>

definition send_then :: "frame list \<Rightarrow> proxy_body \<Rightarrow> proxy_body" where
  "send_then out b = (out @ fst b, snd b)"

definition abort_reason :: "proxy_body \<Rightarrow> s3error option" where
  "abort_reason b = (case snd b of Aborted e \<Rightarrow> Some e | _ \<Rightarrow> None)"

section \<open>Hashing\<close>

text \<open>The state of the task: the bytes given to the hasher and the frame held back.\<close>

definition finish_hashing :: "crypto \<Rightarrow> bytes \<Rightarrow> frame option \<Rightarrow> string \<Rightarrow> proxy_body" where
  "finish_hashing C hashed pending expected =
     (let digest = hex_sha256 C hashed in
      if digest \<noteq> expected then ([], Aborted (payload_hash_mismatch expected digest))
      else (case pending of Some f \<Rightarrow> [f] | None \<Rightarrow> [], Eof))"

definition push_hashing_frame :: "frame \<Rightarrow> bytes \<Rightarrow> frame option \<Rightarrow> frame list \<times> bytes \<times> frame option" where
  "push_hashing_frame f hashed pending =
     (case pending of None \<Rightarrow> [] | Some prev \<Rightarrow> [prev], hashed @ frame_data f, Some f)"

fun hashing_loop :: "crypto \<Rightarrow> string \<Rightarrow> bytes \<Rightarrow> frame option \<Rightarrow> frame list \<Rightarrow> stream_end \<Rightarrow> proxy_body" where
  "hashing_loop C expected hashed pending [] fin =
     (case fin of Eof \<Rightarrow> finish_hashing C hashed pending expected | _ \<Rightarrow> ([], fin))"
| "hashing_loop C expected hashed pending (f # fs) fin =
     (let (out, hashed', pending') = push_hashing_frame f hashed pending
      in send_then out (hashing_loop C expected hashed' pending' fs fin))"

definition hashing :: "crypto \<Rightarrow> proxy_body \<Rightarrow> string \<Rightarrow> proxy_body" where
  "hashing C inner expected = hashing_loop C expected [] None (fst inner) (snd inner)"

section \<open>Decoding\<close>

definition chunked_error_string :: "chunked_error \<Rightarrow> string" where
  "chunked_error_string e =
     (case e of
        MalformedHeader \<Rightarrow> ''malformed chunk header''
      | ChunkTooLarge \<Rightarrow> ''declared chunk size exceeds the 67108864 byte limit''
      | MissingCrlf \<Rightarrow> ''chunk data missing its terminating CRLF''
      | BadChunkSignature \<Rightarrow> ''chunk signature does not match''
      | MalformedTrailer \<Rightarrow> ''malformed trailer header line''
      | AlreadyDone \<Rightarrow> ''more data received after the decoder finished'')"

definition chunk_error_message :: "chunked_error \<Rightarrow> string" where
  "chunk_error_message e = ''aws-chunked decode failed: '' @ chunked_error_string e"

fun forward_chunks ::
  "crypto \<Rightarrow> decoded_chunk list \<Rightarrow> chunk_verifier option \<Rightarrow> frame list \<times> (s3error + chunk_verifier option)" where
  "forward_chunks C [] verifier = ([], Inr verifier)"
| "forward_chunks C ((data, signature) # chunks) verifier =
     (let checked =
        (case verifier of
           None \<Rightarrow> Inr None
         | Some v \<Rightarrow>
             (case signature of
                None \<Rightarrow> Inl signature_does_not_match
              | Some sig \<Rightarrow>
                  (case verify_and_advance C v data sig of
                     (v', Inl _) \<Rightarrow> Inl signature_does_not_match
                   | (v', Inr _) \<Rightarrow> Inr (Some v'))))
      in case checked of
           Inl e \<Rightarrow> ([], Inl e)
         | Inr verifier' \<Rightarrow>
             let (out, r) = forward_chunks C chunks verifier'
             in (if data = [] then out else DataFrame data # out, r))"

fun dechunking_loop ::
  "crypto \<Rightarrow> dechunker \<Rightarrow> chunk_verifier option \<Rightarrow> frame list \<Rightarrow> stream_end \<Rightarrow> proxy_body" where
  "dechunking_loop C d verifier [] fin =
     (case fin of
        Eof \<Rightarrow> if is_done d then ([], Eof)
               else ([], Aborted (incomplete_body ''aws-chunked body ended before its terminator''))
      | _ \<Rightarrow> ([], fin))"
| "dechunking_loop C d verifier (TrailersFrame # fs) fin = dechunking_loop C d verifier fs fin"
| "dechunking_loop C d verifier (DataFrame raw # fs) fin =
     (case feed d raw of
        Inl e \<Rightarrow> ([], Aborted (incomplete_body (chunk_error_message e)))
      | Inr (d', chunks) \<Rightarrow>
          (case forward_chunks C chunks verifier of
             (out, Inl e) \<Rightarrow> (out, Aborted e)
           | (out, Inr verifier') \<Rightarrow> send_then out (dechunking_loop C d' verifier' fs fin)))"

definition dechunking :: "crypto \<Rightarrow> proxy_body \<Rightarrow> chunk_verifier option \<Rightarrow> proxy_body" where
  "dechunking C inner verifier = dechunking_loop C Dechunker_new verifier (fst inner) (snd inner)"

section \<open>Encrypting\<close>

text \<open>\<open>md5\<close> is the parameter for the MD5 crate; the hasher is the bytes given to it so far.\<close>

definition check_md5 :: "(bytes \<Rightarrow> bytes) \<Rightarrow> bytes option \<Rightarrow> bytes option \<Rightarrow> bool" where
  "check_md5 md5 hasher expected =
     (case (hasher, expected) of (Some h, Some x) \<Rightarrow> md5 h = x | _ \<Rightarrow> True)"

definition finish_encrypting ::
  "aead \<Rightarrow> (bytes \<Rightarrow> bytes) \<Rightarrow> encryptor \<Rightarrow> entropy \<Rightarrow> bytes option \<Rightarrow> bytes option \<Rightarrow> u64 \<Rightarrow> u64 \<Rightarrow> bytes option
     \<Rightarrow> proxy_body" where
  "finish_encrypting A md5 enc g hasher expected_md5 seen expected_pt_len trailer =
     (if seen \<noteq> expected_pt_len then
        ([], Aborted (incomplete_body ''streamed plaintext is shorter than the declared decoded length''))
      else if \<not> check_md5 md5 hasher expected_md5 then ([], Aborted bad_digest)
      else
        let ct = fst (Encryptor_finish A enc g) @ (case trailer of Some t \<Rightarrow> t | None \<Rightarrow> [])
        in ([DataFrame ct], Eof))"

fun encrypting_loop ::
  "aead \<Rightarrow> (bytes \<Rightarrow> bytes) \<Rightarrow> bytes option \<Rightarrow> u64 \<Rightarrow> bytes option \<Rightarrow> encryptor \<Rightarrow> entropy \<Rightarrow> bytes option \<Rightarrow> u64
     \<Rightarrow> frame list \<Rightarrow> stream_end \<Rightarrow> proxy_body" where
  "encrypting_loop A md5 expected_md5 expected_pt_len trailer enc g hasher seen [] fin =
     (case fin of
        Eof \<Rightarrow> finish_encrypting A md5 enc g hasher expected_md5 seen expected_pt_len trailer
      | _ \<Rightarrow> ([], fin))"
| "encrypting_loop A md5 expected_md5 expected_pt_len trailer enc g hasher seen (TrailersFrame # fs) fin =
     encrypting_loop A md5 expected_md5 expected_pt_len trailer enc g hasher seen fs fin"
| "encrypting_loop A md5 expected_md5 expected_pt_len trailer enc g hasher seen (DataFrame data # fs) fin =
     (let seen' = seen + word_of_nat (length data) in
      if seen' > expected_pt_len then
        ([], Aborted (incomplete_body ''streamed plaintext exceeds the declared decoded length''))
      else
        let ((enc', g'), ct) = Encryptor_push A enc g data
        in send_then (if ct = [] then [] else [DataFrame ct])
             (encrypting_loop A md5 expected_md5 expected_pt_len trailer enc' g'
                (map_option (\<lambda>h. h @ data) hasher) seen' fs fin))"

definition encrypting ::
  "aead \<Rightarrow> (bytes \<Rightarrow> bytes) \<Rightarrow> entropy \<Rightarrow> proxy_body \<Rightarrow> alg \<Rightarrow> bytes \<Rightarrow> nat \<Rightarrow> bytes option \<Rightarrow> u64 \<Rightarrow> u32 \<Rightarrow> bytes option
     \<Rightarrow> proxy_body option" where
  "encrypting A md5 g inner alg dek chunk_size expected_md5 expected_pt_len part_number trailer =
     map_option (\<lambda>enc. encrypting_loop A md5 expected_md5 expected_pt_len trailer enc g
                          (if expected_md5 \<noteq> None then Some [] else None) 0 (fst inner) (snd inner))
       (Encryptor_new alg dek part_number chunk_size)"


text \<open>The choice of the transform by the payload-hash header (\<open>build_outbound_body\<close> in \<open>proxy/mod.rs\<close>).\<close>

definition build_outbound_body :: "crypto \<Rightarrow> proxy_body \<Rightarrow> string \<Rightarrow> chunk_seed \<Rightarrow> proxy_body" where
  "build_outbound_body C incoming payload_hash_header seed =
     (if payload_hash_header = ''UNSIGNED-PAYLOAD'' then incoming
      else case strip_prefix ''STREAMING-'' payload_hash_header of
        Some rest \<Rightarrow>
          dechunking C incoming
            (if starts_with rest ''AWS4-HMAC-SHA256-PAYLOAD''
             then Some (ChunkVerifier_new (cs_signing_key seed) (cs_amz_date seed) (cs_credential_scope seed)
                          (cs_seed_signature seed))
             else None)
      | None \<Rightarrow> hashing C incoming (to_ascii_lowercase payload_hash_header))"

section \<open>The hash check\<close>

lemma body_data_simps [simp]:
  "body_data [] = []" "body_data (f # fs) = frame_data f @ body_data fs" "body_data (fs @ gs) = body_data fs @ body_data gs"
  by (simp_all add: body_data_def)

lemma send_then_simps [simp]: "fst (send_then out b) = out @ fst b" "snd (send_then out b) = snd b"
  by (simp_all add: send_then_def)

lemma hashing_loop_eq:
  "hashing_loop C expected hashed pending fs fin =
     (let held = (case pending of None \<Rightarrow> [] | Some f \<Rightarrow> [f]) @ fs;
          digest = hex_sha256 C (hashed @ body_data fs)
      in if fin \<noteq> Eof then (butlast held, fin)
         else if digest = expected then (held, Eof)
         else (butlast held, Aborted (payload_hash_mismatch expected digest)))"
proof (induction C expected hashed pending fs fin rule: hashing_loop.induct)
  case (1 C expected hashed pending fin)
  then show ?case by (cases fin; cases pending) (simp_all add: finish_hashing_def Let_def)
next
  case (2 C expected hashed pending f fs fin)
  then show ?case
    by (cases pending) (simp_all add: push_hashing_frame_def send_then_def Let_def)
qed

lemma hashing_eq:
  "hashing C (fs, Eof) expected =
     (if hex_sha256 C (body_data fs) = expected then (fs, Eof)
      else (butlast fs, Aborted (payload_hash_mismatch expected (hex_sha256 C (body_data fs)))))"
  by (simp add: hashing_def hashing_loop_eq Let_def)

section \<open>The signature chain over a body\<close>

text \<open>The specification of a signed chunk sequence: every chunk, the empty terminator included, carries
  the signature that the previous one and its data determine.\<close>

fun chain_ok :: "crypto \<Rightarrow> chunk_verifier \<Rightarrow> decoded_chunk list \<Rightarrow> bool" where
  "chain_ok C v [] = True"
| "chain_ok C v ((data, None) # cs) = False"
| "chain_ok C v ((data, Some sig) # cs) =
     (sig = cv_expected C v data \<and> chain_ok C (v\<lparr> cv_prev_signature := sig \<rparr>) cs)"

text \<open>The verifier after a valid sequence.\<close>

fun chain_end :: "chunk_verifier \<Rightarrow> decoded_chunk list \<Rightarrow> chunk_verifier" where
  "chain_end v [] = v"
| "chain_end v ((data, None) # cs) = chain_end v cs"
| "chain_end v ((data, Some sig) # cs) = chain_end (v\<lparr> cv_prev_signature := sig \<rparr>) cs"

lemma verify_and_advance_iff:
  "verify_and_advance C v data sig =
     (if sig = cv_expected C v data then (v\<lparr> cv_prev_signature := sig \<rparr>, Inr ()) else (v, Inl BadChunkSignature))"
  by (auto simp: verify_and_advance_def constant_time_eq_hex_iff Let_def)

lemma chain_ok_append: "chain_ok C v (cs @ ds) \<longleftrightarrow> chain_ok C v cs \<and> chain_ok C (chain_end v cs) ds"
  by (induction C v cs rule: chain_ok.induct) auto

lemma chain_end_append: "chain_end v (cs @ ds) = chain_end (chain_end v cs) ds"
  by (induction v cs rule: chain_end.induct) auto

text \<open>Forwarding a batch: it succeeds exactly when the batch extends the chain; what is forwarded is the
  data of a valid prefix.\<close>

lemma forward_chunks_Some:
  "forward_chunks C cs (Some v) = (out, r) \<Longrightarrow>
     (\<exists>pre post. cs = pre @ post \<and> chain_ok C v pre \<and> body_data out = concat (map fst pre) \<and>
        (case r of Inr ver \<Rightarrow> post = [] \<and> ver = Some (chain_end v pre) | Inl e \<Rightarrow> \<not> chain_ok C v cs))"
proof (induction cs arbitrary: v out r)
  case (Cons c cs)
  obtain data signature where c: "c = (data, signature)" by (cases c)
  show ?case
  proof (cases "signature = Some (cv_expected C v data)")
    case True
    let ?v = "v\<lparr> cv_prev_signature := cv_expected C v data \<rparr>"
    obtain out' where o: "forward_chunks C cs (Some ?v) = (out', r)"
      "out = (if data = [] then out' else DataFrame data # out')"
      using Cons.prems True c by (auto simp: verify_and_advance_iff Let_def split: prod.splits)
    from Cons.IH [OF o(1)] obtain pre post where
      "cs = pre @ post" "chain_ok C ?v pre" "body_data out' = concat (map fst pre)"
      "case r of Inr ver \<Rightarrow> post = [] \<and> ver = Some (chain_end ?v pre) | Inl e \<Rightarrow> \<not> chain_ok C ?v cs" by blast
    then show ?thesis using True c o(2)
      by (intro exI [of _ "c # pre"] exI [of _ post]) (auto split: sum.splits)
  next
    case False
    then have "out = []" "r = Inl signature_does_not_match" "\<not> chain_ok C v (c # cs)"
      using Cons.prems c by (cases signature; simp add: verify_and_advance_iff)+
    then show ?thesis by (intro exI [of _ "[]"] exI [of _ "c # cs"]) simp
  qed
qed auto

lemma forward_chunks_None:
  "\<exists>out. forward_chunks C cs None = (out, Inr None) \<and> body_data out = concat (map fst cs)"
  by (induction cs) (auto split: prod.splits)


text \<open>The bytes of the data frames, as the framer is fed with them.\<close>

fun raw_pieces :: "frame list \<Rightarrow> bytes list" where
  "raw_pieces [] = []"
| "raw_pieces (TrailersFrame # fs) = raw_pieces fs"
| "raw_pieces (DataFrame bs # fs) = bs # raw_pieces fs"

lemma concat_raw_pieces [simp]: "concat (raw_pieces fs) = body_data fs"
  by (induction fs rule: raw_pieces.induct) auto

definition verified :: "crypto \<Rightarrow> chunk_verifier option \<Rightarrow> decoded_chunk list \<Rightarrow> bool" where
  "verified C ver cs \<longleftrightarrow> (case ver of Some v \<Rightarrow> chain_ok C v cs | None \<Rightarrow> True)"

definition ver_end :: "chunk_verifier option \<Rightarrow> decoded_chunk list \<Rightarrow> chunk_verifier option" where
  "ver_end ver cs = map_option (\<lambda>v. chain_end v cs) ver"

lemma verified_append: "verified C ver (cs @ ds) \<longleftrightarrow> verified C ver cs \<and> verified C (ver_end ver cs) ds"
  by (cases ver) (simp_all add: verified_def ver_end_def chain_ok_append)

lemma forward_chunks_cases:
  assumes "forward_chunks C cs ver = (out, r)"
  obtains (good) "verified C ver cs" "body_data out = concat (map fst cs)" "r = Inr (ver_end ver cs)"
  | (bad) e pre where "\<not> verified C ver cs" "verified C ver pre" "body_data out = concat (map fst pre)" "r = Inl e"
proof (cases ver)
  case None
  with forward_chunks_None [of C cs] assms good show ?thesis by (auto simp: verified_def ver_end_def)
next
  case (Some v)
  with assms have "forward_chunks C cs (Some v) = (out, r)" by simp
  from forward_chunks_Some [OF this] obtain pre post where p: "cs = pre @ post" "chain_ok C v pre"
    "body_data out = concat (map fst pre)"
    "case r of Inr ver \<Rightarrow> post = [] \<and> ver = Some (chain_end v pre) | Inl e \<Rightarrow> \<not> chain_ok C v cs" by blast
  show ?thesis
  proof (cases r)
    case (Inl e)
    with p Some bad [of pre e] show ?thesis by (simp add: verified_def)
  next
    case (Inr ver')
    with p Some good show ?thesis by (simp add: verified_def ver_end_def)
  qed
qed

lemma dechunking_loop_sound:
  "dechunking_loop C d ver fs fin = (out, e) \<Longrightarrow>
     \<exists>cs. verified C ver cs \<and> body_data out = concat (map fst cs) \<and>
       (e = Eof \<longrightarrow> fin = Eof \<and> (\<exists>d'. run_stream feed d (raw_pieces fs) = Inr (d', cs) \<and> is_done d'))"
proof (induction C d ver fs fin arbitrary: out e rule: dechunking_loop.induct)
  case (1 C d ver fin)
  have "out = []" "e = Eof \<longrightarrow> fin = Eof \<and> is_done d"
    using "1.prems" by (cases fin; auto split: if_splits)+
  moreover have "verified C ver []" by (simp add: verified_def split: option.splits)
  ultimately show ?case by (intro exI [of _ "[]"]) simp
next
  case (2 C d ver fs fin)
  then show ?case by simp
next
  case (3 C d ver raw fs fin)
  show ?case
  proof (cases "feed d raw")
    case (Inl err)
    with "3.prems" have "out = []" "e \<noteq> Eof" by auto
    moreover have "verified C ver []" by (simp add: verified_def split: option.splits)
    ultimately show ?thesis by (intro exI [of _ "[]"]) simp
  next
    case (Inr p)
    then obtain d' cs where f: "feed d raw = Inr (d', cs)" by (cases p) auto
    obtain out1 r where fc: "forward_chunks C cs ver = (out1, r)" by fastforce
    then show ?thesis
    proof (cases rule: forward_chunks_cases)
      case good
      obtain out2 where l: "dechunking_loop C d' (ver_end ver cs) fs fin = (out2, e)" and out: "out = out1 @ out2"
        using "3.prems" f fc good(3) by (auto simp: send_then_def prod_eq_iff)
      have IH: "\<exists>cs'. verified C (ver_end ver cs) cs' \<and> body_data out2 = concat (map fst cs') \<and>
         (e = Eof \<longrightarrow> fin = Eof \<and> (\<exists>d''. run_stream feed d' (raw_pieces fs) = Inr (d'', cs') \<and> is_done d''))"
        using "3.IH" f fc good(3) l by simp
      then obtain cs' where cs': "verified C (ver_end ver cs) cs'" "body_data out2 = concat (map fst cs')"
        "e = Eof \<longrightarrow> fin = Eof \<and> (\<exists>d''. run_stream feed d' (raw_pieces fs) = Inr (d'', cs') \<and> is_done d'')" by blast
      have "verified C ver (cs @ cs')" using good(1) cs'(1) by (simp add: verified_append)
      moreover have "body_data out = concat (map fst (cs @ cs'))" using out good(2) cs'(2) by simp
      moreover have "e = Eof \<longrightarrow> fin = Eof \<and>
          (\<exists>d''. run_stream feed d (raw_pieces (DataFrame raw # fs)) = Inr (d'', cs @ cs') \<and> is_done d'')"
        using cs'(3) f by (auto simp: prepend_eq_Inr_iff)
      ultimately show ?thesis by blast
    next
      case (bad err pre)
      with "3.prems" f fc have "out = out1" "e \<noteq> Eof" by auto
      with bad show ?thesis by blast
    qed
  qed
qed

lemma dechunking_sound:
  assumes "dechunking C (fs, fin) ver = (out, e)"
  shows "\<exists>cs. verified C ver cs \<and> body_data out = concat (map fst cs) \<and>
    (e = Eof \<longrightarrow> fin = Eof \<and> (\<exists>ts. chunked_body (body_data fs) cs ts))"
proof -
  from dechunking_loop_sound [OF assms [unfolded dechunking_def, simplified]] obtain cs where
    cs: "verified C ver cs" "body_data out = concat (map fst cs)"
    "e = Eof \<longrightarrow> fin = Eof \<and> (\<exists>d'. run_stream feed Dechunker_new (raw_pieces fs) = Inr (d', cs) \<and> is_done d')" by blast
  have "\<exists>ts. chunked_body (body_data fs) cs ts"
    if r: "run_stream feed Dechunker_new (raw_pieces fs) = Inr (d', cs)" "is_done d'" for d'
  proof -
    have "raw_pieces fs \<noteq> []" using r by (auto simp: is_done_def Dechunker_new_def)
    from dechunk.run_stream_concat [OF r(1) this] r(2) feed_new_accepts [of "body_data fs" cs] show ?thesis by auto
  qed
  with cs show ?thesis by blast
qed


section \<open>Encryption of a body\<close>

lemma enc_loop_shape:
  "enc_loop A e g = ((e', g'), out) \<Longrightarrow> aead_correct A \<Longrightarrow> 0 < e_chunk_size e \<Longrightarrow>
    \<exists>k. length out = k * (e_chunk_size e + overhead (e_alg e)) \<and>
      length (e_buf e) = k * e_chunk_size e + length (e_buf e') \<and> (0 < k \<longrightarrow> e_buf e' \<noteq> []) \<and>
      e_chunk_size e' = e_chunk_size e \<and> e_alg e' = e_alg e \<and> length (e_buf e') \<le> e_chunk_size e"
proof (induction A e g arbitrary: out rule: enc_loop.induct)
  case (1 A e g)
  show ?case
  proof (cases "length (e_buf e) \<le> e_chunk_size e")
    case True
    with "1.prems" show ?thesis by (auto simp: enc_loop.simps [of A e])
  next
    case False
    let ?e = "e\<lparr> e_chunk_index := e_chunk_index e + 1, e_buf := drop (e_chunk_size e) (e_buf e) \<rparr>"
    obtain f g1 where f: "seal_frame A g (e_alg e) (e_key e) (e_part_number e) (e_chunk_index e)
        False (take (e_chunk_size e) (e_buf e)) = (f, g1)" by fastforce
    have len: "length f = e_chunk_size e + overhead (e_alg e)"
      using open_frame_seal_frame(2) [OF "1.prems"(2), of g "e_alg e" "e_key e" "e_part_number e" "e_chunk_index e"
          False "take (e_chunk_size e) (e_buf e)"] f False by simp
    obtain out1 where rec: "enc_loop A ?e g1 = ((e', g'), out1)" and out: "out = f @ out1"
      using False "1.prems" f by (auto simp: enc_loop.simps [of A e] split: prod.splits)
    have ne: "\<not> (e_chunk_size e = 0 \<or> length (e_buf e) \<le> e_chunk_size e)" using False "1.prems"(3) by simp
    from "1.IH" [OF ne f [symmetric] refl rec "1.prems"(2)] "1.prems"(3) obtain k where
      k: "length out1 = k * (e_chunk_size e + overhead (e_alg e))"
      "length (drop (e_chunk_size e) (e_buf e)) = k * e_chunk_size e + length (e_buf e')"
      "0 < k \<longrightarrow> e_buf e' \<noteq> []" "e_chunk_size e' = e_chunk_size e" "e_alg e' = e_alg e"
      "length (e_buf e') \<le> e_chunk_size e" by auto
    have "e_buf e' \<noteq> []" using k(2,3) False by (cases "k = 0") auto
    with k len out False show ?thesis by (intro exI [of _ "Suc k"]) auto
  qed
qed

text \<open>Full frames that carry no more than \<open>t\<close> plaintext bytes, with something left over, are short of the
  encoding of any plaintext of at least \<open>t\<close> bytes.\<close>

lemma full_frames_short:
  assumes "0 < n" "t = k * n + b" "0 < k \<longrightarrow> 0 < b" "t \<le> len"
  shows "k * (n + overhead alg) < ciphertext_len_spec alg len n"
proof -
  have "k < n_chunks_spec len n"
  proof (cases "k = 0")
    case True
    then show ?thesis by (simp add: n_chunks_spec_def)
  next
    case False
    with assms have "k * n < len" by simp
    with assms(1) show ?thesis using chunk_of_byte [of "k * n" len n] by simp
  qed
  moreover have "k * n \<le> len" using assms by simp
  moreover have "0 < overhead alg" by (simp add: overhead_def TAG_LEN_def)
  ultimately show ?thesis
    unfolding ciphertext_len_spec_def by (simp add: distrib_left add_le_less_mono)
qed

text \<open>The encryptor's state in the middle of a stream: \<open>sent\<close> bytes are out, \<open>t\<close> plaintext bytes are in.\<close>

definition enc_progress :: "encryptor \<Rightarrow> nat \<Rightarrow> nat \<Rightarrow> bool" where
  "enc_progress e t sent \<longleftrightarrow> 0 < e_chunk_size e \<and> length (e_buf e) \<le> e_chunk_size e \<and>
     (\<exists>k. sent = k * (e_chunk_size e + overhead (e_alg e)) \<and> t = k * e_chunk_size e + length (e_buf e) \<and>
       (0 < k \<longrightarrow> e_buf e \<noteq> []))"

lemma enc_progress_push:
  assumes "aead_correct A" "enc_progress e t sent" "Encryptor_push A e g data = ((e', g'), out)"
  shows "enc_progress e' (t + length data) (sent + length out) \<and>
    e_alg e' = e_alg e \<and> e_chunk_size e' = e_chunk_size e"
proof -
  from assms(2) obtain k where k: "0 < e_chunk_size e" "sent = k * (e_chunk_size e + overhead (e_alg e))"
    "t = k * e_chunk_size e + length (e_buf e)" "0 < k \<longrightarrow> e_buf e \<noteq> []" by (auto simp: enc_progress_def)
  from enc_loop_shape [OF assms(3) [unfolded Encryptor_push_def] assms(1)] k(1) obtain j where
    j: "length out = j * (e_chunk_size e + overhead (e_alg e))"
    "length (e_buf e @ data) = j * e_chunk_size e + length (e_buf e')" "0 < j \<longrightarrow> e_buf e' \<noteq> []"
    "e_chunk_size e' = e_chunk_size e" "e_alg e' = e_alg e" "length (e_buf e') \<le> e_chunk_size e" by auto
  have "0 < k + j \<longrightarrow> e_buf e' \<noteq> []" using j(2,3) k(4) by (cases "j = 0") auto
  moreover have "sent + length out = (k + j) * (e_chunk_size e + overhead (e_alg e))"
    using k(2) j(1) by (simp only: distrib_right)
  moreover have "t + length data = (k + j) * e_chunk_size e + length (e_buf e')"
    using k(3) j(2) by (simp only: distrib_right length_append)
  ultimately show ?thesis using k(1) j(4-6) unfolding enc_progress_def by metis
qed

lemma enc_progress_short:
  "enc_progress e t sent \<Longrightarrow> t \<le> len \<Longrightarrow> sent < ciphertext_len_spec (e_alg e) len (e_chunk_size e)"
proof -
  assume a: "enc_progress e t sent" "t \<le> len"
  then obtain k where k: "0 < e_chunk_size e" "sent = k * (e_chunk_size e + overhead (e_alg e))"
    "t = k * e_chunk_size e + length (e_buf e)" "0 < k \<longrightarrow> 0 < length (e_buf e)" by (auto simp: enc_progress_def)
  show ?thesis unfolding k(2) by (rule full_frames_short [OF k(1,3,4) a(2)])
qed


lemma enc_finish_all_push:
  assumes "Encryptor_push A e g data = ((e', g'), ct)"
  shows "fst (enc_finish_all A (e\<lparr> e_buf := e_buf e @ data @ rest \<rparr>) g) =
    ct @ fst (enc_finish_all A (e'\<lparr> e_buf := e_buf e' @ rest \<rparr>) g')"
  using enc_loop_append [OF assms [unfolded Encryptor_push_def], of rest]
  by (simp add: enc_finish_all_def split: prod.splits)

lemma encrypting_loop_result:
  assumes "aead_correct A"
  shows "encrypting_loop A md5 em epl tr enc g hasher seen fs fin = (out, e) \<Longrightarrow>
    enc_progress enc (unat seen) sent \<Longrightarrow> seen \<le> epl \<Longrightarrow> unat seen + length (body_data fs) < 2 ^ 64 \<Longrightarrow>
    (if e = Eof then
       fin = Eof \<and> unat seen + length (body_data fs) = unat epl \<and>
       check_md5 md5 (map_option (\<lambda>h. h @ body_data fs) hasher) em \<and>
       body_data out = fst (enc_finish_all A (enc\<lparr> e_buf := e_buf enc @ body_data fs \<rparr>) g)
         @ (case tr of Some t \<Rightarrow> t | None \<Rightarrow> [])
     else sent + length (body_data out) < ciphertext_len_spec (e_alg enc) (unat epl) (e_chunk_size enc))"
proof (induction fs arbitrary: enc g hasher seen sent out e)
  case Nil
  have short: "sent < ciphertext_len_spec (e_alg enc) (unat epl) (e_chunk_size enc)"
    using enc_progress_short [OF Nil.prems(2)] Nil.prems(3) by (simp add: word_le_nat_alt)
  have "length (e_buf enc) \<le> e_chunk_size enc" using Nil.prems(2) by (simp add: enc_progress_def)
  then have "enc_finish_all A enc g = Encryptor_finish A enc g"
    by (simp add: enc_finish_all_def enc_loop.simps [of A enc] split: prod.splits)
  moreover have "enc\<lparr> e_buf := e_buf enc @ [] \<rparr> = enc" by simp
  ultimately show ?case using Nil.prems(1) short
    by (cases fin; cases hasher) (auto simp: finish_encrypting_def Let_def split: if_splits)
next
  case (Cons f fs)
  show ?case
  proof (cases f)
    case TrailersFrame
    with Cons show ?thesis by simp
  next
    case (DataFrame data)
    define seen' where "seen' = seen + word_of_nat (length data)"
    have s: "unat seen' = unat seen + length data"
      using Cons.prems(4) DataFrame by (simp add: seen'_def unat_u64_add unat_u64_of_nat)
    show ?thesis
    proof (cases "seen' > epl")
      case True
      with Cons.prems(1) DataFrame have "out = []" "e \<noteq> Eof" by (auto simp: seen'_def)
      with enc_progress_short [OF Cons.prems(2)] Cons.prems(3) show ?thesis by (simp add: word_le_nat_alt)
    next
      case False
      obtain enc' g' ct where p: "Encryptor_push A enc g data = ((enc', g'), ct)" by (metis surj_pair)
      note pr = enc_progress_push [OF assms Cons.prems(2) p]
      obtain out' where l: "encrypting_loop A md5 em epl tr enc' g' (map_option (\<lambda>h. h @ data) hasher) seen' fs fin = (out', e)"
        and out: "out = (if ct = [] then [] else [DataFrame ct]) @ out'"
        using Cons.prems(1) False p DataFrame by (auto simp: seen'_def [symmetric] send_then_def Let_def prod_eq_iff)
      from Cons.IH [OF l, of "sent + length ct"] pr s False Cons.prems(4) DataFrame out show ?thesis
        by (auto simp: enc_finish_all_push [OF p] option.map_comp comp_def not_less add.assoc split: if_splits)
    qed
  qed
qed


section \<open>Properties\<close>

text \<open>C35. The payload-hash check: a body whose SHA-256 is the signed one is forwarded unchanged. Any other
  body is aborted with the mismatch recorded, and the backend has then received fewer bytes than the
  client sent, so that the declared length cannot be met, exactly if the last frame carried bytes:
  after a trailers frame (or an empty last frame) every byte is already out when the mismatch is found.\<close>

theorem hash_mismatch_is_held_back:
  assumes "hex_sha256 C (body_data fs) \<noteq> expected"
  shows "hashing C (gs, Eof) (hex_sha256 C (body_data gs)) = (gs, Eof) \<and>
    (\<exists>out. hashing C (fs, Eof) expected =
        (out, Aborted (payload_hash_mismatch expected (hex_sha256 C (body_data fs)))) \<and>
      (length (body_data out) < length (body_data fs) \<longleftrightarrow> fs \<noteq> [] \<and> frame_data (List.last fs) \<noteq> []))"
proof -
  have "length (body_data (butlast fs)) < length (body_data fs) \<longleftrightarrow> fs \<noteq> [] \<and> frame_data (List.last fs) \<noteq> []"
  proof (cases "fs = []")
    case False
    then have "body_data fs = body_data (butlast fs) @ frame_data (List.last fs)"
      using append_butlast_last_id [OF False] body_data_simps(3) [of "butlast fs" "[List.last fs]"] by simp
    with False show ?thesis by simp
  qed simp
  with assms show ?thesis by (simp add: hashing_eq)
qed

theorem hash_mismatch_witness:
  "\<exists>out e. hashing sample_crypto ([DataFrame [1], TrailersFrame], Eof) (hex_sha256 sample_crypto [1] @ ''x'') = (out, Aborted e) \<and>
     \<not> length (body_data out) < length (body_data [DataFrame [1], TrailersFrame])"
proof -
  have "hex_sha256 sample_crypto (body_data [DataFrame [1], TrailersFrame]) \<noteq> hex_sha256 sample_crypto [1] @ ''x''"
    by simp
  from hash_mismatch_is_held_back [OF this, of "[]"] show ?thesis by auto
qed



lemma encrypting_outcome:
  assumes "aead_correct A" "length (body_data fs) < 2 ^ 64"
    and "encrypting A md5 g (fs, fin) alg dek n em epl part tr = Some (out, e)"
  shows "if e = Eof then
      fin = Eof \<and> length (body_data fs) = unat epl \<and> (em = None \<or> em = Some (md5 (body_data fs))) \<and>
      (\<exists>ct g'. encrypt_all A g alg dek part n (body_data fs) = Some (ct, g') \<and>
         body_data out = ct @ (case tr of Some t \<Rightarrow> t | None \<Rightarrow> []))
    else length (body_data out) < ciphertext_len_spec alg (unat epl) n"
proof -
  let ?e = "\<lparr> e_alg = alg, e_key = dek, e_part_number = part, e_chunk_size = n, e_chunk_index = 0, e_buf = [] \<rparr>"
  have n: "0 < n" and l: "encrypting_loop A md5 em epl tr ?e g (if em \<noteq> None then Some [] else None) 0 fs fin = (out, e)"
    using assms(3) by (auto simp: encrypting_def Encryptor_new_def split: if_splits)
  have "enc_progress ?e (unat (0 :: u64)) 0" using n by (simp add: enc_progress_def)
  from encrypting_loop_result [OF assms(1) l this] assms(2)
  have r: "if e = Eof then fin = Eof \<and> length (body_data fs) = unat epl \<and>
       check_md5 md5 (map_option (\<lambda>h. h @ body_data fs) (if em \<noteq> None then Some [] else None)) em \<and>
       body_data out = fst (enc_finish_all A (?e\<lparr> e_buf := body_data fs \<rparr>) g) @ (case tr of Some t \<Rightarrow> t | None \<Rightarrow> [])
     else length (body_data out) < ciphertext_len_spec alg (unat epl) n" by (cases "e = Eof") simp_all
  have "\<exists>g'. encrypt_all A g alg dek part n (body_data fs) = Some (fst (enc_finish_all A (?e\<lparr> e_buf := body_data fs \<rparr>) g), g')"
    using n by (simp add: encrypt_all_eq enc_finish_all_eq split: prod.splits)
  with r show ?thesis by (cases em) (auto simp: check_md5_def split: if_splits)
qed

text \<open>C7. Encrypting an upload: a clean end means that the client's bytes had exactly the declared length
  and, if one was given, the declared MD5, and that the stream is their encryption, for any cut into frames,
  followed by the trailer. Otherwise the bytes sent fall short of the ciphertext length announced to the
  backend, so the write cannot complete.\<close>

theorem encrypted_upload_completes_only_verified:
  assumes "aead_correct A" "length (body_data fs) < 2 ^ 64"
    and "encrypting A md5 g (fs, fin) alg dek n em epl part tr = Some (out, e)"
  shows "if e = Eof then
      fin = Eof \<and> length (body_data fs) = unat epl \<and> (em = None \<or> em = Some (md5 (body_data fs))) \<and>
      (\<exists>ct g'. encrypt_all A g alg dek part n (body_data fs) = Some (ct, g') \<and>
         body_data out = ct @ (case tr of Some t \<Rightarrow> t | None \<Rightarrow> []))
    else length (body_data out) < ciphertext_len_spec alg (unat epl) n"
  by (rule encrypting_outcome [OF assms])

theorem encrypted_upload_witness:
  "\<exists>out. encrypting sample_aead (\<lambda>_. []) (\<lambda>i. 0) ([DataFrame [1, 2], DataFrame [3]], Eof) Aes256Gcm [1] 2 None 4 7 None
      = Some (out, Aborted (incomplete_body ''streamed plaintext is shorter than the declared decoded length'')) \<and>
    length (body_data out) < ciphertext_len_spec Aes256Gcm 4 2"
proof -
  let ?enc = "encrypting sample_aead (\<lambda>_. []) (\<lambda>i. 0) ([DataFrame [1, 2], DataFrame [3]], Eof) Aes256Gcm [1] 2 None 4 7 None"
  have s: "map_option snd ?enc = Some (Aborted (incomplete_body ''streamed plaintext is shorter than the declared decoded length''))"
    by (simp add: encrypting_def Encryptor_new_def finish_encrypting_def Let_def case_prod_beta)
  then obtain out e where r: "?enc = Some (out, e)" by (cases ?enc) auto
  with s have e: "e = Aborted (incomplete_body ''streamed plaintext is shorter than the declared decoded length'')" by simp
  from encrypted_upload_completes_only_verified [OF sample_aead_correct _ r] e r show ?thesis by simp
qed

end
