(* ===== verification/Multipart.thy ===== *)
theory Multipart
  imports Meta
begin

text \<open>
  Multipart layout and range planning (\<open>v1/multipart.rs\<close>), and the end-to-end statement: planning a
  range over the layout, decrypting each planned span with its own part number and trimming gives
  the range of the concatenated parts.
\<close>

record part_span =
  ps_number :: u32
  ps_pt_start :: u64
  ps_pt_len :: u64
  ps_ct_start :: u64
  ps_ct_len :: u64

fun layout_from :: "alg \<Rightarrow> u64 \<Rightarrow> u64 \<Rightarrow> u64 \<Rightarrow> (u32 \<times> u64) list \<Rightarrow> part_span list" where
  "layout_from alg chunk_size pt_off ct_off [] = []"
| "layout_from alg chunk_size pt_off ct_off ((number, pt_len) # parts) =
     (let ct_len = ciphertext_len alg pt_len chunk_size
      in \<lparr> ps_number = number, ps_pt_start = pt_off, ps_pt_len = pt_len,
           ps_ct_start = ct_off, ps_ct_len = ct_len \<rparr>
         # layout_from alg chunk_size (pt_off + pt_len) (ct_off + ct_len) parts)"

definition part_layout :: "alg \<Rightarrow> u64 \<Rightarrow> (u32 \<times> u64) list \<Rightarrow> part_span list" where
  "part_layout alg chunk_size parts = layout_from alg chunk_size 0 0 parts"

fun plan_spans :: "alg \<Rightarrow> u64 \<Rightarrow> u64 \<Rightarrow> u64 \<Rightarrow> part_span list \<Rightarrow> error + (part_span \<times> range_plan) list" where
  "plan_spans alg chunk_size start stop [] = Inr []"
| "plan_spans alg chunk_size start stop (span # spans) =
     (let span_end = ps_pt_start span + ps_pt_len span in
      if stop \<le> ps_pt_start span \<or> start \<ge> span_end then plan_spans alg chunk_size start stop spans
      else
        let local_start = min (saturating_sub start (ps_pt_start span)) (ps_pt_len span);
            local_end = min (stop - ps_pt_start span) (ps_pt_len span)
        in rbind (plan_range alg (ps_pt_len span) chunk_size local_start local_end) (\<lambda>plan.
           rbind (plan_spans alg chunk_size start stop spans) (\<lambda>out. Inr ((span, plan) # out))))"

definition plan_multipart_range ::
  "part_span list \<Rightarrow> alg \<Rightarrow> u64 \<Rightarrow> u64 \<Rightarrow> u64 \<Rightarrow> error + (part_span \<times> range_plan) list" where
  "plan_multipart_range spans alg chunk_size start stop =
     (let total_pt = sum_list (map ps_pt_len spans) in
      if start > stop \<or> stop > total_pt \<or> (start = total_pt \<and> total_pt > 0) then Inl InvalidLength
      else if start = stop then Inr []
      else plan_spans alg chunk_size start stop spans)"

section \<open>Reading a planned span\<close>

text \<open>\<open>read_span\<close> decrypts the bytes a plan names in the stored object, drops the leading trim from the
  plaintext as it comes, and cuts the final chunk at the trailing trim.\<close>

definition read_span ::
  "aead \<Rightarrow> alg \<Rightarrow> bytes \<Rightarrow> u64 \<Rightarrow> bytes \<Rightarrow> part_span \<times> range_plan \<Rightarrow> (error + bytes) option" where
  "read_span A alg key c obj = (\<lambda>(sp, pl).
     map_option
       (\<lambda>d. rbind (Decryptor_push A d (subrange (unat (ps_ct_start sp) + unat (ct_start pl))
                                          (unat (ps_ct_start sp) + unat (ct_end pl)) obj)) (\<lambda>(d', out).
            rbind (Decryptor_finish A d') (\<lambda>fin.
              Inr (drop (trim_start pl) out @ drop (trim_start pl - length out) (take (trim_end pl) fin)))))
       (Decryptor_new_at alg key (ps_number sp) (unat c) (first_chunk pl)
          (last_chunk pl + 1 = n_chunks (ps_pt_len sp) c)))"

lemma subrange_append: "subrange a b (xs @ ys) = subrange a b xs @ subrange (a - length xs) (b - length xs) ys"
proof (cases "a \<le> length xs")
  case True
  then show ?thesis by (simp add: subrange_def)
next
  case False
  then show ?thesis by (simp add: subrange_def)
qed

lemma subrange_Nil_right: "length xs \<le> a \<Longrightarrow> subrange a b xs = []"
  by (simp add: subrange_def)

lemma subrange_0 [simp]: "subrange a 0 xs = []"
  by (simp add: subrange_def)

lemma subrange_clip: "subrange a b xs = subrange (min a (length xs)) (min b (length xs)) xs"
  by (cases "a \<le> length xs"; cases "b \<le> length xs") (auto simp: subrange_def)

lemma subrange_middle:
  "b \<le> length ys \<Longrightarrow> subrange (length xs + a) (length xs + b) (xs @ ys @ zs) = subrange a b ys"
  by (cases "a \<le> b") (auto simp: subrange_def)

lemma plan_range_ok:
  "start < stop \<Longrightarrow> stop \<le> pt_len \<Longrightarrow> \<exists>pl. plan_range alg pt_len c start stop = Inr pl"
  by (auto simp: plan_range_def Let_def)

lemma plan_ct_end_le:
  assumes "fits alg pt c" "plan_range alg pt c start stop = Inr p" "start < stop"
  shows "unat (ct_end p) \<le> ciphertext_len_spec alg (unat pt) (unat c)"
proof -
  have c: "0 < unat c" using assms(1) by (simp add: fits_def u64_nat)
  have "(unat stop - 1) div unat c < n_chunks_spec (unat pt) (unat c)"
    using plan_range_facts(1) [OF assms] assms(3) by (intro chunk_of_byte) (auto simp: u64_nat)
  then show ?thesis
    using plan_range_facts(8) [OF assms] full_frames_le [OF c, of "(unat stop - 1) div unat c + 1" "unat pt" alg]
    by auto
qed

lemma read_span_ok:
  assumes "aead_correct A" "encrypt_all A g alg key n (unat c) pt = Some (ct, g')"
    and "length ct < 2 ^ 64" "0 < c" "unat c + overhead alg < 2 ^ 64"
    and "plan_range alg (word_of_nat (length pt)) c start stop = Inr pl" "start < stop"
    and "ps_number sp = n" "ps_pt_len sp = word_of_nat (length pt)" "unat (ps_ct_start sp) = length pre"
  shows "read_span A alg key c (pre @ ct @ post) (sp, pl) = Some (Inr (subrange (unat start) (unat stop) pt))"
proof -
  have len: "length ct = ciphertext_len_spec alg (length pt) (unat c)" by (rule length_encrypt_all [OF assms(1,2)])
  then have pt: "length pt < 2 ^ 64" using assms(3) by (simp add: ciphertext_len_spec_def)
  then have fits: "fits alg (word_of_nat (length pt)) c"
    using assms(3-5) len by (simp add: fits_def unat_u64_of_nat)
  obtain d where d: "Decryptor_new_at alg key n (unat c) (first_chunk pl)
      (last_chunk pl + 1 = n_chunks (word_of_nat (length pt)) c) = Some d"
    using assms(4) by (auto simp: Decryptor_new_at_def u64_nat)
  from plan_ct_end_le [OF fits assms(6,7)] pt len
  have "unat (ct_end pl) \<le> length ct" by (simp add: unat_u64_of_nat)
  then have "subrange (unat (ps_ct_start sp) + unat (ct_start pl)) (unat (ps_ct_start sp) + unat (ct_end pl))
      (pre @ ct @ post) = subrange (unat (ct_start pl)) (unat (ct_end pl)) ct"
    using assms(10) by (simp add: subrange_middle)
  moreover have "d_buf d = []" using d by (auto simp: Decryptor_new_at_def split: if_splits)
  ultimately show ?thesis using ranged_decrypt_parts [OF assms(1,2) pt fits assms(6,7) d] d
    by (auto simp: read_span_def assms(8,9) Decryptor_push_def trim_range_parts)
qed

text \<open>An empty part inside the range is planned too: its single empty frame is fetched and verified.\<close>

lemma read_span_empty:
  assumes "aead_correct A" "encrypt_all A g alg key n (unat c) [] = Some (ct, g')" "0 < c"
    and "ps_number sp = n" "ps_pt_len sp = 0" "unat (ps_ct_start sp) = length pre"
  shows "\<exists>pl. plan_range alg 0 c 0 0 = Inr pl \<and>
    read_span A alg key c (pre @ ct @ post) (sp, pl) = Some (Inr [])"
proof -
  let ?pl = "\<lparr> ct_start = 0, ct_end = ciphertext_len alg 0 c, first_chunk = 0, last_chunk = 0,
      trim_start = 0, trim_end = 0 \<rparr>"
  have n1: "n_chunks 0 c = 1" using unat_n_chunks [OF assms(3), of 0] by (simp add: word_unat_eq_iff)
  then have pl: "plan_range alg 0 c 0 0 = Inr ?pl" by (simp add: plan_range_def Let_def)
  have c: "0 < unat c" using assms(3) by (simp add: u64_nat)
  have ct: "ct = concat (fst (seal_chunks A g alg key n True 0 [[]]))"
    using assms(2) c by (auto simp: encrypt_all_eq chunks_of_short split: prod.splits)
  have "length ct = overhead alg"
    unfolding ct length_concat_seal_chunks [OF assms(1)] by simp
  moreover have "unat (ciphertext_len alg 0 c) = overhead alg"
    by (simp add: ciphertext_len_def n1 unat_overhead)
  ultimately have "subrange (unat (ps_ct_start sp)) (unat (ps_ct_start sp) + unat (ciphertext_len alg 0 c))
      (pre @ ct @ post) = ct"
    using subrange_middle [of "length ct" ct pre 0 post] assms(6) by (simp add: subrange_def)
  moreover have "\<exists>d'. dec_loop A \<lparr> d_alg = alg, d_key = key, d_part_number = n, d_chunk_size = unat c,
      d_chunk_index = 0, d_buf = ct, d_final_frame_is_object_end = True \<rparr> = Inr (d', concat (butlast [[]])) \<and>
      Decryptor_finish A d' = Inr (last [[]])"
    by (rule dec_loop_seal_chunks [OF assms(1), where g = g]) (simp_all only: ct, simp_all)
  ultimately have "read_span A alg key c (pre @ ct @ post) (sp, ?pl) = Some (Inr [])"
    using c n1 by (auto simp: read_span_def Decryptor_new_at_def Decryptor_push_def assms(4,5))
  with pl show ?thesis by blast
qed

section \<open>Reading a planned range\<close>

abbreviation sizes :: "(u32 \<times> bytes) list \<Rightarrow> (u32 \<times> u64) list" where
  "sizes ps \<equiv> map (\<lambda>(n, pt). (n, word_of_nat (length pt))) ps"

definition encrypted_parts ::
  "aead \<Rightarrow> alg \<Rightarrow> bytes \<Rightarrow> u64 \<Rightarrow> (u32 \<times> bytes) list \<Rightarrow> bytes list \<Rightarrow> bool" where
  "encrypted_parts A alg key c = list_all2
     (\<lambda>p ct. \<exists>g g'. encrypt_all A g alg key (fst p) (unat c) (snd p) = Some (ct, g'))"

lemma local_bounds:
  fixes off len start stop :: u64
  assumes "\<not> (stop \<le> off \<or> start \<ge> off + len)" "start < stop" "unat off + unat len < 2 ^ 64"
  shows "unat (min (saturating_sub start off) len) = min (unat start - unat off) (unat len)"
    "unat (min (stop - off) len) = min (unat stop - unat off) (unat len)"
    "0 < len \<Longrightarrow> min (saturating_sub start off) len < min (stop - off) len"
proof -
  have e: "unat (off + len) = unat off + unat len" using assms(3) by (rule unat_u64_add)
  have lt: "unat off < unat stop" "unat start < unat off + unat len" "unat start < unat stop"
    using assms(1,2) e by (simp_all add: u64_nat not_le)
  show s: "unat (min (saturating_sub start off) len) = min (unat start - unat off) (unat len)"
    by (auto simp: unat_u64_min saturating_sub_def unat_u64_sub u64_nat not_less)
  show t: "unat (min (stop - off) len) = min (unat stop - unat off) (unat len)"
    using lt by (simp add: unat_u64_min unat_u64_sub)
  show "min (saturating_sub start off) len < min (stop - off) len" if "0 < len"
    using that unfolding word_less_nat_alt s t using lt by (auto simp: min_def)
qed

lemma plan_spans_reads:
  assumes "aead_correct A" "0 < c" "unat c + overhead alg < 2 ^ 64" "start < stop"
    and "encrypted_parts A alg key c ps cts"
    and "unat ct_off = length cpre" "unat pt_off \<le> length cpre" "length cpre + length (concat cts) < 2 ^ 64"
  shows "\<exists>plans outs. plan_spans alg c start stop (layout_from alg c pt_off ct_off (sizes ps)) = Inr plans \<and>
    map (read_span A alg key c (cpre @ concat cts @ post)) plans = map (\<lambda>out. Some (Inr out)) outs \<and>
    concat outs = subrange (unat start - unat pt_off) (unat stop - unat pt_off) (concat (map snd ps))"
  using assms(5-8) unfolding encrypted_parts_def
proof (induction ps cts arbitrary: pt_off ct_off cpre rule: list_all2_induct)
  case Nil
  then show ?case by (simp add: subrange_def)
next
  case (Cons p ps ct cts)
  obtain n pt where p: "p = (n, pt)" by (cases p)
  obtain g g' where e: "encrypt_all A g alg key n (unat c) pt = Some (ct, g')" using Cons.hyps(1) p by auto
  let ?L = "word_of_nat (length pt) :: u64"
  have ct: "length ct = ciphertext_len_spec alg (length pt) (unat c)" by (rule length_encrypt_all [OF assms(1) e])
  then have pt_ct: "length pt \<le> length ct" by (simp add: ciphertext_len_spec_def)
  have L: "unat ?L = length pt" using pt_ct Cons.prems(3) by (simp add: unat_u64_of_nat)
  have off: "unat (pt_off + ?L) = unat pt_off + length pt"
    using pt_ct Cons.prems L by (subst unat_u64_add) simp_all
  have ctw: "unat (ciphertext_len alg ?L c) = length ct"
    using unat_ciphertext_len [OF assms(2), of alg ?L] L ct Cons.prems(3) by simp
  then have ctoff: "unat (ct_off + ciphertext_len alg ?L c) = length (cpre @ ct)"
    using Cons.prems by (subst unat_u64_add) simp_all
  obtain plans outs where
    IH: "plan_spans alg c start stop (layout_from alg c (pt_off + ?L) (ct_off + ciphertext_len alg ?L c) (sizes ps)) = Inr plans"
      "map (read_span A alg key c (cpre @ ct @ concat cts @ post)) plans = map (\<lambda>out. Some (Inr out)) outs"
      "concat outs = subrange (unat start - (unat pt_off + length pt)) (unat stop - (unat pt_off + length pt)) (concat (map snd ps))"
    using Cons.IH [OF ctoff, of "pt_off + ?L"] Cons.prems off pt_ct by auto
  let ?sp = "\<lparr> ps_number = n, ps_pt_start = pt_off, ps_pt_len = ?L, ps_ct_start = ct_off,
      ps_ct_len = ciphertext_len alg ?L c \<rparr>"
  show ?case
  proof (cases "stop \<le> pt_off \<or> start \<ge> pt_off + ?L")
    case True
    then have "subrange (unat start - unat pt_off) (unat stop - unat pt_off) pt = []"
      using off by (auto simp: u64_nat subrange_Nil_right)
    with True IH show ?thesis by (auto simp: p Let_def subrange_append)
  next
    case False
    have "unat pt_off + unat ?L < 2 ^ 64" using L pt_ct Cons.prems by simp
    note b = local_bounds [OF False assms(4) this]
    obtain pl where pl: "plan_range alg ?L c (min (saturating_sub start pt_off) ?L) (min (stop - pt_off) ?L) = Inr pl"
      and "read_span A alg key c (cpre @ ct @ concat cts @ post) (?sp, pl) =
        Some (Inr (subrange (unat start - unat pt_off) (unat stop - unat pt_off) pt))"
    proof (cases "pt = []")
      case True
      then have z: "min (saturating_sub start pt_off) ?L = 0" "min (stop - pt_off) ?L = 0" "?L = 0"
        by (simp_all add: word_unat_eq_iff unat_u64_min)
      have e': "encrypt_all A g alg key n (unat c) [] = Some (ct, g')" using e True by simp
      obtain pl where "plan_range alg 0 c 0 0 = Inr pl"
        "read_span A alg key c (cpre @ ct @ concat cts @ post) (?sp, pl) = Some (Inr [])"
        using read_span_empty [OF assms(1) e' assms(2), of ?sp cpre "concat cts @ post"] Cons.prems(1) z(3) by auto
      with True z show ?thesis by (intro that [of pl]) (simp_all add: subrange_def)
    next
      case False
      then have "0 < ?L" using L by (simp add: word_less_nat_alt)
      note lt = b(3) [OF this]
      from plan_range_ok [OF lt, of ?L] obtain pl where
        pl: "plan_range alg ?L c (min (saturating_sub start pt_off) ?L) (min (stop - pt_off) ?L) = Inr pl" by auto
      with that show ?thesis
        using read_span_ok [OF assms(1) e _ assms(2,3) pl lt, where sp = ?sp and pre = cpre and post = "concat cts @ post"]
          Cons.prems b(1,2) L subrange_clip [of "unat start - unat pt_off" "unat stop - unat pt_off" pt] by simp
    qed
    with False IH pl show ?thesis
      by (intro exI [of _ "(?sp, pl) # plans"]
          exI [of _ "subrange (unat start - unat pt_off) (unat stop - unat pt_off) pt # outs"])
        (simp add: p Let_def subrange_append)
  qed
qed

lemma sum_layout: "sum_list (map ps_pt_len (layout_from alg c a b parts)) = sum_list (map snd parts)"
  by (induction alg c a b parts rule: layout_from.induct) (simp_all add: Let_def)

lemma unat_sum_sizes:
  "length (concat (map snd ps)) < 2 ^ 64 \<Longrightarrow> unat (sum_list (map snd (sizes ps))) = length (concat (map snd ps))"
proof (induction ps)
  case (Cons p ps)
  obtain n pt where p: "p = (n, pt)" by (cases p)
  from Cons p have "unat (word_of_nat (length pt) + sum_list (map snd (sizes ps)) :: u64) =
      unat (word_of_nat (length pt) :: u64) + unat (sum_list (map snd (sizes ps)))"
    by (intro unat_u64_add) (simp add: unat_u64_of_nat)
  with Cons p show ?case by (simp add: unat_u64_of_nat)
qed simp

lemma encrypted_parts_length:
  assumes "aead_correct A" "encrypted_parts A alg key c ps cts"
  shows "length (concat (map snd ps)) \<le> length (concat cts)"
  using assms(2) unfolding encrypted_parts_def
proof (induction ps cts rule: list_all2_induct)
  case (Cons p ps ct cts)
  then have "length (snd p) \<le> length ct"
    using length_encrypt_all [OF assms(1)] by (auto simp: ciphertext_len_spec_def)
  with Cons.IH show ?case by simp
qed simp

lemma multipart_range_reads:
  assumes "aead_correct A" "encrypted_parts A alg key c ps cts"
    and "0 < c" "unat c + overhead alg < 2 ^ 64" "length (concat cts) < 2 ^ 64"
    and "start < stop" "unat stop \<le> length (concat (map snd ps))"
  shows "\<exists>plans outs. plan_multipart_range (part_layout alg c (sizes ps)) alg c start stop = Inr plans \<and>
    map (read_span A alg key c (concat cts @ footer)) plans = map (\<lambda>out. Some (Inr out)) outs \<and>
    concat outs = subrange (unat start) (unat stop) (concat (map snd ps))"
proof -
  have total: "unat (sum_list (map snd (sizes ps))) = length (concat (map snd ps))"
    using encrypted_parts_length [OF assms(1,2)] assms(5) by (intro unat_sum_sizes) simp
  have "plan_multipart_range (part_layout alg c (sizes ps)) alg c start stop =
      plan_spans alg c start stop (layout_from alg c 0 0 (sizes ps))"
    using assms(6,7) total
    by (auto simp: plan_multipart_range_def part_layout_def sum_layout Let_def word_less_nat_alt)
  with plan_spans_reads [OF assms(1,3,4,6,2), of 0 "[]" 0 footer] assms(5) show ?thesis by simp
qed

section \<open>Properties\<close>

text \<open>C20. A range of a multipart object is always planned, and reading the planned spans of the
  stored object (the encrypted parts one after the other, then anything, such as the footer) gives
  exactly the bytes \<open>[start, stop)\<close> of the concatenated plaintext parts, in order.\<close>

theorem multipart_range_reads_range:
  assumes "aead_correct A" "encrypted_parts A alg key c ps cts"
    and "0 < c" "unat c + overhead alg < 2 ^ 64" "length (concat cts) < 2 ^ 64"
    and "start < stop" "unat stop \<le> length (concat (map snd ps))"
  shows "\<exists>plans outs. plan_multipart_range (part_layout alg c (sizes ps)) alg c start stop = Inr plans \<and>
    map (read_span A alg key c (concat cts @ footer)) plans = map (\<lambda>out. Some (Inr out)) outs \<and>
    concat outs = subrange (unat start) (unat stop) (concat (map snd ps))"
  by (rule multipart_range_reads [OF assms])

definition sample_parts :: "(u32 \<times> bytes) list" where
  "sample_parts = [(1, [10, 20, 30]), (7, []), (9, [40, 50])]"

definition sample_part_cts :: "bytes list" where
  "sample_part_cts =
     map (\<lambda>(n, pt). fst (the (encrypt_all sample_aead (\<lambda>i. 0) Aes256Gcm [1] n 2 pt))) sample_parts"

lemma sample_parts_encrypted: "encrypted_parts sample_aead Aes256Gcm [1] 2 sample_parts sample_part_cts"
  unfolding encrypted_parts_def sample_part_cts_def sample_parts_def
  by (auto intro!: exI encrypt_all_Some)

lemma sample_part_cts_length: "length (concat sample_part_cts) < 2 ^ 64"
  by (simp add: sample_part_cts_def sample_parts_def encrypt_all_eq length_concat_seal_chunks sample_aead_correct
    length_chunks_of n_chunks_spec_def overhead_def nonce_len_def TAG_LEN_def case_prod_beta)

theorem multipart_range_witness:
  "\<exists>plans outs. plan_multipart_range (part_layout Aes256Gcm 2 (sizes sample_parts)) Aes256Gcm 2 2 4 = Inr plans \<and>
    map (read_span sample_aead Aes256Gcm [1] 2 (concat sample_part_cts @ [])) plans = map (\<lambda>out. Some (Inr out)) outs \<and>
    concat outs = subrange (unat (2 :: u64)) (unat (4 :: u64)) (concat (map snd sample_parts))"
proof (rule multipart_range_reads_range [OF sample_aead_correct sample_parts_encrypted _ _ sample_part_cts_length])
  show "0 < (2 :: u64)" "unat (2 :: u64) + overhead Aes256Gcm < 2 ^ 64" "2 < (4 :: u64)"
    by (simp_all add: overhead_def nonce_len_def TAG_LEN_def)
  show "unat (4 :: u64) \<le> length (concat (map snd sample_parts))" by (simp add: sample_parts_def)
qed

end
