(* ===== verification/MultipartFetch.thy ===== *)
theory MultipartFetch
  imports Multipart
begin

text \<open>
  The planned spans of a multipart range are contiguous in the stored object, so that one ranged read
  of the backend covers them: the claim on which the single request of \<open>handle_ranged\<close>
  (\<open>intercept/get.rs\<close>) and \<open>decrypting_multipart_range\<close> (\<open>proxy/body.rs\<close>) rest.
\<close>

definition entry_lo :: "part_span \<times> range_plan \<Rightarrow> nat" where
  "entry_lo e = unat (ps_ct_start (fst e)) + unat (ct_start (snd e))"

definition entry_hi :: "part_span \<times> range_plan \<Rightarrow> nat" where
  "entry_hi e = unat (ps_ct_start (fst e)) + unat (ct_end (snd e))"

fun chained :: "(part_span \<times> range_plan) list \<Rightarrow> bool" where
  "chained [] = True"
| "chained [e] = (ct_start (snd e) < ct_end (snd e))"
| "chained (e # f # es) = (ct_start (snd e) < ct_end (snd e) \<and> entry_hi e = entry_lo f \<and> chained (f # es))"

lemma plan_range_shape:
  assumes "fits alg pt c" "plan_range alg pt c start stop = Inr p" "start < stop"
  shows "ct_start p < ct_end p" "start = 0 \<Longrightarrow> ct_start p = 0"
    "stop = pt \<Longrightarrow> unat (ct_end p) = ciphertext_len_spec alg (unat pt) (unat c)"
proof -
  note f = plan_range_facts [OF assms]
  let ?C = "unat c"
  have C: "0 < ?C" using assms(1) by (simp add: fits_def u64_nat)
  have se: "unat start < unat stop" using assms(3) by (simp add: word_less_nat_alt)
  have q: "unat start div ?C \<le> (unat stop - 1) div ?C" using se by (intro div_le_mono) simp
  have k: "unat start div ?C < n_chunks_spec (unat pt) ?C" using se f(1) by (intro chunk_of_byte) simp
  have "unat start div ?C * ?C \<le> unat pt" using div_times_less_eq_dividend [of "unat start" ?C] se f(1) by linarith
  moreover have "unat start div ?C * overhead alg < n_chunks_spec (unat pt) ?C * overhead alg"
    using k overhead_bounds(3) by simp
  ultimately have s: "unat start div ?C * (?C + overhead alg) < ciphertext_len_spec alg (unat pt) ?C"
    unfolding ciphertext_len_spec_def distrib_left by (rule add_le_less_mono)
  have t: "unat start div ?C * (?C + overhead alg) < ((unat stop - 1) div ?C + 1) * (?C + overhead alg)"
    using q C by (intro mult_strict_right_mono) auto
  show "ct_start p < ct_end p" using f(6,8) s t by (simp add: word_less_nat_alt)
  show "start = 0 \<Longrightarrow> ct_start p = 0" using f(6) by (simp add: word_unat_eq_iff)
  show "stop = pt \<Longrightarrow> unat (ct_end p) = ciphertext_len_spec alg (unat pt) ?C"
    using f(8) se by (auto simp: n_chunks_spec_def)
qed

lemma plan_range_empty_shape:
  assumes "0 < c" "plan_range alg 0 c 0 0 = Inr p"
  shows "ct_start p = 0" "unat (ct_end p) = overhead alg"
proof -
  have n1: "n_chunks 0 c = 1" using unat_n_chunks [OF assms(1), of 0] by (simp add: word_unat_eq_iff)
  with assms(2) show "ct_start p = 0" "unat (ct_end p) = overhead alg"
    by (auto simp: plan_range_def Let_def ciphertext_len_def unat_overhead)
qed

text \<open>The parts fit: no offset of the layout wraps.\<close>

fun parts_fit :: "alg \<Rightarrow> u64 \<Rightarrow> nat \<Rightarrow> nat \<Rightarrow> (u32 \<times> u64) list \<Rightarrow> bool" where
  "parts_fit alg c po co [] = True"
| "parts_fit alg c po co ((n, l) # ps) =
     (po + unat l < 2 ^ 64 \<and> co + ciphertext_len_spec alg (unat l) (unat c) < 2 ^ 64 \<and>
      parts_fit alg c (po + unat l) (co + ciphertext_len_spec alg (unat l) (unat c)) ps)"

lemma plan_spans_beyond:
  "parts_fit alg c (unat po) (unat co) ps \<Longrightarrow> 0 < c \<Longrightarrow> stop \<le> po \<Longrightarrow>
     plan_spans alg c start stop (layout_from alg c po co ps) = Inr []"
proof (induction alg c po co ps rule: layout_from.induct)
  case (2 alg c po co n l ps)
  have o: "unat (po + l) = unat po + unat l" using "2.prems"(1) by (simp add: unat_u64_add)
  have x: "unat (ciphertext_len alg l c) = ciphertext_len_spec alg (unat l) (unat c)"
    using "2.prems" by (intro unat_ciphertext_len) simp_all
  then have "unat (co + ciphertext_len alg l c) = unat co + ciphertext_len_spec alg (unat l) (unat c)"
    using "2.prems"(1) by (simp add: unat_u64_add)
  with "2.IH" [OF refl] "2.prems" o show ?case by (simp add: Let_def u64_nat)
qed simp

lemma plan_spans_chained:
  "parts_fit alg c (unat po) (unat co) ps \<Longrightarrow> 0 < c \<Longrightarrow> unat c + overhead alg < 2 ^ 64 \<Longrightarrow> start < stop \<Longrightarrow>
     plan_spans alg c start stop (layout_from alg c po co ps) = Inr plans \<Longrightarrow>
     chained plans \<and> (start < po \<longrightarrow> plans \<noteq> [] \<longrightarrow> entry_lo (hd plans) = unat co)"
proof (induction alg c po co ps arbitrary: plans rule: layout_from.induct)
  case (2 alg c po co n l ps)
  let ?X = "ciphertext_len_spec alg (unat l) (unat c)"
  let ?sp = "\<lparr> ps_number = n, ps_pt_start = po, ps_pt_len = l, ps_ct_start = co, ps_ct_len = ciphertext_len alg l c \<rparr>"
  let ?rest = "layout_from alg c (po + l) (co + ciphertext_len alg l c) ps"
  have o: "unat (po + l) = unat po + unat l" using "2.prems"(1) by (simp add: unat_u64_add)
  have x: "unat (ciphertext_len alg l c) = ?X" using "2.prems" by (intro unat_ciphertext_len) simp_all
  then have co: "unat (co + ciphertext_len alg l c) = unat co + ?X" using "2.prems"(1) by (simp add: unat_u64_add)
  have fit: "parts_fit alg c (unat (po + l)) (unat (co + ciphertext_len alg l c)) ps" using "2.prems"(1) o co by simp
  have fits: "fits alg l c" using "2.prems"(1-3) by (simp add: fits_def)
  note IH = "2.IH" [OF refl fit "2.prems"(2-4)]
  show ?case
  proof (cases "stop \<le> po \<or> start \<ge> po + l")
    case True
    have "\<not> start < po" if "\<not> stop \<le> po" using True that o by (auto simp: u64_nat)
    moreover have "plans = []" if "stop \<le> po"
      using plan_spans_beyond [OF "2.prems"(1,2) that] "2.prems"(5) by simp
    moreover have "plan_spans alg c start stop ?rest = Inr plans" using "2.prems"(5) True by (simp add: Let_def)
    ultimately show ?thesis using IH by auto
  next
    case False
    define a where "a = min (saturating_sub start po) l"
    define b where "b = min (stop - po) l"
    obtain pl tail where pl: "plan_range alg l c a b = Inr pl" and tail: "plan_spans alg c start stop ?rest = Inr tail"
      and plans: "plans = (?sp, pl) # tail"
      using "2.prems"(5) False by (auto simp: Let_def a_def b_def rbind_eq_Inr_iff)
    have "unat po + unat l < 2 ^ 64" using "2.prems"(1) by simp
    note lb = local_bounds [OF False "2.prems"(4) this, folded a_def b_def]
    have shape: "ct_start pl < ct_end pl \<and> (start < po \<longrightarrow> ct_start pl = 0) \<and> (po + l < stop \<longrightarrow> unat (ct_end pl) = ?X)"
    proof (cases "l = 0")
      case True
      then have "a = 0" "b = 0" by (simp_all add: a_def b_def)
      with True pl have z: "plan_range alg 0 c 0 0 = Inr pl" by simp
      show ?thesis using plan_range_empty_shape [OF "2.prems"(2) z] True overhead_bounds(3) [of alg]
        by (simp add: word_less_nat_alt ciphertext_len_spec_def)
    next
      case l: False
      then have ab: "a < b" using lb(3) by (simp add: word_neq_0_conv)
      have "start < po \<longrightarrow> a = 0" using lb(1) by (auto simp: word_unat_eq_iff word_less_nat_alt)
      moreover have "po + l < stop \<longrightarrow> b = l" using lb(2) o by (auto simp: word_unat_eq_iff word_less_nat_alt)
      ultimately show ?thesis using plan_range_shape [OF fits pl ab] by blast
    qed
    have hi: "entry_hi (?sp, pl) = entry_lo (hd tail)" if "tail \<noteq> []"
    proof -
      have st: "po + l < stop"
      proof (rule ccontr)
        assume "\<not> po + l < stop"
        then have "stop \<le> po + l" by simp
        with plan_spans_beyond [OF fit "2.prems"(2), of stop start] tail that show False by simp
      qed
      have "start < po + l" using False by (simp add: not_le)
      with IH [OF tail] that co st shape show ?thesis by (simp add: entry_hi_def)
    qed
    have "chained plans" using IH [OF tail] hi shape plans by (cases tail) auto
    then show ?thesis using plans shape by (simp add: entry_lo_def)
  qed
qed simp

lemma plan_spans_bounded:
  "parts_fit alg c (unat po) (unat co) ps \<Longrightarrow> 0 < c \<Longrightarrow> unat c + overhead alg < 2 ^ 64 \<Longrightarrow> start < stop \<Longrightarrow>
     plan_spans alg c start stop (layout_from alg c po co ps) = Inr plans \<Longrightarrow> e \<in> set plans \<Longrightarrow>
     entry_hi e \<le> unat co + (\<Sum>(n, l) \<leftarrow> ps. ciphertext_len_spec alg (unat l) (unat c))"
proof (induction alg c po co ps arbitrary: plans rule: layout_from.induct)
  case (2 alg c po co n l ps)
  let ?X = "ciphertext_len_spec alg (unat l) (unat c)"
  let ?sp = "\<lparr> ps_number = n, ps_pt_start = po, ps_pt_len = l, ps_ct_start = co, ps_ct_len = ciphertext_len alg l c \<rparr>"
  let ?rest = "layout_from alg c (po + l) (co + ciphertext_len alg l c) ps"
  have o: "unat (po + l) = unat po + unat l" using "2.prems"(1) by (simp add: unat_u64_add)
  have x: "unat (ciphertext_len alg l c) = ?X" using "2.prems" by (intro unat_ciphertext_len) simp_all
  then have co: "unat (co + ciphertext_len alg l c) = unat co + ?X" using "2.prems"(1) by (simp add: unat_u64_add)
  have fit: "parts_fit alg c (unat (po + l)) (unat (co + ciphertext_len alg l c)) ps" using "2.prems"(1) o co by simp
  have fits: "fits alg l c" using "2.prems"(1-3) by (simp add: fits_def)
  note IH = "2.IH" [OF refl fit "2.prems"(2-4)]
  show ?case
  proof (cases "stop \<le> po \<or> start \<ge> po + l")
    case True
    then have "plan_spans alg c start stop ?rest = Inr plans" using "2.prems"(5) by (simp add: Let_def)
    from IH [OF this "2.prems"(6)] co show ?thesis by simp
  next
    case False
    define a where "a = min (saturating_sub start po) l"
    define b where "b = min (stop - po) l"
    obtain pl tail where pl: "plan_range alg l c a b = Inr pl" and tail: "plan_spans alg c start stop ?rest = Inr tail"
      and plans: "plans = (?sp, pl) # tail"
      using "2.prems"(5) False by (auto simp: Let_def a_def b_def rbind_eq_Inr_iff)
    have "unat po + unat l < 2 ^ 64" using "2.prems"(1) by simp
    note lb = local_bounds [OF False "2.prems"(4) this, folded a_def b_def]
    have "unat (ct_end pl) \<le> ?X"
    proof (cases "l = 0")
      case True
      then have "plan_range alg 0 c 0 0 = Inr pl" using pl by (simp add: a_def b_def)
      with plan_range_empty_shape [OF "2.prems"(2)] True show ?thesis by (simp add: ciphertext_len_spec_def)
    next
      case l: False
      then have "a < b" using lb(3) by (simp add: word_neq_0_conv)
      from plan_ct_end_le [OF fits pl this] show ?thesis .
    qed
    with IH [OF tail] co "2.prems"(6) plans show ?thesis by (fastforce simp: entry_hi_def)
  qed
qed simp

text \<open>Chained slices of an object are one slice.\<close>

definition entry_slice :: "bytes \<Rightarrow> part_span \<times> range_plan \<Rightarrow> bytes" where
  "entry_slice obj e = subrange (entry_lo e) (entry_hi e) obj"

lemma subrange_join: "a \<le> b \<Longrightarrow> b \<le> d \<Longrightarrow> subrange a b xs @ subrange b d xs = subrange a d xs"
proof -
  assume "a \<le> b" "b \<le> d"
  then have d: "d - a = (b - a) + (d - b)" and b: "b - a + a = b" by simp_all
  show ?thesis unfolding subrange_def d take_add drop_drop b by simp
qed

lemma entry_lo_less: "ct_start (snd e) < ct_end (snd e) \<Longrightarrow> entry_lo e < entry_hi e"
  by (simp add: entry_lo_def entry_hi_def word_less_nat_alt)

lemma chained_mono: "chained (e # es) \<Longrightarrow> entry_lo e < entry_hi (List.last (e # es))"
proof (induction es arbitrary: e)
  case (Cons f es)
  then have "entry_lo e < entry_lo f" "chained (f # es)" by (auto dest: entry_lo_less)
  with Cons.IH [of f] show ?case by simp
qed (auto dest: entry_lo_less)

lemma concat_chained:
  "chained (e # es) \<Longrightarrow>
     concat (map (entry_slice obj) (e # es)) = subrange (entry_lo e) (entry_hi (List.last (e # es))) obj"
proof (induction es arbitrary: e)
  case (Cons f es)
  then have c: "chained (f # es)" and h: "entry_hi e = entry_lo f" and l: "entry_lo e < entry_hi e"
    by (auto dest: entry_lo_less)
  from Cons.IH [OF c] chained_mono [OF c] h l
    subrange_join [of "entry_lo e" "entry_hi e" "entry_hi (List.last (f # es))" obj]
  show ?case by (simp add: entry_slice_def)
qed (simp add: entry_slice_def)

lemma chained_pos: "chained es \<Longrightarrow> e \<in> set es \<Longrightarrow> ct_start (snd e) < ct_end (snd e)"
  by (induction es rule: chained.induct) auto

text \<open>The parts of an encrypted object fit.\<close>

lemma encrypted_parts_fit:
  assumes "aead_correct A" "encrypted_parts A alg key c ps cts"
  shows "po \<le> co \<Longrightarrow> co + length (concat cts) < 2 ^ 64 \<Longrightarrow> parts_fit alg c po co (sizes ps)"
  using assms(2) unfolding encrypted_parts_def
proof (induction ps cts arbitrary: po co rule: list_all2_induct)
  case (Cons p ps ct cts)
  obtain n pt where p: "p = (n, pt)" by (cases p)
  have ct: "length ct = ciphertext_len_spec alg (length pt) (unat c)"
    using Cons.hyps(1) p length_encrypt_all [OF assms(1)] by auto
  then have "length pt \<le> length ct" by (simp add: ciphertext_len_spec_def)
  moreover from this have "unat (word_of_nat (length pt) :: u64) = length pt" using Cons.prems by (simp add: unat_u64_of_nat)
  ultimately show ?case using Cons.IH [of "po + length pt" "co + length ct"] Cons.prems ct p by simp
qed simp

lemma encrypted_parts_total:
  assumes "aead_correct A" "encrypted_parts A alg key c ps cts"
  shows "length (concat cts) < 2 ^ 64 \<Longrightarrow>
    (\<Sum>(n, l) \<leftarrow> sizes ps. ciphertext_len_spec alg (unat l) (unat c)) = length (concat cts)"
  using assms(2) unfolding encrypted_parts_def
proof (induction ps cts rule: list_all2_induct)
  case (Cons p ps ct cts)
  obtain n pt where p: "p = (n, pt)" by (cases p)
  have ct: "length ct = ciphertext_len_spec alg (length pt) (unat c)"
    using Cons.hyps(1) p length_encrypt_all [OF assms(1)] by auto
  then have "length pt \<le> length ct" by (simp add: ciphertext_len_spec_def)
  then have "unat (word_of_nat (length pt) :: u64) = length pt" using Cons.prems by (simp add: unat_u64_of_nat)
  then show ?case using Cons.IH Cons.prems ct p by simp
qed simp

lemma multipart_plan_chained:
  assumes "aead_correct A" "encrypted_parts A alg key c ps cts"
    and "0 < c" "unat c + overhead alg < 2 ^ 64" "length (concat cts) < 2 ^ 64"
    and "start < stop" "plan_multipart_range (part_layout alg c (sizes ps)) alg c start stop = Inr plans"
  shows "chained plans" "e \<in> set plans \<Longrightarrow> entry_hi e \<le> length (concat cts)"
proof -
  have fit: "parts_fit alg c (unat (0 :: u64)) (unat (0 :: u64)) (sizes ps)"
    using encrypted_parts_fit [OF assms(1,2), of 0 0] assms(5) by simp
  have plan: "plan_spans alg c start stop (layout_from alg c 0 0 (sizes ps)) = Inr plans"
    using assms(6,7) by (auto simp: plan_multipart_range_def part_layout_def Let_def split: if_splits)
  show "chained plans" using plan_spans_chained [OF fit assms(3,4,6) plan] by simp
  have "(\<Sum>(n, l) \<leftarrow> sizes ps. ciphertext_len_spec alg (unat l) (unat c)) = length (concat cts)"
    by (rule encrypted_parts_total [OF assms(1,2,5)])
  then show "e \<in> set plans \<Longrightarrow> entry_hi e \<le> length (concat cts)"
    using plan_spans_bounded [OF fit assms(3,4,6) plan] by simp
qed

end
