(* ===== verification/PartReader.thy ===== *)
theory PartReader
  imports Streams
begin

text \<open>
  Reading a concatenation of entries of known lengths through one decoder per entry, from a stream that
  arrives in arbitrary pieces. This is the contract that both multipart cursors of \<open>proxy/body.rs\<close> meet:
  the locale fixes a decoder's \<open>push\<close> and \<open>finish\<close>, and shows that the reader's result depends only on the
  bytes of the stream, not on how they were cut, and equals the entry-by-entry reference \<open>read_entries\<close>.
\<close>

section \<open>The reader\<close>

text \<open>Reading the current entry (its decoder, the bytes it still owns, the entries after it), or finished.\<close>

datatype 'd reader = Reading 'd nat "('d \<times> nat) list" | Finished

fun read_step ::
  "('d \<Rightarrow> 'i list \<Rightarrow> 'e + ('d \<times> 'o list)) \<Rightarrow> ('d \<Rightarrow> 'e + 'o list) \<Rightarrow> 'd \<Rightarrow> nat \<Rightarrow> ('d \<times> nat) list \<Rightarrow> 'i list
     \<Rightarrow> 'e + ('d reader \<times> 'o list)" where
  "read_step push finish d n es data =
     (if data = [] then Inr (Reading d n es, [])
      else if length data < n then
        rbind (push d data) (\<lambda>(d', out). Inr (Reading d' (n - length data) es, out))
      else
        rbind (push d (take n data)) (\<lambda>(d', out). rbind (finish d') (\<lambda>fin.
          prepend (out @ fin)
            (case es of
               [] \<Rightarrow> Inr (Finished, [])
             | (d2, n2) # es' \<Rightarrow> read_step push finish d2 n2 es' (drop n data)))))"

declare read_step.simps [simp del]

definition reader_step ::
  "('d \<Rightarrow> 'i list \<Rightarrow> 'e + ('d \<times> 'o list)) \<Rightarrow> ('d \<Rightarrow> 'e + 'o list) \<Rightarrow> 'd reader \<Rightarrow> 'i list
     \<Rightarrow> 'e + ('d reader \<times> 'o list)" where
  "reader_step push finish s data =
     (case s of Finished \<Rightarrow> Inr (Finished, []) | Reading d n es \<Rightarrow> read_step push finish d n es data)"

text \<open>One entry on its own, and the reference: cut the entries off the front one after the other; \<open>None\<close>
  if the bytes end early.\<close>

definition read_entry ::
  "('d \<Rightarrow> 'i list \<Rightarrow> 'e + ('d \<times> 'o list)) \<Rightarrow> ('d \<Rightarrow> 'e + 'o list) \<Rightarrow> 'd \<Rightarrow> 'i list \<Rightarrow> 'e + 'o list" where
  "read_entry push finish d x =
     rbind (push d x) (\<lambda>(d', out). rbind (finish d') (\<lambda>fin. Inr (out @ fin)))"

fun read_entries ::
  "('d \<Rightarrow> 'i list \<Rightarrow> 'e + ('d \<times> 'o list)) \<Rightarrow> ('d \<Rightarrow> 'e + 'o list) \<Rightarrow> ('d \<times> nat) list \<Rightarrow> 'i list
     \<Rightarrow> 'o list option" where
  "read_entries push finish [] data = Some []"
| "read_entries push finish ((d, n) # es) data =
     (if length data < n then None
      else case read_entry push finish d (take n data) of
        Inl e \<Rightarrow> None
      | Inr out \<Rightarrow> map_option (\<lambda>rest. out @ rest) (read_entries push finish es (drop n data)))"

lemma read_step_Nil [simp]: "read_step push finish d n es [] = Inr (Reading d n es, [])"
  by (simp add: read_step.simps)

lemma reader_step_Nil [simp]: "reader_step push finish s [] = Inr (s, [])"
  by (cases s) (simp_all add: reader_step_def)

lemma reader_step_simps [simp]:
  "reader_step push finish Finished data = Inr (Finished, [])"
  "reader_step push finish (Reading d n es) data = read_step push finish d n es data"
  by (simp_all add: reader_step_def)

lemma read_step_short:
  "data \<noteq> [] \<Longrightarrow> length data < n \<Longrightarrow>
     read_step push finish d n es data = rbind (push d data) (\<lambda>(d', out). Inr (Reading d' (n - length data) es, out))"
  by (simp add: read_step.simps)

lemma read_step_full:
  "data \<noteq> [] \<Longrightarrow> n \<le> length data \<Longrightarrow>
     read_step push finish d n es data = rbind (read_entry push finish d (take n data)) (\<lambda>out.
       prepend out (case es of [] \<Rightarrow> Inr (Finished, [])
         | (d2, n2) # es' \<Rightarrow> read_step push finish d2 n2 es' (drop n data)))"
  by (subst read_step.simps) (auto simp: read_entry_def rbind_def split: sum.splits)

text \<open>A reader that has started every entry with something left to read finishes exactly when the
  reference succeeds.\<close>

lemma read_step_Finished_iff:
  "0 < n \<Longrightarrow> \<forall>e \<in> set es. 0 < snd e \<Longrightarrow>
     read_step push finish d n es data = Inr (Finished, out) \<longleftrightarrow> read_entries push finish ((d, n) # es) data = Some out"
proof (induction es arbitrary: d n data out)
  case Nil
  then show ?case
    by (cases "data = []"; cases "length data < n")
      (auto simp: read_step_short read_step_full rbind_def split: sum.splits)
next
  case (Cons e es)
  obtain d2 n2 where e: "e = (d2, n2)" by (cases e)
  show ?case
  proof (cases "length data < n")
    case True
    then show ?thesis using Cons.prems
      by (cases "data = []") (auto simp: read_step_short rbind_def split: sum.splits)
  next
    case False
    then have "data \<noteq> []" using Cons.prems by auto
    then show ?thesis using False Cons.prems Cons.IH [of n2 d2 "drop n data"] e
      by (auto simp: read_step_full rbind_def prepend_eq_Inr_iff split: sum.splits)
  qed
qed

section \<open>Segmentation\<close>

locale entry_reader = strict_stream_machine push
  for push :: "'d \<Rightarrow> 'i list \<Rightarrow> 'e + ('d \<times> 'o list)" +
  fixes finish :: "'d \<Rightarrow> 'e + 'o list"
begin

lemma read_step_append_short:
  assumes "read_step push finish d n es a = Inr (s', out)" "length a < n" "a \<noteq> []" "b \<noteq> []"
  shows "read_step push finish d n es (a @ b) = prepend out (reader_step push finish s' b)"
proof -
  obtain d' where p: "push d a = Inr (d', out)" and s': "s' = Reading d' (n - length a) es"
    using assms by (auto simp: read_step_short rbind_def split: sum.splits)
  have "length b < n - length a \<longleftrightarrow> length (a @ b) < n" using assms(2) by auto
  then show ?thesis using assms(2-4) s' step_append [OF p]
    by (cases "length (a @ b) < n"; cases es)
      (auto simp: read_step_short read_step_full read_entry_def rbind_def prepend_def split: sum.splits)
qed

lemma read_step_append:
  "read_step push finish d n es a = Inr (s', out) \<Longrightarrow>
     read_step push finish d n es (a @ b) = prepend out (reader_step push finish s' b)"
proof (induction es arbitrary: d n a out)
  case Nil
  show ?case
  proof (cases "a = [] \<or> b = [] \<or> length a < n")
    case True
    then show ?thesis using Nil read_step_append_short [OF Nil, of b] by (cases "a = [] \<or> b = []") auto
  next
    case False
    then show ?thesis using Nil by (auto simp: read_step_full rbind_def split: sum.splits)
  qed
next
  case (Cons e es)
  obtain d2 n2 where e: "e = (d2, n2)" by (cases e)
  show ?case
  proof (cases "a = [] \<or> b = [] \<or> length a < n")
    case True
    then show ?thesis using Cons.prems read_step_append_short [OF Cons.prems, of b] by (cases "a = [] \<or> b = []") auto
  next
    case False
    then obtain o1 o2 where o: "read_entry push finish d (take n a) = Inr o1"
      "read_step push finish d2 n2 es (drop n a) = Inr (s', o2)" "out = o1 @ o2"
      using Cons.prems e by (auto simp: read_step_full rbind_def prepend_eq_Inr_iff split: sum.splits)
    then show ?thesis using e False Cons.IH [OF o(2)]
      by (simp add: read_step_full prepend_append)
  qed
qed

lemma read_step_error: "read_step push finish d n es a = Inl e \<Longrightarrow> read_step push finish d n es (a @ b) = Inl e"
proof (induction es arbitrary: d n a)
  case Nil
  then show ?case using step_error [of d a e]
    by (cases "a = []"; cases "length a < n"; cases "length (a @ b) < n")
      (auto simp: read_step_short read_step_full read_entry_def rbind_def split: sum.splits)
next
  case (Cons x es)
  then show ?case using step_error [of d a e]
    by (cases "a = []"; cases "length a < n"; cases "length (a @ b) < n"; cases x)
      (auto simp: read_step_short read_step_full read_entry_def rbind_def prepend_eq_Inl_iff split: sum.splits)
qed

end

sublocale entry_reader \<subseteq> reader: strict_stream_machine "reader_step push finish"
proof
  fix s s' :: "'d reader" and a b :: "'i list" and out :: "'o list"
  assume "reader_step push finish s a = Inr (s', out)"
  then show "reader_step push finish s (a @ b) = prepend out (reader_step push finish s' b)"
    by (cases s) (auto simp: read_step_append)
next
  fix s :: "'d reader" and a b :: "'i list" and e :: 'e
  assume "reader_step push finish s a = Inl e"
  then show "reader_step push finish s (a @ b) = Inl e" by (cases s) (auto simp: read_step_error)
qed

context entry_reader
begin

lemma run_reader: "run_stream (reader_step push finish) s xs = reader_step push finish s (concat xs)"
  by (cases "xs = []") (simp_all add: reader.run_stream_eq_step)

end

end
