(* ===== verification/ResponseBody.thy ===== *)
theory ResponseBody
  imports RequestBody MultipartFetch PartReader
begin

text \<open>
  The response-body transforms (\<open>proxy/body.rs\<close>, second half): decryption of a whole object, of a range,
  and of multipart objects with one decryptor per part. Every transform is a task that writes frames to
  a channel and may count a verification failure; the \<open>sink\<close> is the channel and the counter. A task that
  returns, or panics, drops its sender, so the stream ends; an error frame ends it with that error.
\<close>

section \<open>The channel\<close>

record sink =
  sk_frames :: "frame list"
  sk_err :: "string option"
  sk_failures :: "u64 option"

definition send_data :: "bytes \<Rightarrow> sink \<Rightarrow> sink" where
  "send_data bs sk = sk\<lparr> sk_frames := sk_frames sk @ [DataFrame bs] \<rparr>"

definition send_err :: "string \<Rightarrow> sink \<Rightarrow> sink" where
  "send_err msg sk = sk\<lparr> sk_err := Some msg \<rparr>"

definition open_sink :: "u64 option \<Rightarrow> sink" where
  "open_sink counter = \<lparr> sk_frames = [], sk_err = None, sk_failures = counter \<rparr>"

definition note_chunk_verify_failure :: "sink \<Rightarrow> sink" where
  "note_chunk_verify_failure sk = sk\<lparr> sk_failures := map_option (\<lambda>c. c + 1) (sk_failures sk) \<rparr>"

definition decrypt_error_message :: "error \<Rightarrow> string" where
  "decrypt_error_message e = ''v1 decrypt failed: '' @ error_string e"

text \<open>The failure branch that all decrypt paths share: count it, send the error frame.\<close>

definition decrypt_failed :: "error \<Rightarrow> sink \<Rightarrow> sink" where
  "decrypt_failed e sk = send_err (decrypt_error_message e) (note_chunk_verify_failure sk)"

text \<open>The body of a backend response: its frames, and the message of a transport error if it breaks off.\<close>

type_synonym backend_body = "frame list \<times> string option"

definition passthrough :: "backend_body \<Rightarrow> proxy_body" where
  "passthrough b = (fst b, case snd b of None \<Rightarrow> Eof | Some m \<Rightarrow> Broken m)"

section \<open>Whole objects\<close>

fun decrypting_loop :: "aead \<Rightarrow> decryptor \<Rightarrow> frame list \<Rightarrow> string option \<Rightarrow> sink \<Rightarrow> sink" where
  "decrypting_loop A dec [] fin sk =
     (case fin of
        Some m \<Rightarrow> send_err m sk
      | None \<Rightarrow>
          (case Decryptor_finish A dec of
             Inr pt \<Rightarrow> send_data pt sk
           | Inl e \<Rightarrow> decrypt_failed e sk))"
| "decrypting_loop A dec (TrailersFrame # fs) fin sk = decrypting_loop A dec fs fin sk"
| "decrypting_loop A dec (DataFrame data # fs) fin sk =
     (case Decryptor_push A dec data of
        Inr (dec', pt) \<Rightarrow> decrypting_loop A dec' fs fin (if pt = [] then sk else send_data pt sk)
      | Inl e \<Rightarrow> decrypt_failed e sk)"

definition decrypting ::
  "aead \<Rightarrow> backend_body \<Rightarrow> alg \<Rightarrow> bytes \<Rightarrow> nat \<Rightarrow> u32 \<Rightarrow> u64 option \<Rightarrow> sink" where
  "decrypting A inner alg dek chunk_size part_number counter =
     (case Decryptor_new alg dek part_number chunk_size of
        None \<Rightarrow> open_sink counter
      | Some dec \<Rightarrow> decrypting_loop A dec (fst inner) (snd inner) (open_sink counter))"

section \<open>Ranges\<close>

definition push_range_frame ::
  "aead \<Rightarrow> decryptor \<Rightarrow> bytes \<Rightarrow> nat \<Rightarrow> sink \<Rightarrow> (decryptor \<times> nat) option \<times> sink" where
  "push_range_frame A dec data to_drop sk =
     (case Decryptor_push A dec data of
        Inl e \<Rightarrow> (None, decrypt_failed e sk)
      | Inr (dec', pt) \<Rightarrow>
          if to_drop \<ge> length pt then (Some (dec', to_drop - length pt), sk)
          else
            let pt' = drop to_drop pt
            in (Some (dec', 0), if pt' = [] then sk else send_data pt' sk))"

definition finish_range :: "aead \<Rightarrow> decryptor \<Rightarrow> nat \<Rightarrow> nat \<Rightarrow> sink \<Rightarrow> bool \<times> sink" where
  "finish_range A dec to_drop t_end sk =
     (case Decryptor_finish A dec of
        Inr pt \<Rightarrow>
          let pt = take t_end pt;
              pt = (if to_drop < length pt then drop to_drop pt else [])
          in (True, if pt = [] then sk else send_data pt sk)
      | Inl e \<Rightarrow> (False, decrypt_failed e sk))"

fun decrypting_range_loop :: "aead \<Rightarrow> nat \<Rightarrow> decryptor \<Rightarrow> nat \<Rightarrow> frame list \<Rightarrow> string option \<Rightarrow> sink \<Rightarrow> sink" where
  "decrypting_range_loop A t_end dec to_drop [] fin sk =
     (case fin of
        Some m \<Rightarrow> send_err m sk
      | None \<Rightarrow> snd (finish_range A dec to_drop t_end sk))"
| "decrypting_range_loop A t_end dec to_drop (TrailersFrame # fs) fin sk =
     decrypting_range_loop A t_end dec to_drop fs fin sk"
| "decrypting_range_loop A t_end dec to_drop (DataFrame data # fs) fin sk =
     (case push_range_frame A dec data to_drop sk of
        (Some (dec', to_drop'), sk') \<Rightarrow> decrypting_range_loop A t_end dec' to_drop' fs fin sk'
      | (None, sk') \<Rightarrow> sk')"

definition decrypting_range ::
  "aead \<Rightarrow> backend_body \<Rightarrow> alg \<Rightarrow> bytes \<Rightarrow> nat \<Rightarrow> range_plan \<Rightarrow> u64 \<Rightarrow> u64 option \<Rightarrow> sink" where
  "decrypting_range A inner alg dek chunk_size plan total_chunks counter =
     (case Decryptor_new_at alg dek 0 chunk_size (first_chunk plan) (last_chunk plan + 1 = total_chunks) of
        None \<Rightarrow> open_sink counter
      | Some dec \<Rightarrow>
          decrypting_range_loop A (trim_end plan) dec (trim_start plan) (fst inner) (snd inner) (open_sink counter))"

section \<open>Multipart objects\<close>

text \<open>\<open>data.len() as u64\<close> is exact on a 64-bit machine, so the minimum is taken on natural numbers.\<close>

definition take_up_to :: "bytes \<Rightarrow> u64 \<Rightarrow> bytes \<times> bytes" where
  "take_up_to data remaining = (let n = min (length data) (unat remaining) in (take n data, drop n data))"

definition emit_decrypt_result :: "error + bytes \<Rightarrow> sink \<Rightarrow> bool \<times> sink" where
  "emit_decrypt_result result sk =
     (case result of
        Inr pt \<Rightarrow> (True, if pt = [] then sk else send_data pt sk)
      | Inl e \<Rightarrow> (False, decrypt_failed e sk))"

record multipart_cursor =
  mc_alg :: alg
  mc_dek :: bytes
  mc_chunk_size :: nat
  mc_spans :: "part_span list"
  mc_span :: part_span
  mc_dec :: decryptor
  mc_consumed_ct :: u64

text \<open>A cursor on the first of a list of spans; \<open>None\<close> if there is none (or on the panic of the
  decryptor's constructor for a chunk size of zero).\<close>

definition MultipartCursor_new ::
  "alg \<Rightarrow> bytes \<Rightarrow> nat \<Rightarrow> part_span list \<Rightarrow> multipart_cursor option" where
  "MultipartCursor_new alg dek chunk_size spans =
     (case spans of
        [] \<Rightarrow> None
      | span # spans' \<Rightarrow>
          map_option (\<lambda>dec. \<lparr> mc_alg = alg, mc_dek = dek, mc_chunk_size = chunk_size, mc_spans = spans',
                              mc_span = span, mc_dec = dec, mc_consumed_ct = 0 \<rparr>)
            (Decryptor_new alg dek (ps_number span) chunk_size))"

text \<open>The advance to the next span: the rest of the list, with a new decryptor.\<close>

definition next_span :: "multipart_cursor \<Rightarrow> multipart_cursor option" where
  "next_span c =
     (case mc_spans c of
        [] \<Rightarrow> None
      | next # rest \<Rightarrow>
          map_option (\<lambda>dec. c\<lparr> mc_spans := rest, mc_span := next, mc_consumed_ct := 0, mc_dec := dec \<rparr>)
            (Decryptor_new (mc_alg c) (mc_dek c) (ps_number next) (mc_chunk_size c)))"

lemma next_span_shorter: "next_span c = Some c' \<Longrightarrow> length (mc_spans c) = Suc (length (mc_spans c'))"
  by (auto simp: next_span_def split: list.splits)

lemma take_up_to_rest: "(piece, rest) = take_up_to data r \<Longrightarrow> length rest \<le> length data"
  by (auto simp: take_up_to_def Let_def)

lemma take_up_to_progress:
  assumes "(piece, rest) = take_up_to data r" "data \<noteq> []" "r \<noteq> 0"
  shows "length rest < length data"
proof -
  have "0 < unat r" using assms(3) by (simp add: unsigned_eq_0_iff neq0_conv [symmetric] del: neq0_conv)
  with assms(1,2) show ?thesis by (auto simp: take_up_to_def Let_def)
qed

text \<open>The constructor of the panic aside, \<open>None\<close> is the result \<open>false\<close>: the caller stops.\<close>

function MultipartCursor_feed ::
  "aead \<Rightarrow> multipart_cursor \<Rightarrow> bytes \<Rightarrow> sink \<Rightarrow> multipart_cursor option \<times> sink" where
  "MultipartCursor_feed A c data sk =
     (if data = [] then (Some c, sk)
      else
        let (piece, data') = take_up_to data (ps_ct_len (mc_span c) - mc_consumed_ct c);
            consumed = mc_consumed_ct c + word_of_nat (length piece)
        in case Decryptor_push A (mc_dec c) piece of
             Inl e \<Rightarrow> (None, snd (emit_decrypt_result (Inl e) sk))
           | Inr (dec, pt) \<Rightarrow>
               let sk = snd (emit_decrypt_result (Inr pt) sk);
                   c' = c\<lparr> mc_consumed_ct := consumed, mc_dec := dec \<rparr>
               in if consumed < ps_ct_len (mc_span c) then MultipartCursor_feed A c' data' sk
                  else
                    (case emit_decrypt_result (Decryptor_finish A dec) sk of
                       (False, sk) \<Rightarrow> (None, sk)
                     | (True, sk) \<Rightarrow>
                         (case next_span c' of
                            None \<Rightarrow> (None, sk)
                          | Some c'' \<Rightarrow> MultipartCursor_feed A c'' data' sk)))"
  by pat_completeness auto
termination
proof (relation "measure (\<lambda>(A, c, data, sk). length data + length (mc_spans c))", goal_cases)
  case 1
  then show ?case by simp
next
  case (2 A c data sk t piece data')
  have "ps_ct_len (mc_span c) - mc_consumed_ct c \<noteq> 0" using 2 by (auto simp: take_up_to_def Let_def)
  with 2 show ?case by (auto dest: take_up_to_progress)
next
  case 3
  then show ?case by (auto dest!: next_span_shorter take_up_to_rest)
qed

declare MultipartCursor_feed.simps [simp del]

definition ended_early :: "multipart_cursor \<Rightarrow> bool" where
  "ended_early c \<longleftrightarrow> mc_consumed_ct c \<noteq> ps_ct_len (mc_span c)"

fun decrypting_multipart_loop ::
  "aead \<Rightarrow> multipart_cursor \<Rightarrow> frame list \<Rightarrow> string option \<Rightarrow> sink \<Rightarrow> sink" where
  "decrypting_multipart_loop A c [] fin sk =
     (case fin of
        Some m \<Rightarrow> send_err m sk
      | None \<Rightarrow> if ended_early c then send_err ''multipart object body ended before its last part'' sk else sk)"
| "decrypting_multipart_loop A c (TrailersFrame # fs) fin sk = decrypting_multipart_loop A c fs fin sk"
| "decrypting_multipart_loop A c (DataFrame data # fs) fin sk =
     (case MultipartCursor_feed A c data sk of
        (None, sk') \<Rightarrow> sk'
      | (Some c', sk') \<Rightarrow> decrypting_multipart_loop A c' fs fin sk')"

definition decrypting_multipart ::
  "aead \<Rightarrow> backend_body \<Rightarrow> alg \<Rightarrow> bytes \<Rightarrow> nat \<Rightarrow> part_span list \<Rightarrow> u64 option \<Rightarrow> sink" where
  "decrypting_multipart A inner alg dek chunk_size spans counter =
     (case MultipartCursor_new alg dek chunk_size spans of
        None \<Rightarrow> open_sink counter
      | Some c \<Rightarrow> decrypting_multipart_loop A c (fst inner) (snd inner) (open_sink counter))"

section \<open>Ranges of multipart objects\<close>

record range_cursor =
  rc_alg :: alg
  rc_dek :: bytes
  rc_chunk_size :: nat
  rc_entries :: "(part_span \<times> range_plan) list"
  rc_dec :: "decryptor option"
  rc_remaining :: u64
  rc_to_drop :: nat
  rc_trim_end :: nat

text \<open>The cast of the chunk size to u64 is exact. The inner option is the panic of \<open>new_at\<close>.\<close>

definition RangeCursor_start :: "range_cursor \<Rightarrow> part_span \<Rightarrow> range_plan \<Rightarrow> range_cursor option" where
  "RangeCursor_start c span plan =
     map_option (\<lambda>dec. c\<lparr> rc_dec := Some dec, rc_remaining := ct_end plan - ct_start plan,
                          rc_to_drop := trim_start plan, rc_trim_end := trim_end plan \<rparr>)
       (Decryptor_new_at (rc_alg c) (rc_dek c) (ps_number span) (rc_chunk_size c) (first_chunk plan)
          (last_chunk plan + 1 = n_chunks (ps_pt_len span) (word_of_nat (rc_chunk_size c))))"

definition RangeCursor_new ::
  "alg \<Rightarrow> bytes \<Rightarrow> nat \<Rightarrow> (part_span \<times> range_plan) list \<Rightarrow> range_cursor option" where
  "RangeCursor_new alg dek chunk_size plan =
     (case plan of
        [] \<Rightarrow> None
      | (span, range_plan) # entries \<Rightarrow>
          RangeCursor_start \<lparr> rc_alg = alg, rc_dek = dek, rc_chunk_size = chunk_size, rc_entries = entries,
              rc_dec = None, rc_remaining = 0, rc_to_drop = 0, rc_trim_end = 0 \<rparr> span range_plan)"

lemma RangeCursor_start_entries: "RangeCursor_start c span plan = Some c' \<Longrightarrow> rc_entries c' = rc_entries c"
  by (auto simp: RangeCursor_start_def)

function RangeCursor_feed ::
  "aead \<Rightarrow> range_cursor \<Rightarrow> bytes \<Rightarrow> sink \<Rightarrow> range_cursor option \<times> sink" where
  "RangeCursor_feed A c data sk =
     (if data = [] then (Some c, sk)
      else case rc_dec c of
        None \<Rightarrow> (Some c, sk)
      | Some dec \<Rightarrow>
          let (piece, data') = take_up_to data (rc_remaining c);
              remaining = rc_remaining c - word_of_nat (length piece)
          in case push_range_frame A dec piece (rc_to_drop c) sk of
               (None, sk) \<Rightarrow> (None, sk)
             | (Some (dec', to_drop), sk) \<Rightarrow>
                 let c' = c\<lparr> rc_dec := None, rc_remaining := remaining, rc_to_drop := to_drop \<rparr> in
                 if remaining > 0 then RangeCursor_feed A (c'\<lparr> rc_dec := Some dec' \<rparr>) data' sk
                 else
                   (case finish_range A dec' to_drop (rc_trim_end c) sk of
                      (False, sk) \<Rightarrow> (None, sk)
                    | (True, sk) \<Rightarrow>
                        (case rc_entries c of
                           [] \<Rightarrow> RangeCursor_feed A c' data' sk
                         | (span, plan) # entries \<Rightarrow>
                             (case RangeCursor_start (c'\<lparr> rc_entries := entries \<rparr>) span plan of
                                None \<Rightarrow> (None, sk)
                              | Some c'' \<Rightarrow> RangeCursor_feed A c'' data' sk))))"
  by pat_completeness auto
termination
proof (relation "measure (\<lambda>(A, c, data, sk). length data + 2 * length (rc_entries c) + (if rc_dec c = None then 0 else 1))", goal_cases)
  case 1
  then show ?case by simp
next
  case (2 A c data sk dec t piece data')
  have "rc_remaining c \<noteq> 0" using 2 by (auto simp: take_up_to_def Let_def)
  with 2 show ?case by (auto dest: take_up_to_progress)
next
  case 3
  then show ?case by (auto dest!: take_up_to_rest)
next
  case 4
  then show ?case by (auto dest!: take_up_to_rest RangeCursor_start_entries)
qed

declare RangeCursor_feed.simps [simp del]

definition RangeCursor_is_done :: "range_cursor \<Rightarrow> bool" where
  "RangeCursor_is_done c \<longleftrightarrow> rc_dec c = None"

fun decrypting_multipart_range_loop ::
  "aead \<Rightarrow> range_cursor \<Rightarrow> frame list \<Rightarrow> string option \<Rightarrow> sink \<Rightarrow> sink" where
  "decrypting_multipart_range_loop A c [] fin sk =
     (case fin of
        Some m \<Rightarrow> if RangeCursor_is_done c then sk else send_err m sk
      | None \<Rightarrow> if RangeCursor_is_done c then sk else send_err ''multipart ranged read ended before its span'' sk)"
| "decrypting_multipart_range_loop A c (TrailersFrame # fs) fin sk = decrypting_multipart_range_loop A c fs fin sk"
| "decrypting_multipart_range_loop A c (DataFrame data # fs) fin sk =
     (if RangeCursor_is_done c then sk
      else case RangeCursor_feed A c data sk of
        (None, sk') \<Rightarrow> sk'
      | (Some c', sk') \<Rightarrow> decrypting_multipart_range_loop A c' fs fin sk')"

definition decrypting_multipart_range ::
  "aead \<Rightarrow> backend_body \<Rightarrow> alg \<Rightarrow> bytes \<Rightarrow> nat \<Rightarrow> (part_span \<times> range_plan) list \<Rightarrow> u64 option \<Rightarrow> sink" where
  "decrypting_multipart_range A inner alg dek chunk_size plan counter =
     (case RangeCursor_new alg dek chunk_size plan of
        None \<Rightarrow> open_sink counter
      | Some c \<Rightarrow> decrypting_multipart_range_loop A c (fst inner) (snd inner) (open_sink counter))"

end
