(* ===== verification/ResponseProps.thy ===== *)
theory ResponseProps
  imports ResponseBody
begin

text \<open>
  What the decrypting transforms of \<open>ResponseBody\<close> deliver: for every cut of the backend's body into
  frames, exactly the result of the one-shot reference, and only authenticated plaintext.
\<close>

section \<open>Effects on the channel\<close>

definition sk_data :: "sink \<Rightarrow> bytes" where
  "sk_data sk = body_data (sk_frames sk)"

text \<open>The task sent \<open>out\<close> and nothing else happened; the task counted and reported the failure \<open>e\<close>; it
  reported a message without counting.\<close>

definition sent :: "sink \<Rightarrow> bytes \<Rightarrow> sink \<Rightarrow> bool" where
  "sent sk out sk' \<longleftrightarrow> sk_data sk' = sk_data sk @ out \<and> sk_err sk' = sk_err sk \<and> sk_failures sk' = sk_failures sk"

definition failed :: "sink \<Rightarrow> error \<Rightarrow> sink \<Rightarrow> bool" where
  "failed sk e sk' \<longleftrightarrow> sk_err sk' = Some (decrypt_error_message e) \<and>
     sk_failures sk' = map_option (\<lambda>c. c + 1) (sk_failures sk)"

definition broke :: "sink \<Rightarrow> string \<Rightarrow> sink \<Rightarrow> bool" where
  "broke sk m sk' \<longleftrightarrow> sk_err sk' = Some m \<and> sk_failures sk' = sk_failures sk"

named_theorems sink_simps

lemma sent_intros [sink_simps]:
  "sent sk [] sk" "sent sk out (send_data out sk)" "failed sk e (decrypt_failed e sk)" "broke sk m (send_err m sk)"
  by (simp_all add: sent_def failed_def broke_def sk_data_def send_data_def decrypt_failed_def send_err_def
      note_chunk_verify_failure_def)

lemma sent_trans: "sent sk a sk' \<Longrightarrow> sent sk' b sk'' \<Longrightarrow> sent sk (a @ b) sk''"
  by (simp add: sent_def)

lemma sent_failed: "sent sk a sk' \<Longrightarrow> failed sk' e sk'' \<Longrightarrow> failed sk e sk''"
  by (simp add: sent_def failed_def)

lemma sent_broke: "sent sk a sk' \<Longrightarrow> broke sk' m sk'' \<Longrightarrow> broke sk m sk''"
  by (simp add: sent_def broke_def)

lemma sent_if [sink_simps]: "sent sk out (if out = [] then sk else send_data out sk)"
  by (simp add: sink_simps)

lemma open_sink_simps [simp]:
  "sk_data (open_sink c) = []" "sk_err (open_sink c) = None" "sk_failures (open_sink c) = c"
  by (simp_all add: sk_data_def open_sink_def)

section \<open>The decoders\<close>

lemma Decryptor_push_Nil: "d_buf d = [] \<Longrightarrow> Decryptor_push A d [] = Inr (d, [])"
  by (simp add: Decryptor_push_def dec_loop.simps)

lemma read_entry_Decryptor:
  "read_entry (Decryptor_push A) (Decryptor_finish A) d x = dec_finish_all A (d\<lparr> d_buf := d_buf d @ x \<rparr>)"
  by (simp add: read_entry_def dec_finish_all_def Decryptor_push_def)

interpretation whole: entry_reader "Decryptor_push A" "Decryptor_finish A" for A
  by unfold_locales

text \<open>A ranged read as a decoder: the decryptor, the bytes still to drop, the end in the final chunk.\<close>

type_synonym ranged = "decryptor \<times> nat \<times> nat"

definition range_push :: "aead \<Rightarrow> ranged \<Rightarrow> bytes \<Rightarrow> error + (ranged \<times> bytes)" where
  "range_push A = (\<lambda>(dec, td, te) data.
     rbind (Decryptor_push A dec data) (\<lambda>(dec', pt). Inr ((dec', td - length pt, te), drop td pt)))"

definition range_finish :: "aead \<Rightarrow> ranged \<Rightarrow> error + bytes" where
  "range_finish A = (\<lambda>(dec, td, te). rbind (Decryptor_finish A dec) (\<lambda>pt. Inr (drop td (take te pt))))"

interpretation ranged: entry_reader "range_push A" "range_finish A" for A
proof
  fix s s' :: ranged and a b out
  assume "range_push A s a = Inr (s', out)"
  moreover obtain dec td te where "s = (dec, td, te)" by (cases s)
  ultimately show "range_push A s (a @ b) = prepend out (range_push A s' b)"
    by (auto simp: range_push_def rbind_def dec.step_append prepend_def split: sum.splits)
next
  fix s :: ranged and a b e
  assume "range_push A s a = Inl e"
  moreover obtain dec td te where "s = (dec, td, te)" by (cases s)
  ultimately show "range_push A s (a @ b) = Inl e"
    by (auto simp: range_push_def rbind_def dec.step_error split: sum.splits)
qed

lemma push_range_frame_effect:
  "case range_push A (dec, td, te) data of
     Inl e \<Rightarrow> \<exists>sk'. push_range_frame A dec data td sk = (None, sk') \<and> failed sk e sk'
   | Inr ((dec', td', te'), out) \<Rightarrow>
       te' = te \<and> (\<exists>sk'. push_range_frame A dec data td sk = (Some (dec', td'), sk') \<and> sent sk out sk')"
  by (auto simp: range_push_def push_range_frame_def rbind_def Let_def sink_simps split: sum.splits)

lemma finish_range_effect:
  "case range_finish A (dec, td, te) of
     Inl e \<Rightarrow> \<exists>sk'. finish_range A dec td te sk = (False, sk') \<and> failed sk e sk'
   | Inr out \<Rightarrow> \<exists>sk'. finish_range A dec td te sk = (True, sk') \<and> sent sk out sk'"
  by (auto simp: range_finish_def finish_range_def rbind_def Let_def sink_simps split: sum.splits)

lemma emit_effect:
  "case r of
     Inl e \<Rightarrow> \<exists>sk'. emit_decrypt_result r sk = (False, sk') \<and> failed sk e sk'
   | Inr out \<Rightarrow> \<exists>sk'. emit_decrypt_result r sk = (True, sk') \<and> sent sk out sk'"
  by (auto simp: emit_decrypt_result_def sink_simps split: sum.splits)

section \<open>Whole objects\<close>

text \<open>The outcome of feeding a list of pieces and then ending, in terms of the decoder.\<close>

definition stream_outcome ::
  "error + ('d \<times> bytes) \<Rightarrow> ('d \<Rightarrow> error + bytes) \<Rightarrow> string option \<Rightarrow> sink \<Rightarrow> sink \<Rightarrow> bool" where
  "stream_outcome r finish fin sk sk' \<longleftrightarrow>
     (case r of
        Inl e \<Rightarrow> failed sk e sk'
      | Inr (d, out) \<Rightarrow>
          (case fin of
             Some m \<Rightarrow> broke sk m sk'
           | None \<Rightarrow> (case finish d of Inl e \<Rightarrow> failed sk e sk' | Inr pt \<Rightarrow> sent sk (out @ pt) sk')))"

lemma stream_outcome_prepend:
  "sent sk out sk' \<Longrightarrow> stream_outcome r finish fin sk' sk'' \<Longrightarrow> stream_outcome (prepend out r) finish fin sk sk''"
  by (auto simp: stream_outcome_def prepend_def rbind_def dest: sent_failed sent_broke sent_trans
      split: sum.splits option.splits)

lemma decrypting_loop_outcome:
  "stream_outcome (run_stream (Decryptor_push A) dec (raw_pieces fs)) (Decryptor_finish A) fin sk
     (decrypting_loop A dec fs fin sk)"
proof (induction A dec fs fin sk rule: decrypting_loop.induct)
  case (1 A dec fin sk)
  then show ?case by (auto simp: stream_outcome_def sink_simps split: option.splits sum.splits)
next
  case (3 A dec data fs fin sk)
  show ?case
  proof (cases "Decryptor_push A dec data")
    case (Inl e)
    then show ?thesis by (simp add: stream_outcome_def sink_simps)
  next
    case (Inr p)
    then obtain dec' pt where p: "Decryptor_push A dec data = Inr (dec', pt)" by (cases p) auto
    from "3.IH" [OF p refl] p show ?thesis
      by (auto simp: rbind_def intro: stream_outcome_prepend [OF sent_if])
  qed
qed simp

lemma decrypting_range_loop_outcome:
  "stream_outcome (run_stream (range_push A) (dec, td, te) (raw_pieces fs)) (range_finish A) fin sk
     (decrypting_range_loop A te dec td fs fin sk)"
proof (induction A te dec td fs fin sk rule: decrypting_range_loop.induct)
  case (1 A te dec td fin sk)
  then show ?case using finish_range_effect [of A dec td te sk]
    by (auto simp: stream_outcome_def sink_simps split: option.splits sum.splits)
next
  case (3 A te dec td data fs fin sk)
  note eff = push_range_frame_effect [of A dec data td sk te]
  show ?case
  proof (cases "range_push A (dec, td, te) data")
    case (Inl e)
    then show ?thesis using eff by (auto simp: stream_outcome_def)
  next
    case (Inr p)
    obtain dec' td' out sk' where p: "range_push A (dec, td, te) data = Inr ((dec', td', te), out)"
      "push_range_frame A dec data td sk = (Some (dec', td'), sk')" "sent sk out sk'"
      using eff Inr by (cases p) auto
    from "3.IH" [OF p(2) [symmetric] refl refl] p show ?thesis
      by (auto simp: rbind_def intro: stream_outcome_prepend)
  qed
qed simp

section \<open>The cursors as readers\<close>

text \<open>The outcome of one \<open>feed\<close> against the step of the abstract reader. \<open>absf\<close> and \<open>okf\<close> are the abstraction
  and the invariant of a cursor, \<open>stopped\<close> its result when every entry is finished.\<close>

definition feed_outcome ::
  "('c \<Rightarrow> 'd reader) \<Rightarrow> ('c \<Rightarrow> bool) \<Rightarrow> ('c option \<Rightarrow> bool) \<Rightarrow> error + ('d reader \<times> bytes) \<Rightarrow> sink \<Rightarrow> 'c option \<times> sink \<Rightarrow> bool" where
  "feed_outcome absf okf stopped st sk = (\<lambda>(r, sk').
     (case st of
        Inl e \<Rightarrow> r = None \<and> failed sk e sk'
      | Inr (s', out) \<Rightarrow> sent sk out sk' \<and>
          (if s' = Finished then stopped r else \<exists>c'. r = Some c' \<and> okf c' \<and> absf c' = s')))"

lemma feed_outcome_prepend:
  "sent sk out sk' \<Longrightarrow> feed_outcome absf okf stopped st sk' r \<Longrightarrow> feed_outcome absf okf stopped (prepend out st) sk r"
  by (cases r) (auto simp: feed_outcome_def prepend_def rbind_def dest: sent_failed sent_trans split: sum.splits if_splits)

subsection \<open>Whole multipart objects\<close>

definition part_dec :: "alg \<Rightarrow> bytes \<Rightarrow> nat \<Rightarrow> u32 \<Rightarrow> decryptor" where
  "part_dec alg dek n number = \<lparr> d_alg = alg, d_key = dek, d_part_number = number, d_chunk_size = n,
     d_chunk_index = 0, d_buf = [], d_final_frame_is_object_end = True \<rparr>"

lemma Decryptor_new_Some: "0 < n \<Longrightarrow> Decryptor_new alg dek number n = Some (part_dec alg dek n number)"
  by (simp add: Decryptor_new_def Decryptor_new_at_def part_dec_def)

definition span_entries :: "alg \<Rightarrow> bytes \<Rightarrow> nat \<Rightarrow> part_span list \<Rightarrow> (decryptor \<times> nat) list" where
  "span_entries alg dek n = map (\<lambda>sp. (part_dec alg dek n (ps_number sp), unat (ps_ct_len sp)))"

definition mc_left :: "multipart_cursor \<Rightarrow> nat" where
  "mc_left c = unat (ps_ct_len (mc_span c) - mc_consumed_ct c)"

definition mc_abs :: "multipart_cursor \<Rightarrow> decryptor reader" where
  "mc_abs c = Reading (mc_dec c) (mc_left c) (span_entries (mc_alg c) (mc_dek c) (mc_chunk_size c) (mc_spans c))"

definition mc_ok :: "multipart_cursor \<Rightarrow> bool" where
  "mc_ok c \<longleftrightarrow> 0 < mc_chunk_size c \<and> mc_consumed_ct c < ps_ct_len (mc_span c) \<and> (\<forall>sp \<in> set (mc_spans c). 0 < ps_ct_len sp)"

lemma mc_left_pos: "mc_ok c \<Longrightarrow> 0 < mc_left c"
  by (auto simp: mc_ok_def mc_left_def unat_sub word_less_nat_alt order.strict_implies_order)

lemma consume_short:
  fixes total used :: u64
  assumes "used < total" "k < unat (total - used)"
  shows "used + word_of_nat k < total" "unat (total - (used + word_of_nat k)) = unat (total - used) - k"
proof -
  have u: "unat (total - used) = unat total - unat used" using assms(1) by (simp add: unat_sub order.strict_implies_order)
  have "unat total < 2 ^ 64" using unsigned_less [of total] by simp
  then have k: "unat used + k < unat total" "k < 2 ^ 64" using assms(2) u by simp_all
  then have s: "unat (used + word_of_nat k) = unat used + k"
    using \<open>unat total < 2 ^ 64\<close> by (simp add: unat_u64_add unat_u64_of_nat)
  then show lt: "used + word_of_nat k < total" using k(1) by (simp add: word_less_nat_alt)
  show "unat (total - (used + word_of_nat k)) = unat (total - used) - k"
    using u s lt k(1) by (simp add: unat_sub order.strict_implies_order)
qed

lemma multipart_feed_short:
  assumes "mc_ok c" "data \<noteq> []" "length data < mc_left c"
  shows "MultipartCursor_feed A c data sk =
    (case Decryptor_push A (mc_dec c) data of
       Inl e \<Rightarrow> (None, snd (emit_decrypt_result (Inl e) sk))
     | Inr (dec, pt) \<Rightarrow>
         (Some (c\<lparr> mc_consumed_ct := mc_consumed_ct c + word_of_nat (length data), mc_dec := dec \<rparr>),
          snd (emit_decrypt_result (Inr pt) sk)))"
proof -
  have "mc_consumed_ct c < ps_ct_len (mc_span c)" using assms(1) by (simp add: mc_ok_def)
  from consume_short(1) [OF this, of "length data"] assms(3)
  have "mc_consumed_ct c + word_of_nat (length data) < ps_ct_len (mc_span c)" by (simp add: mc_left_def)
  then show ?thesis using assms(2,3)
    by (subst MultipartCursor_feed.simps)
      (auto simp: take_up_to_def mc_left_def MultipartCursor_feed.simps [of _ _ "[]"] Let_def split: sum.splits)
qed

lemma multipart_feed_full:
  assumes "mc_ok c" "data \<noteq> []" "mc_left c \<le> length data"
  shows "MultipartCursor_feed A c data sk =
    (case Decryptor_push A (mc_dec c) (take (mc_left c) data) of
       Inl e \<Rightarrow> (None, snd (emit_decrypt_result (Inl e) sk))
     | Inr (dec, pt) \<Rightarrow>
         (case emit_decrypt_result (Decryptor_finish A dec) (snd (emit_decrypt_result (Inr pt) sk)) of
            (False, sk) \<Rightarrow> (None, sk)
          | (True, sk) \<Rightarrow>
              (case next_span (c\<lparr> mc_consumed_ct := ps_ct_len (mc_span c), mc_dec := dec \<rparr>) of
                 None \<Rightarrow> (None, sk)
               | Some c'' \<Rightarrow> MultipartCursor_feed A c'' (drop (mc_left c) data) sk)))"
proof -
  have t: "take_up_to data (ps_ct_len (mc_span c) - mc_consumed_ct c) = (take (mc_left c) data, drop (mc_left c) data)"
    using assms(3) by (simp add: take_up_to_def mc_left_def Let_def min_absorb2)
  have w: "mc_consumed_ct c + word_of_nat (mc_left c) = ps_ct_len (mc_span c)" by (simp add: mc_left_def)
  have l: "length (take (mc_left c) data) = mc_left c" using assms(3) by simp
  show ?thesis
    by (cases "Decryptor_push A (mc_dec c) (take (mc_left c) data)"; subst MultipartCursor_feed.simps)
      (auto simp: assms(2) t l w Let_def simp del: length_take)
qed

lemma mc_abs_next:
  assumes "mc_ok c" "mc_spans c = sp # sps"
  obtains c' where "next_span (c\<lparr> mc_consumed_ct := x, mc_dec := d \<rparr>) = Some c'" "mc_ok c'" "mc_spans c' = sps"
    "mc_abs c' = Reading (part_dec (mc_alg c) (mc_dek c) (mc_chunk_size c) (ps_number sp)) (unat (ps_ct_len sp))
       (span_entries (mc_alg c) (mc_dek c) (mc_chunk_size c) sps)"
  using assms that
  by (auto simp: next_span_def mc_ok_def mc_abs_def mc_left_def Decryptor_new_Some)

lemma emit_Inr: "sent sk pt (snd (emit_decrypt_result (Inr pt) sk))"
  by (simp add: emit_decrypt_result_def sink_simps)

lemma emit_Inl: "failed sk e (snd (emit_decrypt_result (Inl e) sk))"
  by (simp add: emit_decrypt_result_def sink_simps)

lemma multipart_feed_outcome_short:
  assumes "mc_ok c" "data \<noteq> []" "length data < mc_left c"
  shows "feed_outcome mc_abs mc_ok (\<lambda>r. r = None)
     (reader_step (Decryptor_push A) (Decryptor_finish A) (mc_abs c) data) sk (MultipartCursor_feed A c data sk)"
proof (cases "Decryptor_push A (mc_dec c) data")
  case (Inl e)
  then show ?thesis using assms
    by (simp add: multipart_feed_short mc_abs_def read_step_short feed_outcome_def emit_Inl)
next
  case (Inr p)
  then obtain dec pt where p: "Decryptor_push A (mc_dec c) data = Inr (dec, pt)" by (cases p) auto
  let ?c = "c\<lparr> mc_consumed_ct := mc_consumed_ct c + word_of_nat (length data), mc_dec := dec \<rparr>"
  have "mc_consumed_ct c < ps_ct_len (mc_span c)" using assms(1) by (simp add: mc_ok_def)
  note w = consume_short [OF this assms(3) [unfolded mc_left_def]]
  have "mc_ok ?c" using assms(1) w(1) by (simp add: mc_ok_def)
  moreover have "mc_abs ?c = Reading dec (mc_left c - length data)
      (span_entries (mc_alg c) (mc_dek c) (mc_chunk_size c) (mc_spans c))"
    using w(2) by (simp add: mc_abs_def mc_left_def)
  ultimately show ?thesis using assms p
    by (simp add: multipart_feed_short mc_abs_def [of c] read_step_short feed_outcome_def emit_Inr)
qed

lemma multipart_feed_entry:
  assumes "mc_ok c" "data \<noteq> []" "mc_left c \<le> length data"
  shows "case read_entry (Decryptor_push A) (Decryptor_finish A) (mc_dec c) (take (mc_left c) data) of
     Inl e \<Rightarrow> \<exists>sk'. MultipartCursor_feed A c data sk = (None, sk') \<and> failed sk e sk'
   | Inr out \<Rightarrow> \<exists>d sk'. sent sk out sk' \<and> MultipartCursor_feed A c data sk =
       (case next_span (c\<lparr> mc_consumed_ct := ps_ct_len (mc_span c), mc_dec := d \<rparr>) of
          None \<Rightarrow> (None, sk') | Some c'' \<Rightarrow> MultipartCursor_feed A c'' (drop (mc_left c) data) sk')"
proof (cases "Decryptor_push A (mc_dec c) (take (mc_left c) data)")
  case (Inl e)
  then show ?thesis using assms by (simp add: multipart_feed_full read_entry_def emit_Inl)
next
  case (Inr p)
  then obtain dec pt where p: "Decryptor_push A (mc_dec c) (take (mc_left c) data) = Inr (dec, pt)" by (cases p) auto
  let ?sk = "snd (emit_decrypt_result (Inr pt) sk)"
  show ?thesis
  proof (cases "Decryptor_finish A dec")
    case (Inl e)
    with emit_effect [of "Decryptor_finish A dec" ?sk] obtain sk' where
      "emit_decrypt_result (Inl e) ?sk = (False, sk')" "failed ?sk e sk'" by auto
    then show ?thesis using assms p Inl sent_failed [OF emit_Inr] by (auto simp: multipart_feed_full read_entry_def)
  next
    case (Inr fin)
    with emit_effect [of "Decryptor_finish A dec" ?sk] obtain sk' where
      "emit_decrypt_result (Inr fin) ?sk = (True, sk')" "sent ?sk fin sk'" by auto
    then show ?thesis using assms p Inr sent_trans [OF emit_Inr]
      by (auto simp: multipart_feed_full read_entry_def intro!: exI [of _ dec] exI [of _ sk'])
  qed
qed

lemma multipart_feed_outcome:
  "mc_ok c \<Longrightarrow> feed_outcome mc_abs mc_ok (\<lambda>r. r = None)
     (reader_step (Decryptor_push A) (Decryptor_finish A) (mc_abs c) data) sk (MultipartCursor_feed A c data sk)"
proof (induction "length (mc_spans c)" arbitrary: c data sk rule: less_induct)
  case less
  consider "data = []" | "data \<noteq> []" "length data < mc_left c" | (full) "data \<noteq> []" "mc_left c \<le> length data"
    by linarith
  then show ?case
  proof cases
    case 1
    then show ?thesis using less.prems by (simp add: feed_outcome_def MultipartCursor_feed.simps mc_abs_def sink_simps)
  next
    case 2
    then show ?thesis by (rule multipart_feed_outcome_short [OF less.prems])
  next
    case full
    let ?E = "read_entry (Decryptor_push A) (Decryptor_finish A) (mc_dec c) (take (mc_left c) data)"
    note entry = multipart_feed_entry [OF less.prems full, of A sk]
    show ?thesis
    proof (cases ?E)
      case (Inl e)
      with entry full show ?thesis by (auto simp: mc_abs_def read_step_full feed_outcome_def)
    next
      case (Inr out)
      with entry obtain d sk' where s: "sent sk out sk'" and f: "MultipartCursor_feed A c data sk =
         (case next_span (c\<lparr> mc_consumed_ct := ps_ct_len (mc_span c), mc_dec := d \<rparr>) of
            None \<Rightarrow> (None, sk') | Some c'' \<Rightarrow> MultipartCursor_feed A c'' (drop (mc_left c) data) sk')" by auto
      show ?thesis
      proof (cases "mc_spans c")
        case Nil
        then show ?thesis using Inr f s full
          by (simp add: mc_abs_def read_step_full span_entries_def next_span_def feed_outcome_def)
      next
        case (Cons sp sps)
        from mc_abs_next [OF less.prems Cons] obtain c' where c': "mc_ok c'" "mc_spans c' = sps"
          "next_span (c\<lparr> mc_consumed_ct := ps_ct_len (mc_span c), mc_dec := d \<rparr>) = Some c'"
          "mc_abs c' = Reading (part_dec (mc_alg c) (mc_dek c) (mc_chunk_size c) (ps_number sp)) (unat (ps_ct_len sp))
             (span_entries (mc_alg c) (mc_dek c) (mc_chunk_size c) sps)" by metis
        from less.hyps [OF _ c'(1), of "drop (mc_left c) data" sk'] Cons c'(2)
        have "feed_outcome mc_abs mc_ok (\<lambda>r. r = None)
          (reader_step (Decryptor_push A) (Decryptor_finish A) (mc_abs c') (drop (mc_left c) data)) sk'
          (MultipartCursor_feed A c' (drop (mc_left c) data) sk')" by simp
        from feed_outcome_prepend [OF s this] show ?thesis using Inr f full Cons c'(3,4)
          by (simp add: mc_abs_def [of c] read_step_full span_entries_def)
      qed
    qed
  qed
qed

text \<open>The outcome of a whole stream against the abstract reader on all of its bytes.\<close>

definition read_outcome :: "error + ('d reader \<times> bytes) \<Rightarrow> sink \<Rightarrow> sink \<Rightarrow> bool" where
  "read_outcome st sk sk' \<longleftrightarrow>
     (case st of
        Inl e \<Rightarrow> failed sk e sk'
      | Inr (s', out) \<Rightarrow> if s' = Finished then sent sk out sk' else \<exists>m. broke sk m sk')"

lemma read_outcome_prepend:
  "sent sk out sk' \<Longrightarrow> read_outcome st sk' sk'' \<Longrightarrow> read_outcome (prepend out st) sk sk''"
  by (auto simp: read_outcome_def prepend_def rbind_def dest: sent_failed sent_trans sent_broke
      split: sum.splits if_splits)

text \<open>One frame at a time: after a \<open>feed\<close> that did not stop, the rest of the stream decides.\<close>

lemma read_outcome_feed:
  assumes f: "feed_outcome absf okf stopped (reader_step push finish s data) sk (r, sk')"
    and app: "\<And>s' out. reader_step push finish s data = Inr (s', out) \<Longrightarrow>
       reader_step push finish s (data @ rest) = prepend out (reader_step push finish s' rest)"
    and err: "\<And>e. reader_step push finish s data = Inl e \<Longrightarrow> reader_step push finish s (data @ rest) = Inl e"
    and fin: "stopped r \<Longrightarrow> sk'' = sk'" and bad: "r = None \<Longrightarrow> sk'' = sk'"
    and go: "\<And>c'. r = Some c' \<Longrightarrow> okf c' \<Longrightarrow> read_outcome (reader_step push finish (absf c') rest) sk' sk''"
  shows "read_outcome (reader_step push finish s (data @ rest)) sk sk''"
proof (cases "reader_step push finish s data")
  case (Inl e)
  with f err bad show ?thesis by (auto simp: feed_outcome_def read_outcome_def)
next
  case (Inr p)
  then obtain s' out where p: "reader_step push finish s data = Inr (s', out)" by (cases p) auto
  have "sent sk out sk'" using f p by (simp add: feed_outcome_def)
  moreover have "read_outcome (reader_step push finish s' rest) sk' sk''"
  proof (cases "s' = Finished")
    case True
    then show ?thesis using f p fin by (simp add: feed_outcome_def read_outcome_def sink_simps)
  next
    case False
    then show ?thesis using f p go by (auto simp: feed_outcome_def)
  qed
  ultimately show ?thesis using app [OF p] read_outcome_prepend by metis
qed

lemma decrypting_multipart_loop_outcome:
  "mc_ok c \<Longrightarrow> read_outcome (reader_step (Decryptor_push A) (Decryptor_finish A) (mc_abs c) (body_data fs)) sk
     (decrypting_multipart_loop A c fs fin sk)"
proof (induction fs arbitrary: c sk)
  case Nil
  then have "ended_early c" by (auto simp: ended_early_def mc_ok_def)
  then show ?case by (auto simp: read_outcome_def mc_abs_def intro: sent_intros split: option.splits)
next
  case (Cons f fs)
  show ?case
  proof (cases f)
    case TrailersFrame
    with Cons show ?thesis by simp
  next
    case (DataFrame data)
    obtain r sk' where r: "MultipartCursor_feed A c data sk = (r, sk')" by fastforce
    from multipart_feed_outcome [OF Cons.prems, of A data sk] r
    have "feed_outcome mc_abs mc_ok (\<lambda>r. r = None) (reader_step (Decryptor_push A) (Decryptor_finish A) (mc_abs c) data) sk (r, sk')"
      by simp
    from read_outcome_feed [OF this whole.reader.step_append whole.reader.step_error] show ?thesis
      using r DataFrame Cons.IH by (cases r) auto
  qed
qed

subsection \<open>Ranges of multipart objects\<close>

definition entry_dec :: "alg \<Rightarrow> bytes \<Rightarrow> nat \<Rightarrow> part_span \<times> range_plan \<Rightarrow> ranged" where
  "entry_dec alg dek n = (\<lambda>(sp, pl).
     (\<lparr> d_alg = alg, d_key = dek, d_part_number = ps_number sp, d_chunk_size = n, d_chunk_index = first_chunk pl,
        d_buf = [], d_final_frame_is_object_end = (last_chunk pl + 1 = n_chunks (ps_pt_len sp) (word_of_nat n)) \<rparr>,
      trim_start pl, trim_end pl))"

definition plan_entries :: "alg \<Rightarrow> bytes \<Rightarrow> nat \<Rightarrow> (part_span \<times> range_plan) list \<Rightarrow> (ranged \<times> nat) list" where
  "plan_entries alg dek n = map (\<lambda>e. (entry_dec alg dek n e, unat (ct_end (snd e) - ct_start (snd e))))"

definition rc_abs :: "range_cursor \<Rightarrow> ranged reader" where
  "rc_abs c = (case rc_dec c of
     None \<Rightarrow> Finished
   | Some d \<Rightarrow> Reading (d, rc_to_drop c, rc_trim_end c) (unat (rc_remaining c))
       (plan_entries (rc_alg c) (rc_dek c) (rc_chunk_size c) (rc_entries c)))"

definition rc_ok :: "range_cursor \<Rightarrow> bool" where
  "rc_ok c \<longleftrightarrow> 0 < rc_chunk_size c \<and> (rc_dec c \<noteq> None \<longrightarrow> 0 < rc_remaining c) \<and>
     (\<forall>(sp, pl) \<in> set (rc_entries c). 0 < ct_end pl - ct_start pl)"

lemma RangeCursor_feed_Nil [simp]: "RangeCursor_feed A c [] sk = (Some c, sk)"
  by (simp add: RangeCursor_feed.simps)

lemma range_feed_finished [simp]: "rc_dec c = None \<Longrightarrow> RangeCursor_feed A c data sk = (Some c, sk)"
  by (simp add: RangeCursor_feed.simps)

lemma range_feed_outcome_short:
  assumes "rc_ok c" "rc_dec c = Some d" "data \<noteq> []" "length data < unat (rc_remaining c)"
  shows "feed_outcome rc_abs rc_ok (\<lambda>r. \<exists>c'. r = Some c' \<and> rc_dec c' = None)
     (reader_step (range_push A) (range_finish A) (rc_abs c) data) sk (RangeCursor_feed A c data sk)"
proof -
  let ?p = "range_push A (d, rc_to_drop c, rc_trim_end c) data"
  have t: "take_up_to data (rc_remaining c) = (data, [])" using assms(4) by (simp add: take_up_to_def Let_def)
  have u: "unat (rc_remaining c - word_of_nat (length data)) = unat (rc_remaining c) - length data"
    using consume_short [of 0 "rc_remaining c" "length data"] assms(1,2,4) by (auto simp: rc_ok_def)
  have w: "0 < rc_remaining c - word_of_nat (length data)"
    using u assms(4) by (simp add: word_less_nat_alt)
  note eff = push_range_frame_effect [of A d data "rc_to_drop c" sk "rc_trim_end c"]
  show ?thesis
  proof (cases ?p)
    case (Inl e)
    with eff assms t show ?thesis
      by (auto simp: RangeCursor_feed.simps rc_abs_def read_step_short feed_outcome_def Let_def)
  next
    case (Inr q)
    obtain d' td' out where q: "q = ((d', td', rc_trim_end c), out)" using eff Inr by (cases q) auto
    with eff Inr obtain sk' where sk': "push_range_frame A d data (rc_to_drop c) sk = (Some (d', td'), sk')" "sent sk out sk'"
      by auto
    let ?c = "c\<lparr> rc_remaining := rc_remaining c - word_of_nat (length data), rc_to_drop := td', rc_dec := Some d' \<rparr>"
    have "RangeCursor_feed A c data sk = (Some ?c, sk')"
      using assms(2,3) sk'(1) t w by (simp add: RangeCursor_feed.simps [of A c] Let_def)
    moreover have "rc_ok ?c" using assms(1) w by (simp add: rc_ok_def)
    moreover have "rc_abs ?c = Reading (d', td', rc_trim_end c) (unat (rc_remaining c) - length data)
        (plan_entries (rc_alg c) (rc_dek c) (rc_chunk_size c) (rc_entries c))" using u by (simp add: rc_abs_def)
    ultimately show ?thesis using assms Inr q sk'(2)
      by (simp add: rc_abs_def [of c] read_step_short feed_outcome_def)
  qed
qed

lemma range_feed_entry:
  assumes "rc_dec c = Some d" "data \<noteq> []" "unat (rc_remaining c) \<le> length data"
  defines "n \<equiv> unat (rc_remaining c)"
  shows "case read_entry (range_push A) (range_finish A) (d, rc_to_drop c, rc_trim_end c) (take n data) of
     Inl e \<Rightarrow> \<exists>sk'. RangeCursor_feed A c data sk = (None, sk') \<and> failed sk e sk'
   | Inr out \<Rightarrow> \<exists>td sk'. sent sk out sk' \<and> RangeCursor_feed A c data sk =
       (let c' = c\<lparr> rc_dec := None, rc_remaining := 0, rc_to_drop := td \<rparr> in
        case rc_entries c of
          [] \<Rightarrow> (Some c', sk')
        | (span, plan) # entries \<Rightarrow>
            (case RangeCursor_start (c'\<lparr> rc_entries := entries \<rparr>) span plan of
               None \<Rightarrow> (None, sk')
             | Some c'' \<Rightarrow> RangeCursor_feed A c'' (drop n data) sk'))"
proof -
  have t: "take_up_to data (rc_remaining c) = (take n data, drop n data)"
    using assms(3) by (simp add: take_up_to_def Let_def n_def min_absorb2)
  have z: "rc_remaining c - word_of_nat (length (take n data)) = 0" using assms(3) by (simp add: n_def min_absorb2)
  note eff = push_range_frame_effect [of A d "take n data" "rc_to_drop c" sk "rc_trim_end c"]
  show ?thesis
  proof (cases "range_push A (d, rc_to_drop c, rc_trim_end c) (take n data)")
    case (Inl e)
    with eff assms(1,2) t show ?thesis by (auto simp: RangeCursor_feed.simps read_entry_def Let_def)
  next
    case (Inr q)
    obtain d' td' out where q: "q = ((d', td', rc_trim_end c), out)" using eff Inr by (cases q) auto
    with eff Inr obtain sk1 where sk1: "push_range_frame A d (take n data) (rc_to_drop c) sk = (Some (d', td'), sk1)"
      "sent sk out sk1" by auto
    have unf: "RangeCursor_feed A c data sk =
       (case finish_range A d' td' (rc_trim_end c) sk1 of
          (False, sk) \<Rightarrow> (None, sk)
        | (True, sk) \<Rightarrow>
           (let c' = c\<lparr> rc_dec := None, rc_remaining := 0, rc_to_drop := td' \<rparr> in
            case rc_entries c of
              [] \<Rightarrow> (Some c', sk)
            | (span, plan) # entries \<Rightarrow>
                (case RangeCursor_start (c'\<lparr> rc_entries := entries \<rparr>) span plan of
                   None \<Rightarrow> (None, sk)
                 | Some c'' \<Rightarrow> RangeCursor_feed A c'' (drop n data) sk)))"
      using assms(1,2) t z sk1(1) by (subst RangeCursor_feed.simps) (simp add: Let_def split: prod.splits bool.splits list.splits)
    show ?thesis
    proof (cases "range_finish A (d', td', rc_trim_end c)")
      case (Inl e)
      with finish_range_effect [of A d' td' "rc_trim_end c" sk1] obtain sk2 where
        "finish_range A d' td' (rc_trim_end c) sk1 = (False, sk2)" "failed sk1 e sk2" by auto
      then show ?thesis using unf Inr q Inl sent_failed [OF sk1(2)] by (auto simp: read_entry_def)
    next
      case fin: (Inr o2)
      with finish_range_effect [of A d' td' "rc_trim_end c" sk1] obtain sk2 where
        "finish_range A d' td' (rc_trim_end c) sk1 = (True, sk2)" "sent sk1 o2 sk2" by auto
      then show ?thesis using unf Inr q fin sent_trans [OF sk1(2)]
        by (auto simp: read_entry_def intro!: exI [of _ td'] exI [of _ sk2])
    qed
  qed
qed

lemma rc_abs_start:
  assumes "rc_ok c" "rc_entries c = (sp, pl) # es"
  obtains c' where "RangeCursor_start (c\<lparr> rc_dec := None, rc_remaining := 0, rc_to_drop := td, rc_entries := es \<rparr>) sp pl = Some c'"
    "rc_ok c'" "rc_entries c' = es"
    "rc_abs c' = Reading (entry_dec (rc_alg c) (rc_dek c) (rc_chunk_size c) (sp, pl)) (unat (ct_end pl - ct_start pl))
       (plan_entries (rc_alg c) (rc_dek c) (rc_chunk_size c) es)"
  using assms that
  by (auto simp: RangeCursor_start_def Decryptor_new_at_def rc_ok_def rc_abs_def entry_dec_def)

lemma range_feed_outcome:
  "rc_ok c \<Longrightarrow> feed_outcome rc_abs rc_ok (\<lambda>r. \<exists>c'. r = Some c' \<and> rc_dec c' = None)
     (reader_step (range_push A) (range_finish A) (rc_abs c) data) sk (RangeCursor_feed A c data sk)"
proof (induction "length (rc_entries c)" arbitrary: c data sk rule: less_induct)
  case less
  consider "data = [] \<or> rc_dec c = None"
    | (short) d where "data \<noteq> []" "rc_dec c = Some d" "length data < unat (rc_remaining c)"
    | (full) d where "rc_dec c = Some d" "data \<noteq> []" "unat (rc_remaining c) \<le> length data"
    by (cases "rc_dec c") (auto simp: not_less [symmetric])
  then show ?case
  proof cases
    case 1
    then show ?thesis using less.prems by (cases "rc_dec c") (auto simp: feed_outcome_def rc_abs_def sink_simps)
  next
    case (short d)
    then show ?thesis by (intro range_feed_outcome_short [OF less.prems])
  next
    case (full d)
    note entry = range_feed_entry [OF full, of A sk]
    show ?thesis
    proof (cases "read_entry (range_push A) (range_finish A) (d, rc_to_drop c, rc_trim_end c) (take (unat (rc_remaining c)) data)")
      case (Inl e)
      with entry full show ?thesis by (auto simp: rc_abs_def read_step_full feed_outcome_def)
    next
      case (Inr out)
      with entry obtain td sk' where s: "sent sk out sk'" and f: "RangeCursor_feed A c data sk =
         (let c' = c\<lparr> rc_dec := None, rc_remaining := 0, rc_to_drop := td \<rparr> in
          case rc_entries c of
            [] \<Rightarrow> (Some c', sk')
          | (span, plan) # entries \<Rightarrow>
              (case RangeCursor_start (c'\<lparr> rc_entries := entries \<rparr>) span plan of
                 None \<Rightarrow> (None, sk')
               | Some c'' \<Rightarrow> RangeCursor_feed A c'' (drop (unat (rc_remaining c)) data) sk'))" by auto
      show ?thesis
      proof (cases "rc_entries c")
        case Nil
        then show ?thesis using Inr f s full
          by (simp add: rc_abs_def read_step_full plan_entries_def feed_outcome_def)
      next
        case (Cons e es)
        obtain sp pl where e: "e = (sp, pl)" by (cases e)
        from rc_abs_start [OF less.prems Cons [unfolded e], of td] obtain c' where
          c': "RangeCursor_start (c\<lparr> rc_dec := None, rc_remaining := 0, rc_to_drop := td, rc_entries := es \<rparr>) sp pl = Some c'"
          "rc_ok c'" "rc_entries c' = es"
          "rc_abs c' = Reading (entry_dec (rc_alg c) (rc_dek c) (rc_chunk_size c) (sp, pl)) (unat (ct_end pl - ct_start pl))
             (plan_entries (rc_alg c) (rc_dek c) (rc_chunk_size c) es)" by metis
        from less.hyps [OF _ c'(2), of "drop (unat (rc_remaining c)) data" sk'] Cons c'(3)
        have "feed_outcome rc_abs rc_ok (\<lambda>r. \<exists>c'. r = Some c' \<and> rc_dec c' = None)
          (reader_step (range_push A) (range_finish A) (rc_abs c') (drop (unat (rc_remaining c)) data)) sk'
          (RangeCursor_feed A c' (drop (unat (rc_remaining c)) data) sk')" by simp
        from feed_outcome_prepend [OF s this] show ?thesis using Inr f full Cons e c'(1,4)
          by (simp add: rc_abs_def [of c] read_step_full plan_entries_def)
      qed
    qed
  qed
qed

lemma range_loop_done: "rc_dec c = None \<Longrightarrow> decrypting_multipart_range_loop A c fs fin sk = sk"
  by (induction fs rule: raw_pieces.induct) (auto simp: RangeCursor_is_done_def split: option.splits)

lemma decrypting_multipart_range_loop_outcome:
  "rc_ok c \<Longrightarrow> read_outcome (reader_step (range_push A) (range_finish A) (rc_abs c) (body_data fs)) sk
     (decrypting_multipart_range_loop A c fs fin sk)"
proof (induction fs arbitrary: c sk)
  case Nil
  then show ?case
    by (cases "rc_dec c") (auto simp: read_outcome_def rc_abs_def RangeCursor_is_done_def intro: sent_intros split: option.splits)
next
  case (Cons f fs)
  show ?case
  proof (cases f)
    case TrailersFrame
    with Cons show ?thesis by simp
  next
    case (DataFrame data)
    show ?thesis
    proof (cases "rc_dec c")
      case None
      then show ?thesis using range_loop_done [of c] by (simp add: rc_abs_def read_outcome_def sink_simps)
    next
      case (Some d)
      obtain r sk' where r: "RangeCursor_feed A c data sk = (r, sk')" by fastforce
      from range_feed_outcome [OF Cons.prems, of A data sk] r
      have "feed_outcome rc_abs rc_ok (\<lambda>r. \<exists>c'. r = Some c' \<and> rc_dec c' = None)
        (reader_step (range_push A) (range_finish A) (rc_abs c) data) sk (r, sk')" by simp
      from read_outcome_feed [OF this ranged.reader.step_append ranged.reader.step_error] show ?thesis
        using r DataFrame Some Cons.IH by (cases r) (auto simp: range_loop_done RangeCursor_is_done_def)
    qed
  qed
qed

section \<open>Released bytes\<close>

text \<open>Whatever ends a whole-object read, the bytes sent before are the output of a prefix of the pieces.\<close>

lemma decrypting_loop_released:
  "sk_err (decrypting_loop A dec fs fin sk) = sk_err sk \<or>
   (\<exists>j d' rel. run_stream (Decryptor_push A) dec (take j (raw_pieces fs)) = Inr (d', rel) \<and>
      sk_data (decrypting_loop A dec fs fin sk) = sk_data sk @ rel)"
proof (induction A dec fs fin sk rule: decrypting_loop.induct)
  case (1 A dec fin sk)
  then show ?case
    by (auto simp: send_data_def decrypt_failed_def send_err_def note_chunk_verify_failure_def sk_data_def
        split: option.splits sum.splits)
next
  case (3 A dec data fs fin sk)
  show ?case
  proof (cases "Decryptor_push A dec data")
    case (Inl e)
    then show ?thesis
      by (intro disjI2 exI [of _ 0]) (simp add: decrypt_failed_def send_err_def note_chunk_verify_failure_def sk_data_def)
  next
    case (Inr p)
    then obtain dec' pt where p: "Decryptor_push A dec data = Inr (dec', pt)" by (cases p) auto
    let ?sk = "if pt = [] then sk else send_data pt sk"
    have s: "sent sk pt ?sk" by (rule sent_if)
    from "3.IH" [OF p refl] show ?thesis
    proof (elim disjE exE conjE)
      fix j d' rel
      assume "run_stream (Decryptor_push A) dec' (take j (raw_pieces fs)) = Inr (d', rel)"
        "sk_data (decrypting_loop A dec' fs fin ?sk) = sk_data ?sk @ rel"
      with p s show ?thesis
        by (intro disjI2 exI [of _ "Suc j"] exI [of _ d'] exI [of _ "pt @ rel"]) (simp add: sent_def)
    qed (use p s in \<open>simp add: sent_def\<close>)
  qed
qed simp

lemma run_push_released:
  assumes "aead_tidy A" "d_buf d = []" "run_stream (Decryptor_push A) d (take j (raw_pieces fs)) = Inr (d', rel)"
  shows "\<exists>cs g rest. rel = concat cs \<and>
    body_data fs = concat (fst (seal_chunks A g (d_alg d) (d_key d) (d_part_number d) False (d_chunk_index d) cs)) @ rest"
proof -
  have "body_data fs = concat (take j (raw_pieces fs)) @ concat (drop j (raw_pieces fs))"
    by (metis append_take_drop_id concat_append concat_raw_pieces)
  moreover have "\<exists>d'. Decryptor_push A d (concat (take j (raw_pieces fs))) = Inr (d', rel)"
  proof (cases "take j (raw_pieces fs) = []")
    case True
    with assms(2,3) show ?thesis by (auto simp: Decryptor_push_Nil)
  next
    case False
    with dec.run_stream_eq_step [OF False, of A d] assms(3) show ?thesis by metis
  qed
  then obtain d'' where "dec_loop A (d\<lparr> d_buf := concat (take j (raw_pieces fs)) \<rparr>) = Inr (d'', rel)"
    using assms(2) by (auto simp: Decryptor_push_def)
  from dec_loop_released [OF assms(1) this] obtain cs g where
    "rel = concat cs" "concat (take j (raw_pieces fs)) = concat (fst (seal_chunks A g (d_alg d) (d_key d)
       (d_part_number d) False (d_chunk_index d) cs)) @ d_buf d''" by auto
  ultimately show ?thesis by (metis append.assoc)
qed

lemma run_push_fresh:
  "d_buf d = [] \<Longrightarrow> run_stream (Decryptor_push A) d (raw_pieces fs) = Decryptor_push A d (body_data fs)"
  using dec.run_stream_eq_step [of "raw_pieces fs" A d]
  by (cases "raw_pieces fs = []") (auto simp: Decryptor_push_Nil concat_raw_pieces [symmetric] simp del: concat_raw_pieces)

lemma decrypt_all_entry:
  "0 < n \<Longrightarrow> decrypt_all A alg key p n ct = Some (read_entry (Decryptor_push A) (Decryptor_finish A) (part_dec alg key n p) ct)"
  by (simp add: decrypt_all_def Decryptor_new_Some read_entry_def)

lemma whole_object_outcome:
  assumes "0 < n" "decrypting A (fs, fin) alg dek n part counter = sk"
  shows "case fin of
      None \<Rightarrow>
        (case decrypt_all A alg dek part n (body_data fs) of
           Some (Inr pt) \<Rightarrow> sent (open_sink counter) pt sk
         | Some (Inl e) \<Rightarrow> failed (open_sink counter) e sk
         | None \<Rightarrow> False)
    | Some m \<Rightarrow> sk_err sk \<noteq> None"
proof -
  let ?d = "part_dec alg dek n part"
  have sk: "sk = decrypting_loop A ?d fs fin (open_sink counter)"
    using assms by (simp add: decrypting_def Decryptor_new_Some)
  have "d_buf ?d = []" by (simp add: part_dec_def)
  from decrypting_loop_outcome [of A ?d fs fin "open_sink counter", unfolded run_push_fresh [OF this], folded sk] assms(1)
  show ?thesis
    by (auto simp: stream_outcome_def decrypt_all_entry read_entry_def rbind_def failed_def broke_def
        split: option.splits sum.splits)
qed

section \<open>References for multipart objects\<close>

fun decrypt_parts :: "aead \<Rightarrow> alg \<Rightarrow> bytes \<Rightarrow> nat \<Rightarrow> part_span list \<Rightarrow> bytes \<Rightarrow> bytes option" where
  "decrypt_parts A alg dek n [] data = Some []"
| "decrypt_parts A alg dek n (sp # sps) data =
     (let len = unat (ps_ct_len sp) in
      if length data < len then None
      else case decrypt_all A alg dek (ps_number sp) n (take len data) of
        Some (Inr pt) \<Rightarrow> map_option (\<lambda>rest. pt @ rest) (decrypt_parts A alg dek n sps (drop len data))
      | _ \<Rightarrow> None)"

lemma decrypt_parts_eq:
  "0 < n \<Longrightarrow> decrypt_parts A alg dek n sps data =
     read_entries (Decryptor_push A) (Decryptor_finish A) (span_entries alg dek n sps) data"
  by (induction sps arbitrary: data)
    (auto simp: span_entries_def Let_def decrypt_all_entry split: sum.splits)

lemma decrypt_parts_encrypted:
  assumes "aead_correct A" "encrypted_parts A alg dek c ps cts" "0 < c"
  shows "length (concat cts) < 2 ^ 64 \<Longrightarrow>
    decrypt_parts A alg dek (unat c) (layout_from alg c po co (sizes ps)) (concat cts @ rest) = Some (concat (map snd ps))"
  using assms(2) unfolding encrypted_parts_def
proof (induction ps cts arbitrary: po co rule: list_all2_induct)
  case (Cons p ps ct cts)
  obtain m pt where p: "p = (m, pt)" by (cases p)
  obtain g g' where e: "encrypt_all A g alg dek m (unat c) pt = Some (ct, g')" using Cons.hyps(1) p by auto
  have ct: "length ct = ciphertext_len_spec alg (length pt) (unat c)" by (rule length_encrypt_all [OF assms(1) e])
  then have pt: "length pt \<le> length ct" by (simp add: ciphertext_len_spec_def)
  then have L: "unat (word_of_nat (length pt) :: u64) = length pt" using Cons.prems by (simp add: unat_u64_of_nat)
  have "unat (ciphertext_len alg (word_of_nat (length pt)) c) = length ct"
    using unat_ciphertext_len [OF assms(3), of alg "word_of_nat (length pt)"] L ct Cons.prems by simp
  then show ?case using Cons.IH Cons.prems p decrypt_encrypt_all [OF assms(1) e] by (simp add: Let_def)
qed simp

lemma decrypting_multipart_outcome:
  assumes "0 < n" "\<forall>sp \<in> set spans. 0 < ps_ct_len sp"
    and sk: "decrypting_multipart A (fs, fin) alg dek n spans counter = sk"
  shows "case decrypt_parts A alg dek n spans (body_data fs) of
     Some pt \<Rightarrow> sent (open_sink counter) pt sk
   | None \<Rightarrow> sk_err sk \<noteq> None \<and> sk_failures sk \<in> {counter, map_option (\<lambda>c. c + 1) counter}"
proof (cases spans)
  case Nil
  with sk show ?thesis by (auto simp: decrypting_multipart_def MultipartCursor_new_def sink_simps)
next
  case (Cons sp sps)
  let ?c = "\<lparr> mc_alg = alg, mc_dek = dek, mc_chunk_size = n, mc_spans = sps, mc_span = sp,
     mc_dec = part_dec alg dek n (ps_number sp), mc_consumed_ct = 0 \<rparr>"
  let ?st = "read_step (Decryptor_push A) (Decryptor_finish A) (part_dec alg dek n (ps_number sp)) (unat (ps_ct_len sp))
      (span_entries alg dek n sps) (body_data fs)"
  have "mc_ok ?c" using assms(1,2) Cons by (simp add: mc_ok_def)
  from decrypting_multipart_loop_outcome [OF this, of A fs "open_sink counter" fin] sk assms(1) Cons
  have out: "read_outcome ?st (open_sink counter) sk"
    by (simp add: decrypting_multipart_def MultipartCursor_new_def Decryptor_new_Some mc_abs_def mc_left_def)
  have pos: "0 < unat (ps_ct_len sp)" "\<forall>e \<in> set (span_entries alg dek n sps). 0 < snd e"
    using assms(2) Cons by (auto simp: span_entries_def word_less_nat_alt)
  have ref: "?st = Inr (Finished, pt) \<longleftrightarrow> decrypt_parts A alg dek n spans (body_data fs) = Some pt" for pt
    unfolding read_step_Finished_iff [OF pos] decrypt_parts_eq [OF assms(1)] Cons by (simp add: span_entries_def)
  show ?thesis
  proof (cases "decrypt_parts A alg dek n spans (body_data fs)")
    case (Some pt)
    with ref [of pt] out show ?thesis by (simp add: read_outcome_def)
  next
    case None
    with ref have "?st \<noteq> Inr (Finished, pt)" for pt by simp
    with out None show ?thesis
      by (auto simp: read_outcome_def failed_def broke_def split: sum.splits if_splits)
  qed
qed

section \<open>Ranged reads of encrypted objects\<close>

lemma read_span_eq:
  "0 < c \<Longrightarrow> read_span A alg dek c obj e =
     Some (read_entry (range_push A) (range_finish A) (entry_dec alg dek (unat c) e) (entry_slice obj e))"
proof -
  assume "0 < c"
  then have c: "0 < unat c" by (simp add: word_less_nat_alt)
  obtain sp pl where e: "e = (sp, pl)" by (cases e)
  obtain d where t: "entry_dec alg dek (unat c) (sp, pl) = (d, trim_start pl, trim_end pl)"
    and d: "Decryptor_new_at alg dek (ps_number sp) (unat c) (first_chunk pl)
      (last_chunk pl + 1 = n_chunks (ps_pt_len sp) c) = Some d"
    using c by (simp add: Decryptor_new_at_def entry_dec_def)
  have s: "entry_slice obj (sp, pl) = subrange (unat (ps_ct_start sp) + unat (ct_start pl))
      (unat (ps_ct_start sp) + unat (ct_end pl)) obj" by (simp add: entry_slice_def entry_lo_def entry_hi_def)
  show ?thesis
    by (cases "Decryptor_push A d (entry_slice obj (sp, pl))")
      (auto simp: e t d read_span_def s [symmetric] read_entry_def range_push_def range_finish_def rbind_def split: sum.splits)
qed

lemma read_span_entry:
  "read_span A alg dek c obj e = Some (Inr out) \<Longrightarrow> 0 < c \<Longrightarrow>
     read_entry (range_push A) (range_finish A) (entry_dec alg dek (unat c) e) (entry_slice obj e) = Inr out"
  by (simp add: read_span_eq)

lemma length_entry_slice:
  assumes "ct_start (snd e) < ct_end (snd e)" "entry_hi e \<le> length obj"
  shows "length (entry_slice obj e) = unat (ct_end (snd e) - ct_start (snd e))"
  using assms by (simp add: entry_slice_def subrange_def entry_lo_def entry_hi_def unat_u64_sub word_less_nat_alt)

lemma read_plan_entries:
  assumes "map (read_span A alg dek c obj) plans = map (\<lambda>out. Some (Inr out)) outs"
    and "\<forall>e \<in> set plans. ct_start (snd e) < ct_end (snd e) \<and> entry_hi e \<le> length obj" and c: "0 < c"
  shows "read_entries (range_push A) (range_finish A) (plan_entries alg dek (unat c) plans)
    (concat (map (entry_slice obj) plans) @ extra) = Some (concat outs)"
  using assms(1,2)
proof (induction plans arbitrary: outs)
  case (Cons e plans)
  then obtain out outs' where o: "outs = out # outs'" "read_span A alg dek c obj e = Some (Inr out)"
    "map (read_span A alg dek c obj) plans = map (\<lambda>out. Some (Inr out)) outs'" by (cases outs) auto
  have "length (entry_slice obj e) = unat (ct_end (snd e) - ct_start (snd e))"
    using Cons.prems(2) by (intro length_entry_slice) auto
  with Cons.IH [OF o(3)] Cons.prems(2) read_span_entry [OF o(2) c] o(1) show ?case by (simp add: plan_entries_def)
qed (simp add: plan_entries_def)

lemma decrypting_multipart_range_outcome:
  assumes "0 < n" "plans \<noteq> []" "\<forall>e \<in> set plans. ct_start (snd e) < ct_end (snd e)"
    and "read_entries (range_push A) (range_finish A) (plan_entries alg dek n plans) (body_data fs) = Some out"
  shows "sent (open_sink counter) out (decrypting_multipart_range A (fs, fin) alg dek n plans counter)"
proof -
  obtain sp pl es where plans: "plans = (sp, pl) # es" using assms(2) by (cases plans) auto
  let ?c = "\<lparr> rc_alg = alg, rc_dek = dek, rc_chunk_size = n, rc_entries = es, rc_dec = None, rc_remaining = 0,
     rc_to_drop = 0, rc_trim_end = 0 \<rparr>"
  have pos: "0 < ct_end (snd e) - ct_start (snd e)" if "e \<in> set plans" for e
    using assms(3) that by (auto simp: word_less_nat_alt unat_u64_sub)
  obtain c where c: "RangeCursor_new alg dek n plans = Some c" "rc_ok c"
    "rc_abs c = Reading (entry_dec alg dek n (sp, pl)) (unat (ct_end pl - ct_start pl)) (plan_entries alg dek n es)"
  proof (rule that)
    show "RangeCursor_new alg dek n plans = Some (?c\<lparr> rc_dec := Some (fst (entry_dec alg dek n (sp, pl))),
        rc_remaining := ct_end pl - ct_start pl, rc_to_drop := trim_start pl, rc_trim_end := trim_end pl \<rparr>)" (is "_ = Some ?c'")
      using assms(1) plans by (simp add: RangeCursor_new_def RangeCursor_start_def Decryptor_new_at_def entry_dec_def)
    have "\<forall>e \<in> set es. 0 < ct_end (snd e) - ct_start (snd e)" using pos plans by simp
    then show "rc_ok ?c'" using assms(1) pos [of "(sp, pl)"] plans by (simp add: rc_ok_def case_prod_beta)
    show "rc_abs ?c' = Reading (entry_dec alg dek n (sp, pl)) (unat (ct_end pl - ct_start pl)) (plan_entries alg dek n es)"
      by (simp add: rc_abs_def entry_dec_def)
  qed
  have p1: "0 < unat (ct_end pl - ct_start pl)" using pos [of "(sp, pl)"] plans by (simp add: word_less_nat_alt)
  have "\<forall>e \<in> set es. 0 < unat (ct_end (snd e) - ct_start (snd e))" using pos plans by (simp add: word_less_nat_alt)
  then have p2: "\<forall>e \<in> set (plan_entries alg dek n es). 0 < snd e" by (simp add: plan_entries_def)
  have "read_step (range_push A) (range_finish A) (entry_dec alg dek n (sp, pl)) (unat (ct_end pl - ct_start pl))
      (plan_entries alg dek n es) (body_data fs) = Inr (Finished, out)"
    unfolding read_step_Finished_iff [OF p1 p2] using assms(4) plans by (simp add: plan_entries_def)
  with decrypting_multipart_range_loop_outcome [OF c(2), of A fs "open_sink counter" fin] c(1,3) show ?thesis
    by (simp add: decrypting_multipart_range_def read_outcome_def)
qed

lemma range_entry_reads:
  assumes "aead_correct A" "encrypt_all A g alg key p (unat c) pt = Some (ct, g')"
    and "length pt < 2 ^ 64" "fits alg (word_of_nat (length pt)) c"
    and "plan_range alg (word_of_nat (length pt)) c start stop = Inr pl" "start < stop"
    and d: "Decryptor_new_at alg key p (unat c) (first_chunk pl)
              (last_chunk pl + 1 = n_chunks (word_of_nat (length pt)) c) = Some d"
  shows "read_entry (range_push A) (range_finish A) (d, trim_start pl, trim_end pl)
    (subrange (unat (ct_start pl)) (unat (ct_end pl)) ct) = Inr (subrange (unat start) (unat stop) pt)"
proof -
  have "d_buf d = []" using d by (auto simp: Decryptor_new_at_def split: if_splits)
  then show ?thesis using ranged_decrypt_parts [OF assms]
    by (auto simp: read_entry_def range_push_def range_finish_def Decryptor_push_def trim_range_parts)
qed

lemma run_range_fresh:
  "d_buf d = [] \<Longrightarrow> run_stream (range_push A) (d, td, te) (raw_pieces fs) = range_push A (d, td, te) (body_data fs)"
  using ranged.run_stream_eq_step [of "raw_pieces fs" A "(d, td, te)"]
  by (cases "raw_pieces fs = []")
    (auto simp: range_push_def Decryptor_push_Nil concat_raw_pieces [symmetric] simp del: concat_raw_pieces)

section \<open>Properties\<close>

text \<open>C8. Reading a whole object: for every cut into frames, the response ends without an error exactly
  when the backend's body is complete and the one-shot decryption accepts it, and then it is that
  plaintext. In every other case the failure is reported as an error, a verification failure is counted,
  and the bytes already released are the plaintext of genuine frames at the front of the object.\<close>

theorem whole_object_read_is_authentic:
  assumes "aead_tidy A" "0 < n" "decrypting A (fs, fin) alg dek n part counter = sk"
  shows "if sk_err sk = None
    then fin = None \<and> decrypt_all A alg dek part n (body_data fs) = Some (Inr (sk_data sk)) \<and> sk_failures sk = counter
    else (fin \<noteq> None \<or> (\<exists>e. decrypt_all A alg dek part n (body_data fs) = Some (Inl e) \<and>
             sk_err sk = Some (decrypt_error_message e) \<and> sk_failures sk = map_option (\<lambda>c. c + 1) counter)) \<and>
      (\<exists>cs g rest. sk_data sk = concat cs \<and>
         body_data fs = concat (fst (seal_chunks A g alg dek part False 0 cs)) @ rest)"
proof -
  let ?d = "part_dec alg dek n part"
  have sk: "sk = decrypting_loop A ?d fs fin (open_sink counter)"
    using assms(2,3) by (simp add: decrypting_def Decryptor_new_Some)
  have "\<exists>cs g rest. sk_data sk = concat cs \<and> body_data fs = concat (fst (seal_chunks A g alg dek part False 0 cs)) @ rest"
    if "sk_err sk \<noteq> None"
  proof -
    from decrypting_loop_released [of A ?d fs fin "open_sink counter", folded sk] that obtain j d' where
      "run_stream (Decryptor_push A) ?d (take j (raw_pieces fs)) = Inr (d', sk_data sk)" by auto
    from run_push_released [OF assms(1) _ this] show ?thesis by (simp add: part_dec_def)
  qed
  with whole_object_outcome [OF assms(2,3)] show ?thesis
    by (auto simp: sent_def failed_def split: option.splits sum.splits)
qed

theorem whole_object_witness:
  "\<exists>sk. decrypting sample_aead ([DataFrame (take 5 sample_ct), TrailersFrame, DataFrame (drop 5 sample_ct)], None)
       Aes256Gcm [1] 2 0 (Some 7) = sk \<and> sk_data sk = [10, 20, 30] \<and> sk_failures sk = Some 7"
proof -
  let ?fs = "[DataFrame (take 5 sample_ct), TrailersFrame, DataFrame (drop 5 sample_ct)]"
  obtain sk where sk: "decrypting sample_aead (?fs, None) Aes256Gcm [1] 2 0 (Some 7) = sk" by blast
  have e: "decrypt_all sample_aead Aes256Gcm [1] 0 2 sample_ct = Some (Inr [10, 20, 30])"
    by (rule sample_ct_decrypts)
  from whole_object_outcome [OF _ sk] e have "sk_err sk = None" by (simp add: sent_def)
  with whole_object_read_is_authentic [OF sample_aead_tidy _ sk] e sk show ?thesis by simp
qed

text \<open>C11. A ranged read: for every cut of the planned ciphertext bytes into frames, the response is exactly the
  requested range of the object's plaintext, without an error and without a counted failure.\<close>

theorem ranged_read_returns_range:
  assumes "aead_correct A" "encrypt_all A g alg dek 0 (unat c) pt = Some (ct, g')"
    and "length pt < 2 ^ 64" "fits alg (word_of_nat (length pt)) c"
    and "plan_range alg (word_of_nat (length pt)) c start stop = Inr pl" "start < stop"
    and "body_data fs = subrange (unat (ct_start pl)) (unat (ct_end pl)) ct"
    and "decrypting_range A (fs, None) alg dek (unat c) pl (n_chunks (word_of_nat (length pt)) c) counter = sk"
  shows "sk_data sk = subrange (unat start) (unat stop) pt \<and> sk_err sk = None \<and> sk_failures sk = counter"
proof -
  have "0 < unat c" using assms(4) by (simp add: fits_def word_less_nat_alt)
  then obtain d where d: "Decryptor_new_at alg dek 0 (unat c) (first_chunk pl)
     (last_chunk pl + 1 = n_chunks (word_of_nat (length pt)) c) = Some d" by (simp add: Decryptor_new_at_def)
  then have b: "d_buf d = []" by (auto simp: Decryptor_new_at_def split: if_splits)
  have "sk = decrypting_range_loop A (trim_end pl) d (trim_start pl) fs None (open_sink counter)"
    using assms(8) d by (simp add: decrypting_range_def)
  with decrypting_range_loop_outcome [of A d "trim_start pl" "trim_end pl" fs None "open_sink counter", unfolded run_range_fresh [OF b]]
    range_entry_reads [OF assms(1-6) d] assms(7)
  show ?thesis by (auto simp: stream_outcome_def read_entry_def rbind_def sent_def split: sum.splits)
qed

theorem ranged_read_witness:
  "\<exists>sk. decrypting_range sample_aead ([DataFrame (take 5 sample_ct), DataFrame (drop 5 sample_ct)], None) Aes256Gcm [1]
      (unat (2 :: u64)) sample_plan (n_chunks (word_of_nat (length [10, 20, 30 :: u8])) 2) None = sk \<and>
    sk_data sk = subrange (unat (1 :: u64)) (unat (3 :: u64)) [10, 20, 30] \<and> sk_err sk = None"
proof -
  have "length sample_ct = 59"
    using length_encrypt_all [OF sample_aead_correct sample_ct_encrypts]
    by (simp add: ciphertext_len_spec_def n_chunks_spec_def overhead_def nonce_len_def TAG_LEN_def)
  then have b: "body_data [DataFrame (take 5 sample_ct), DataFrame (drop 5 sample_ct)] =
      subrange (unat (ct_start sample_plan)) (unat (ct_end sample_plan)) sample_ct"
    by (simp add: sample_plan_def subrange_def)
  from ranged_read_returns_range [OF sample_aead_correct sample_ct_encrypts _ sample_fits sample_plan_planned _ b refl]
  show ?thesis by simp
qed

text \<open>C10. Reading a multipart object: for every cut into frames, the response ends cleanly with a plaintext
  exactly when decrypting the parts one after the other, each with its own number, gives that plaintext;
  otherwise it ends with an error. In particular a stored object, whatever follows its parts, reads as
  the concatenation of the parts.\<close>

theorem multipart_read_is_parts:
  assumes "0 < n" "\<forall>sp \<in> set spans. 0 < ps_ct_len sp"
    and "decrypting_multipart A (fs, fin) alg dek n spans counter = sk"
  shows "(sk_err sk = None \<longleftrightarrow> decrypt_parts A alg dek n spans (body_data fs) \<noteq> None) \<and>
    (sk_err sk = None \<longrightarrow> decrypt_parts A alg dek n spans (body_data fs) = Some (sk_data sk) \<and> sk_failures sk = counter) \<and>
    (\<forall>c ps cts footer. aead_correct A \<and> encrypted_parts A alg dek c ps cts \<and> n = unat c \<and>
       length (concat cts) < 2 ^ 64 \<and> spans = part_layout alg c (sizes ps) \<and> body_data fs = concat cts @ footer \<longrightarrow>
       sk_data sk = concat (map snd ps) \<and> sk_err sk = None)"
proof -
  note out = decrypting_multipart_outcome [OF assms]
  have "sk_data sk = concat (map snd ps) \<and> sk_err sk = None"
    if "aead_correct A" "encrypted_parts A alg dek c ps cts" "n = unat c" "length (concat cts) < 2 ^ 64"
      "spans = part_layout alg c (sizes ps)" "body_data fs = concat cts @ footer" for c ps cts footer
  proof -
    have "0 < c" using assms(1) that(3) by (simp add: word_less_nat_alt)
    from decrypt_parts_encrypted [OF that(1,2) this that(4)] out that(3,5,6) show ?thesis
      by (simp add: part_layout_def sent_def)
  qed
  with out show ?thesis by (auto simp: sent_def split: option.splits)
qed

theorem multipart_read_witness:
  "\<exists>sk. decrypting_multipart sample_aead ([DataFrame (concat sample_part_cts @ [0])], None) Aes256Gcm [1] 2
      (part_layout Aes256Gcm 2 (sizes sample_parts)) None = sk \<and>
    sk_data sk = concat (map snd sample_parts) \<and> sk_err sk = None"
proof -
  let ?spans = "part_layout Aes256Gcm 2 (sizes sample_parts)"
  obtain sk where sk: "decrypting_multipart sample_aead ([DataFrame (concat sample_part_cts @ [0])], None) Aes256Gcm [1]
      2 ?spans None = sk" by blast
  have pos: "\<forall>sp \<in> set ?spans. 0 < ps_ct_len sp"
    by (simp add: part_layout_def sample_parts_def ciphertext_len_def n_chunks_def div_ceil_def overhead_def nonce_len_def TAG_LEN_def Let_def)
  have "(2 :: nat) = unat (2 :: u64)" "body_data [DataFrame (concat sample_part_cts @ [0])] = concat sample_part_cts @ [0]"
    by simp_all
  then have h: "aead_correct sample_aead \<and> encrypted_parts sample_aead Aes256Gcm [1] 2 sample_parts sample_part_cts \<and>
      (2 :: nat) = unat (2 :: u64) \<and> length (concat sample_part_cts) < 2 ^ 64 \<and> ?spans = ?spans \<and>
      body_data [DataFrame (concat sample_part_cts @ [0])] = concat sample_part_cts @ [0]"
    using sample_aead_correct sample_parts_encrypted sample_part_cts_length by blast
  have "(0 :: nat) < 2" by simp
  from multipart_read_is_parts [OF this pos sk, THEN conjunct2, THEN conjunct2, rule_format, OF h] sk
  show ?thesis by (intro exI [of _ sk] conjI) (rule sk, blast+)
qed

text \<open>C9. A ranged read of a multipart object: the range is planned, the planned spans are one contiguous slice
  of the stored object, and for every cut of that slice into frames (whatever the backend sends after
  it) the response is exactly the requested range of the concatenated parts.\<close>

theorem multipart_ranged_read_returns_range:
  assumes "aead_correct A" "encrypted_parts A alg dek c ps cts"
    and "0 < c" "unat c + overhead alg < 2 ^ 64" "length (concat cts) < 2 ^ 64"
    and "start < stop" "unat stop \<le> length (concat (map snd ps))"
  shows "\<exists>plans. plans \<noteq> [] \<and> plan_multipart_range (part_layout alg c (sizes ps)) alg c start stop = Inr plans \<and>
    (\<forall>fs fin extra sk counter.
       body_data fs = subrange (entry_lo (hd plans)) (entry_hi (List.last plans)) (concat cts @ footer) @ extra \<and>
       decrypting_multipart_range A (fs, fin) alg dek (unat c) plans counter = sk \<longrightarrow>
       sk_data sk = subrange (unat start) (unat stop) (concat (map snd ps)) \<and> sk_err sk = None \<and> sk_failures sk = counter)"
proof -
  let ?obj = "concat cts @ footer"
  obtain plans outs where p: "plan_multipart_range (part_layout alg c (sizes ps)) alg c start stop = Inr plans"
    "map (read_span A alg dek c ?obj) plans = map (\<lambda>out. Some (Inr out)) outs"
    "concat outs = subrange (unat start) (unat stop) (concat (map snd ps))"
    using multipart_range_reads [OF assms, of footer] by blast
  note ch = multipart_plan_chained [OF assms(1-6) p(1)]
  have ne: "plans \<noteq> []"
  proof
    assume "plans = []"
    with p(2,3) have "subrange (unat start) (unat stop) (concat (map snd ps)) = []" by simp
    with assms(6,7) show False by (simp add: subrange_def word_less_nat_alt)
  qed
  have pos: "\<forall>e \<in> set plans. ct_start (snd e) < ct_end (snd e) \<and> entry_hi e \<le> length ?obj"
    using ch chained_pos by fastforce
  have cat: "concat (map (entry_slice ?obj) plans) = subrange (entry_lo (hd plans)) (entry_hi (List.last plans)) ?obj"
    using ne ch(1) concat_chained [of "hd plans" "tl plans" ?obj] by simp
  have "0 < unat c" using assms(3) by (simp add: word_less_nat_alt)
  note read = decrypting_multipart_range_outcome [OF this ne, of A alg dek]
  have "sent (open_sink counter) (concat outs) (decrypting_multipart_range A (fs, fin) alg dek (unat c) plans counter)"
    if "body_data fs = subrange (entry_lo (hd plans)) (entry_hi (List.last plans)) ?obj @ extra" for fs fin extra counter
    using pos that read_plan_entries [OF p(2) pos assms(3), of extra] cat by (intro read) simp_all
  with ne p(1,3) show ?thesis by (auto simp: sent_def)
qed

theorem multipart_ranged_read_witness:
  "\<exists>plans sk. plan_multipart_range (part_layout Aes256Gcm 2 (sizes sample_parts)) Aes256Gcm 2 2 4 = Inr plans \<and>
    decrypting_multipart_range sample_aead
      ([DataFrame (subrange (entry_lo (hd plans)) (entry_hi (List.last plans)) (concat sample_part_cts @ [0]))], None)
      Aes256Gcm [1] (unat (2 :: u64)) plans None = sk \<and>
    sk_data sk = subrange (unat (2 :: u64)) (unat (4 :: u64)) (concat (map snd sample_parts)) \<and> sk_err sk = None"
proof -
  have "0 < (2 :: u64)" "unat (2 :: u64) + overhead Aes256Gcm < 2 ^ 64" "2 < (4 :: u64)"
    "unat (4 :: u64) \<le> length (concat (map snd sample_parts))"
    by (simp_all add: overhead_def nonce_len_def TAG_LEN_def sample_parts_def)
  from multipart_ranged_read_returns_range [OF sample_aead_correct sample_parts_encrypted this(1,2) sample_part_cts_length this(3,4), of "[0]"]
  obtain plans where p: "plan_multipart_range (part_layout Aes256Gcm 2 (sizes sample_parts)) Aes256Gcm 2 2 4 = Inr plans"
    and r: "\<forall>fs fin extra sk counter.
       body_data fs = subrange (entry_lo (hd plans)) (entry_hi (List.last plans)) (concat sample_part_cts @ [0]) @ extra \<and>
       decrypting_multipart_range sample_aead (fs, fin) Aes256Gcm [1] (unat (2 :: u64)) plans counter = sk \<longrightarrow>
       sk_data sk = subrange (unat (2 :: u64)) (unat (4 :: u64)) (concat (map snd sample_parts)) \<and>
       sk_err sk = None \<and> sk_failures sk = counter" by (elim exE conjE)
  have "body_data [DataFrame (subrange (entry_lo (hd plans)) (entry_hi (List.last plans)) (concat sample_part_cts @ [0]))] =
      subrange (entry_lo (hd plans)) (entry_hi (List.last plans)) (concat sample_part_cts @ [0]) @ []" by simp
  from p r [rule_format, OF conjI, OF this refl] show ?thesis by blast
qed

end
