(* ===== verification/RateLimit.thy ===== *)
theory RateLimit
  imports Complex_Main MpuState
begin

text \<open>
  The limiter of authentication failures (\<open>ratelimit.rs\<close>): one token bucket per source address, with a cap on
  the number of addresses. Token counts are real numbers: the rounding of \<open>f64\<close> is not modelled. An
  \<open>Instant\<close> is a number of nanoseconds; an address is a value of any type. The table is the list of its
  entries, with the operations of the session table.
\<close>

definition MAX_TRACKED_IPS :: nat where
  "MAX_TRACKED_IPS = 100000"

definition IDLE_PRUNE_AFTER_SECS :: nat where
  "IDLE_PRUNE_AFTER_SECS = 3600"

record bucket =
  bk_tokens :: real
  bk_last :: nat

record 'ip limiter =
  rl_capacity :: real
  rl_refill_per_sec :: real
  rl_buckets :: "('ip \<times> bucket) list"

definition AuthRateLimiter_new :: "u32 \<Rightarrow> 'ip limiter" where
  "AuthRateLimiter_new limit_per_minute =
     \<lparr> rl_capacity = real (unat limit_per_minute), rl_refill_per_sec = real (unat limit_per_minute) / 60, rl_buckets = [] \<rparr>"

definition is_disabled :: "'ip limiter \<Rightarrow> bool" where
  "is_disabled l \<longleftrightarrow> rl_capacity l \<le> 0"

definition refilled_tokens :: "nat \<Rightarrow> 'ip limiter \<Rightarrow> bucket \<Rightarrow> real" where
  "refilled_tokens now l b =
     min (real (now - bk_last b) / 1000000000 * rl_refill_per_sec l + bk_tokens b) (rl_capacity l)"

definition allow :: "nat \<Rightarrow> 'ip \<Rightarrow> 'ip limiter \<Rightarrow> bool" where
  "allow now ip l =
     (if is_disabled l then True
      else case map_of (rl_buckets l) ip of None \<Rightarrow> True | Some b \<Rightarrow> refilled_tokens now l b \<ge> 1)"

definition prune :: "nat \<Rightarrow> 'ip limiter \<Rightarrow> 'ip limiter" where
  "prune now l = l\<lparr> rl_buckets := filter (\<lambda>(_, b).
     \<not> (bk_tokens b \<ge> rl_capacity l \<and> (now - bk_last b) div 1000000000 > IDLE_PRUNE_AFTER_SECS)) (rl_buckets l) \<rparr>"

definition evict_oldest :: "'ip limiter \<Rightarrow> 'ip limiter" where
  "evict_oldest l =
     (case min_by_key (\<lambda>(_, b). bk_last b) (rl_buckets l) of
        None \<Rightarrow> l
      | Some (key, _) \<Rightarrow> l\<lparr> rl_buckets := filter (\<lambda>(k, _). k \<noteq> key) (rl_buckets l) \<rparr>)"

text \<open>The bound on the table before a new address is added.\<close>

definition make_space :: "nat \<Rightarrow> 'ip \<Rightarrow> 'ip limiter \<Rightarrow> 'ip limiter" where
  "make_space now ip l =
     (if ip \<notin> fst ` set (rl_buckets l) \<and> length (rl_buckets l) \<ge> MAX_TRACKED_IPS then
        let l = prune now l in
        if length (rl_buckets l) \<ge> MAX_TRACKED_IPS then evict_oldest l else l
      else l)"

text \<open>The entry of an address (a full bucket if it has none), charged and written back. The operation reads the
  clock twice: \<open>now\<close> at its start, and \<open>later\<close> in \<open>refilled_tokens\<close>.\<close>

definition charge :: "nat \<Rightarrow> nat \<Rightarrow> 'ip limiter \<Rightarrow> bucket \<Rightarrow> bucket" where
  "charge now later l b = \<lparr> bk_tokens = max (refilled_tokens later l b - 1) 0, bk_last = now \<rparr>"

definition record_failure :: "nat \<Rightarrow> nat \<Rightarrow> 'ip \<Rightarrow> 'ip limiter \<Rightarrow> 'ip limiter" where
  "record_failure now later ip l =
     (if is_disabled l then l
      else
        let l = make_space now ip l in
        if ip \<in> fst ` set (rl_buckets l)
        then l\<lparr> rl_buckets := map (\<lambda>(k, b). if k = ip then (k, charge now later l b) else (k, b)) (rl_buckets l) \<rparr>
        else l\<lparr> rl_buckets := rl_buckets l @ [(ip, charge now later l \<lparr> bk_tokens = rl_capacity l, bk_last = now \<rparr>)] \<rparr>)"

section \<open>The invariant of the table\<close>

definition limiter_ok :: "'ip limiter \<Rightarrow> bool" where
  "limiter_ok l \<longleftrightarrow> distinct (map fst (rl_buckets l)) \<and> length (rl_buckets l) \<le> MAX_TRACKED_IPS \<and>
     0 \<le> rl_refill_per_sec l \<and> (\<forall>(_, b) \<in> set (rl_buckets l). 0 \<le> bk_tokens b \<and> bk_tokens b \<le> rl_capacity l)"

lemma limiter_okI:
  assumes "distinct (map fst (rl_buckets l))" "length (rl_buckets l) \<le> MAX_TRACKED_IPS" "0 \<le> rl_refill_per_sec l"
    and "\<And>k b. (k, b) \<in> set (rl_buckets l) \<Longrightarrow> 0 \<le> bk_tokens b \<and> bk_tokens b \<le> rl_capacity l"
  shows "limiter_ok l"
  using assms by (auto simp: limiter_ok_def)

lemma limiter_ok_new: "limiter_ok (AuthRateLimiter_new n)"
proof -
  have "0 \<le> real (unat n) / 60" by (rule divide_nonneg_pos) (rule of_nat_0_le_iff, simp)
  then show ?thesis unfolding limiter_ok_def AuthRateLimiter_new_def by simp
qed

lemma limiter_ok_filter: "limiter_ok l \<Longrightarrow> limiter_ok (l\<lparr> rl_buckets := filter P (rl_buckets l) \<rparr>)"
  by (auto simp: limiter_ok_def distinct_map_filter intro: order_trans [OF length_filter_le])

lemma evict_oldest_ok: "limiter_ok l \<Longrightarrow> limiter_ok (evict_oldest l)"
  by (auto simp: evict_oldest_def limiter_ok_filter split: option.splits)

lemma evict_oldest_shorter: "rl_buckets l \<noteq> [] \<Longrightarrow> length (rl_buckets (evict_oldest l)) < length (rl_buckets l)"
proof -
  assume "rl_buckets l \<noteq> []"
  then obtain k b where m: "min_by_key (\<lambda>(_, b). bk_last b) (rl_buckets l) = Some (k, b)"
    using min_by_key_None [of "\<lambda>(_, b). bk_last b" "rl_buckets l"] by (cases "min_by_key (\<lambda>(_, b). bk_last b) (rl_buckets l)") auto
  then have "(k, b) \<in> set (rl_buckets l)" using min_by_key_SomeD by fastforce
  then have "length (filter (\<lambda>(k', _). k' \<noteq> k) (rl_buckets l)) < length (rl_buckets l)"
    by (intro length_filter_less) auto
  with m show ?thesis by (simp add: evict_oldest_def)
qed

lemma make_space_ok:
  assumes "limiter_ok l"
  shows "limiter_ok (make_space now ip l)"
    and "ip \<notin> fst ` set (rl_buckets (make_space now ip l)) \<Longrightarrow> length (rl_buckets (make_space now ip l)) < MAX_TRACKED_IPS"
    and "rl_capacity (make_space now ip l) = rl_capacity l" "rl_refill_per_sec (make_space now ip l) = rl_refill_per_sec l"
    and "map_of (rl_buckets (make_space now ip l)) ip = map_of (rl_buckets l) ip"
proof -
  have p: "limiter_ok (prune now l)" unfolding prune_def by (rule limiter_ok_filter [OF assms])
  show "limiter_ok (make_space now ip l)" using assms p evict_oldest_ok by (auto simp: make_space_def Let_def)
  show "rl_capacity (make_space now ip l) = rl_capacity l" "rl_refill_per_sec (make_space now ip l) = rl_refill_per_sec l"
    by (auto simp: make_space_def Let_def prune_def evict_oldest_def split: option.splits)
  have sub: "set (rl_buckets (make_space now ip l)) \<subseteq> set (rl_buckets l)"
    by (auto simp: make_space_def Let_def prune_def evict_oldest_def split: option.splits)
  then have "ip \<notin> fst ` set (rl_buckets l) \<Longrightarrow> ip \<notin> fst ` set (rl_buckets (make_space now ip l))" by blast
  then show "map_of (rl_buckets (make_space now ip l)) ip = map_of (rl_buckets l) ip"
    by (cases "ip \<in> fst ` set (rl_buckets l)") (simp_all add: make_space_def map_of_eq_None_iff [THEN iffD2])
  have "length (rl_buckets (evict_oldest (prune now l))) < MAX_TRACKED_IPS"
    if "MAX_TRACKED_IPS \<le> length (rl_buckets (prune now l))"
  proof -
    have "rl_buckets (prune now l) \<noteq> []" using that by (auto simp: MAX_TRACKED_IPS_def)
    from evict_oldest_shorter [OF this] p show ?thesis by (simp add: limiter_ok_def)
  qed
  then show "ip \<notin> fst ` set (rl_buckets (make_space now ip l)) \<Longrightarrow> length (rl_buckets (make_space now ip l)) < MAX_TRACKED_IPS"
    by (auto simp: make_space_def Let_def not_le split: if_splits)
qed

lemma refilled_bounds:
  assumes "0 \<le> rl_refill_per_sec l" "0 \<le> bk_tokens b" "0 \<le> rl_capacity l"
  shows "0 \<le> refilled_tokens now l b" "refilled_tokens now l b \<le> rl_capacity l"
  using assms by (simp_all add: refilled_tokens_def)

lemma record_failure_lookup:
  assumes "\<not> is_disabled l" "limiter_ok l"
  shows "map_of (rl_buckets (record_failure now later ip l)) ip =
    Some (charge now later l (case map_of (rl_buckets l) ip of Some b \<Rightarrow> b | None \<Rightarrow> \<lparr> bk_tokens = rl_capacity l, bk_last = now \<rparr>))"
proof -
  let ?l = "make_space now ip l"
  note m = make_space_ok [OF assms(2), where now = now and ip = ip]
  have c: "charge now later ?l b = charge now later l b" for b by (simp add: charge_def refilled_tokens_def m(3,4))
  show ?thesis
  proof (cases "map_of (rl_buckets l) ip")
    case None
    then have "map_of (rl_buckets ?l) ip = None" using m(5) by simp
    then have "ip \<notin> fst ` set (rl_buckets ?l)" by (simp add: map_of_eq_None_iff)
    then show ?thesis using assms(1) None m(3)
      by (simp add: record_failure_def Let_def c map_add_def map_of_append map_of_eq_None_iff [THEN iffD2])
  next
    case (Some b)
    then have b: "map_of (rl_buckets ?l) ip = Some b" using m(5) by simp
    then have "ip \<in> fst ` set (rl_buckets ?l)" by (metis map_of_eq_None_iff option.distinct(1))
    moreover have "map_of (map (\<lambda>(k, b). if k = ip then (k, charge now later ?l b) else (k, b)) bs) ip =
        map_option (charge now later ?l) (map_of bs ip)" for bs :: "('a \<times> bucket) list"
      by (induction bs) auto
    ultimately show ?thesis using assms(1) Some b by (simp add: record_failure_def Let_def c)
  qed
qed

lemma record_failure_ok:
  assumes "limiter_ok l"
  shows "limiter_ok (record_failure now later ip l)"
    and "rl_capacity (record_failure now later ip l) = rl_capacity l" "rl_refill_per_sec (record_failure now later ip l) = rl_refill_per_sec l"
proof -
  let ?l = "make_space now ip l"
  note m = make_space_ok [OF assms, where now = now and ip = ip]
  show "rl_capacity (record_failure now later ip l) = rl_capacity l" "rl_refill_per_sec (record_failure now later ip l) = rl_refill_per_sec l"
    using m(3,4) by (simp_all add: record_failure_def Let_def)
  show "limiter_ok (record_failure now later ip l)"
  proof (cases "is_disabled l")
    case True
    with assms show ?thesis by (simp add: record_failure_def)
  next
    case False
    then have cap: "0 \<le> rl_capacity ?l" using m(3) by (simp add: is_disabled_def)
    have ch: "0 \<le> bk_tokens (charge now later ?l b) \<and> bk_tokens (charge now later ?l b) \<le> rl_capacity ?l" if "0 \<le> bk_tokens b" for b
      using refilled_bounds [of ?l b later] that cap m(1) by (simp add: charge_def limiter_ok_def)
    show ?thesis
    proof (cases "ip \<in> fst ` set (rl_buckets ?l)")
      case True
      have keys: "map fst (map (\<lambda>(k, b). if k = ip then (k, charge now later ?l b) else (k, b)) bs) = map fst bs"
        for bs :: "('a \<times> bucket) list" by (induction bs) auto
      let ?bs = "map (\<lambda>(k, b). if k = ip then (k, charge now later ?l b) else (k, b)) (rl_buckets ?l)"
      have r: "record_failure now later ip l = ?l\<lparr> rl_buckets := ?bs \<rparr>"
        using False True by (simp only: record_failure_def Let_def if_True if_False)
      have "distinct (map fst ?bs)" unfolding keys using m(1) by (simp add: limiter_ok_def)
      moreover have "0 \<le> bk_tokens b \<and> bk_tokens b \<le> rl_capacity ?l" if e: "(k, b) \<in> set ?bs" for k b
      proof -
        from e obtain c where c: "(k, c) \<in> set (rl_buckets ?l)" "b = c \<or> b = charge now later ?l c"
          by (auto split: if_splits)
        moreover have "0 \<le> bk_tokens c \<and> bk_tokens c \<le> rl_capacity ?l" using c(1) m(1) by (auto simp: limiter_ok_def)
        ultimately show ?thesis using ch by blast
      qed
      ultimately show ?thesis unfolding r
        by (intro limiter_okI) (use m(1) in \<open>simp_all del: set_map add: limiter_ok_def\<close>)
    next
      case new: False
      then show ?thesis using False m(1,2) ch cap by (auto simp: record_failure_def Let_def limiter_ok_def)
    qed
  qed
qed

section \<open>The limit\<close>

text \<open>A sequence of failed attempts of one address, each admitted at its time; \<open>None\<close> if one is not.\<close>

fun attempts :: "'ip \<Rightarrow> nat list \<Rightarrow> 'ip limiter \<Rightarrow> 'ip limiter option" where
  "attempts ip [] l = Some l"
| "attempts ip (t # ts) l = (if allow t ip l then attempts ip ts (record_failure t t ip l) else None)"

lemma attempts_bound:
  assumes "map_of (rl_buckets l) ip = Some b" "limiter_ok l" "\<not> is_disabled l"
    and "sorted (bk_last b # ts)" "attempts ip ts l = Some l'"
  shows "real (length ts) \<le> bk_tokens b + rl_refill_per_sec l * (real (List.last (bk_last b # ts) - bk_last b) / 1000000000)"
  using assms
proof (induction ts arbitrary: l b)
  case Nil
  then have "(ip, b) \<in> set (rl_buckets l)" by (simp add: map_of_SomeD)
  with Nil.prems(2) show ?case by (auto simp: limiter_ok_def)
next
  case (Cons t ts)
  let ?l = "record_failure t t ip l" and ?b = "charge t t l b"
  have look: "map_of (rl_buckets ?l) ip = Some ?b" using record_failure_lookup [OF Cons.prems(3,2)] Cons.prems(1) by simp
  note okl = record_failure_ok [OF Cons.prems(2), where now = t and later = t and ip = ip]
  have en: "\<not> is_disabled ?l" using Cons.prems(3) okl(2) by (simp add: is_disabled_def)
  have one: "1 \<le> refilled_tokens t l b" using Cons.prems(1,3,5) by (simp add: allow_def split: if_splits)
  have rec: "attempts ip ts ?l = Some l'" using Cons.prems(5) by (simp split: if_splits)
  have srt: "sorted (bk_last ?b # ts)" using Cons.prems(4) by (simp add: charge_def)
  let ?e = "List.last (t # ts)"
  have le: "bk_last b \<le> t" "t \<le> ?e" using Cons.prems(4) by (auto simp: sorted_wrt.simps(2))
  from Cons.IH [OF look okl(1) en srt rec] okl(3)
  have "real (length ts) \<le> refilled_tokens t l b - 1 + rl_refill_per_sec l * (real (?e - t) / 1000000000)"
    using one by (simp add: charge_def)
  moreover have "refilled_tokens t l b \<le> bk_tokens b + rl_refill_per_sec l * (real (t - bk_last b) / 1000000000)"
    by (simp add: refilled_tokens_def min_le_iff_disj mult.commute)
  moreover have "rl_refill_per_sec l * (real (t - bk_last b) / 1000000000) + rl_refill_per_sec l * (real (?e - t) / 1000000000)
      = rl_refill_per_sec l * (real (?e - bk_last b) / 1000000000)"
    using le by (simp add: of_nat_diff field_simps)
  ultimately show ?case by simp
qed



end
