(* ===== verification/Upstream.thy ===== *)
theory Upstream
  imports Keyring Route MpuState RateLimit ResponseBody
begin

text \<open>
  The frame in which the handlers run: the configuration (\<open>config.rs\<close>, the fields the request path reads), the
  shared \<open>ProxyState\<close>, the outside world, and the signed request to a backend (\<open>forward\<close> in \<open>proxy/mod.rs\<close>) with
  the translation of its answer.

  The world is a state of any type \<open>'w\<close> and the record \<open>env\<close> of what acts on it: the backend (\<open>en_send\<close>), the two
  clocks, and the third-party crates the code calls. An async handler is a function from the joint state to a
  result and the next state: requests of one client run one after the other here, and the interleaving of
  several is the subject of \<open>MpuState\<close>. A panic is the result \<open>Panic\<close>.
\<close>

section \<open>Configuration and shared state\<close>

datatype bind_mode = Off | On | Strict

record backend =
  be_name :: string
  be_endpoint :: string
  be_region :: string
  be_access_key :: string
  be_secret_key :: string

definition DEFAULT_BACKEND_NAME :: string where
  "DEFAULT_BACKEND_NAME = ''DEFAULT''"

text \<open>A timeout is a whole number of seconds, as the configuration parser produces it.\<close>

record config =
  cf_backends :: "(string, backend) btree"
  cf_clients :: "(string, client_credentials) btree"
  cf_timeout_request :: u64
  cf_keyring :: keyring
  cf_chunk_size :: u32
  cf_alg :: alg
  cf_mp_ttl :: u64
  cf_footer_cache :: nat
  cf_auth_fail_limit :: u32
  cf_bind_mode :: bind_mode

type_synonym ip_addr = bytes
type_synonym footer_key = "string \<times> string \<times> string"

text \<open>The footer cache is its map; which entries it drops when it is full is the parameter \<open>en_lru_evicts\<close> below.\<close>

record proxy_state =
  ps_config :: config
  ps_request_counter :: u64
  ps_sessions :: "session_key sessions"
  ps_footer_cache :: "footer_key \<Rightarrow> footer option"
  ps_mpu_sessions_created :: u64
  ps_footer_cache_hits :: u64
  ps_footer_cache_misses :: u64
  ps_auth_failures :: u64
  ps_chunk_verify_failures :: u64
  ps_auth_rate_limited :: u64
  ps_auth_rate_limiter :: "ip_addr limiter"
  ps_draining :: bool

definition ProxyState_new :: "config \<Rightarrow> proxy_state" where
  "ProxyState_new cfg =
     \<lparr> ps_config = cfg, ps_request_counter = 0, ps_sessions = [], ps_footer_cache = (\<lambda>_. None),
       ps_mpu_sessions_created = 0, ps_footer_cache_hits = 0, ps_footer_cache_misses = 0, ps_auth_failures = 0,
       ps_chunk_verify_failures = 0, ps_auth_rate_limited = 0,
       ps_auth_rate_limiter = AuthRateLimiter_new (cf_auth_fail_limit cfg), ps_draining = False \<rparr>"

definition set_draining :: "proxy_state \<Rightarrow> proxy_state" where
  "set_draining ps = ps\<lparr> ps_draining := True \<rparr>"

definition record_mpu_session_created :: "proxy_state \<Rightarrow> proxy_state" where
  "record_mpu_session_created ps = ps\<lparr> ps_mpu_sessions_created := ps_mpu_sessions_created ps + 1 \<rparr>"

definition record_footer_cache :: "bool \<Rightarrow> proxy_state \<Rightarrow> proxy_state" where
  "record_footer_cache hit ps =
     (if hit then ps\<lparr> ps_footer_cache_hits := ps_footer_cache_hits ps + 1 \<rparr>
      else ps\<lparr> ps_footer_cache_misses := ps_footer_cache_misses ps + 1 \<rparr>)"

definition record_auth_failure :: "proxy_state \<Rightarrow> proxy_state" where
  "record_auth_failure ps = ps\<lparr> ps_auth_failures := ps_auth_failures ps + 1 \<rparr>"

section \<open>The outside world\<close>

record request =
  rq_method :: string
  rq_uri :: string
  rq_headers :: headers
  rq_body :: proxy_body

record backend_response =
  br_status :: nat
  br_headers :: headers
  br_body :: backend_body

text \<open>What a request to a backend can come to. A failed one says whether the tasks that feed its body had ended by
  then, so that a reason they recorded is seen.\<close>

datatype outcome = Answered backend_response | SendFailed bool | TimedOut

record uri =
  u_scheme :: "string option"
  u_authority :: "string option"

datatype xml_event = XStart string | XText string | XEnd string | XOther

record 'w env =
  en_send :: "'w \<Rightarrow> request \<Rightarrow> outcome \<times> 'w"
  en_system_now :: "'w \<Rightarrow> system_time \<times> 'w"
  en_instant_now :: "'w \<Rightarrow> nat \<times> 'w"
  en_crypto :: crypto
  en_codec :: codec
  en_pct :: pct
  en_md5 :: "bytes \<Rightarrow> bytes"
  en_parse_uri :: "string \<Rightarrow> uri option"
  en_name_error :: "string \<Rightarrow> string option"
  en_value_error :: "string \<Rightarrow> string option"
  en_request_error :: "string \<Rightarrow> string \<Rightarrow> string option"
  en_status_text :: "nat \<Rightarrow> string"
  en_lru_evicts :: "'w \<Rightarrow> nat \<Rightarrow> (footer_key \<Rightarrow> footer option) \<Rightarrow> footer_key \<Rightarrow> bool"
  en_xml_events :: "string \<Rightarrow> xml_event list \<times> string option"
  en_xml_unescape :: "string \<Rightarrow> string + string"

text \<open>The joint state: the proxy's, the bytes the system random generator has yet to give, the reason the wrapper of
  the client's body records when it stops the request, and the world.\<close>

record 'w io_state =
  io_proxy :: proxy_state
  io_rng :: entropy
  io_abort :: "s3error option"
  io_world :: 'w

datatype 'a io_result = Ret 'a | Err s3error | Panic

type_synonym ('w, 'a) io = "'w io_state \<Rightarrow> 'a io_result \<times> 'w io_state"

definition io_return :: "'a \<Rightarrow> ('w, 'a) io" where
  "io_return a s = (Ret a, s)"

definition io_fail :: "s3error \<Rightarrow> ('w, 'a) io" where
  "io_fail e s = (Err e, s)"

definition io_bind :: "('w, 'a) io \<Rightarrow> ('a \<Rightarrow> ('w, 'b) io) \<Rightarrow> ('w, 'b) io" where
  "io_bind m f s = (case m s of (Ret a, s') \<Rightarrow> f a s' | (Err e, s') \<Rightarrow> (Err e, s') | (Panic, s') \<Rightarrow> (Panic, s'))"

definition io_lift :: "s3error + 'a \<Rightarrow> ('w, 'a) io" where
  "io_lift r = (case r of Inr a \<Rightarrow> io_return a | Inl e \<Rightarrow> io_fail e)"

definition io_read :: "(proxy_state \<Rightarrow> 'a) \<Rightarrow> ('w, 'a) io" where
  "io_read f s = (Ret (f (io_proxy s)), s)"

definition io_modify :: "(proxy_state \<Rightarrow> proxy_state) \<Rightarrow> ('w, unit) io" where
  "io_modify f s = (Ret (), s\<lparr> io_proxy := f (io_proxy s) \<rparr>)"

definition io_system_now :: "'w env \<Rightarrow> ('w, system_time) io" where
  "io_system_now E s = (let (t, w) = en_system_now E (io_world s) in (Ret t, s\<lparr> io_world := w \<rparr>))"

definition io_instant_now :: "'w env \<Rightarrow> ('w, nat) io" where
  "io_instant_now E s = (let (t, w) = en_instant_now E (io_world s) in (Ret t, s\<lparr> io_world := w \<rparr>))"

definition io_random :: "nat \<Rightarrow> ('w, bytes) io" where
  "io_random n s = (let (bs, g) = fill_bytes (io_rng s) n in (Ret bs, s\<lparr> io_rng := g \<rparr>))"

text \<open>A use of the generator by a library call that hands back the rest, and one by a task of its own, which draws
  every other byte while the handler goes on.\<close>

definition io_drawing :: "(entropy \<Rightarrow> 'a \<times> entropy) \<Rightarrow> ('w, 'a) io" where
  "io_drawing f s = (let (a, g) = f (io_rng s) in (Ret a, s\<lparr> io_rng := g \<rparr>))"

definition io_fork_rng :: "('w, entropy) io" where
  "io_fork_rng s = (Ret (\<lambda>i. io_rng s (2 * i)), s\<lparr> io_rng := (\<lambda>i. io_rng s (2 * i + 1)) \<rparr>)"

lemmas io_defs = io_return_def io_fail_def io_bind_def io_lift_def io_read_def io_modify_def io_system_now_def
  io_instant_now_def io_random_def io_drawing_def io_fork_rng_def


section \<open>Requests to a backend\<close>

text \<open>The first invalid header, in the order of the list; names are checked before values.\<close>

fun header_errors :: "'w env \<Rightarrow> headers \<Rightarrow> string option" where
  "header_errors E [] = None"
| "header_errors E ((name, value) # hs) =
     (case en_name_error E name of Some m \<Rightarrow> Some m
      | None \<Rightarrow> (case en_value_error E value of Some m \<Rightarrow> Some m | None \<Rightarrow> header_errors E hs))"

definition upstream_misconfigured :: s3error where
  "upstream_misconfigured = bad_gateway ''upstream endpoint is misconfigured''"

definition signed_names_of :: "headers \<Rightarrow> string list" where
  "signed_names_of hs = remdups_adj (sort (map (\<lambda>(k, _). to_ascii_lowercase k) hs))"

text \<open>The headers a request carries when it is signed, and the signature.\<close>

definition dated_headers :: "string \<Rightarrow> system_time \<Rightarrow> headers \<Rightarrow> headers" where
  "dated_headers authority now hs =
     (let hs = set_header hs ''host'' authority;
          hs = set_header hs ''x-amz-date'' (format_amz_date now)
      in set_header hs ''x-amz-content-sha256'' ''UNSIGNED-PAYLOAD'')"

definition sign_for_backend :: "'w env \<Rightarrow> backend \<Rightarrow> system_time \<Rightarrow> string \<Rightarrow> string \<Rightarrow> string \<Rightarrow> headers \<Rightarrow> headers" where
  "sign_for_backend E be now meth raw_path outbound_query hs =
     set_header hs ''authorization''
       (authorization_header (en_crypto E) (en_pct E) meth raw_path outbound_query hs (signed_names_of hs)
          ''UNSIGNED-PAYLOAD'' (be_access_key be) (be_secret_key be) (be_region be) ''s3'' (format_amz_date now))"

definition target_uri :: "uri \<Rightarrow> string \<Rightarrow> string \<Rightarrow> string \<Rightarrow> string" where
  "target_uri u authority raw_path outbound_query =
     (case u_scheme u of Some s \<Rightarrow> s | None \<Rightarrow> ''http'') @ ''://'' @ authority @ raw_path
     @ (if outbound_query = '''' then '''' else ''?'' @ outbound_query)"

text \<open>The request builder stores header names in lower case.\<close>

definition build_request :: "'w env \<Rightarrow> string \<Rightarrow> string \<Rightarrow> headers \<Rightarrow> proxy_body \<Rightarrow> s3error + request" where
  "build_request E meth target hs body =
     (case header_errors E hs of Some m \<Rightarrow> Inl (bad_gateway m)
      | None \<Rightarrow>
          (case en_request_error E meth target of Some m \<Rightarrow> Inl (bad_gateway (''failed to build backend request: '' @ m))
           | None \<Rightarrow> Inr \<lparr> rq_method = meth, rq_uri = target,
                            rq_headers = map (\<lambda>(k, v). (to_ascii_lowercase k, v)) hs, rq_body = body \<rparr>))"

text \<open>Sending it under the timeout. A transport error is answered with the reason a wrapper of the body recorded, if
  the tasks that feed the body have recorded one.\<close>

definition send_request :: "'w env \<Rightarrow> request \<Rightarrow> ('w, backend_response) io" where
  "send_request E rq s =
     (let (out, w) = en_send E (io_world s) rq; s' = s\<lparr> io_world := w \<rparr> in
      case out of
        Answered resp \<Rightarrow> (Ret resp, s')
      | SendFailed ended \<Rightarrow>
          (let recorded = (case abort_reason (rq_body rq) of Some e \<Rightarrow> Some e | None \<Rightarrow> io_abort s) in
           (case (if ended then recorded else None) of
              Some e \<Rightarrow> (Err e, s')
            | None \<Rightarrow> (Err (bad_gateway ''upstream request failed''), s')))
      | TimedOut \<Rightarrow>
          (Err (gateway_timeout (''backend did not respond within ''
             @ dec_string (unat (cf_timeout_request (ps_config (io_proxy s)))) @ ''s (S3A_TIMEOUT_REQUEST)'')), s'))"

definition forward ::
  "'w env \<Rightarrow> backend \<Rightarrow> string \<Rightarrow> string \<Rightarrow> string \<Rightarrow> headers \<Rightarrow> proxy_body \<Rightarrow> ('w, backend_response) io" where
  "forward E be meth raw_path raw_query hs body =
     (case en_parse_uri E (be_endpoint be) of
        None \<Rightarrow> io_fail upstream_misconfigured
      | Some u \<Rightarrow>
          (case u_authority u of
             None \<Rightarrow> io_fail upstream_misconfigured
           | Some authority \<Rightarrow>
               io_bind (io_system_now E) (\<lambda>now.
                 let outbound_query = filter_query (en_pct E) raw_query PRESIGNED_QUERY_PARAMS;
                     hs' = sign_for_backend E be now meth raw_path outbound_query (dated_headers authority now hs);
                     target = target_uri u authority raw_path outbound_query
                 in io_bind (io_lift (build_request E meth target hs' body)) (send_request E))))"

section \<open>Answers to the client\<close>

record reply =
  rp_status :: nat
  rp_headers :: headers
  rp_body :: proxy_body

definition is_success :: "nat \<Rightarrow> bool" where
  "is_success status \<longleftrightarrow> 200 \<le> status \<and> status < 300"

definition build_client_response :: "backend_response \<Rightarrow> proxy_body \<Rightarrow> string \<Rightarrow> reply" where
  "build_client_response resp body request_id =
     \<lparr> rp_status = br_status resp,
       rp_headers = filter (\<lambda>(name, _). \<not> is_hop_by_hop_response_header name) (br_headers resp)
                      @ [(''x-amz-request-id'', request_id)],
       rp_body = body \<rparr>"

definition translate_response :: "backend_response \<Rightarrow> string \<Rightarrow> reply" where
  "translate_response resp request_id = build_client_response resp (passthrough (br_body resp)) request_id"

text \<open>\<open>HeaderMap::insert\<close>: the value takes the place of the first one with the name, and the others go.\<close>

fun hm_insert :: "headers \<Rightarrow> string \<Rightarrow> string \<Rightarrow> headers" where
  "hm_insert [] n v = [(n, v)]"
| "hm_insert ((k, w) # hs) n v =
     (if eq_ignore_ascii_case k n then (k, v) # remove_header n hs else (k, w) # hm_insert hs n v)"

definition set_response_header :: "'w env \<Rightarrow> string \<Rightarrow> string \<Rightarrow> reply \<Rightarrow> reply" where
  "set_response_header E name value resp =
     (if en_name_error E name \<noteq> None \<or> en_value_error E value \<noteq> None then resp
      else resp\<lparr> rp_headers := hm_insert (rp_headers resp) name value \<rparr>)"

definition strip_reply :: "reply \<Rightarrow> reply" where
  "strip_reply resp = resp\<lparr> rp_headers := strip_s3armor_metadata (rp_headers resp) \<rparr>"

text \<open>Reading a backend body to its end.\<close>

definition collect_body :: "backend_body \<Rightarrow> string + bytes" where
  "collect_body b = (case snd b of None \<Rightarrow> Inr (body_data (fst b)) | Some m \<Rightarrow> Inl m)"

text \<open>\<open>Limited::new(body, limit).collect()\<close> on the client's body.\<close>

definition collect_limited :: "nat \<Rightarrow> proxy_body \<Rightarrow> string + bytes" where
  "collect_limited limit b =
     (if length (body_data (fst b)) > limit then Inl ''length limit exceeded''
      else case snd b of Eof \<Rightarrow> Inr (body_data (fst b)) | Aborted e \<Rightarrow> Inl (e_message e) | Broken m \<Rightarrow> Inl m)"

text \<open>The body a decrypting task feeds, and its effect on the failure counter.\<close>

definition sink_body :: "sink \<Rightarrow> proxy_body" where
  "sink_body sk = (sk_frames sk, case sk_err sk of None \<Rightarrow> Eof | Some m \<Rightarrow> Broken m)"

definition io_decrypting :: "(u64 option \<Rightarrow> sink) \<Rightarrow> ('w, proxy_body) io" where
  "io_decrypting f s =
     (let sk = f (Some (ps_chunk_verify_failures (io_proxy s))) in
      (Ret (sink_body sk),
       s\<lparr> io_proxy := (io_proxy s)\<lparr> ps_chunk_verify_failures :=
            (case sk_failures sk of Some c \<Rightarrow> c | None \<Rightarrow> ps_chunk_verify_failures (io_proxy s)) \<rparr> \<rparr>))"

end
