(* ===== verification/Intercept.thy ===== *)
theory Intercept
  imports Upstream
begin

text \<open>
  What the object handlers share: routing on the stored metadata, key resolution under \<open>S3A_BIND_PATHS\<close>, the
  effective ETag (\<open>intercept/mod.rs\<close>), conditional requests (\<open>intercept/conditional.rs\<close>) and the multipart footer
  with its cache (\<open>intercept/footer.rs\<close>).
\<close>

section \<open>Routing and keys\<close>

datatype routing = V1 object_meta | PlainObject

definition meta_headers :: "headers \<Rightarrow> meta_map" where
  "meta_headers hs =
     fold (\<lambda>(k, v) m. case strip_prefix ''x-amz-meta-'' (to_ascii_lowercase k) of
                        Some rest \<Rightarrow> bt_insert rest v m | None \<Rightarrow> m) hs []"

definition route_from_headers :: "codec \<Rightarrow> headers \<Rightarrow> error + routing" where
  "route_from_headers B hs =
     (let m = meta_headers hs in
      if bt_get m KEY_VERSION \<noteq> None then rbind (from_map B m) (\<lambda>om. Inr (V1 om)) else Inr PlainObject)"

definition binding_for :: "config \<Rightarrow> string \<Rightarrow> bytes \<Rightarrow> bytes" where
  "binding_for cfg bucket key = (if cf_bind_mode cfg = Off then [] else path_binding (str_bytes bucket) key)"

definition write_binding :: "'w env \<Rightarrow> config \<Rightarrow> string \<Rightarrow> s3error + bytes" where
  "write_binding E cfg raw_path =
     (if cf_bind_mode cfg = Off then Inr []
      else
        let parsed = route_parse raw_path in
        case (r_bucket parsed, r_key parsed) of
          (Some bucket, Some key) \<Rightarrow> Inr (binding_for cfg bucket (decode_key (en_pct E) key))
        | _ \<Rightarrow>
            if cf_bind_mode cfg = Strict then
              Inl (access_denied ''S3A_BIND_PATHS=strict: cannot parse a bucket/key from this request path to bind it'')
            else Inr [])"

definition unwrap_with :: "'w env \<Rightarrow> config \<Rightarrow> object_meta \<Rightarrow> bytes \<Rightarrow> error + bytes" where
  "unwrap_with E cfg om binding =
     Keyring_unwrap (en_crypto E) (cf_keyring cfg) (m_kek om) (m_kid om) (m_wrapped_dek om) binding"

definition resolve_key_for :: "'w env \<Rightarrow> config \<Rightarrow> object_meta \<Rightarrow> string \<Rightarrow> bytes \<Rightarrow> s3error + bytes" where
  "resolve_key_for E cfg om bucket key =
     (case cf_bind_mode cfg of
        Off \<Rightarrow> map_err from_format_error (unwrap_with E cfg om [])
      | Strict \<Rightarrow> map_err from_format_error (unwrap_with E cfg om (binding_for cfg bucket key))
      | On \<Rightarrow>
          (let bound = unwrap_with E cfg om (binding_for cfg bucket key) in
           if bound = Inl UnwrapFailed then map_err from_format_error (unwrap_with E cfg om [])
           else map_err from_format_error bound))"

definition resolve_key :: "'w env \<Rightarrow> config \<Rightarrow> object_meta \<Rightarrow> string \<Rightarrow> s3error + bytes" where
  "resolve_key E cfg om raw_path =
     (let parsed = route_parse raw_path in
      case (r_bucket parsed, r_key parsed) of
        (Some bucket, Some key) \<Rightarrow> resolve_key_for E cfg om bucket (decode_key (en_pct E) key)
      | _ \<Rightarrow>
          if cf_bind_mode cfg = Strict then
            Inl (access_denied
              ''S3A_BIND_PATHS=strict: cannot parse a bucket/key from this request path to verify its binding'')
          else map_err from_format_error (unwrap_with E cfg om []))"

text \<open>Minting and wrapping, as \<open>put\<close> and \<open>mpu\<close> do it with the active key.\<close>

definition io_wrap_active :: "'w env \<Rightarrow> config \<Rightarrow> bytes \<Rightarrow> bytes \<Rightarrow> ('w, kek \<times> string \<times> bytes) io" where
  "io_wrap_active E cfg dek binding s =
     (case wrap_active (en_crypto E) (io_rng s) (cf_keyring cfg) dek binding of
        None \<Rightarrow> (Panic, s)
      | Some (Inl e) \<Rightarrow> (Err (from_format_error e), s)
      | Some (Inr (r, g)) \<Rightarrow> (Ret r, s\<lparr> io_rng := g \<rparr>))"

definition set_meta_headers :: "'w env \<Rightarrow> object_meta \<Rightarrow> headers \<Rightarrow> headers" where
  "set_meta_headers E om hs =
     fold (\<lambda>(k, v) hs. set_header hs (''x-amz-meta-'' @ k) v) (to_map (en_codec E) om) hs"

text \<open>A task that panics drops its end of the channel, so its body ends.\<close>

definition io_encrypting ::
  "'w env \<Rightarrow> proxy_body \<Rightarrow> alg \<Rightarrow> bytes \<Rightarrow> u32 \<Rightarrow> bytes option \<Rightarrow> u64 \<Rightarrow> u32 \<Rightarrow> ('w, proxy_body) io" where
  "io_encrypting E inner alg dek chunk_size expected_md5 pt_len part_number =
     io_bind io_fork_rng (\<lambda>g.
       io_return (case encrypting (c_aead (en_crypto E)) (en_md5 E) g inner alg dek (unat chunk_size) expected_md5 pt_len
                         part_number None of Some body \<Rightarrow> body | None \<Rightarrow> body_empty))"

section \<open>ETags\<close>

definition quoted :: "string \<Rightarrow> string" where
  "quoted s = [CHR 0x22] @ s @ [CHR 0x22]"

definition normalize_etag :: "string \<Rightarrow> string" where
  "normalize_etag s = trim_matches CHR 0x22 s"

definition emd5_etag :: "'w env \<Rightarrow> config \<Rightarrow> object_meta \<Rightarrow> string \<Rightarrow> string option" where
  "emd5_etag E cfg om raw_path =
     (if m_multipart om then None
      else Option.bind (m_emd5 om) (\<lambda>sealed.
           Option.bind (ok (resolve_key E cfg om raw_path)) (\<lambda>key.
             map_option (\<lambda>md5. quoted (hex_encode (en_crypto E) md5))
               (ok (open_emd5 (c_aead (en_crypto E)) (m_alg om) key sealed)))))"

definition effective_etag :: "'w env \<Rightarrow> config \<Rightarrow> routing \<Rightarrow> headers \<Rightarrow> string \<Rightarrow> string option" where
  "effective_etag E cfg r hs raw_path =
     (case (case r of V1 om \<Rightarrow> emd5_etag E cfg om raw_path | PlainObject \<Rightarrow> None) of
        Some etag \<Rightarrow> Some etag
      | None \<Rightarrow> header_value hs ''etag'')"

section \<open>Conditional requests\<close>

datatype precondition = Proceed | NotModified | Failed

record conditionals =
  cd_if_match :: "string option"
  cd_if_none_match :: "string option"

definition take_header :: "string \<Rightarrow> headers \<Rightarrow> string option \<times> headers" where
  "take_header name hs =
     (let taken = (\<lambda>(k, v). eq_ignore_ascii_case k name \<and> trim v \<noteq> ''*'');
          values = map snd (filter taken hs)
      in (if values = [] then None else Some (join '','' values), filter (\<lambda>h. \<not> taken h) hs))"

definition Conditionals_take :: "headers \<Rightarrow> conditionals \<times> headers" where
  "Conditionals_take hs =
     (let (if_match, hs) = take_header ''if-match'' hs;
          (if_none_match, hs) = take_header ''if-none-match'' hs
      in (\<lparr> cd_if_match = if_match, cd_if_none_match = if_none_match \<rparr>, hs))"

definition conds_empty :: "conditionals \<Rightarrow> bool" where
  "conds_empty c \<longleftrightarrow> cd_if_match c = None \<and> cd_if_none_match c = None"

definition normalize_tag :: "string \<Rightarrow> string" where
  "normalize_tag s =
     (let s = trim s; s = (case strip_prefix ''W/'' s of Some r \<Rightarrow> r | None \<Rightarrow> s) in normalize_etag s)"

definition list_contains :: "string \<Rightarrow> string \<Rightarrow> bool" where
  "list_contains tags target \<longleftrightarrow> list_ex (\<lambda>raw. normalize_tag raw = target) (split_on CHR '','' tags)"

definition list_contains_etag :: "string \<Rightarrow> string \<Rightarrow> bool" where
  "list_contains_etag tags etag = list_contains tags (normalize_tag etag)"

definition evaluate :: "conditionals \<Rightarrow> string \<Rightarrow> precondition" where
  "evaluate c etag =
     (let target = normalize_tag etag in
      if (case cd_if_match c of Some tags \<Rightarrow> \<not> list_contains tags target | None \<Rightarrow> False) then Failed
      else if (case cd_if_none_match c of Some tags \<Rightarrow> list_contains tags target | None \<Rightarrow> False) then NotModified
      else Proceed)"

text \<open>The \<open>expect\<close> on the builder is \<open>None\<close>: it fails on a header value that the \<open>http\<close> crate refuses.\<close>

definition not_modified_response :: "'w env \<Rightarrow> headers \<Rightarrow> string \<Rightarrow> string \<Rightarrow> reply option" where
  "not_modified_response E hs etag request_id =
     (let optional = (\<lambda>name. case header_value hs name of Some v \<Rightarrow> [(name, v)] | None \<Rightarrow> []);
          out = [(''etag'', etag), (''x-amz-request-id'', request_id)] @ optional ''last-modified'' @ optional ''cache-control''
      in if header_errors E out \<noteq> None then None
         else Some \<lparr> rp_status = 304, rp_headers = out, rp_body = body_empty \<rparr>)"

definition io_expect :: "'a option \<Rightarrow> ('w, 'a) io" where
  "io_expect r s = (case r of Some a \<Rightarrow> (Ret a, s) | None \<Rightarrow> (Panic, s))"

section \<open>The multipart footer\<close>

definition ranged_get :: "'w env \<Rightarrow> backend \<Rightarrow> string \<Rightarrow> u64 \<Rightarrow> u64 \<Rightarrow> string \<Rightarrow> ('w, bytes) io" where
  "ranged_get E be raw_path start end_inclusive what =
     io_bind (forward E be ''GET'' raw_path ''''
                (set_header [] ''range'' (''bytes='' @ dec_string (unat start) @ ''-'' @ dec_string (unat end_inclusive)))
                body_empty)
       (\<lambda>resp.
          if \<not> is_success (br_status resp) then
            io_fail (bad_gateway (''could not fetch multipart '' @ what @ '': backend returned ''
                       @ en_status_text E (br_status resp)))
          else io_lift (map_err (\<lambda>e. bad_gateway (''reading multipart '' @ what @ '': '' @ e))
                 (collect_body (br_body resp))))"

definition cache_put :: "'w env \<Rightarrow> footer_key \<Rightarrow> footer \<Rightarrow> ('w, unit) io" where
  "cache_put E key f s =
     (let cache = ps_footer_cache (io_proxy s);
          capacity = max 1 (cf_footer_cache (ps_config (io_proxy s)));
          evicted = en_lru_evicts E (io_world s) capacity cache
      in io_modify (\<lambda>ps. ps\<lparr> ps_footer_cache :=
           (\<lambda>k. if k = key then Some f else if evicted k then None else cache k) \<rparr>) s)"

text \<open>Loading a footer that is not cached: the trailer, then the frame it points at.\<close>

definition fetch_footer :: "'w env \<Rightarrow> backend \<Rightarrow> string \<Rightarrow> alg \<Rightarrow> bytes \<Rightarrow> u64 \<Rightarrow> ('w, footer) io" where
  "fetch_footer E be raw_path alg dek ct_len =
     (let t = word_of_nat TRAILER_LEN :: u64 in
      if ct_len < t then io_fail (bad_gateway ''multipart object is shorter than the footer trailer'')
      else
        io_bind (ranged_get E be raw_path (ct_len - t) (ct_len - 1) ''footer trailer'') (\<lambda>trailer.
        io_bind (io_lift (map_err (\<lambda>e. bad_gateway (''corrupt multipart footer trailer: '' @ error_string e))
                   (parse_trailer trailer))) (\<lambda>footer_len.
          let frame_end = ct_len - t in
          if footer_len > frame_end then
            io_fail (bad_gateway ''multipart footer trailer names a length larger than the object'')
          else
            io_bind (ranged_get E be raw_path (frame_end - footer_len) (frame_end - 1) ''footer frame'') (\<lambda>frame.
              io_lift (map_err from_format_error (Footer_open (c_aead (en_crypto E)) alg dek frame))))))"

definition footer_load :: "'w env \<Rightarrow> backend \<Rightarrow> string \<Rightarrow> alg \<Rightarrow> bytes \<Rightarrow> u64 \<Rightarrow> string \<Rightarrow> ('w, footer) io" where
  "footer_load E be raw_path alg dek ct_len etag =
     (let cache_key = (be_name be, raw_path, etag) in
      io_bind (io_read (\<lambda>ps. ps_footer_cache ps cache_key)) (\<lambda>cached.
        case cached of
          Some hit \<Rightarrow> io_bind (io_modify (record_footer_cache True)) (\<lambda>_. io_return hit)
        | None \<Rightarrow>
            io_bind (io_modify (record_footer_cache False)) (\<lambda>_.
            io_bind (fetch_footer E be raw_path alg dek ct_len) (\<lambda>f.
            io_bind (cache_put E cache_key f) (\<lambda>_. io_return f)))))"

end
