(* ===== verification/ObjectOps.thy ===== *)
theory ObjectOps
  imports Intercept
begin

text \<open>
  The object handlers: \<open>PutObject\<close> (\<open>intercept/put.rs\<close>), \<open>HeadObject\<close> (\<open>head.rs\<close>), \<open>GetObject\<close> whole and ranged
  (\<open>get.rs\<close>) and \<open>CopyObject\<close> (\<open>copy.rs\<close>). Each takes the environment, the backend, the raw path and query, the
  rewritten headers and the request id, as in the source.
\<close>

section \<open>PutObject\<close>

definition parse_content_md5 :: "'w env \<Rightarrow> string option \<Rightarrow> bytes option" where
  "parse_content_md5 E header =
     Option.bind (Option.bind header (decode_text (en_codec E))) (\<lambda>b. if length b = 16 then Some b else None)"

text \<open>\<open>expected_md5.map(|m| seal_emd5(...))\<close>: the generator is used only when there is a digest.\<close>

definition io_seal_emd5 :: "'w env \<Rightarrow> alg \<Rightarrow> bytes \<Rightarrow> bytes option \<Rightarrow> ('w, bytes option) io" where
  "io_seal_emd5 E alg dek expected_md5 =
     (case expected_md5 of
        None \<Rightarrow> io_return None
      | Some m \<Rightarrow> io_drawing (\<lambda>g. map_prod Some id (seal_emd5 (c_aead (en_crypto E)) g alg dek m)))"

definition put_handle ::
  "'w env \<Rightarrow> backend \<Rightarrow> string \<Rightarrow> string \<Rightarrow> headers \<Rightarrow> proxy_body \<Rightarrow> string option \<Rightarrow> string \<Rightarrow> ('w, reply) io" where
  "put_handle E be raw_path raw_query hs base_body content_md5_header request_id =
     io_bind (io_read ps_config) (\<lambda>cfg.
     io_bind (io_lift (ok_or (header_u64 hs ''content-length'') missing_content_length)) (\<lambda>pt_len.
     io_bind (io_random 32) (\<lambda>dek.
     io_bind (io_lift (write_binding E cfg raw_path)) (\<lambda>binding.
     io_bind (io_wrap_active E cfg dek binding) (\<lambda>(kek, kid, wrapped_dek).
       let expected_md5 = parse_content_md5 E content_md5_header in
     io_bind (io_seal_emd5 E (cf_alg cfg) dek expected_md5) (\<lambda>emd5.
       let om = \<lparr> m_alg = cf_alg cfg, m_kek = kek, m_kid = kid, m_wrapped_dek = wrapped_dek,
                  m_chunk_size = cf_chunk_size cfg, m_multipart = False, m_emd5 = emd5 \<rparr>;
           ct_len = ciphertext_len (cf_alg cfg) pt_len (ucast (cf_chunk_size cfg));
           hs' = set_header (set_meta_headers E om hs) ''content-length'' (dec_string (unat ct_len)) in
     io_bind (io_encrypting E base_body (cf_alg cfg) dek (cf_chunk_size cfg) expected_md5 pt_len 0) (\<lambda>body.
     io_bind (forward E be ''PUT'' raw_path raw_query hs' body) (\<lambda>backend_resp.
       let resp = translate_response backend_resp request_id in
       io_return
         (if is_success (br_status backend_resp) then
            (case expected_md5 of
               Some md5 \<Rightarrow> set_response_header E ''etag'' (quoted (hex_encode (en_crypto E) md5)) resp
             | None \<Rightarrow> resp)
          else resp)))))))))"

section \<open>HeadObject\<close>

definition no_content_length :: "string \<Rightarrow> s3error" where
  "no_content_length op = bad_gateway (''backend '' @ op @ '' returned no Content-Length'')"

definition invalid_stored_length :: s3error where
  "invalid_stored_length = bad_gateway ''stored object length is not a valid v1 ciphertext length''"

text \<open>\<open>if let Some(etag) = emd5_etag(...)\<close>, on the way out of HEAD and of a full GET.\<close>

definition set_emd5_etag :: "'w env \<Rightarrow> config \<Rightarrow> object_meta \<Rightarrow> string \<Rightarrow> reply \<Rightarrow> reply" where
  "set_emd5_etag E cfg om raw_path resp =
     (case emd5_etag E cfg om raw_path of Some etag \<Rightarrow> set_response_header E ''etag'' etag resp | None \<Rightarrow> resp)"

definition with_plain_length :: "'w env \<Rightarrow> u64 \<Rightarrow> reply \<Rightarrow> reply" where
  "with_plain_length E pt_len resp =
     strip_reply (set_response_header E ''content-length'' (dec_string (unat pt_len)) resp)"

definition etag_or_empty :: "headers \<Rightarrow> string" where
  "etag_or_empty hs = (case header_value hs ''etag'' of Some e \<Rightarrow> e | None \<Rightarrow> '''')"

text \<open>What HEAD answers from the backend's successful response, once the conditionals let it pass.\<close>

definition head_reply ::
  "'w env \<Rightarrow> config \<Rightarrow> backend \<Rightarrow> string \<Rightarrow> routing \<Rightarrow> backend_response \<Rightarrow> string \<Rightarrow> ('w, reply) io" where
  "head_reply E cfg be raw_path r backend_resp request_id =
     (case r of
        PlainObject \<Rightarrow> io_return (translate_response backend_resp request_id)
      | V1 om \<Rightarrow>
          io_bind (io_lift (ok_or (header_u64 (br_headers backend_resp) ''content-length'') (no_content_length ''HEAD''))) (\<lambda>ct_len.
            if m_multipart om then
              let etag = etag_or_empty (br_headers backend_resp) in
              io_bind (io_lift (resolve_key E cfg om raw_path)) (\<lambda>key.
              io_bind (footer_load E be raw_path (m_alg om) key ct_len etag) (\<lambda>f.
                io_return (with_plain_length E (f_total_pt f) (translate_response backend_resp request_id))))
            else
              io_bind (io_lift (map_err (\<lambda>_. invalid_stored_length)
                         (plaintext_len (m_alg om) ct_len (ucast (m_chunk_size om))))) (\<lambda>pt_len.
                io_return (set_emd5_etag E cfg om raw_path
                  (with_plain_length E pt_len (translate_response backend_resp request_id))))))"

definition head_handle :: "'w env \<Rightarrow> backend \<Rightarrow> string \<Rightarrow> string \<Rightarrow> headers \<Rightarrow> string \<Rightarrow> ('w, reply) io" where
  "head_handle E be raw_path raw_query hs request_id =
     (let (conds, hs) = Conditionals_take hs; hs = remove_header ''range'' hs in
     io_bind (io_read ps_config) (\<lambda>cfg.
     io_bind (forward E be ''HEAD'' raw_path raw_query hs body_empty) (\<lambda>backend_resp.
       if \<not> is_success (br_status backend_resp) then io_return (translate_response backend_resp request_id)
       else
     io_bind (io_lift (map_err from_format_error (route_from_headers (en_codec E) (br_headers backend_resp)))) (\<lambda>r.
       case (if conds_empty conds then None else effective_etag E cfg r (br_headers backend_resp) raw_path) of
         None \<Rightarrow> head_reply E cfg be raw_path r backend_resp request_id
       | Some etag \<Rightarrow>
           (case evaluate conds etag of
              Proceed \<Rightarrow> head_reply E cfg be raw_path r backend_resp request_id
            | NotModified \<Rightarrow> io_expect (not_modified_response E (br_headers backend_resp) etag request_id)
            | Failed \<Rightarrow> io_fail precondition_failed)))))"


section \<open>GetObject\<close>

definition check_preconditions ::
  "'w env \<Rightarrow> backend \<Rightarrow> string \<Rightarrow> string \<Rightarrow> headers \<Rightarrow> conditionals \<Rightarrow> string \<Rightarrow> ('w, reply option) io" where
  "check_preconditions E be raw_path raw_query hs conds request_id =
     io_bind (io_read ps_config) (\<lambda>cfg.
     io_bind (forward E be ''HEAD'' raw_path raw_query hs body_empty) (\<lambda>head_resp.
       if \<not> is_success (br_status head_resp) then io_return None
       else case route_from_headers (en_codec E) (br_headers head_resp) of
         Inl _ \<Rightarrow> io_return None
       | Inr r \<Rightarrow>
           (case effective_etag E cfg r (br_headers head_resp) raw_path of
              None \<Rightarrow> io_return None
            | Some etag \<Rightarrow>
                (case evaluate conds etag of
                   Proceed \<Rightarrow> io_return None
                 | NotModified \<Rightarrow>
                     io_bind (io_expect (not_modified_response E (br_headers head_resp) etag request_id)) (\<lambda>resp.
                       io_return (Some resp))
                 | Failed \<Rightarrow> io_fail precondition_failed))))"

text \<open>The reply of a full GET from the backend's successful response.\<close>

definition full_reply ::
  "'w env \<Rightarrow> config \<Rightarrow> backend \<Rightarrow> string \<Rightarrow> routing \<Rightarrow> backend_response \<Rightarrow> string \<Rightarrow> ('w, reply) io" where
  "full_reply E cfg be raw_path r backend_resp request_id =
     (case r of
        PlainObject \<Rightarrow> io_return (translate_response backend_resp request_id)
      | V1 om \<Rightarrow>
          let chunk_size = unat (m_chunk_size om); A = c_aead (en_crypto E) in
          io_bind (io_lift (ok_or (header_u64 (br_headers backend_resp) ''content-length'') (no_content_length ''GET''))) (\<lambda>ct_len.
            if m_multipart om then
              io_bind (io_lift (resolve_key E cfg om raw_path)) (\<lambda>key.
              io_bind (footer_load E be raw_path (m_alg om) key ct_len (etag_or_empty (br_headers backend_resp))) (\<lambda>f.
                let spans = part_layout (m_alg om) (ucast (m_chunk_size om)) (f_parts f) in
              io_bind (io_decrypting (decrypting_multipart A (br_body backend_resp) (m_alg om) key chunk_size spans)) (\<lambda>decrypted.
                io_return (with_plain_length E (f_total_pt f) (build_client_response backend_resp decrypted request_id)))))
            else
              io_bind (io_lift (map_err (\<lambda>_. invalid_stored_length)
                         (plaintext_len (m_alg om) ct_len (ucast (m_chunk_size om))))) (\<lambda>pt_len.
              io_bind (io_lift (resolve_key E cfg om raw_path)) (\<lambda>key.
              io_bind (io_decrypting (decrypting A (br_body backend_resp) (m_alg om) key chunk_size 0)) (\<lambda>decrypted.
                io_return (set_emd5_etag E cfg om raw_path
                  (with_plain_length E pt_len (build_client_response backend_resp decrypted request_id))))))))"

definition handle_full :: "'w env \<Rightarrow> backend \<Rightarrow> string \<Rightarrow> string \<Rightarrow> headers \<Rightarrow> string \<Rightarrow> ('w, reply) io" where
  "handle_full E be raw_path raw_query hs request_id =
     io_bind (io_read ps_config) (\<lambda>cfg.
     io_bind (forward E be ''GET'' raw_path raw_query hs body_empty) (\<lambda>backend_resp.
       if \<not> is_success (br_status backend_resp) then io_return (translate_response backend_resp request_id)
       else
         io_bind (io_lift (map_err from_format_error (route_from_headers (en_codec E) (br_headers backend_resp)))) (\<lambda>r.
           full_reply E cfg be raw_path r backend_resp request_id)))"

text \<open>A parsed range: the start and end of a \<open>bytes=\<close> range, or the length of a suffix.\<close>

type_synonym byte_range = "u64 option \<times> u64 option"

definition parse_byte_range :: "string \<Rightarrow> byte_range option" where
  "parse_byte_range v =
     Option.bind (strip_prefix ''bytes='' v) (\<lambda>spec.
       if CHR '','' \<in> set spec then None
       else Option.bind (split_once CHR ''-'' spec) (\<lambda>(a, b).
         if a = '''' \<and> b = '''' then None
         else if a = '''' then map_option (\<lambda>n. (None, Some n)) (parse_u64 b)
         else if b = '''' then map_option (\<lambda>n. (Some n, None)) (parse_u64 a)
         else Option.bind (parse_u64 a) (\<lambda>n. map_option (\<lambda>m. (Some n, Some m)) (parse_u64 b))))"

definition saturating_add1 :: "u64 \<Rightarrow> u64" where
  "saturating_add1 n = (if n = - 1 then - 1 else n + 1)"

definition resolve_range :: "byte_range \<Rightarrow> u64 \<Rightarrow> u64 \<times> u64" where
  "resolve_range rng pt_len =
     (case rng of
        (Some start, Some end_inclusive) \<Rightarrow>
          (let start = min start pt_len in (start, max (min (saturating_add1 end_inclusive) pt_len) start))
      | (Some start, None) \<Rightarrow> (min start pt_len, pt_len)
      | (None, Some n) \<Rightarrow> (saturating_sub pt_len n, pt_len)
      | (None, None) \<Rightarrow> (0, pt_len))"

definition range_header :: "u64 \<Rightarrow> u64 \<Rightarrow> string" where
  "range_header start stop =
     ''bytes='' @ dec_string (unat start) @ ''-'' @ dec_string (unat (saturating_sub stop 1))"

text \<open>Status 206 with the plaintext range and length, on the backend's headers.\<close>

definition partial_reply :: "'w env \<Rightarrow> backend_response \<Rightarrow> proxy_body \<Rightarrow> u64 \<Rightarrow> u64 \<Rightarrow> u64 \<Rightarrow> u64 \<Rightarrow> string \<Rightarrow> reply" where
  "partial_reply E resp body start last_byte pt_len len request_id =
     (let r = (build_client_response resp body request_id)\<lparr> rp_status := 206 \<rparr>;
          r = set_response_header E ''content-range''
                (''bytes '' @ dec_string (unat start) @ ''-'' @ dec_string (unat last_byte) @ ''/'' @ dec_string (unat pt_len)) r
      in strip_reply (set_response_header E ''content-length'' (dec_string (unat len)) r))"

definition ranged_multipart ::
  "'w env \<Rightarrow> config \<Rightarrow> backend \<Rightarrow> string \<Rightarrow> string \<Rightarrow> headers \<Rightarrow> byte_range \<Rightarrow> object_meta \<Rightarrow> backend_response \<Rightarrow> string \<Rightarrow> ('w, reply) io" where
  "ranged_multipart E cfg be raw_path raw_query hs rng om head_resp request_id =
     io_bind (io_lift (ok_or (header_u64 (br_headers head_resp) ''content-length'') (no_content_length ''HEAD''))) (\<lambda>ct_len.
     io_bind (io_lift (resolve_key E cfg om raw_path)) (\<lambda>key.
     io_bind (footer_load E be raw_path (m_alg om) key ct_len (etag_or_empty (br_headers head_resp))) (\<lambda>f.
       let pt_len = f_total_pt f; (start, stop) = resolve_range rng pt_len;
           spans = part_layout (m_alg om) (ucast (m_chunk_size om)) (f_parts f) in
     io_bind (io_lift (map_err (\<lambda>_. invalid_range)
                (plan_multipart_range spans (m_alg om) (ucast (m_chunk_size om)) start stop))) (\<lambda>plan.
       case plan of
         [] \<Rightarrow> io_return (partial_reply E head_resp body_empty start start pt_len 0 request_id)
       | first_entry # _ \<Rightarrow>
           let last_entry = List.last plan;
               global_start = ps_ct_start (fst first_entry) + ct_start (snd first_entry);
               global_end = ps_ct_start (fst last_entry) + ct_end (snd last_entry) in
           io_bind (forward E be ''GET'' raw_path raw_query
                      (set_header hs ''range'' (range_header global_start global_end)) body_empty) (\<lambda>backend_resp.
             if \<not> is_success (br_status backend_resp) then io_return (translate_response backend_resp request_id)
             else
               io_bind (io_decrypting (decrypting_multipart_range (c_aead (en_crypto E)) (br_body backend_resp) (m_alg om)
                          key (unat (m_chunk_size om)) plan)) (\<lambda>decrypted.
                 io_return (partial_reply E backend_resp decrypted start (if stop > start then stop - 1 else start)
                   pt_len (stop - start) request_id)))))))"

definition ranged_single ::
  "'w env \<Rightarrow> config \<Rightarrow> backend \<Rightarrow> string \<Rightarrow> string \<Rightarrow> headers \<Rightarrow> byte_range \<Rightarrow> object_meta \<Rightarrow> backend_response \<Rightarrow> string \<Rightarrow> ('w, reply) io" where
  "ranged_single E cfg be raw_path raw_query hs rng om head_resp request_id =
     io_bind (io_lift (ok_or (header_u64 (br_headers head_resp) ''content-length'') (no_content_length ''HEAD''))) (\<lambda>ct_len.
     io_bind (io_lift (map_err (\<lambda>_. invalid_stored_length)
                (plaintext_len (m_alg om) ct_len (ucast (m_chunk_size om))))) (\<lambda>pt_len.
       let (start, stop) = resolve_range rng pt_len in
     io_bind (io_lift (map_err (\<lambda>_. invalid_range)
                (plan_range (m_alg om) pt_len (ucast (m_chunk_size om)) start stop))) (\<lambda>plan.
     io_bind (io_lift (resolve_key E cfg om raw_path)) (\<lambda>key.
     io_bind (forward E be ''GET'' raw_path raw_query
                (set_header hs ''range'' (range_header (ct_start plan) (ct_end plan))) body_empty) (\<lambda>backend_resp.
       if \<not> is_success (br_status backend_resp) then io_return (translate_response backend_resp request_id)
       else
         io_bind (io_decrypting (decrypting_range (c_aead (en_crypto E)) (br_body backend_resp) (m_alg om) key
                    (unat (m_chunk_size om)) plan (n_chunks pt_len (ucast (m_chunk_size om))))) (\<lambda>decrypted.
           io_return (partial_reply E backend_resp decrypted start (if stop > start then stop - 1 else start)
             pt_len (stop - start) request_id)))))))"

definition handle_ranged ::
  "'w env \<Rightarrow> backend \<Rightarrow> string \<Rightarrow> string \<Rightarrow> headers \<Rightarrow> byte_range \<Rightarrow> string \<Rightarrow> ('w, reply) io" where
  "handle_ranged E be raw_path raw_query hs rng request_id =
     (let plain_get = io_bind (forward E be ''GET'' raw_path raw_query hs body_empty) (\<lambda>backend_resp.
            io_return (translate_response backend_resp request_id)) in
      io_bind (io_read ps_config) (\<lambda>cfg.
      io_bind (forward E be ''HEAD'' raw_path raw_query (remove_header ''range'' hs) body_empty) (\<lambda>head_resp.
        if \<not> is_success (br_status head_resp) then plain_get
        else
          io_bind (io_lift (map_err from_format_error (route_from_headers (en_codec E) (br_headers head_resp)))) (\<lambda>r.
            case r of
              PlainObject \<Rightarrow> plain_get
            | V1 om \<Rightarrow>
                if m_multipart om then ranged_multipart E cfg be raw_path raw_query hs rng om head_resp request_id
                else ranged_single E cfg be raw_path raw_query hs rng om head_resp request_id))))"

definition get_handle :: "'w env \<Rightarrow> backend \<Rightarrow> string \<Rightarrow> string \<Rightarrow> headers \<Rightarrow> string \<Rightarrow> ('w, reply) io" where
  "get_handle E be raw_path raw_query hs request_id =
     (let (conds, hs) = Conditionals_take hs in
      io_bind (if conds_empty conds then io_return None
               else check_preconditions E be raw_path raw_query hs conds request_id) (\<lambda>early.
        case early of
          Some resp \<Rightarrow> io_return resp
        | None \<Rightarrow>
            (case Option.bind (header_value hs ''range'') parse_byte_range of
               None \<Rightarrow> handle_full E be raw_path raw_query (remove_header ''range'' hs) request_id
             | Some rng \<Rightarrow> handle_ranged E be raw_path raw_query hs rng request_id)))"


section \<open>CopyObject\<close>

text \<open>The first header of the name, if its list names the effective ETag.\<close>

fun translate_first :: "string \<Rightarrow> string \<Rightarrow> string \<Rightarrow> headers \<Rightarrow> headers" where
  "translate_first name effective backend_etag [] = []"
| "translate_first name effective backend_etag ((k, v) # hs) =
     (if eq_ignore_ascii_case k name then (k, if list_contains_etag v effective then backend_etag else v) # hs
      else (k, v) # translate_first name effective backend_etag hs)"

definition translate_copy_source_conditionals :: "headers \<Rightarrow> string \<Rightarrow> string \<Rightarrow> headers" where
  "translate_copy_source_conditionals hs effective backend_etag =
     translate_first ''x-amz-copy-source-if-none-match'' effective backend_etag
       (translate_first ''x-amz-copy-source-if-match'' effective backend_etag hs)"

definition rewrap_headers :: "'w env \<Rightarrow> headers \<Rightarrow> headers \<Rightarrow> object_meta \<Rightarrow> headers" where
  "rewrap_headers E hs src_head_headers new_meta =
     (let copy_headers = filter (\<lambda>(k, _). \<not> eq_ignore_ascii_case k ''x-amz-metadata-directive''
              \<and> (\<not> starts_with (to_ascii_lowercase k) ''x-amz-meta-'' \<or> \<not> is_own_metadata_header k)) hs;
          copy_headers = set_header copy_headers ''x-amz-metadata-directive'' ''REPLACE'';
          copy_headers = (case header_value src_head_headers ''content-type'' of
                            Some ct \<Rightarrow> set_header copy_headers ''content-type'' ct | None \<Rightarrow> copy_headers);
          copy_headers = fold (\<lambda>(k, v) hs.
              if starts_with (to_ascii_lowercase k) ''x-amz-meta-'' \<and> \<not> is_own_metadata_header k
              then set_header hs k v else hs) src_head_headers copy_headers
      in set_meta_headers E new_meta copy_headers)"

definition rewrap_copy ::
  "'w env \<Rightarrow> config \<Rightarrow> backend \<Rightarrow> string \<Rightarrow> string \<Rightarrow> headers \<Rightarrow> headers \<Rightarrow> string \<Rightarrow> string \<Rightarrow> object_meta \<Rightarrow> string \<Rightarrow> ('w, reply) io" where
  "rewrap_copy E cfg be raw_path raw_query hs src_head_headers src_bucket src_key om request_id =
     (let dest = route_parse raw_path in
      case (r_bucket dest, r_key dest) of
        (Some dest_bucket, Some dest_key) \<Rightarrow>
          io_bind (io_lift (resolve_key_for E cfg om src_bucket (decode_key (en_pct E) src_key))) (\<lambda>dek.
          io_bind (io_wrap_active E cfg dek (binding_for cfg dest_bucket (decode_key (en_pct E) dest_key)))
            (\<lambda>(new_kek, new_kid, wrapped_dek).
              let new_meta = om\<lparr> m_kek := new_kek, m_kid := new_kid, m_wrapped_dek := wrapped_dek \<rparr> in
          io_bind (forward E be ''PUT'' raw_path raw_query (rewrap_headers E hs src_head_headers new_meta) body_empty)
            (\<lambda>backend_resp. io_return (translate_response backend_resp request_id))))
      | _ \<Rightarrow> io_fail (bad_gateway ''CopyObject destination has no bucket/key''))"

definition replace_refused :: s3error where
  "replace_refused = S3Error_new 400 ''InvalidArgument''
     ''metadata-directive REPLACE would drop this object's v1 encryption metadata; re-encrypt it through a PUT instead''"

text \<open>The copy once the source's headers are known.\<close>

definition copy_known ::
  "'w env \<Rightarrow> config \<Rightarrow> backend \<Rightarrow> string \<Rightarrow> string \<Rightarrow> headers \<Rightarrow> headers \<Rightarrow> string \<Rightarrow> string \<Rightarrow> routing \<Rightarrow> string \<Rightarrow> ('w, reply) io" where
  "copy_known E cfg be raw_path raw_query hs head_headers src_bucket src_key r request_id =
     (let src_path = ''/'' @ src_bucket @ ''/'' @ src_key;
          hs = (case (effective_etag E cfg r head_headers src_path, header_value head_headers ''etag'') of
                  (Some effective, Some backend_etag) \<Rightarrow>
                    if effective \<noteq> backend_etag then translate_copy_source_conditionals hs effective backend_etag else hs
                | _ \<Rightarrow> hs);
          is_replace = (case header_value hs ''x-amz-metadata-directive'' of
                          Some v \<Rightarrow> eq_ignore_ascii_case v ''REPLACE'' | None \<Rightarrow> False);
          plain_copy = io_bind (forward E be ''PUT'' raw_path raw_query hs body_empty) (\<lambda>backend_resp.
            io_return (translate_response backend_resp request_id))
      in case r of
           PlainObject \<Rightarrow> plain_copy
         | V1 om \<Rightarrow>
             if is_replace then io_fail replace_refused
             else if cf_bind_mode cfg \<noteq> Off then
               rewrap_copy E cfg be raw_path raw_query hs head_headers src_bucket src_key om request_id
             else plain_copy)"

definition copy_handle :: "'w env \<Rightarrow> backend \<Rightarrow> string \<Rightarrow> string \<Rightarrow> headers \<Rightarrow> string \<Rightarrow> ('w, reply) io" where
  "copy_handle E be raw_path raw_query hs request_id =
     io_bind (io_read ps_config) (\<lambda>cfg.
     io_bind (io_lift (ok_or (header_value hs ''x-amz-copy-source'')
                (bad_gateway ''CopyObject routed with no x-amz-copy-source''))) (\<lambda>copy_source.
       case parse_copy_source copy_source of
         None \<Rightarrow> io_fail (bad_gateway ''malformed x-amz-copy-source'')
       | Some source \<Rightarrow>
           (case (r_bucket source, r_key source) of
              (Some src_bucket, Some src_key) \<Rightarrow>
                io_bind (forward E be ''HEAD'' (''/'' @ src_bucket @ ''/'' @ src_key) '''' [] body_empty) (\<lambda>head_resp.
                  if \<not> is_success (br_status head_resp) then
                    io_bind (forward E be ''PUT'' raw_path raw_query hs body_empty) (\<lambda>backend_resp.
                      io_return (translate_response backend_resp request_id))
                  else
                    io_bind (io_lift (map_err from_format_error
                               (route_from_headers (en_codec E) (br_headers head_resp)))) (\<lambda>r.
                      copy_known E cfg be raw_path raw_query hs (br_headers head_resp) src_bucket src_key r request_id))
            | _ \<Rightarrow> io_fail (bad_gateway ''malformed x-amz-copy-source''))))"

end
