(* ===== verification/MpuOps.thy ===== *)
theory MpuOps
  imports Intercept
begin

text \<open>
  The multipart handlers (\<open>intercept/mpu.rs\<close>): create, upload part, complete and abort, with the XML of
  \<open>CompleteMultipartUpload\<close> read and written. The events of the XML reader and its unescaping are parameters of the
  environment. \<open>ObjectOps\<close> has the handlers for whole objects.
\<close>

section \<open>Requests\<close>

definition MIN_PART_SIZE :: u64 where
  "MIN_PART_SIZE = 5 * 1024 * 1024"

definition MAX_COMPLETE_XML_BYTES :: nat where
  "MAX_COMPLETE_XML_BYTES = 4 * 1024 * 1024"

definition CAP_MESSAGE :: string where
  "CAP_MESSAGE = ''This node holds too many open multipart uploads; retry later.''"

definition bucket_key :: "string \<Rightarrow> s3error + (string \<times> string)" where
  "bucket_key raw_path =
     (let r = route_parse raw_path in
      case (r_bucket r, r_key r) of
        (Some b, Some k) \<Rightarrow> Inr (b, k)
      | _ \<Rightarrow> Inl (bad_gateway ''multipart operation with no bucket/key''))"

definition query_value :: "'w env \<Rightarrow> string \<Rightarrow> string \<Rightarrow> string option" where
  "query_value E raw_query name =
     find_map (\<lambda>pair.
         if pair = '''' then None
         else
           let (k, v) = split_pair pair in
           if \<not> eq_ignore_ascii_case k name then None
           else Some (decode_utf8_lossy (en_pct E) (percent_decode (en_pct E) v)))
       (split_on CHR ''&'' raw_query)"

section \<open>XML\<close>

fun single_tag_loop :: "'w env \<Rightarrow> string \<Rightarrow> string \<Rightarrow> xml_event list \<Rightarrow> string option" where
  "single_tag_loop E tag current [] = None"
| "single_tag_loop E tag current (XStart name # evs) = single_tag_loop E tag name evs"
| "single_tag_loop E tag current (XText t # evs) =
     (if current = tag then ok (en_xml_unescape E t) else single_tag_loop E tag current evs)"
| "single_tag_loop E tag current (_ # evs) = single_tag_loop E tag current evs"

definition parse_single_tag :: "'w env \<Rightarrow> bytes \<Rightarrow> string \<Rightarrow> string option" where
  "parse_single_tag E xml tag =
     single_tag_loop E tag '''' (fst (en_xml_events E (decode_utf8_lossy (en_pct E) xml)))"

fun parts_ascending :: "(u32 \<times> string) list \<Rightarrow> bool" where
  "parts_ascending (a # b # ps) \<longleftrightarrow> fst a < fst b \<and> parts_ascending (b # ps)"
| "parts_ascending _ \<longleftrightarrow> True"

definition event_text :: "'w env \<Rightarrow> string \<Rightarrow> s3error + string" where
  "event_text E t = map_err bad_gateway (en_xml_unescape E t)"

definition assign_part_field :: "string \<Rightarrow> string \<Rightarrow> u32 option \<times> string option \<Rightarrow> u32 option \<times> string option" where
  "assign_part_field tag text p =
     (if tag = ''PartNumber'' then (parse_u32 text, snd p)
      else if tag = ''ETag'' then (fst p, Some text)
      else p)"

text \<open>The loop over the events: the element last opened, the fields of the part at hand, and the parts so far. A
  \<open>take\<close> empties both fields at the end of a part.\<close>

fun complete_loop ::
  "'w env \<Rightarrow> string \<Rightarrow> u32 option \<times> string option \<Rightarrow> (u32 \<times> string) list \<Rightarrow> xml_event list \<Rightarrow> string option
     \<Rightarrow> s3error + (u32 \<times> string) list" where
  "complete_loop E current p parts [] fin =
     (case fin of None \<Rightarrow> Inr parts | Some e \<Rightarrow> Inl (bad_gateway (''invalid CompleteMultipartUpload XML: '' @ e)))"
| "complete_loop E current p parts (XStart name # evs) fin =
     complete_loop E name (if name = ''Part'' then (None, None) else p) parts evs fin"
| "complete_loop E current p parts (XText t # evs) fin =
     rbind (event_text E t) (\<lambda>text. complete_loop E current (assign_part_field current text p) parts evs fin)"
| "complete_loop E current p parts (XEnd name # evs) fin =
     (if name = ''Part'' then
        (case p of
           (Some n, Some t) \<Rightarrow> complete_loop E current (None, None) (parts @ [(n, t)]) evs fin
         | _ \<Rightarrow> complete_loop E current (None, None) parts evs fin)
      else complete_loop E current p parts evs fin)"
| "complete_loop E current p parts (XOther # evs) fin = complete_loop E current p parts evs fin"

definition parse_complete_xml :: "'w env \<Rightarrow> bytes \<Rightarrow> s3error + (u32 \<times> string) list" where
  "parse_complete_xml E body =
     (if \<not> utf8_valid body then Inl (bad_gateway ''CompleteMultipartUpload body is not valid UTF-8'')
      else
        let (evs, fin) = en_xml_events E (bytes_str body)
        in complete_loop E '''' (None, None) [] evs fin)"

definition xml_escape :: "string \<Rightarrow> string" where
  "xml_escape s = concat (map xml_char s)"

definition part_element :: "u32 \<times> string \<Rightarrow> string" where
  "part_element p =
     ''<Part><PartNumber>'' @ dec_string (unat (fst p)) @ ''</PartNumber><ETag>'' @ xml_escape (snd p)
     @ ''</ETag></Part>''"

definition build_complete_xml :: "(u32 \<times> string) list \<Rightarrow> string" where
  "build_complete_xml parts =
     ''<?xml version='' @ [CHR 0x22] @ ''1.0'' @ [CHR 0x22] @ '' encoding='' @ [CHR 0x22] @ ''UTF-8'' @ [CHR 0x22]
     @ ''?>'' @ [CHR 0x0A] @ ''<CompleteMultipartUpload>'' @ concat (map part_element parts)
     @ ''</CompleteMultipartUpload>''"

section \<open>Create\<close>

text \<open>The table is only touched through these two: a decision with an effect, and a change in place.\<close>

definition io_sessions :: "(session_key sessions \<Rightarrow> 'a \<times> session_key sessions) \<Rightarrow> ('w, 'a) io" where
  "io_sessions f s =
     (let (a, ss) = f (ps_sessions (io_proxy s)) in (Ret a, s\<lparr> io_proxy := (io_proxy s)\<lparr> ps_sessions := ss \<rparr> \<rparr>))"

definition io_update_session :: "session_key \<Rightarrow> (session \<Rightarrow> session) \<Rightarrow> ('w, unit) io" where
  "io_update_session key f = io_sessions (\<lambda>ss. ((), ss_update key f ss))"

definition handle_create :: "'w env \<Rightarrow> backend \<Rightarrow> string \<Rightarrow> string \<Rightarrow> headers \<Rightarrow> string \<Rightarrow> ('w, reply) io" where
  "handle_create E be raw_path raw_query hs request_id =
     io_bind (io_sessions make_room) (\<lambda>room.
       if \<not> room then io_fail (slow_down CAP_MESSAGE)
       else
     io_bind (io_read ps_config) (\<lambda>cfg.
     io_bind (io_random 32) (\<lambda>dek.
     io_bind (io_lift (write_binding E cfg raw_path)) (\<lambda>binding.
     io_bind (io_wrap_active E cfg dek binding) (\<lambda>(kek, kid, wrapped_dek).
       let om = \<lparr> m_alg = cf_alg cfg, m_kek = kek, m_kid = kid, m_wrapped_dek = wrapped_dek,
                  m_chunk_size = cf_chunk_size cfg, m_multipart = True, m_emd5 = None \<rparr> in
     io_bind (forward E be ''POST'' raw_path raw_query (set_meta_headers E om hs) body_empty) (\<lambda>backend_resp.
       if \<not> is_success (br_status backend_resp) then io_return (translate_response backend_resp request_id)
       else
     io_bind (io_lift (map_err (\<lambda>e. bad_gateway (''reading InitiateMultipartUpload body: '' @ e))
                (collect_body (br_body backend_resp)))) (\<lambda>xml.
     io_bind (io_lift (ok_or (parse_single_tag E xml ''UploadId'')
                (bad_gateway ''backend did not return an UploadId''))) (\<lambda>upload_id.
     io_bind (io_lift (bucket_key raw_path)) (\<lambda>(bucket, key).
     io_bind (io_instant_now E) (\<lambda>now.
     io_bind (io_sessions (Sessions_create now (be_name be, bucket, key, upload_id) dek (cf_alg cfg) (cf_chunk_size cfg))) (\<lambda>created.
       if \<not> created then io_fail (slow_down CAP_MESSAGE)
       else
     io_bind (io_modify record_mpu_session_created) (\<lambda>_.
       io_return (build_client_response backend_resp (body_full xml) request_id)))))))))))))"


section \<open>Upload part\<close>

definition record_part :: "'w env \<Rightarrow> session_key \<Rightarrow> u32 \<Rightarrow> u64 \<Rightarrow> string \<Rightarrow> bytes option \<Rightarrow> ('w, unit) io" where
  "record_part E key part_number pt_len etag ct =
     io_bind (io_instant_now E) (\<lambda>now. io_update_session key (Session_record_part now part_number pt_len etag ct))"

text \<open>The reason the wrapper of the client's body has recorded when \<open>collect_limited\<close> stops; it has not seen the
  end of a body that was cut at the limit.\<close>

definition collect_abort :: "nat \<Rightarrow> proxy_body \<Rightarrow> s3error option" where
  "collect_abort limit b = (if length (body_data (fst b)) > limit then None else abort_reason b)"

definition io_encrypt_all :: "'w env \<Rightarrow> alg \<Rightarrow> bytes \<Rightarrow> u32 \<Rightarrow> u32 \<Rightarrow> bytes \<Rightarrow> ('w, bytes) io" where
  "io_encrypt_all E alg dek part_number chunk_size plaintext s =
     (case encrypt_all (c_aead (en_crypto E)) (io_rng s) alg dek part_number (unat chunk_size) plaintext of
        None \<Rightarrow> (Panic, s)
      | Some (ct, g) \<Rightarrow> (Ret ct, s\<lparr> io_rng := g \<rparr>))"

text \<open>The two ways of sending a part: read whole, encrypted and kept when it may be the last one, or streamed.\<close>

definition send_small_part ::
  "'w env \<Rightarrow> backend \<Rightarrow> string \<Rightarrow> string \<Rightarrow> headers \<Rightarrow> proxy_body \<Rightarrow> alg \<Rightarrow> bytes \<Rightarrow> u32 \<Rightarrow> u64 \<Rightarrow> u32
     \<Rightarrow> ('w, backend_response \<times> bytes option) io" where
  "send_small_part E be raw_path raw_query hs base_body alg dek chunk_size pt_len part_number =
     io_bind (io_lift (map_err (\<lambda>e. case collect_abort (unat pt_len) base_body of
                                    Some r \<Rightarrow> r | None \<Rightarrow> bad_gateway (''reading part body: '' @ e))
                (collect_limited (unat pt_len) base_body))) (\<lambda>plaintext.
       if length plaintext \<noteq> unat pt_len then
         io_fail (bad_gateway ''declared decoded length does not match the streamed body'')
       else
     io_bind (io_encrypt_all E alg dek part_number chunk_size plaintext) (\<lambda>ct.
     io_bind (forward E be ''PUT'' raw_path raw_query
                (set_header hs ''content-length'' (dec_string (length ct))) (body_full ct)) (\<lambda>resp.
       io_return (resp, Some ct))))"

definition send_large_part ::
  "'w env \<Rightarrow> backend \<Rightarrow> string \<Rightarrow> string \<Rightarrow> headers \<Rightarrow> proxy_body \<Rightarrow> alg \<Rightarrow> bytes \<Rightarrow> u32 \<Rightarrow> u64 \<Rightarrow> u32
     \<Rightarrow> ('w, backend_response \<times> bytes option) io" where
  "send_large_part E be raw_path raw_query hs base_body alg dek chunk_size pt_len part_number =
     io_bind (io_encrypting E base_body alg dek chunk_size None pt_len part_number) (\<lambda>body.
     io_bind (forward E be ''PUT'' raw_path raw_query
                (set_header hs ''content-length'' (dec_string (unat (ciphertext_len alg pt_len (ucast chunk_size))))) body)
       (\<lambda>resp. io_return (resp, None)))"

definition handle_upload_part ::
  "'w env \<Rightarrow> backend \<Rightarrow> string \<Rightarrow> string \<Rightarrow> headers \<Rightarrow> proxy_body \<Rightarrow> string \<Rightarrow> ('w, reply) io" where
  "handle_upload_part E be raw_path raw_query hs base_body request_id =
     io_bind (io_lift (ok_or (query_value E raw_query ''uploadId'') (bad_gateway ''no uploadId''))) (\<lambda>upload_id.
     io_bind (io_lift (ok_or (Option.bind (query_value E raw_query ''partNumber'') parse_u32)
                (bad_gateway ''no or invalid partNumber''))) (\<lambda>part_number.
       if \<not> (1 \<le> part_number \<and> part_number \<le> 10000) then
         io_fail (invalid_part ''partNumber must be between 1 and 10000'')
       else
     io_bind (io_lift (bucket_key raw_path)) (\<lambda>(bucket, key).
       let session_key = (be_name be, bucket, key, upload_id) in
     io_bind (io_read (\<lambda>ps. ss_get (ps_sessions ps) session_key)) (\<lambda>entry.
     io_bind (io_lift (ok_or entry (no_such_upload upload_id))) (\<lambda>entry.
     io_bind (io_lift (ok_or (s_dek entry) (no_such_upload upload_id))) (\<lambda>dek.
     io_bind (io_lift (ok_or (header_u64 hs ''content-length'') missing_content_length)) (\<lambda>pt_len.
     io_bind
       ((if ciphertext_len (s_alg entry) pt_len (ucast (s_chunk_size entry)) < MIN_PART_SIZE
         then send_small_part else send_large_part)
          E be raw_path raw_query hs base_body (s_alg entry) dek (s_chunk_size entry) pt_len part_number)
       (\<lambda>(backend_resp, buffered_ct).
         if \<not> is_success (br_status backend_resp) then io_return (translate_response backend_resp request_id)
         else
     io_bind (io_lift (ok_or (header_value (br_headers backend_resp) ''etag'')
                (bad_gateway ''backend UploadPart returned no ETag''))) (\<lambda>etag.
     io_bind (record_part E session_key part_number pt_len etag buffered_ct) (\<lambda>_.
       io_return (translate_response backend_resp request_id)))))))))))"


section \<open>Complete\<close>

text \<open>The answer of a finished upload, from the session; \<open>None\<close> is the panic on an invalid recorded header.\<close>

definition cached_response :: "'w env \<Rightarrow> cached_complete \<Rightarrow> string \<Rightarrow> reply option" where
  "cached_response E cached request_id =
     (let hs = filter (\<lambda>(name, _). \<not> is_hop_by_hop_response_header name) (ca_headers cached) in
      if header_errors E hs \<noteq> None then None
      else Some (set_response_header E ''x-amz-request-id'' request_id
                   \<lparr> rp_status = ca_status cached, rp_headers = hs, rp_body = body_full (ca_body cached) \<rparr>))"

definition cached_response_for_session :: "'w env \<Rightarrow> session_key \<Rightarrow> string \<Rightarrow> string \<Rightarrow> ('w, reply option) io" where
  "cached_response_for_session E key upload_id request_id =
     io_bind (io_read (\<lambda>ps. ss_get (ps_sessions ps) key)) (\<lambda>entry.
     io_bind (io_lift (ok_or entry (no_such_upload upload_id))) (\<lambda>entry.
       case s_completed entry of
         Some cached \<Rightarrow> io_bind (io_expect (cached_response E cached request_id)) (\<lambda>resp. io_return (Some resp))
       | None \<Rightarrow> io_return None))"

definition validate_client_parts :: "(u32 \<times> string) list \<Rightarrow> s3error + u32" where
  "validate_client_parts client_parts =
     (if client_parts = [] then Inl (invalid_part ''CompleteMultipartUpload request lists no parts'')
      else if \<not> parts_ascending client_parts then Inl invalid_part_order
      else Inr (Max (set (map fst client_parts))))"

record parts_snapshot =
  sn_alg :: alg
  sn_dek :: bytes
  sn_chunk_size :: u32
  sn_parts :: "(u32 \<times> u64) list"
  sn_tail :: "bytes option"

fun check_recorded :: "(u32, part_record) btree \<Rightarrow> (u32 \<times> string) list \<Rightarrow> s3error + unit" where
  "check_recorded recorded [] = Inr ()"
| "check_recorded recorded ((number, client_etag) # ps) =
     (case bt_get recorded number of
        None \<Rightarrow> Inl (invalid_part (''part '' @ dec_string (unat number) @ '' was never uploaded''))
      | Some r \<Rightarrow>
          if normalize_etag (pr_etag r) \<noteq> normalize_etag client_etag then
            Inl (invalid_part (''part '' @ dec_string (unat number) @ '' ETag does not match what this node recorded''))
          else check_recorded recorded ps)"

text \<open>The index into the recorded parts cannot fail after the check.\<close>

definition snapshot_for_complete :: "session \<Rightarrow> (u32 \<times> string) list \<Rightarrow> u32 \<Rightarrow> string \<Rightarrow> s3error + parts_snapshot" where
  "snapshot_for_complete entry client_parts last_number upload_id =
     rbind (check_recorded (s_parts entry) client_parts) (\<lambda>_.
     rbind (ok_or (s_dek entry) (no_such_upload upload_id)) (\<lambda>dek.
       Inr \<lparr> sn_alg = s_alg entry, sn_dek = dek, sn_chunk_size = s_chunk_size entry,
             sn_parts = map (\<lambda>(n, _). (n, case bt_get (s_parts entry) n of Some r \<Rightarrow> pr_pt_len r | None \<Rightarrow> 0)) client_parts,
             sn_tail = bt_get (s_tails entry) last_number \<rparr>))"

definition ensure_last_part_ok :: "bytes option \<Rightarrow> (u32 \<times> u64) list \<Rightarrow> u32 \<Rightarrow> alg \<Rightarrow> u32 \<Rightarrow> s3error + unit" where
  "ensure_last_part_ok tail_ct parts last_number alg chunk_size =
     (if tail_ct = None \<and>
         ciphertext_len alg (case map_of parts last_number of Some len \<Rightarrow> len | None \<Rightarrow> 0) (ucast chunk_size) < MIN_PART_SIZE
      then Inl (invalid_part (''part '' @ dec_string (unat last_number)
             @ '' is under S3's 5 MiB minimum and is no longer buffered on this node (displaced by a higher part number, or the session's tail buffer is full); re-upload it as the highest part number and complete again''))
      else Inr ())"

definition claim_completion :: "'w env \<Rightarrow> session_key \<Rightarrow> string \<Rightarrow> string \<Rightarrow> ('w, reply option) io" where
  "claim_completion E key upload_id request_id =
     io_bind (io_read (\<lambda>ps. ss_get (ps_sessions ps) key)) (\<lambda>entry.
     io_bind (io_lift (ok_or entry (no_such_upload upload_id))) (\<lambda>entry.
       case s_completed entry of
         Some cached \<Rightarrow> io_bind (io_expect (cached_response E cached request_id)) (\<lambda>resp. io_return (Some resp))
       | None \<Rightarrow>
           if s_completing entry then
             io_fail (slow_down ''A Complete for this upload is already in progress; retry later.'')
           else io_bind (io_update_session key (\<lambda>s. s\<lparr> s_completing := True \<rparr>)) (\<lambda>_. io_return None)))"

definition upload_raw_part :: "'w env \<Rightarrow> backend \<Rightarrow> string \<Rightarrow> string \<Rightarrow> u32 \<Rightarrow> bytes \<Rightarrow> ('w, string) io" where
  "upload_raw_part E be raw_path upload_id part_number ct =
     io_bind (forward E be ''PUT'' raw_path
                (''partNumber='' @ dec_string (unat part_number) @ ''&uploadId=''
                   @ percent_encode (en_pct E) NON_ALPHANUMERIC (str_bytes upload_id))
                (set_header [] ''content-length'' (dec_string (length ct))) (body_full ct)) (\<lambda>resp.
       if \<not> is_success (br_status resp) then
         io_fail (bad_gateway (''footer part upload failed: '' @ en_status_text E (br_status resp)))
       else io_lift (ok_or (header_value (br_headers resp) ''etag'') (bad_gateway ''footer part upload returned no ETag'')))"

definition finalize_parts ::
  "'w env \<Rightarrow> backend \<Rightarrow> string \<Rightarrow> string \<Rightarrow> u32 \<Rightarrow> bytes option \<Rightarrow> (u32 \<times> string) list \<Rightarrow> bytes \<Rightarrow> ('w, (u32 \<times> string) list) io" where
  "finalize_parts E be raw_path upload_id last_number tail_ct final_parts sealed_footer =
     (case tail_ct of
        Some ct \<Rightarrow>
          io_bind (upload_raw_part E be raw_path upload_id last_number (ct @ sealed_footer)) (\<lambda>etag.
            io_return (map (\<lambda>(n, e). if n = last_number then (n, etag) else (n, e)) final_parts))
      | None \<Rightarrow>
          if last_number = - 1 then io_fail (bad_gateway ''multipart part numbers exhausted'')
          else
            io_bind (upload_raw_part E be raw_path upload_id (last_number + 1) sealed_footer) (\<lambda>etag.
              io_return (final_parts @ [(last_number + 1, etag)])))"

definition complete_upload ::
  "'w env \<Rightarrow> backend \<Rightarrow> string \<Rightarrow> string \<Rightarrow> headers \<Rightarrow> session_key \<Rightarrow> string \<Rightarrow> (u32 \<times> string) list \<Rightarrow> u32 \<Rightarrow> parts_snapshot
     \<Rightarrow> u64 \<Rightarrow> string \<Rightarrow> ('w, reply) io" where
  "complete_upload E be raw_path raw_query hs session_key upload_id client_parts last_number snap total_pt request_id =
     (let f = \<lparr> f_alg = sn_alg snap, f_parts = sn_parts snap, f_total_pt = total_pt, f_md5 = None \<rparr> in
     io_bind (io_drawing (\<lambda>g. Footer_seal (c_aead (en_crypto E)) g (sn_dek snap) f)) (\<lambda>sealed_footer.
     io_bind (finalize_parts E be raw_path upload_id last_number (sn_tail snap) client_parts sealed_footer) (\<lambda>final_parts.
       let complete_xml = build_complete_xml final_parts in
     io_bind (forward E be ''POST'' raw_path raw_query
                (set_header hs ''content-length'' (dec_string (length complete_xml))) (body_full (str_bytes complete_xml))) (\<lambda>backend_resp.
     io_bind (io_lift (map_err (\<lambda>e. bad_gateway (''reading Complete response: '' @ e))
                (collect_body (br_body backend_resp)))) (\<lambda>out_bytes.
     io_bind (if is_success (br_status backend_resp) then
                io_bind (io_instant_now E) (\<lambda>now.
                  io_update_session session_key (finish now \<lparr> ca_status = br_status backend_resp,
                    ca_headers = br_headers backend_resp, ca_body = out_bytes \<rparr>))
              else io_update_session session_key (\<lambda>s. s\<lparr> s_completing := False \<rparr>)) (\<lambda>_.
       io_return (build_client_response backend_resp (body_full out_bytes) request_id)))))))"

text \<open>On an error the claim is released, so that a later retry can complete.\<close>

definition releasing_claim :: "session_key \<Rightarrow> ('w, 'a) io \<Rightarrow> ('w, 'a) io" where
  "releasing_claim key m s =
     (case m s of
        (Err e, s') \<Rightarrow> (Err e, snd (io_update_session key (\<lambda>s. s\<lparr> s_completing := False \<rparr>) s'))
      | r \<Rightarrow> r)"

definition handle_complete ::
  "'w env \<Rightarrow> backend \<Rightarrow> string \<Rightarrow> string \<Rightarrow> headers \<Rightarrow> proxy_body \<Rightarrow> string \<Rightarrow> ('w, reply) io" where
  "handle_complete E be raw_path raw_query hs base_body request_id =
     io_bind (io_lift (ok_or (query_value E raw_query ''uploadId'') (bad_gateway ''no uploadId''))) (\<lambda>upload_id.
     io_bind (io_lift (bucket_key raw_path)) (\<lambda>(bucket, key).
       let session_key = (be_name be, bucket, key, upload_id) in
     io_bind (cached_response_for_session E session_key upload_id request_id) (\<lambda>early.
       case early of Some resp \<Rightarrow> io_return resp | None \<Rightarrow>
     io_bind (io_lift (map_err (\<lambda>e. bad_gateway (''reading Complete body: '' @ e))
                (collect_limited MAX_COMPLETE_XML_BYTES base_body))) (\<lambda>body_bytes.
     io_bind (io_lift (parse_complete_xml E body_bytes)) (\<lambda>client_parts.
     io_bind (io_lift (validate_client_parts client_parts)) (\<lambda>last_number.
     io_bind (io_read (\<lambda>ps. ss_get (ps_sessions ps) session_key)) (\<lambda>entry.
     io_bind (io_lift (ok_or entry (no_such_upload upload_id))) (\<lambda>entry.
     io_bind (io_instant_now E) (\<lambda>now.
     io_bind (io_update_session session_key (touch now)) (\<lambda>_.
       case s_completed entry of Some cached \<Rightarrow> io_expect (cached_response E cached request_id) | None \<Rightarrow>
     io_bind (io_lift (snapshot_for_complete entry client_parts last_number upload_id)) (\<lambda>snap.
     io_bind (io_lift (ensure_last_part_ok (sn_tail snap) (sn_parts snap) last_number (sn_alg snap) (sn_chunk_size snap))) (\<lambda>_.
     io_bind (claim_completion E session_key upload_id request_id) (\<lambda>raced.
       case raced of Some resp \<Rightarrow> io_return resp | None \<Rightarrow>
     releasing_claim session_key
       (complete_upload E be raw_path raw_query hs session_key upload_id client_parts last_number snap
          (sum_list (map snd (sn_parts snap))) request_id))))))))))))))"

section \<open>Abort and the unsupported operations\<close>

definition handle_abort :: "'w env \<Rightarrow> backend \<Rightarrow> string \<Rightarrow> string \<Rightarrow> headers \<Rightarrow> string \<Rightarrow> ('w, reply) io" where
  "handle_abort E be raw_path raw_query hs request_id =
     io_bind (io_lift (ok_or (query_value E raw_query ''uploadId'') (bad_gateway ''no uploadId''))) (\<lambda>upload_id.
     io_bind (io_lift (bucket_key raw_path)) (\<lambda>(bucket, key).
     io_bind (forward E be ''DELETE'' raw_path raw_query hs body_empty) (\<lambda>backend_resp.
     io_bind (io_sessions (\<lambda>ss. ((), ss_remove (be_name be, bucket, key, upload_id) ss))) (\<lambda>_.
       io_return (translate_response backend_resp request_id)))))"

definition upload_part_copy_unsupported :: s3error where
  "upload_part_copy_unsupported =
     not_implemented ''UploadPartCopy (ciphertext cannot be re-chunked server-side; re-upload the source instead)''"

definition get_part_unsupported :: s3error where
  "get_part_unsupported = not_implemented ''GetObject with partNumber (fetch the whole object instead)''"

end
