(* ===== verification/Dispatch.thy ===== *)
theory Dispatch
  imports ObjectOps MpuOps
begin

text \<open>
  The entry point and the dispatcher (\<open>handle\<close>, \<open>handle_inner\<close> in \<open>proxy/mod.rs\<close>): health and readiness, the limiter
  of failed authentication, the preflight exception, signature verification, routing to the handlers of \<open>ObjectOps\<close>
  and \<open>MpuOps\<close>, and the tick of the session sweeper.
\<close>

record client_request =
  cr_method :: string
  cr_path :: string
  cr_query :: string
  cr_headers :: headers
  cr_body :: proxy_body

section \<open>Health\<close>

definition health_response :: "bool \<Rightarrow> reply" where
  "health_response draining =
     (let (status, text) = (if draining then (503, ''draining'') else (200, ''ok''))
      in \<lparr> rp_status = status, rp_headers = [], rp_body = body_full (str_bytes text) \<rparr>)"

fun ready_loop :: "'w env \<Rightarrow> backend list \<Rightarrow> 'w io_state \<Rightarrow> (nat \<times> string) io_result \<times> 'w io_state" where
  "ready_loop E [] s = (Ret (200, ''ready''), s)"
| "ready_loop E (be # bes) s =
     (case forward E be ''GET'' ''/'' '''' [] body_empty s of
        (Ret _, s') \<Rightarrow> ready_loop E bes s'
      | (Err _, s') \<Rightarrow> (Ret (503, ''backend unreachable: '' @ be_name be), s')
      | (Panic, s') \<Rightarrow> (Panic, s'))"

definition ready_response :: "'w env \<Rightarrow> ('w, reply) io" where
  "ready_response E =
     io_bind (io_read ps_config) (\<lambda>cfg.
     io_bind (ready_loop E (map snd (cf_backends cfg))) (\<lambda>(status, text).
       io_return \<lparr> rp_status = status, rp_headers = [], rp_body = body_full (str_bytes text) \<rparr>))"

definition hex_upper :: "u64 \<Rightarrow> string" where
  "hex_upper w =
     map (\<lambda>i. hex_digit (unat ((push_bit (4 * i) w div 2 ^ 60)))) [0..<16]"

section \<open>Requests\<close>

text \<open>The nanoseconds since the epoch, cut to 64 bits, mixed with the counter.\<close>

definition next_request_id :: "'w env \<Rightarrow> ('w, string) io" where
  "next_request_id E =
     io_bind (io_read ps_request_counter) (\<lambda>n.
     io_bind (io_modify (\<lambda>ps. ps\<lparr> ps_request_counter := n + 1 \<rparr>)) (\<lambda>_.
     io_bind (io_system_now E) (\<lambda>now.
       let nanos = word_of_int (unwrap_or (duration_since now 0) 0) :: u64 in
       io_return (hex_upper (Bit_Operations.xor nanos (n * 0x9E3779B97F4A7C15))))))"

definition preflight_backend :: "config \<Rightarrow> s3error + backend" where
  "preflight_backend cfg =
     (case bt_get (cf_backends cfg) DEFAULT_BACKEND_NAME of
        Some be \<Rightarrow> Inr be
      | None \<Rightarrow> (case cf_backends cfg of (_, be) # _ \<Rightarrow> Inr be | [] \<Rightarrow> Inl (bad_gateway ''no backend configured'')))"

text \<open>The limiter reads the clock in \<open>allow\<close>, and twice in \<open>record_failure\<close>.\<close>

definition io_allow :: "'w env \<Rightarrow> ip_addr \<Rightarrow> ('w, bool) io" where
  "io_allow E ip = io_bind (io_instant_now E) (\<lambda>now. io_read (\<lambda>ps. allow now ip (ps_auth_rate_limiter ps)))"

definition io_record_failure :: "'w env \<Rightarrow> ip_addr \<Rightarrow> ('w, unit) io" where
  "io_record_failure E ip =
     io_bind (io_instant_now E) (\<lambda>now.
     io_bind (io_instant_now E) (\<lambda>later.
       io_modify (\<lambda>ps. ps\<lparr> ps_auth_rate_limiter := record_failure now later ip (ps_auth_rate_limiter ps) \<rparr>)))"

definition io_verify :: "'w env \<Rightarrow> client_request \<Rightarrow> ip_addr \<Rightarrow> string \<Rightarrow> ('w, identity) io" where
  "io_verify E req ip payload_hash_header =
     io_bind (io_read ps_config) (\<lambda>cfg.
     io_bind (io_system_now E) (\<lambda>now.
       case verify (en_crypto E) (en_pct E) (cr_method req) (cr_path req) (cr_query req) (cr_headers req)
              payload_hash_header (cf_clients cfg) now of
         Inr identity \<Rightarrow> io_return identity
       | Inl e \<Rightarrow>
           io_bind (io_modify record_auth_failure) (\<lambda>_.
           io_bind (io_record_failure E ip) (\<lambda>_. io_fail (from_verify_error e)))))"

text \<open>The operations that are refused before the body is read.\<close>

definition refused :: "op \<Rightarrow> s3error option" where
  "refused op =
     (case op of
        Mpu GetPart \<Rightarrow> Some get_part_unsupported
      | Mpu UploadPartCopy \<Rightarrow> Some upload_part_copy_unsupported
      | SelectObjectContent \<Rightarrow>
          Some (not_implemented ''SelectObjectContent (the backend would query ciphertext, not your data; download and query locally)'')
      | _ \<Rightarrow> None)"

definition pass_through ::
  "'w env \<Rightarrow> backend \<Rightarrow> string \<Rightarrow> string \<Rightarrow> string \<Rightarrow> headers \<Rightarrow> proxy_body \<Rightarrow> string \<Rightarrow> ('w, reply) io" where
  "pass_through E be meth raw_path raw_query hs body request_id =
     io_bind (forward E be meth raw_path raw_query hs body) (\<lambda>backend_resp.
       io_return (translate_response backend_resp request_id))"

text \<open>The table of operations. The arm of the refused ones is unreachable, so it is a panic.\<close>

definition dispatch_op ::
  "'w env \<Rightarrow> backend \<Rightarrow> op \<Rightarrow> client_request \<Rightarrow> headers \<Rightarrow> proxy_body \<Rightarrow> string option \<Rightarrow> string \<Rightarrow> ('w, reply) io" where
  "dispatch_op E be op req hs base_body content_md5_header request_id =
     (let path = cr_path req; query = cr_query req in
      case op of
        PutObject \<Rightarrow> put_handle E be path query hs base_body content_md5_header request_id
      | GetObject \<Rightarrow> get_handle E be path query hs request_id
      | HeadObject \<Rightarrow> head_handle E be path query hs request_id
      | CopyObject \<Rightarrow> copy_handle E be path query hs request_id
      | Mpu Create \<Rightarrow> handle_create E be path query hs request_id
      | Mpu UploadPart \<Rightarrow> handle_upload_part E be path query hs base_body request_id
      | Mpu Complete \<Rightarrow> handle_complete E be path query hs base_body request_id
      | Mpu Abort \<Rightarrow> handle_abort E be path query hs request_id
      | Mpu ListParts \<Rightarrow> pass_through E be (cr_method req) path query hs base_body request_id
      | Mpu UploadPartCopy \<Rightarrow> io_expect None
      | Mpu GetPart \<Rightarrow> io_expect None
      | SelectObjectContent \<Rightarrow> io_expect None
      | Passthrough \<Rightarrow> pass_through E be (cr_method req) path query hs base_body request_id)"

definition op_of :: "client_request \<Rightarrow> op" where
  "op_of req = classify (cr_method req) (route_parse (cr_path req)) (cr_query req)
     (header_value (cr_headers req) ''x-amz-copy-source'' \<noteq> None)"

text \<open>A verified request. The wrapper of its body records why it stops the request, whichever handler runs.\<close>

definition handle_verified :: "'w env \<Rightarrow> client_request \<Rightarrow> identity \<Rightarrow> string \<Rightarrow> string \<Rightarrow> ('w, reply) io" where
  "handle_verified E req ident payload_hash_header request_id =
     io_bind (io_read ps_config) (\<lambda>cfg.
     io_bind (io_lift (ok_or (bt_get (cf_backends cfg) (id_backend ident))
                (S3Error_new 500 ''InternalError'' (''resolved backend '' @ id_backend ident @ '' is not configured'')))) (\<lambda>be.
       case refused (op_of req) of
         Some e \<Rightarrow> io_fail e
       | None \<Rightarrow>
           let base_body = build_outbound_body (en_crypto E) (cr_body req) payload_hash_header (id_chunk_seed ident) in
           (\<lambda>s. dispatch_op E be (op_of req) req (outbound_headers_of (cr_headers req)) base_body
              (header_value (cr_headers req) ''content-md5'') request_id (s\<lparr> io_abort := abort_reason base_body \<rparr>))))"

definition handle_inner :: "'w env \<Rightarrow> client_request \<Rightarrow> string \<Rightarrow> ip_addr \<Rightarrow> ('w, reply) io" where
  "handle_inner E req request_id ip =
     io_bind (io_allow E ip) (\<lambda>allowed.
       if \<not> allowed then
         io_bind (io_modify (\<lambda>ps. ps\<lparr> ps_auth_rate_limited := ps_auth_rate_limited ps + 1 \<rparr>)) (\<lambda>_.
           io_fail (slow_down ''Too many failed authentication attempts from this address; slow down.''))
       else if cr_method req = ''OPTIONS'' then
         io_bind (io_read ps_config) (\<lambda>cfg.
         io_bind (io_lift (preflight_backend cfg)) (\<lambda>be.
           pass_through E be (cr_method req) (cr_path req) (cr_query req) (cr_headers req) body_empty request_id))
       else
         let payload_hash_header = (case header_value (cr_headers req) ''x-amz-content-sha256'' of
               Some h \<Rightarrow> h | None \<Rightarrow> ''UNSIGNED-PAYLOAD'') in
         io_bind (io_verify E req ip payload_hash_header) (\<lambda>ident.
           handle_verified E req ident payload_hash_header request_id))"

text \<open>The entry point: every error becomes an answer.\<close>

definition error_reply :: "s3error \<Rightarrow> string \<Rightarrow> reply" where
  "error_reply e request_id =
     (let r = into_response e request_id
      in \<lparr> rp_status = rs_status r, rp_headers = rs_headers r, rp_body = body_full (rs_body r) \<rparr>)"

definition answer_errors :: "string \<Rightarrow> ('w, reply) io \<Rightarrow> ('w, reply) io" where
  "answer_errors request_id m s =
     (case m s of
        (Ret resp, s') \<Rightarrow> (Ret resp, s')
      | (Err e, s') \<Rightarrow> (Ret (error_reply e request_id), s')
      | (Panic, s') \<Rightarrow> (Panic, s'))"

definition with_abort_slot :: "('w, 'a) io \<Rightarrow> ('w, 'a) io" where
  "with_abort_slot m s = m (s\<lparr> io_abort := None \<rparr>)"

definition handle :: "'w env \<Rightarrow> client_request \<Rightarrow> ip_addr \<Rightarrow> ('w, reply) io" where
  "handle E req ip =
     io_bind (next_request_id E) (\<lambda>request_id.
       if cr_method req = ''GET'' \<and> cr_path req = ''/health'' then
         io_bind (io_read ps_draining) (\<lambda>draining. io_return (health_response draining))
       else if cr_method req = ''GET'' \<and> cr_path req = ''/ready'' then ready_response E
       else answer_errors request_id (with_abort_slot (handle_inner E req request_id ip)))"

section \<open>The session sweeper\<close>

definition abort_expired_upload :: "'w env \<Rightarrow> session_key \<Rightarrow> ('w, unit) io" where
  "abort_expired_upload E key s =
     (let (backend_name, bucket, obj, upload_id) = key in
      case bt_get (cf_backends (ps_config (io_proxy s))) backend_name of
        None \<Rightarrow> (Ret (), s)
      | Some be \<Rightarrow>
          (let (path, query) = abort_target (en_pct E) bucket obj upload_id in
           case forward E be ''DELETE'' path query [] body_empty s of
             (Panic, s') \<Rightarrow> (Panic, s')
           | (_, s') \<Rightarrow> (Ret (), s')))"

fun sweep_all :: "'w env \<Rightarrow> (session_key \<times> bool) list \<Rightarrow> 'w io_state \<Rightarrow> unit io_result \<times> 'w io_state" where
  "sweep_all E [] = io_return ()"
| "sweep_all E ((key, completed) # rest) =
     (if completed then sweep_all E rest
      else io_bind (abort_expired_upload E key) (\<lambda>_. sweep_all E rest))"

text \<open>One tick; \<open>ttl\<close> is in nanoseconds, as the clock is.\<close>

definition sweep_tick :: "'w env \<Rightarrow> nat \<Rightarrow> ('w, unit) io" where
  "sweep_tick E ttl =
     io_bind (io_instant_now E) (\<lambda>now.
     io_bind (io_sessions (take_expired now ttl)) (\<lambda>expired. sweep_all E expired))"

end
