(* ===== verification/SampleStore.thy ===== *)
theory SampleStore
  imports Upstream Verify
begin

text \<open>
  A concrete environment, for the witnesses: a backend whose world is the list of the objects it stores, with the
  sample cryptography, codec and percent-encoding of the earlier theories, clocks that stand still, and an \<open>http\<close>
  crate that refuses nothing.
\<close>

type_synonym store = "(string \<times> headers \<times> bytes) list"

definition store_send :: "store \<Rightarrow> request \<Rightarrow> outcome \<times> store" where
  "store_send st rq =
     (let missing = (Answered \<lparr> br_status = 404, br_headers = [], br_body = ([], None) \<rparr>, st);
          stored = Answered \<lparr> br_status = 200, br_headers = [(''etag'', ''e'')], br_body = ([], None) \<rparr> in
      if rq_method rq = ''PUT'' \<and> header_value (rq_headers rq) ''x-amz-copy-source'' \<noteq> None then
        (case map_of st (rq_uri rq) of
           None \<Rightarrow> missing | Some (_, b) \<Rightarrow> (stored, (rq_uri rq, rq_headers rq, b) # st))
      else if rq_method rq = ''PUT'' then
        if snd (rq_body rq) \<noteq> Eof then (SendFailed True, st)
        else (stored, (rq_uri rq, rq_headers rq, body_data (fst (rq_body rq))) # st)
      else
        (case map_of st (rq_uri rq) of
           None \<Rightarrow> missing
         | Some (hs, b) \<Rightarrow>
             (Answered \<lparr> br_status = 200, br_headers = set_header hs ''content-length'' (dec_string (length b)),
                br_body = ([DataFrame b], None) \<rparr>, st)))"

definition sample_env :: "store env" where
  "sample_env = \<lparr> en_send = store_send, en_system_now = (\<lambda>w. (1704067260000000000, w)), en_instant_now = (\<lambda>w. (0, w)),
     en_crypto = sample_crypto, en_codec = sample_codec, en_pct = sample_pct, en_md5 = (\<lambda>b. take 16 (b @ replicate 16 0)),
     en_parse_uri = (\<lambda>_. Some \<lparr> u_scheme = Some ''https'', u_authority = Some ''s3'' \<rparr>),
     en_name_error = (\<lambda>_. None), en_value_error = (\<lambda>_. None), en_request_error = (\<lambda>_ _. None),
     en_status_text = (\<lambda>_. ''OK''), en_lru_evicts = (\<lambda>_ _ _ _. False),
     en_xml_events = (\<lambda>_. ([], None)), en_xml_unescape = Inr \<rparr>"

definition sample_backend :: backend where
  "sample_backend = \<lparr> be_name = ''default'', be_endpoint = ''https://s3'', be_region = ''r'', be_access_key = ''B'', be_secret_key = ''S'' \<rparr>"

definition sample_config :: config where
  "sample_config = \<lparr> cf_backends = [(''default'', sample_backend)], cf_clients = sample_clients, cf_timeout_request = 30,
     cf_keyring = sample_keyring, cf_chunk_size = 65536, cf_alg = Aes256Gcm, cf_mp_ttl = 3600, cf_footer_cache = 16,
     cf_auth_fail_limit = 10, cf_bind_mode = On \<rparr>"

definition sample_state :: "store io_state" where
  "sample_state = \<lparr> io_proxy = ProxyState_new sample_config, io_rng = (\<lambda>i. of_nat i), io_abort = None, io_world = [] \<rparr>"

lemma sample_env_simps [simp]:
  "en_send sample_env = store_send" "en_system_now sample_env w = (1704067260000000000, w)" "en_instant_now sample_env w = (0, w)"
  "en_crypto sample_env = sample_crypto" "en_codec sample_env = sample_codec" "en_pct sample_env = sample_pct"
 "en_parse_uri sample_env e = Some \<lparr> u_scheme = Some ''https'', u_authority = Some ''s3'' \<rparr>"
  "en_name_error sample_env n = None" "en_value_error sample_env n = None" "en_request_error sample_env m u = None"
  by (simp_all add: sample_env_def)

lemma sample_header_errors [simp]: "header_errors sample_env hs = None"
  by (induction hs) auto

lemma sample_state_simps [simp]: "io_proxy sample_state = ProxyState_new sample_config" "io_world sample_state = []"
  by (simp_all add: sample_state_def)

lemma sample_keyring_new:
  "Keyring_new sample_crypto ''A'' [(''A'', MasterKey [1]), (''B'', MasterKey [2])] None = Some sample_keyring"
  by (simp add: sample_keyring_def Keyring_new_def RSA_ACTIVE_NAME_def bt_get_def)

lemma sample_keyring_ok: "keyring_ok sample_crypto sample_keyring"
  using Keyring_new_ok(1) [OF sample_keyring_new] .

end
