(* ===== verification/DispatchProps.thy ===== *)
theory DispatchProps
  imports Dispatch SampleStore
begin

text \<open>
  Properties of the dispatcher: requests that fail authentication never reach a backend.
\<close>

section \<open>Unauthenticated requests\<close>

lemma counters_only:
  "\<exists>a b c. p\<lparr> ps_auth_rate_limited := x \<rparr> = p\<lparr> ps_auth_rate_limited := a, ps_auth_failures := b, ps_auth_rate_limiter := c \<rparr>"
  "\<exists>a b c. p\<lparr> ps_auth_failures := y, ps_auth_rate_limiter := z \<rparr> =
     p\<lparr> ps_auth_rate_limited := a, ps_auth_failures := b, ps_auth_rate_limiter := c \<rparr>"
proof -
  have "p\<lparr> ps_auth_rate_limited := x \<rparr> = p\<lparr> ps_auth_rate_limited := x, ps_auth_failures := ps_auth_failures p,
      ps_auth_rate_limiter := ps_auth_rate_limiter p \<rparr>" by simp
  then show "\<exists>a b c. p\<lparr> ps_auth_rate_limited := x \<rparr> = p\<lparr> ps_auth_rate_limited := a, ps_auth_failures := b, ps_auth_rate_limiter := c \<rparr>"
    by blast
  have "p\<lparr> ps_auth_failures := y, ps_auth_rate_limiter := z \<rparr> = p\<lparr> ps_auth_rate_limited := ps_auth_rate_limited p,
      ps_auth_failures := y, ps_auth_rate_limiter := z \<rparr>" by simp
  then show "\<exists>a b c. p\<lparr> ps_auth_failures := y, ps_auth_rate_limiter := z \<rparr> =
      p\<lparr> ps_auth_rate_limited := a, ps_auth_failures := b, ps_auth_rate_limiter := c \<rparr>" by blast
qed

text \<open>C5. A request other than a preflight whose signature does not verify is answered with an error, without
  consulting the backend (the outcome is the same whatever the backend would do), and the only changes to the
  shared state are the failure counters and the limiter; if the limiter already refuses the address, the
  signature is not even looked at.\<close>

theorem unauthenticated_requests_stay_outside:
  assumes "cr_method req \<noteq> ''OPTIONS''"
    and "\<not> is_ok (verify (en_crypto E) (en_pct E) (cr_method req) (cr_path req) (cr_query req) (cr_headers req)
            (case header_value (cr_headers req) ''x-amz-content-sha256'' of Some h \<Rightarrow> h | None \<Rightarrow> ''UNSIGNED-PAYLOAD'')
            (cf_clients (ps_config (io_proxy s))) (fst (en_system_now E (snd (en_instant_now E (io_world s))))))
          \<or> \<not> allow (fst (en_instant_now E (io_world s))) ip (ps_auth_rate_limiter (io_proxy s))"
  shows "(\<exists>e. fst (handle_inner E req rid ip s) = Err e \<and>
            (e_status e = 429 \<or> (\<exists>v. e = from_verify_error v))) \<and>
         (\<forall>send. handle_inner (E\<lparr> en_send := send \<rparr>) req rid ip s = handle_inner E req rid ip s) \<and>
         (\<exists>a b c. io_proxy (snd (handle_inner E req rid ip s)) =
            (io_proxy s)\<lparr> ps_auth_rate_limited := a, ps_auth_failures := b, ps_auth_rate_limiter := c \<rparr>)"
proof -
  let ?h = "case header_value (cr_headers req) ''x-amz-content-sha256'' of Some h \<Rightarrow> h | None \<Rightarrow> ''UNSIGNED-PAYLOAD''"
  obtain t w where t: "en_instant_now E (io_world s) = (t, w)" by (cases "en_instant_now E (io_world s)")
  obtain now w1 where now: "en_system_now E w = (now, w1)" by (cases "en_system_now E w")
  obtain t2 w2 where t2: "en_instant_now E w1 = (t2, w2)" by (cases "en_instant_now E w1")
  obtain t3 w3 where t3: "en_instant_now E w2 = (t3, w3)" by (cases "en_instant_now E w2")
  show ?thesis
  proof (cases "allow t ip (ps_auth_rate_limiter (io_proxy s))")
    case False
    have eq: "handle_inner F req rid ip s =
        (Err (slow_down ''Too many failed authentication attempts from this address; slow down.''),
         s\<lparr> io_world := w, io_proxy := (io_proxy s)\<lparr> ps_auth_rate_limited := ps_auth_rate_limited (io_proxy s) + 1 \<rparr> \<rparr>)"
      if "en_instant_now F = en_instant_now E" for F
      using False t that by (simp add: handle_inner_def io_allow_def io_defs)
    show ?thesis
      by (intro conjI allI) (simp_all add: eq slow_down_def S3Error_new_def counters_only)
  next
    case True
    then obtain v where v: "verify (en_crypto E) (en_pct E) (cr_method req) (cr_path req) (cr_query req) (cr_headers req) ?h
        (cf_clients (ps_config (io_proxy s))) now = Inl v"
      using assms(2) t now by (auto simp: is_ok_def split: sum.splits)
    have eq: "handle_inner F req rid ip s = (Err (from_verify_error v),
         s\<lparr> io_world := w3, io_proxy := (io_proxy s)\<lparr> ps_auth_failures := ps_auth_failures (io_proxy s) + 1,
              ps_auth_rate_limiter := record_failure t2 t3 ip (ps_auth_rate_limiter (io_proxy s)) \<rparr> \<rparr>)"
      if "en_instant_now F = en_instant_now E" "en_system_now F = en_system_now E" "en_crypto F = en_crypto E"
         "en_pct F = en_pct E" for F
      using True t now t2 t3 that v assms(1)
      by (simp add: handle_inner_def io_allow_def io_verify_def io_record_failure_def record_auth_failure_def Let_def io_defs)
    show ?thesis
      by (intro conjI allI) (auto simp: eq counters_only)
  qed
qed

text \<open>A request with no credentials at all.\<close>

definition anonymous_request :: client_request where
  "anonymous_request = \<lparr> cr_method = ''GET'', cr_path = ''/b/k'', cr_query = '''', cr_headers = [(''host'', ''h'')], cr_body = body_empty \<rparr>"

lemma anonymous_unverified:
  "verify sample_crypto sample_pct ''GET'' ''/b/k'' '''' [(''host'', ''h'')] p cs t = Inl NoAuth"
  using sample_not_presigned
  by (simp add: verify_def presigned_def header_value_def eq_ignore_ascii_case_def to_ascii_lowercase_def lower_char_def
      char_of_eq_iff)

theorem unauthenticated_witness:
  "(\<exists>e. fst (handle_inner sample_env anonymous_request ''1'' [] sample_state) = Err e \<and>
      (e_status e = 429 \<or> (\<exists>v. e = from_verify_error v))) \<and>
   (\<forall>send. handle_inner (sample_env\<lparr> en_send := send \<rparr>) anonymous_request ''1'' [] sample_state =
      handle_inner sample_env anonymous_request ''1'' [] sample_state) \<and>
   (\<exists>a b c. io_proxy (snd (handle_inner sample_env anonymous_request ''1'' [] sample_state)) =
      (io_proxy sample_state)\<lparr> ps_auth_rate_limited := a, ps_auth_failures := b, ps_auth_rate_limiter := c \<rparr>)"
  by (rule unauthenticated_requests_stay_outside)
    (simp_all add: anonymous_request_def anonymous_unverified is_ok_def)

end
