(* ===== verification/ConfigLoad.thy ===== *)
theory ConfigLoad
  imports Upstream
begin

text \<open>
  The configuration loader (\<open>config.rs\<close>): variables with their \<open>_FILE\<close> form, discovery of named backends, clients and
  keys, and the checks that make a bad configuration fatal at startup. Every function that records where a value came
  from takes the map of sources and returns it updated. The file system, the CPU's AES flag and the Unicode case table
  behind \<open>str::to_uppercase\<close> are the parameter \<open>host\<close>; the warning about the mode of a secret file only prints.
\<close>

section \<open>Sources and errors\<close>

datatype source = Default | Env | EnvFile string | File string

definition source_string :: "source \<Rightarrow> string" where
  "source_string s =
     (case s of Default \<Rightarrow> ''default'' | Env \<Rightarrow> ''env'' | EnvFile path \<Rightarrow> ''env-file:'' @ path | File path \<Rightarrow> ''file:'' @ path)"

datatype config_error =
    Missing string
  | BothSet string
  | BothSetPair string string
  | FileRead string string string
  | Invalid string string
  | ConfigFileRead string string
  | ConfigFileParse string string
  | SecretInFile string
  | UnknownBackend string string string
  | UnknownKey string

record host =
  h_crypto :: crypto
  h_codec :: codec
  h_has_aes_hw :: bool
  h_to_uppercase :: "string \<Rightarrow> string"
  h_read_file :: "string \<Rightarrow> string + string"

record env_source =
  es_get :: "string \<Rightarrow> string option"
  es_names :: "string list"
  es_origin :: "string \<Rightarrow> source"

record resolved =
  rv_source :: source
  rv_value :: string

type_synonym sources = "(string, source) btree"

text \<open>\<open>ProcessEnv\<close>: the environment as a list of variables; \<open>origin\<close> is the trait's default.\<close>

definition ProcessEnv :: "(string \<times> string) list \<Rightarrow> env_source" where
  "ProcessEnv vars = \<lparr> es_get = map_of vars, es_names = map fst vars, es_origin = (\<lambda>_. Env) \<rparr>"

definition trim_end_newlines :: "string \<Rightarrow> string" where
  "trim_end_newlines s = rev (dropWhile (\<lambda>c. c = CHR 0x0D \<or> c = CHR 0x0A) (rev s))"

definition read_var :: "host \<Rightarrow> env_source \<Rightarrow> string \<Rightarrow> config_error + resolved option" where
  "read_var H env name =
     (case (es_get env name, es_get env (name @ ''_FILE'')) of
        (Some _, Some _) \<Rightarrow> Inl (BothSet name)
      | (Some v, None) \<Rightarrow> Inr (Some \<lparr> rv_source = es_origin env name, rv_value = v \<rparr>)
      | (None, Some path) \<Rightarrow>
          rbind (map_err (FileRead name path) (h_read_file H path)) (\<lambda>raw.
            Inr (Some \<lparr> rv_source = EnvFile path, rv_value = trim_end_newlines raw \<rparr>))
      | (None, None) \<Rightarrow> Inr None)"

definition required :: "host \<Rightarrow> env_source \<Rightarrow> sources \<Rightarrow> string \<Rightarrow> config_error + string \<times> sources" where
  "required H env sources name =
     rbind (read_var H env name) (\<lambda>r. case r of
       Some r \<Rightarrow> Inr (rv_value r, bt_insert name (rv_source r) sources)
     | None \<Rightarrow> Inl (Missing name))"

definition optional :: "host \<Rightarrow> env_source \<Rightarrow> sources \<Rightarrow> string \<Rightarrow> string \<Rightarrow> config_error + string \<times> sources" where
  "optional H env sources name dflt =
     rbind (read_var H env name) (\<lambda>r. case r of
       Some r \<Rightarrow> Inr (rv_value r, bt_insert name (rv_source r) sources)
     | None \<Rightarrow> Inr (dflt, bt_insert name Default sources))"

section \<open>Secrets\<close>

definition SECRET_KEYS :: "string list" where
  "SECRET_KEYS = [''S3A_RSA_KEY'']"

definition is_secret :: "string \<Rightarrow> bool" where
  "is_secret name \<longleftrightarrow>
     name \<in> set SECRET_KEYS
     \<or> starts_with name ''S3A_CLIENT_'' \<and> ends_with name ''_SECRET_KEY''
     \<or> starts_with name ''S3A_BACKEND_'' \<and> ends_with name ''_SECRET_KEY''
     \<or> starts_with name ''S3A_KEY_'' \<and> name \<noteq> ''S3A_KEY_ACTIVE'' \<and> \<not> ends_with name ''_FILE''"

section \<open>Values\<close>

text \<open>The dash of the messages, in UTF-8.\<close>

definition dash :: string where
  "dash = [CHR '' '', CHR 0xE2, CHR 0x80, CHR 0x94, CHR '' '']"

definition quote :: string where
  "quote = [CHR 0x27]"

definition DEFAULT_CHUNK_SIZE :: u32 where
  "DEFAULT_CHUNK_SIZE = 1048576"

definition parse_duration_secs :: "string \<Rightarrow> string \<Rightarrow> config_error + u64" where
  "parse_duration_secs raw name =
     ok_or (parse_u64 raw) (Invalid name (raw @ dash @ ''must be a whole number of seconds''))"

definition checked_mul :: "u64 \<Rightarrow> u64 \<Rightarrow> u64 option" where
  "checked_mul a b = (if unat a * unat b < 2 ^ 64 then Some (a * b) else None)"

definition duration_unit :: "string \<Rightarrow> (string \<times> u64) option" where
  "duration_unit raw =
     (case strip_suffix ''s'' raw of Some d \<Rightarrow> Some (d, 1)
      | None \<Rightarrow> (case strip_suffix ''m'' raw of Some d \<Rightarrow> Some (d, 60)
      | None \<Rightarrow> (case strip_suffix ''h'' raw of Some d \<Rightarrow> Some (d, 3600)
      | None \<Rightarrow> (case strip_suffix ''d'' raw of Some d \<Rightarrow> Some (d, 86400) | None \<Rightarrow> None))))"

definition parse_duration :: "string \<Rightarrow> string \<Rightarrow> config_error + u64" where
  "parse_duration raw name =
     (let invalid = Invalid name (raw @ dash @ ''must be a whole number of seconds, or <n> followed by s/m/h/d'') in
      case parse_u64 raw of
        Some secs \<Rightarrow> Inr secs
      | None \<Rightarrow>
          (case duration_unit raw of
             None \<Rightarrow> Inl invalid
           | Some (digits, mul) \<Rightarrow>
               rbind (ok_or (parse_u64 digits) invalid) (\<lambda>n. ok_or (checked_mul n mul) invalid)))"

section \<open>TLS\<close>

record tls_config =
  tc_cert_path :: string
  tc_key_path :: string

definition tls_file_refused :: "string \<Rightarrow> config_error" where
  "tls_file_refused name =
     Invalid name ''TLS uses S3A_TLS_CERT / S3A_TLS_KEY (paths to the PEM files), not the _FILE convention''"

definition parse_tls :: "env_source \<Rightarrow> sources \<Rightarrow> config_error + tls_config option \<times> sources" where
  "parse_tls env sources =
     (if es_get env ''S3A_TLS_CERT_FILE'' \<noteq> None then Inl (tls_file_refused ''S3A_TLS_CERT_FILE'')
      else if es_get env ''S3A_TLS_KEY_FILE'' \<noteq> None then Inl (tls_file_refused ''S3A_TLS_KEY_FILE'')
      else
        case (es_get env ''S3A_TLS_CERT'', es_get env ''S3A_TLS_KEY'') of
          (Some cert_path, Some key_path) \<Rightarrow>
            Inr (Some \<lparr> tc_cert_path = cert_path, tc_key_path = key_path \<rparr>,
                 bt_insert ''S3A_TLS_KEY'' (es_origin env ''S3A_TLS_KEY'')
                   (bt_insert ''S3A_TLS_CERT'' (es_origin env ''S3A_TLS_CERT'') sources))
        | (None, None) \<Rightarrow>
            Inr (None, bt_insert ''S3A_TLS_KEY'' Default (bt_insert ''S3A_TLS_CERT'' Default sources))
        | (Some _, None) \<Rightarrow> Inl (Missing ''S3A_TLS_KEY'')
        | (None, Some _) \<Rightarrow> Inl (Missing ''S3A_TLS_CERT''))"

section \<open>Named entries\<close>

definition is_valid_name :: "string \<Rightarrow> bool" where
  "is_valid_name s \<longleftrightarrow> s \<noteq> [] \<and>
     list_all (\<lambda>c. (65 \<le> (of_char c :: nat) \<and> (of_char c :: nat) \<le> 90) \<or> (48 \<le> (of_char c :: nat) \<and> (of_char c :: nat) \<le> 57)) s"

type_synonym name_set = "(string, unit) btree"

definition name_rule :: "string \<Rightarrow> string" where
  "name_rule var = var @ '': the <NAME> segment must be uppercase letters and digits only, with no underscores''"

text \<open>The inner loop over the suffixes of \<open>discover_names\<close>, and the outer one over the variables.\<close>

fun match_suffixes :: "string \<Rightarrow> string \<Rightarrow> string list \<Rightarrow> name_set \<Rightarrow> config_error + name_set" where
  "match_suffixes var rest [] names = Inr names"
| "match_suffixes var rest (sfx # sfxs) names =
     (case strip_suffix sfx rest of
        Some name \<Rightarrow>
          if \<not> is_valid_name name then Inl (Invalid ''S3A_<NAME>'' (name_rule var))
          else match_suffixes var rest sfxs (bt_insert name () names)
      | None \<Rightarrow> match_suffixes var rest sfxs names)"

definition without_file :: "string \<Rightarrow> string" where
  "without_file rest = (case strip_suffix ''_FILE'' rest of Some r \<Rightarrow> r | None \<Rightarrow> rest)"

fun discover_loop :: "string list \<Rightarrow> string \<Rightarrow> string list \<Rightarrow> string list \<Rightarrow> name_set \<Rightarrow> config_error + name_set" where
  "discover_loop [] pre sfxs exclude names = Inr names"
| "discover_loop (var # vars) pre sfxs exclude names =
     (case strip_prefix pre var of
        None \<Rightarrow> discover_loop vars pre sfxs exclude names
      | Some rest \<Rightarrow>
          if without_file rest \<in> set exclude then discover_loop vars pre sfxs exclude names
          else rbind (match_suffixes var (without_file rest) sfxs names)
                 (discover_loop vars pre sfxs exclude))"

definition discover_names :: "env_source \<Rightarrow> string \<Rightarrow> string list \<Rightarrow> string list \<Rightarrow> config_error + string list" where
  "discover_names env pre sfxs exclude =
     rbind (discover_loop (es_names env) pre sfxs exclude []) (\<lambda>names. Inr (map fst names))"

section \<open>Backends\<close>

definition load_one_backend ::
  "host \<Rightarrow> env_source \<Rightarrow> sources \<Rightarrow> string \<Rightarrow> string \<Rightarrow> string \<Rightarrow> string \<Rightarrow> string \<Rightarrow> string \<Rightarrow> string \<Rightarrow> string
   \<Rightarrow> config_error + backend \<times> sources" where
  "load_one_backend H env sources name endpoint_var region_var access_var secret_var
     missing_endpoint missing_access missing_secret =
     rbind (read_var H env endpoint_var) (\<lambda>r.
     rbind (ok_or r (Missing missing_endpoint)) (\<lambda>endpoint.
       let sources = bt_insert endpoint_var (rv_source endpoint) sources in
     rbind (read_var H env region_var) (\<lambda>r.
       let (region, sources) = (case r of
             Some r \<Rightarrow> (rv_value r, bt_insert region_var (rv_source r) sources)
           | None \<Rightarrow> (''us-east-1'', bt_insert region_var Default sources)) in
     rbind (read_var H env access_var) (\<lambda>r.
     rbind (ok_or r (Missing missing_access)) (\<lambda>access.
       let sources = bt_insert access_var (rv_source access) sources in
     rbind (read_var H env secret_var) (\<lambda>r.
     rbind (ok_or r (Missing missing_secret)) (\<lambda>secret.
       Inr (\<lparr> be_name = name, be_endpoint = rv_value endpoint, be_region = region,
              be_access_key = rv_value access, be_secret_key = rv_value secret \<rparr>,
            bt_insert secret_var (rv_source secret) sources))))))))"

definition DEFAULT_SUFFIXES :: "string list" where
  "DEFAULT_SUFFIXES = [''ENDPOINT'', ''REGION'', ''ACCESS_KEY'', ''SECRET_KEY'']"

definition backend_vars :: "string \<Rightarrow> string \<Rightarrow> string" where
  "backend_vars name field = ''S3A_BACKEND_'' @ name @ ''_'' @ field"

definition default_present :: "env_source \<Rightarrow> bool" where
  "default_present env \<longleftrightarrow> list_ex (\<lambda>s. es_get env (''S3A_BACKEND_'' @ s) \<noteq> None
     \<or> es_get env (''S3A_BACKEND_'' @ s @ ''_FILE'') \<noteq> None) DEFAULT_SUFFIXES"

fun named_backends ::
  "host \<Rightarrow> env_source \<Rightarrow> string list \<Rightarrow> (string, backend) btree \<Rightarrow> sources \<Rightarrow> config_error + (string, backend) btree \<times> sources" where
  "named_backends H env [] backends sources = Inr (backends, sources)"
| "named_backends H env (name # names) backends sources =
     rbind (load_one_backend H env sources name (backend_vars name ''ENDPOINT'') (backend_vars name ''REGION'')
              (backend_vars name ''ACCESS_KEY'') (backend_vars name ''SECRET_KEY'') ''S3A_BACKEND_<NAME>_ENDPOINT''
              ''S3A_BACKEND_<NAME>_ACCESS_KEY'' ''S3A_BACKEND_<NAME>_SECRET_KEY'')
       (\<lambda>(b, sources). named_backends H env names (bt_insert name b backends) sources)"

definition load_backends :: "host \<Rightarrow> env_source \<Rightarrow> sources \<Rightarrow> config_error + (string, backend) btree \<times> sources" where
  "load_backends H env sources =
     rbind (discover_names env ''S3A_BACKEND_'' [''_ENDPOINT'', ''_REGION'', ''_ACCESS_KEY'', ''_SECRET_KEY''] DEFAULT_SUFFIXES) (\<lambda>named.
     rbind (if default_present env then
              rbind (load_one_backend H env sources DEFAULT_BACKEND_NAME ''S3A_BACKEND_ENDPOINT'' ''S3A_BACKEND_REGION''
                       ''S3A_BACKEND_ACCESS_KEY'' ''S3A_BACKEND_SECRET_KEY'' ''S3A_BACKEND_ENDPOINT''
                       ''S3A_BACKEND_ACCESS_KEY'' ''S3A_BACKEND_SECRET_KEY'')
                (\<lambda>(b, sources). Inr (bt_insert DEFAULT_BACKEND_NAME b [], sources))
            else Inr ([], sources)) (\<lambda>(backends, sources).
       named_backends H env named backends sources))"

section \<open>Clients\<close>

fun named_clients ::
  "host \<Rightarrow> env_source \<Rightarrow> string list \<Rightarrow> (string, client_credentials) btree \<Rightarrow> sources
   \<Rightarrow> config_error + (string, client_credentials) btree \<times> sources" where
  "named_clients H env [] clients sources = Inr (clients, sources)"
| "named_clients H env (name # names) clients sources =
     (let access_var = ''S3A_CLIENT_'' @ name @ ''_ACCESS_KEY''; secret_var = ''S3A_CLIENT_'' @ name @ ''_SECRET_KEY'';
          backend_var = ''S3A_CLIENT_'' @ name @ ''_BACKEND'' in
      rbind (read_var H env access_var) (\<lambda>r.
      rbind (ok_or r (Missing ''S3A_CLIENT_<NAME>_ACCESS_KEY'')) (\<lambda>access.
      rbind (read_var H env secret_var) (\<lambda>r.
      rbind (ok_or r (Missing ''S3A_CLIENT_<NAME>_SECRET_KEY'')) (\<lambda>secret.
        let sources = bt_insert secret_var (rv_source secret) (bt_insert access_var (rv_source access) sources) in
      rbind (read_var H env backend_var) (\<lambda>r.
        let (backend, sources) = (case r of
              Some r \<Rightarrow> (h_to_uppercase H (rv_value r), bt_insert backend_var (rv_source r) sources)
            | None \<Rightarrow> (DEFAULT_BACKEND_NAME, bt_insert backend_var Default sources)) in
        named_clients H env names
          (bt_insert name \<lparr> cc_access_key = rv_value access, cc_secret_key = rv_value secret, cc_backend = backend \<rparr> clients)
          sources))))))"

definition load_clients :: "host \<Rightarrow> env_source \<Rightarrow> sources \<Rightarrow> config_error + (string, client_credentials) btree \<times> sources" where
  "load_clients H env sources =
     rbind (discover_names env ''S3A_CLIENT_'' [''_ACCESS_KEY'', ''_SECRET_KEY''] []) (\<lambda>names.
       named_clients H env names [] sources)"

definition validate_client_backends ::
  "(string, client_credentials) btree \<Rightarrow> (string, backend) btree \<Rightarrow> config_error + unit" where
  "validate_client_backends clients backends =
     (case List.find (\<lambda>(_, c). bt_get backends (cc_backend c) = None) clients of
        Some (client_name, c) \<Rightarrow> Inl (UnknownBackend client_name (cc_backend c) (join '', '' (map fst backends)))
      | None \<Rightarrow> Inr ())"

section \<open>Keys\<close>

fun key_names :: "string list \<Rightarrow> name_set \<Rightarrow> config_error + name_set" where
  "key_names [] names = Inr names"
| "key_names (var # vars) names =
     (case strip_prefix ''S3A_KEY_'' var of
        None \<Rightarrow> key_names vars names
      | Some rest \<Rightarrow>
          let name = without_file rest in
          if name = ''ACTIVE'' then key_names vars names
          else if \<not> is_valid_name name then Inl (Invalid ''S3A_KEY_<NAME>'' (name_rule var))
          else key_names vars (bt_insert name () names))"

definition decode_key_material :: "host \<Rightarrow> string \<Rightarrow> string \<Rightarrow> config_error + bytes" where
  "decode_key_material H name raw =
     ok_or (Option.bind (decode_text (h_codec H) (trim raw)) (\<lambda>b. if length b = 32 then Some b else None))
       (Invalid ''S3A_KEY_<NAME>'' (name @ '': not base64 of exactly 32 bytes''))"

fun named_keys ::
  "host \<Rightarrow> env_source \<Rightarrow> string list \<Rightarrow> (string, master_key) btree \<Rightarrow> sources \<Rightarrow> config_error + (string, master_key) btree \<times> sources" where
  "named_keys H env [] keys sources = Inr (keys, sources)"
| "named_keys H env (name # names) keys sources =
     (let var = ''S3A_KEY_'' @ name in
      rbind (read_var H env var) (\<lambda>r.
      rbind (ok_or r (Missing ''S3A_KEY_<NAME>'')) (\<lambda>resolved.
      rbind (decode_key_material H name (rv_value resolved)) (\<lambda>bytes.
        named_keys H env names (bt_insert name (MasterKey bytes) keys) (bt_insert var (rv_source resolved) sources)))))"

text \<open>The loop that finds two names with the same key material.\<close>

fun same_material :: "crypto \<Rightarrow> (string, master_key) btree \<Rightarrow> (string, string) btree \<Rightarrow> config_error + unit" where
  "same_material C [] seen = Inr ()"
| "same_material C ((name, k) # keys) seen =
     (case bt_get seen (MasterKey_key_id C k) of
        Some prev \<Rightarrow> Inl (Invalid ''S3A_KEY_<NAME>'' (''S3A_KEY_'' @ prev @ '' and S3A_KEY_'' @ name @ '' hold the same key material''))
      | None \<Rightarrow> same_material C keys (bt_insert (MasterKey_key_id C k) name seen))"

definition load_keys :: "host \<Rightarrow> env_source \<Rightarrow> sources \<Rightarrow> config_error + (string, master_key) btree \<times> sources" where
  "load_keys H env sources =
     rbind (key_names (es_names env) []) (\<lambda>names.
     rbind (named_keys H env (map fst names) [] sources) (\<lambda>(keys, sources).
     rbind (same_material (h_crypto H) keys []) (\<lambda>_. Inr (keys, sources))))"

section \<open>The RSA key\<close>

definition check_rsa_modulus :: "crypto \<Rightarrow> rsa_kek \<Rightarrow> string \<Rightarrow> config_error + unit" where
  "check_rsa_modulus C kek name =
     (let bits = RsaKek_modulus_bits C kek in
      if bits < 2048 then
        Inl (Invalid name (''RSA modulus is '' @ dec_string bits @ '' bits; at least 2048 is required (4096 recommended)''))
      else Inr ())"

text \<open>\<open>entry(...).or_insert(Source::Default)\<close>.\<close>

definition or_default :: "string \<Rightarrow> sources \<Rightarrow> sources" where
  "or_default name sources = (if bt_get sources name = None then bt_insert name Default sources else sources)"

definition load_rsa_kek :: "host \<Rightarrow> env_source \<Rightarrow> sources \<Rightarrow> config_error + rsa_kek option \<times> sources" where
  "load_rsa_kek H env sources =
     rbind (read_var H env ''S3A_RSA_KEY'') (\<lambda>private.
     rbind (read_var H env ''S3A_RSA_PUBLIC'') (\<lambda>public.
       let sources = or_default ''S3A_RSA_PUBLIC'' (or_default ''S3A_RSA_KEY'' sources) in
       case (private, public) of
         (Some _, Some _) \<Rightarrow> Inl (BothSetPair ''S3A_RSA_KEY'' ''S3A_RSA_PUBLIC'')
       | (Some r, None) \<Rightarrow>
           rbind (map_err (\<lambda>_. Invalid ''S3A_RSA_KEY''
                    (''not a PKCS#8 PEM private key'' @ dash @ ''`openssl pkcs8 -topk8` converts a PKCS#1 key''))
                    (RsaKek_from_private_pem (h_crypto H) (rv_value r))) (\<lambda>kek.
           rbind (check_rsa_modulus (h_crypto H) kek ''S3A_RSA_KEY'') (\<lambda>_.
             Inr (Some kek, bt_insert ''S3A_RSA_KEY'' (rv_source r) sources)))
       | (None, Some r) \<Rightarrow>
           rbind (map_err (\<lambda>e. Invalid ''S3A_RSA_PUBLIC'' (error_string e))
                    (RsaKek_from_public_pem (h_crypto H) (rv_value r))) (\<lambda>kek.
           rbind (check_rsa_modulus (h_crypto H) kek ''S3A_RSA_PUBLIC'') (\<lambda>_.
             Inr (Some kek, bt_insert ''S3A_RSA_PUBLIC'' (rv_source r) sources)))
       | (None, None) \<Rightarrow> Inr (None, sources)))"

section \<open>The whole configuration\<close>

datatype log_format = Text | Json

text \<open>The record of \<open>Upstream\<close> with the fields that the request path does not read.\<close>

record loaded_config = config +
  cf_listen :: string
  cf_log_level :: string
  cf_log_format :: log_format
  cf_timeout_connect :: u64
  cf_key_active_name :: string
  cf_sources :: sources
  cf_rsa_public_pem :: "string option"
  cf_metrics_listen :: "string option"
  cf_tls :: "tls_config option"

definition parse_log_format :: "string \<Rightarrow> config_error + log_format" where
  "parse_log_format raw =
     (if raw = ''text'' then Inr Text else if raw = ''json'' then Inr Json
      else Inl (Invalid ''S3A_LOG_FORMAT'' (raw @ dash @ ''must be one of: text, json'')))"

definition parse_chunk_size :: "string \<Rightarrow> config_error + u32" where
  "parse_chunk_size raw =
     ok_or (Option.bind (parse_u32 raw) (\<lambda>n. if MIN_CHUNK_SIZE \<le> n \<and> n \<le> MAX_CHUNK_SIZE then Some n else None))
       (Invalid ''S3A_CHUNK_SIZE'' (raw @ dash @ ''must be a number of bytes between '' @ dec_string (unat MIN_CHUNK_SIZE)
          @ '' and '' @ dec_string (unat MAX_CHUNK_SIZE)))"

definition parse_alg :: "host \<Rightarrow> string \<Rightarrow> config_error + alg" where
  "parse_alg H raw =
     (if raw = ''auto'' \<and> h_has_aes_hw H then Inr Aes256Gcm
      else if raw = ''aes-gcm'' then Inr Aes256Gcm
      else if raw = ''auto'' \<or> raw = ''xchacha20-poly1305'' then Inr XChaCha20Poly1305
      else Inl (Invalid ''S3A_ALG'' (raw @ dash @ ''must be one of: auto, aes-gcm, xchacha20-poly1305'')))"

definition parse_footer_cache :: "string \<Rightarrow> config_error + nat" where
  "parse_footer_cache raw =
     ok_or (Option.bind (parse_u64 raw) (\<lambda>n. if unat n \<ge> 1 then Some (unat n) else None)) (Invalid ''S3A_FOOTER_CACHE'' raw)"

definition parse_bind_mode :: "string \<Rightarrow> config_error + bind_mode" where
  "parse_bind_mode raw =
     (if raw = ''off'' then Inr Off else if raw = ''on'' then Inr On else if raw = ''strict'' then Inr Strict
      else Inl (Invalid ''S3A_BIND_PATHS'' (raw @ dash @ ''must be one of: off, on, strict'')))"

definition no_active_key :: "string \<Rightarrow> config_error" where
  "no_active_key name =
     (if name = RSA_ACTIVE_NAME then
        Invalid ''S3A_KEY_ACTIVE'' (quote @ ''RSA'' @ quote @ '' needs S3A_RSA_KEY[_FILE] or S3A_RSA_PUBLIC[_FILE] configured'')
      else Invalid ''S3A_KEY_ACTIVE'' (quote @ name @ quote @ '' has no matching S3A_KEY_'' @ name @ ''[_FILE]''))"

definition read_metrics :: "host \<Rightarrow> env_source \<Rightarrow> sources \<Rightarrow> config_error + string option \<times> sources" where
  "read_metrics H env sources =
     rbind (read_var H env ''S3A_METRICS'') (\<lambda>r. case r of
       Some r \<Rightarrow> Inr (Some (rv_value r), bt_insert ''S3A_METRICS'' (rv_source r) sources)
     | None \<Rightarrow> Inr (None, bt_insert ''S3A_METRICS'' Default sources))"

text \<open>The steps of \<open>Config::load\<close> up to the keyring, and from there on.\<close>

definition load_keyring :: "host \<Rightarrow> env_source \<Rightarrow> sources \<Rightarrow> config_error + (string \<times> keyring \<times> string option) \<times> sources" where
  "load_keyring H env sources =
     rbind (required H env sources ''S3A_KEY_ACTIVE'') (\<lambda>(key_active_name, sources).
     rbind (load_keys H env sources) (\<lambda>(keys, sources).
     rbind (load_rsa_kek H env sources) (\<lambda>(rsa, sources).
     rbind (case rsa of None \<Rightarrow> Inr None
            | Some r \<Rightarrow> rbind (map_err (\<lambda>e. Invalid ''S3A_RSA_PUBLIC'' (error_string e)) (RsaKek_public_pem (h_crypto H) r))
                         (\<lambda>pem. Inr (Some pem))) (\<lambda>rsa_public_pem.
     rbind (ok_or (Keyring_new (h_crypto H) key_active_name keys rsa) (no_active_key key_active_name)) (\<lambda>keyring.
       Inr ((key_active_name, keyring, rsa_public_pem), sources))))))"

definition Config_load :: "host \<Rightarrow> env_source \<Rightarrow> config_error + loaded_config" where
  "Config_load H env =
     rbind (optional H env [] ''S3A_LISTEN'' ''0.0.0.0:8080'') (\<lambda>(listen, sources).
     rbind (optional H env sources ''S3A_LOG'' ''info'') (\<lambda>(log_level, sources).
     rbind (optional H env sources ''S3A_LOG_FORMAT'' ''text'') (\<lambda>(log_format_raw, sources).
     rbind (parse_log_format log_format_raw) (\<lambda>log_format.
     rbind (load_backends H env sources) (\<lambda>(backends, sources).
     if backends = [] then Inl (Missing ''S3A_BACKEND_ENDPOINT'')
     else
     rbind (optional H env sources ''S3A_TIMEOUT_CONNECT'' ''10'') (\<lambda>(raw, sources).
     rbind (parse_duration_secs raw ''S3A_TIMEOUT_CONNECT'') (\<lambda>timeout_connect.
     rbind (optional H env sources ''S3A_TIMEOUT_REQUEST'' ''300'') (\<lambda>(raw, sources).
     rbind (parse_duration_secs raw ''S3A_TIMEOUT_REQUEST'') (\<lambda>timeout_request.
     rbind (load_clients H env sources) (\<lambda>(clients, sources).
     rbind (validate_client_backends clients backends) (\<lambda>_.
     rbind (optional H env sources ''S3A_CHUNK_SIZE'' (dec_string (unat DEFAULT_CHUNK_SIZE))) (\<lambda>(chunk_size_raw, sources).
     rbind (parse_chunk_size chunk_size_raw) (\<lambda>chunk_size.
     rbind (optional H env sources ''S3A_ALG'' ''auto'') (\<lambda>(alg_raw, sources).
     rbind (parse_alg H alg_raw) (\<lambda>alg.
     rbind (load_keyring H env sources) (\<lambda>((key_active_name, keyring, rsa_public_pem), sources).
     rbind (optional H env sources ''S3A_MP_TTL'' ''24h'') (\<lambda>(mp_ttl_raw, sources).
     rbind (parse_duration mp_ttl_raw ''S3A_MP_TTL'') (\<lambda>mp_ttl.
     rbind (optional H env sources ''S3A_FOOTER_CACHE'' ''1024'') (\<lambda>(footer_cache_raw, sources).
     rbind (parse_footer_cache footer_cache_raw) (\<lambda>footer_cache.
     rbind (read_metrics H env sources) (\<lambda>(metrics_listen, sources).
     rbind (parse_tls env sources) (\<lambda>(tls, sources).
     rbind (optional H env sources ''S3A_AUTH_FAIL_LIMIT'' ''60'') (\<lambda>(auth_fail_limit_raw, sources).
     rbind (ok_or (parse_u32 auth_fail_limit_raw) (Invalid ''S3A_AUTH_FAIL_LIMIT'' auth_fail_limit_raw)) (\<lambda>auth_fail_limit.
     rbind (optional H env sources ''S3A_BIND_PATHS'' ''off'') (\<lambda>(bind_mode_raw, sources).
     rbind (parse_bind_mode bind_mode_raw) (\<lambda>bind_mode.
       Inr \<lparr> cf_backends = backends, cf_clients = clients, cf_timeout_request = timeout_request, cf_keyring = keyring,
             cf_chunk_size = chunk_size, cf_alg = alg, cf_mp_ttl = mp_ttl, cf_footer_cache = footer_cache,
             cf_auth_fail_limit = auth_fail_limit, cf_bind_mode = bind_mode, cf_listen = listen, cf_log_level = log_level,
             cf_log_format = log_format, cf_timeout_connect = timeout_connect, cf_key_active_name = key_active_name,
             cf_sources = sources, cf_rsa_public_pem = rsa_public_pem, cf_metrics_listen = metrics_listen,
             cf_tls = tls \<rparr>))))))))))))))))))))))))))"

end
