(* ===== verification/ConfigFile.thy ===== *)
theory ConfigFile
  imports ConfigLoad
begin

text \<open>
  The optional file layer (\<open>config/file.rs\<close>) under the environment, and the report of the effective configuration
  (\<open>print_effective\<close> in \<open>config.rs\<close>). The TOML parser and its \<open>Debug\<close> text are parameters; a table is an ordered map.
\<close>

section \<open>Flattening\<close>

text \<open>A float is its \<open>Display\<close> text; arrays and date-times are refused, so they are one constructor.\<close>

datatype toml_value =
    TString string
  | TInteger int
  | TFloat string
  | TBoolean bool
  | TOther string
  | TTable "(string \<times> toml_value) list"

type_synonym toml_table = "(string \<times> toml_value) list"

record toml_crate =
  tm_parse :: "string \<Rightarrow> string + toml_table"
  tm_debug :: "toml_value \<Rightarrow> string"

definition int_string :: "int \<Rightarrow> string" where
  "int_string i = (if i < 0 then ''-'' @ dec_string (nat (- i)) else dec_string (nat i))"

definition scalar :: "toml_crate \<Rightarrow> toml_value \<Rightarrow> config_error + string" where
  "scalar T v =
     (let refused = Inl (Invalid ''config file value'' (tm_debug T v @ '': expected a string, integer, float, or boolean'')) in
      case v of
        TString s \<Rightarrow> Inr s
      | TInteger i \<Rightarrow> Inr (int_string i)
      | TFloat f \<Rightarrow> Inr f
      | TBoolean b \<Rightarrow> Inr (if b then ''true'' else ''false'')
      | TOther _ \<Rightarrow> refused
      | TTable _ \<Rightarrow> refused)"

type_synonym flat = "(string, string) btree"

text \<open>\<open>if let Some(v) = t.get(key) { out.insert(name, scalar(v)?) }\<close>, and a sequence of them.\<close>

definition flatten_entry :: "toml_crate \<Rightarrow> toml_table \<Rightarrow> string \<times> string \<Rightarrow> flat \<Rightarrow> config_error + flat" where
  "flatten_entry T t entry out =
     (case bt_get t (fst entry) of
        Some v \<Rightarrow> rbind (scalar T v) (\<lambda>s. Inr (bt_insert (snd entry) s out))
      | None \<Rightarrow> Inr out)"

fun flatten_entries :: "toml_crate \<Rightarrow> toml_table \<Rightarrow> (string \<times> string) list \<Rightarrow> flat \<Rightarrow> config_error + flat" where
  "flatten_entries T t [] out = Inr out"
| "flatten_entries T t (e # es) out = rbind (flatten_entry T t e out) (flatten_entries T t es)"

definition TOP_LEVEL_SCALARS :: "string list" where
  "TOP_LEVEL_SCALARS = [''listen'', ''log'', ''log_format'', ''bind_paths'']"

definition TOP_LEVEL_DYNAMIC_TABLES :: "string list" where
  "TOP_LEVEL_DYNAMIC_TABLES = [''backends'', ''clients'', ''keys'']"

definition TABLES :: "(string \<times> (string \<times> string) list) list" where
  "TABLES =
     [(''backend'',
        [(''endpoint'', ''S3A_BACKEND_ENDPOINT''), (''region'', ''S3A_BACKEND_REGION''),
         (''access_key'', ''S3A_BACKEND_ACCESS_KEY''), (''secret_key'', ''S3A_BACKEND_SECRET_KEY''),
         (''secret_key_file'', ''S3A_BACKEND_SECRET_KEY_FILE'')]),
      (''timeouts'', [(''connect'', ''S3A_TIMEOUT_CONNECT''), (''request'', ''S3A_TIMEOUT_REQUEST'')]),
      (''crypto'', [(''chunk_size'', ''S3A_CHUNK_SIZE''), (''alg'', ''S3A_ALG'')]),
      (''rsa'',
        [(''key'', ''S3A_RSA_KEY''), (''key_file'', ''S3A_RSA_KEY_FILE''),
         (''public'', ''S3A_RSA_PUBLIC''), (''public_file'', ''S3A_RSA_PUBLIC_FILE'')]),
      (''multipart'', [(''ttl'', ''S3A_MP_TTL''), (''footer_cache'', ''S3A_FOOTER_CACHE'')]),
      (''metrics'', [(''listen'', ''S3A_METRICS'')]),
      (''tls'', [(''cert'', ''S3A_TLS_CERT''), (''key'', ''S3A_TLS_KEY'')]),
      (''auth'', [(''fail_limit'', ''S3A_AUTH_FAIL_LIMIT'')])]"

text \<open>The loop of \<open>flatten_simple_tables\<close>. A key the table does not list is an error; an entry that is no table is skipped.\<close>

fun flatten_tables :: "toml_crate \<Rightarrow> toml_table \<Rightarrow> (string \<times> (string \<times> string) list) list \<Rightarrow> flat \<Rightarrow> config_error + flat" where
  "flatten_tables T tbl [] out = Inr out"
| "flatten_tables T tbl ((table_name, keys) # tables) out =
     (case bt_get tbl table_name of
        Some (TTable t) \<Rightarrow>
          (case List.find (\<lambda>(key, _). key \<notin> fst ` set keys) t of
             Some (key, _) \<Rightarrow> Inl (UnknownKey (table_name @ ''.'' @ key))
           | None \<Rightarrow> rbind (flatten_entries T t keys out) (flatten_tables T tbl tables))
      | _ \<Rightarrow> flatten_tables T tbl tables out)"

definition flatten_simple_tables :: "toml_crate \<Rightarrow> toml_table \<Rightarrow> flat \<Rightarrow> config_error + flat" where
  "flatten_simple_tables T tbl out = flatten_tables T tbl TABLES out"

fun flatten_clients :: "host \<Rightarrow> toml_crate \<Rightarrow> toml_table \<Rightarrow> flat \<Rightarrow> config_error + flat" where
  "flatten_clients H T [] out = Inr out"
| "flatten_clients H T ((name, v) # clients) out =
     (case v of
        TTable t \<Rightarrow>
          (let var = (\<lambda>field. ''S3A_CLIENT_'' @ h_to_uppercase H name @ field) in
           rbind (flatten_entries T t
                    [(''access_key'', var ''_ACCESS_KEY''), (''secret_key'', var ''_SECRET_KEY''),
                     (''secret_key_file'', var ''_SECRET_KEY_FILE''), (''backend'', var ''_BACKEND'')] out)
             (flatten_clients H T clients))
      | _ \<Rightarrow> flatten_clients H T clients out)"

fun flatten_named_backends :: "host \<Rightarrow> toml_crate \<Rightarrow> toml_table \<Rightarrow> flat \<Rightarrow> config_error + flat" where
  "flatten_named_backends H T [] out = Inr out"
| "flatten_named_backends H T ((name, v) # backends) out =
     (case v of
        TTable t \<Rightarrow>
          (let var = (\<lambda>field. ''S3A_BACKEND_'' @ h_to_uppercase H name @ field) in
           rbind (flatten_entries T t
                    [(''endpoint'', var ''_ENDPOINT''), (''region'', var ''_REGION''), (''access_key'', var ''_ACCESS_KEY''),
                     (''secret_key'', var ''_SECRET_KEY''), (''secret_key_file'', var ''_SECRET_KEY_FILE'')] out)
             (flatten_named_backends H T backends))
      | _ \<Rightarrow> flatten_named_backends H T backends out)"

fun flatten_key_loop :: "host \<Rightarrow> toml_crate \<Rightarrow> toml_table \<Rightarrow> flat \<Rightarrow> config_error + flat" where
  "flatten_key_loop H T [] out = Inr out"
| "flatten_key_loop H T ((name, v) # t) out =
     (if name = ''active'' \<or> (case v of TTable _ \<Rightarrow> True | _ \<Rightarrow> False) then flatten_key_loop H T t out
      else rbind (scalar T v) (\<lambda>s. flatten_key_loop H T t (bt_insert (''S3A_KEY_'' @ h_to_uppercase H name) s out)))"

definition flatten_keys :: "host \<Rightarrow> toml_crate \<Rightarrow> toml_table \<Rightarrow> flat \<Rightarrow> config_error + flat" where
  "flatten_keys H T t out =
     rbind (flatten_entries T t [(''active'', ''S3A_KEY_ACTIVE'')] out) (flatten_key_loop H T t)"

definition known_key :: "string \<Rightarrow> bool" where
  "known_key key \<longleftrightarrow> key \<in> set TOP_LEVEL_SCALARS \<or> key \<in> set TOP_LEVEL_DYNAMIC_TABLES \<or> key \<in> fst ` set TABLES"

text \<open>\<open>if let Some(Value::Table(t)) = tbl.get(name)\<close>.\<close>

definition on_table :: "toml_table \<Rightarrow> string \<Rightarrow> (toml_table \<Rightarrow> flat \<Rightarrow> config_error + flat) \<Rightarrow> flat \<Rightarrow> config_error + flat" where
  "on_table tbl name f out = (case bt_get tbl name of Some (TTable t) \<Rightarrow> f t out | _ \<Rightarrow> Inr out)"

definition reject_secrets :: "flat \<Rightarrow> config_error + flat" where
  "reject_secrets out =
     (case List.find (\<lambda>(k, _). is_secret k) out of Some (name, _) \<Rightarrow> Inl (SecretInFile name) | None \<Rightarrow> Inr out)"

definition flatten :: "host \<Rightarrow> toml_crate \<Rightarrow> toml_table \<Rightarrow> config_error + flat" where
  "flatten H T tbl =
     (case List.find (\<lambda>(key, _). \<not> known_key key) tbl of
        Some (key, _) \<Rightarrow> Inl (UnknownKey key)
      | None \<Rightarrow>
          rbind (flatten_entries T tbl
                   [(''listen'', ''S3A_LISTEN''), (''log'', ''S3A_LOG''), (''log_format'', ''S3A_LOG_FORMAT''),
                    (''bind_paths'', ''S3A_BIND_PATHS'')] []) (\<lambda>out.
          rbind (flatten_simple_tables T tbl out) (\<lambda>out.
          rbind (on_table tbl ''backends'' (flatten_named_backends H T) out) (\<lambda>out.
          rbind (on_table tbl ''clients'' (flatten_clients H T) out) (\<lambda>out.
          rbind (on_table tbl ''keys'' (flatten_keys H T) out) reject_secrets)))))"

section \<open>The layered source\<close>

definition load_file :: "host \<Rightarrow> toml_crate \<Rightarrow> string \<Rightarrow> config_error + flat" where
  "load_file H T path =
     rbind (map_err (ConfigFileRead path) (h_read_file H path)) (\<lambda>raw.
     rbind (map_err (ConfigFileParse path) (tm_parse T raw)) (flatten H T))"

definition DEFAULT_PATHS :: "string list" where
  "DEFAULT_PATHS = [''s3armor.toml'', ''/etc/s3armor/config.toml'']"

record layered =
  ly_env :: env_source
  ly_file :: flat
  ly_file_path :: "string option"

definition Layered_new ::
  "host \<Rightarrow> toml_crate \<Rightarrow> (string \<Rightarrow> bool) \<Rightarrow> env_source \<Rightarrow> string option \<Rightarrow> config_error + layered" where
  "Layered_new H T is_file env path =
     (case (case path of Some p \<Rightarrow> Some p | None \<Rightarrow> List.find is_file DEFAULT_PATHS) of
        Some p \<Rightarrow> rbind (load_file H T p) (\<lambda>file. Inr \<lparr> ly_env = env, ly_file = file, ly_file_path = Some p \<rparr>)
      | None \<Rightarrow> Inr \<lparr> ly_env = env, ly_file = [], ly_file_path = None \<rparr>)"

definition layered_get :: "layered \<Rightarrow> string \<Rightarrow> string option" where
  "layered_get l name = (case es_get (ly_env l) name of Some v \<Rightarrow> Some v | None \<Rightarrow> bt_get (ly_file l) name)"

definition layered_names :: "layered \<Rightarrow> string list" where
  "layered_names l = map fst (bt_from_list (map (\<lambda>n. (n, ())) (es_names (ly_env l) @ map fst (ly_file l))))"

definition layered_origin :: "layered \<Rightarrow> string \<Rightarrow> source" where
  "layered_origin l name =
     (if es_get (ly_env l) name \<noteq> None then Env
      else case ly_file_path l of
        Some path \<Rightarrow> if bt_get (ly_file l) name \<noteq> None then File path else Env
      | None \<Rightarrow> Env)"

definition layered_source :: "layered \<Rightarrow> env_source" where
  "layered_source l = \<lparr> es_get = layered_get l, es_names = layered_names l, es_origin = layered_origin l \<rparr>"

section \<open>The effective configuration\<close>

definition client_var :: "loaded_config \<Rightarrow> string \<Rightarrow> string option" where
  "client_var cfg name =
     (let of_field = (\<lambda>field. Option.bind (strip_prefix ''S3A_CLIENT_'' name) (\<lambda>s.
            Option.bind (strip_suffix field s) (bt_get (cf_clients cfg)))) in
      case of_field ''_ACCESS_KEY'' of
        Some c \<Rightarrow> Some (cc_access_key c)
      | None \<Rightarrow> map_option cc_backend (of_field ''_BACKEND''))"

text \<open>The loop over the three fields, in order.\<close>

fun backend_field :: "loaded_config \<Rightarrow> string \<Rightarrow> (string \<times> (backend \<Rightarrow> string)) list \<Rightarrow> string option" where
  "backend_field cfg rest [] = None"
| "backend_field cfg rest ((field, get) # fs) =
     (case Option.bind (if rest = field then Some DEFAULT_BACKEND_NAME else strip_suffix (''_'' @ field) rest)
             (bt_get (cf_backends cfg)) of
        Some b \<Rightarrow> Some (get b)
      | None \<Rightarrow> backend_field cfg rest fs)"

definition backend_var :: "loaded_config \<Rightarrow> string \<Rightarrow> string option" where
  "backend_var cfg name =
     Option.bind (strip_prefix ''S3A_BACKEND_'' name) (\<lambda>rest.
       backend_field cfg rest [(''ENDPOINT'', be_endpoint), (''REGION'', be_region), (''ACCESS_KEY'', be_access_key)])"

definition or_empty :: "string option \<Rightarrow> string" where
  "or_empty r = (case r of Some s \<Rightarrow> s | None \<Rightarrow> '''')"

definition raw_value :: "loaded_config \<Rightarrow> string \<Rightarrow> string" where
  "raw_value cfg name =
     (if name = ''S3A_LISTEN'' then cf_listen cfg
      else if name = ''S3A_LOG'' then cf_log_level cfg
      else if name = ''S3A_LOG_FORMAT'' then (case cf_log_format cfg of Text \<Rightarrow> ''text'' | Json \<Rightarrow> ''json'')
      else if name = ''S3A_TIMEOUT_CONNECT'' then dec_string (unat (cf_timeout_connect cfg))
      else if name = ''S3A_TIMEOUT_REQUEST'' then dec_string (unat (cf_timeout_request cfg))
      else if name = ''S3A_CHUNK_SIZE'' then dec_string (unat (cf_chunk_size cfg))
      else if name = ''S3A_ALG'' then (case cf_alg cfg of Aes256Gcm \<Rightarrow> ''aes-gcm'' | XChaCha20Poly1305 \<Rightarrow> ''xchacha20-poly1305'')
      else if name = ''S3A_KEY_ACTIVE'' then cf_key_active_name cfg
      else if name = ''S3A_MP_TTL'' then dec_string (unat (cf_mp_ttl cfg) div 3600) @ ''h''
      else if name = ''S3A_FOOTER_CACHE'' then dec_string (cf_footer_cache cfg)
      else if name = ''S3A_RSA_PUBLIC'' then or_empty (cf_rsa_public_pem cfg)
      else if name = ''S3A_METRICS'' then or_empty (cf_metrics_listen cfg)
      else if name = ''S3A_TLS_CERT'' then or_empty (map_option tc_cert_path (cf_tls cfg))
      else if name = ''S3A_TLS_KEY'' then or_empty (map_option tc_key_path (cf_tls cfg))
      else if name = ''S3A_AUTH_FAIL_LIMIT'' then dec_string (unat (cf_auth_fail_limit cfg))
      else if name = ''S3A_BIND_PATHS'' then (case cf_bind_mode cfg of Off \<Rightarrow> ''off'' | On \<Rightarrow> ''on'' | Strict \<Rightarrow> ''strict'')
      else or_empty (case client_var cfg name of Some v \<Rightarrow> Some v | None \<Rightarrow> backend_var cfg name))"

definition display_value :: "loaded_config \<Rightarrow> string \<Rightarrow> source \<Rightarrow> string" where
  "display_value cfg name src =
     (if is_secret name then (if src = Default then ''<unset>'' else ''<redacted>'') else raw_value cfg name)"

text \<open>The lines it prints: one for each variable, the capability of the node, and the routing of the clients.\<close>

definition print_effective :: "loaded_config \<Rightarrow> string list" where
  "print_effective cfg =
     map (\<lambda>(name, src). name @ ''='' @ display_value cfg name src @ ''  ('' @ source_string src @ '')'') (cf_sources cfg)
     @ [''# node capability: '' @ (case Keyring_capability (cf_keyring cfg) of
          ReadWrite \<Rightarrow> ''read+write''
        | WriteOnly \<Rightarrow> ''write-only (GET of encrypted objects returns KeyNotAvailable)'')]
     @ concat (map (\<lambda>(client_name, creds). case bt_get (cf_backends cfg) (cc_backend creds) of
          Some b \<Rightarrow> [''# routing: client '' @ client_name @ '' -> backend '' @ cc_backend creds @ '' ('' @ be_endpoint b @ '')'']
        | None \<Rightarrow> []) (cf_clients cfg))"

end
