(* ===== verification/IoRules.thy ===== *)
theory IoRules
  imports Upstream
begin

text \<open>
  Reasoning about handlers: the triple \<open>io_ok I m Q\<close> says that \<open>m\<close>, started in a shared state with the invariant \<open>I\<close>,
  does not panic, keeps \<open>I\<close> whether it returns or fails, and returns only values with \<open>Q\<close>. There is one rule per
  construct, in the collection \<open>io_rules\<close>, so that a proof follows the text of the handler.
\<close>

named_theorems io_rules

definition io_ok :: "(proxy_state \<Rightarrow> bool) \<Rightarrow> ('w, 'a) io \<Rightarrow> ('a \<Rightarrow> bool) \<Rightarrow> bool" where
  "io_ok I m Q \<longleftrightarrow> (\<forall>s. I (io_proxy s) \<longrightarrow>
     (case m s of (Ret a, s') \<Rightarrow> I (io_proxy s') \<and> Q a | (Err _, s') \<Rightarrow> I (io_proxy s') | (Panic, _) \<Rightarrow> False))"

lemma io_okI:
  assumes "\<And>s r s'. I (io_proxy s) \<Longrightarrow> m s = (r, s') \<Longrightarrow> r \<noteq> Panic \<and> I (io_proxy s') \<and> (\<forall>a. r = Ret a \<longrightarrow> Q a)"
  shows "io_ok I m Q"
  unfolding io_ok_def using assms by (fastforce split: io_result.splits prod.splits)

lemma io_okD:
  assumes "io_ok I m Q" "I (io_proxy s)" "m s = (r, s')"
  shows "r \<noteq> Panic" "I (io_proxy s')" "r = Ret a \<Longrightarrow> Q a"
  using assms by (cases r; auto simp: io_ok_def dest!: spec [where x = s])+

lemma io_ok_weaken: "io_ok I m P \<Longrightarrow> (\<And>a. P a \<Longrightarrow> Q a) \<Longrightarrow> io_ok I m Q"
  by (fastforce simp: io_ok_def split: io_result.splits prod.splits)

lemma io_ok_return [io_rules]: "Q a \<Longrightarrow> io_ok I (io_return a) Q"
  by (simp add: io_ok_def io_return_def)

lemma io_ok_fail [io_rules]: "io_ok I (io_fail e) Q"
  by (simp add: io_ok_def io_fail_def)

lemma io_ok_bind [io_rules]:
  assumes "io_ok I m P" "\<And>a. P a \<Longrightarrow> io_ok I (f a) Q"
  shows "io_ok I (io_bind m f) Q"
proof (rule io_okI)
  fix s r s'
  assume i: "I (io_proxy s)" and b: "io_bind m f s = (r, s')"
  obtain r1 s1 where m: "m s = (r1, s1)" by (cases "m s")
  note m' = io_okD [OF assms(1) i m]
  show "r \<noteq> Panic \<and> I (io_proxy s') \<and> (\<forall>a. r = Ret a \<longrightarrow> Q a)"
  proof (cases r1)
    case (Ret a)
    then have "f a s1 = (r, s')" using b m by (simp add: io_bind_def)
    from io_okD [OF assms(2) [OF m'(3) [OF Ret]] m'(2) this] show ?thesis by blast
  qed (use b m m' in \<open>auto simp: io_bind_def\<close>)
qed

lemma io_ok_lift [io_rules]: "io_ok I (io_lift r) (\<lambda>a. r = Inr a)"
  by (simp add: io_ok_def io_defs split: sum.splits)

lemma io_ok_read [io_rules]: "io_ok I (io_read f) (\<lambda>a. \<exists>ps. I ps \<and> a = f ps)"
  by (auto simp: io_ok_def io_defs)

lemma io_ok_modify [io_rules]: "(\<And>ps. I ps \<Longrightarrow> I (f ps)) \<Longrightarrow> io_ok I (io_modify f) (\<lambda>_. True)"
  by (auto simp: io_ok_def io_defs)

lemma io_ok_clocks [io_rules]:
  "io_ok I (io_system_now E) (\<lambda>_. True)" "io_ok I (io_instant_now E) (\<lambda>_. True)"
  by (simp_all add: io_ok_def io_defs split: prod.splits)

lemma io_ok_random [io_rules]:
  "io_ok I (io_random n) (\<lambda>bs. length bs = n)" "io_ok I (io_drawing f) (\<lambda>_. True)" "io_ok I io_fork_rng (\<lambda>_. True)"
  by (simp_all add: io_ok_def io_defs fill_bytes_def split: prod.splits)

lemma io_ok_if [io_rules]:
  "(b \<Longrightarrow> io_ok I m Q) \<Longrightarrow> (\<not> b \<Longrightarrow> io_ok I n Q) \<Longrightarrow> io_ok I (if b then m else n) Q"
  by simp

lemma io_ok_option [io_rules]:
  "(x = None \<Longrightarrow> io_ok I m Q) \<Longrightarrow> (\<And>a. x = Some a \<Longrightarrow> io_ok I (n a) Q) \<Longrightarrow>
   io_ok I (case x of None \<Rightarrow> m | Some a \<Rightarrow> n a) Q"
  by (cases x) simp_all

lemma io_ok_prod [io_rules]: "(\<And>a b. x = (a, b) \<Longrightarrow> io_ok I (f a b) Q) \<Longrightarrow> io_ok I (case x of (a, b) \<Rightarrow> f a b) Q"
  by (cases x) simp

lemma io_ok_sum [io_rules]:
  "(\<And>e. x = Inl e \<Longrightarrow> io_ok I (m e) Q) \<Longrightarrow> (\<And>a. x = Inr a \<Longrightarrow> io_ok I (n a) Q) \<Longrightarrow>
   io_ok I (case x of Inl e \<Rightarrow> m e | Inr a \<Rightarrow> n a) Q"
  by (cases x) simp_all

lemma io_ok_list [io_rules]:
  "(xs = [] \<Longrightarrow> io_ok I m Q) \<Longrightarrow> (\<And>y ys. xs = y # ys \<Longrightarrow> io_ok I (n y ys) Q) \<Longrightarrow>
   io_ok I (case xs of [] \<Rightarrow> m | y # ys \<Rightarrow> n y ys) Q"
  by (cases xs) simp_all

lemma io_ok_let [io_rules]: "(\<And>y. y = x \<Longrightarrow> io_ok I (f y) Q) \<Longrightarrow> io_ok I (let y = x in f y) Q"
  by (simp add: Let_def)

section \<open>Requests\<close>

text \<open>Documented behaviour of the \<open>http\<close> crate: a header map holds only valid values, so what a backend answers is
  valid, and printable ASCII is valid.\<close>

definition http_ok :: "'w env \<Rightarrow> bool" where
  "http_ok E \<longleftrightarrow>
     (\<forall>w rq resp w'. en_send E w rq = (Answered resp, w') \<longrightarrow> header_errors E (br_headers resp) = None) \<and>
     (\<forall>v. (\<forall>c \<in> set v. 32 \<le> (of_char c :: nat) \<and> (of_char c :: nat) \<le> 126) \<longrightarrow> en_value_error E v = None) \<and>
     (\<forall>n \<in> {''etag'', ''x-amz-request-id'', ''last-modified'', ''cache-control'', ''content-length'', ''content-range''}.
        en_name_error E n = None)"

lemma header_errors_None: "header_errors E hs = None \<longleftrightarrow> (\<forall>(n, v) \<in> set hs. en_name_error E n = None \<and> en_value_error E v = None)"
  by (induction hs) (auto split: option.splits)

lemma header_errors_append: "header_errors E (hs @ hs') = None \<longleftrightarrow> header_errors E hs = None \<and> header_errors E hs' = None"
  by (auto simp: header_errors_None)

lemma header_errors_filter: "header_errors E hs = None \<Longrightarrow> header_errors E (filter P hs) = None"
  by (auto simp: header_errors_None)

lemma header_value_valid: "header_errors E hs = None \<Longrightarrow> header_value hs n = Some v \<Longrightarrow> en_value_error E v = None"
  by (induction hs) (auto simp: header_value_def split: option.splits if_splits)

lemma send_request_ok: "http_ok E \<Longrightarrow> io_ok I (send_request E rq) (\<lambda>resp. header_errors E (br_headers resp) = None)"
  by (rule io_okI) (auto simp: send_request_def http_ok_def Let_def split: prod.splits outcome.splits option.splits if_splits)

lemma forward_ok [io_rules]:
  "http_ok E \<Longrightarrow> io_ok I (forward E be meth path query hs body) (\<lambda>resp. header_errors E (br_headers resp) = None)"
  unfolding forward_def by (rule io_rules send_request_ok | simp)+

lemma io_decrypting_ok [io_rules]:
  "(\<And>ps c. I ps \<Longrightarrow> I (ps\<lparr> ps_chunk_verify_failures := c \<rparr>)) \<Longrightarrow> io_ok I (io_decrypting f) (\<lambda>_. True)"
  by (auto simp: io_ok_def io_decrypting_def Let_def)

end
