(* ===== verification/ProxyInvariant.thy ===== *)
theory ProxyInvariant
  imports Dispatch IoRules SampleStore
begin

text \<open>
  The invariant of the shared state, and that every handler keeps it and never panics, by the rules of \<open>IoRules\<close>
  along the text of each handler.
\<close>

section \<open>The invariant\<close>

definition session_valid :: "'w env \<Rightarrow> session \<Rightarrow> bool" where
  "session_valid E s \<longleftrightarrow> session_ok s \<and> s_chunk_size s \<noteq> 0 \<and>
     (\<forall>c. s_completed s = Some c \<longrightarrow> header_errors E (ca_headers c) = None)"

definition proxy_ok :: "'w env \<Rightarrow> config \<Rightarrow> proxy_state \<Rightarrow> bool" where
  "proxy_ok E cfg ps \<longleftrightarrow> ps_config ps = cfg \<and>
     ss_ok (ps_sessions ps) \<and> length (ps_sessions ps) \<le> MAX_SESSIONS \<and>
     (\<forall>k s. ss_get (ps_sessions ps) k = Some s \<longrightarrow> session_valid E s) \<and>
     limiter_ok (ps_auth_rate_limiter ps)"

text \<open>What a loaded configuration promises: a keyring with its active key, and a chunk size in the supported range.\<close>

definition config_ok :: "'w env \<Rightarrow> config \<Rightarrow> bool" where
  "config_ok E cfg \<longleftrightarrow> keyring_ok (en_crypto E) (cf_keyring cfg) \<and> chunk_size_ok (cf_chunk_size cfg)"

lemma proxy_ok_new: "proxy_ok E cfg (ProxyState_new cfg)"
  by (simp add: proxy_ok_def ProxyState_new_def ss_ok_def ss_get_def limiter_ok_new)

lemma proxy_ok_updates [simp]:
  "proxy_ok E cfg (ps\<lparr> ps_request_counter := a \<rparr>) = proxy_ok E cfg ps"
  "proxy_ok E cfg (ps\<lparr> ps_footer_cache := b \<rparr>) = proxy_ok E cfg ps"
  "proxy_ok E cfg (ps\<lparr> ps_chunk_verify_failures := c \<rparr>) = proxy_ok E cfg ps"
  "proxy_ok E cfg (ps\<lparr> ps_auth_rate_limited := d \<rparr>) = proxy_ok E cfg ps"
  "proxy_ok E cfg (record_footer_cache hit ps) = proxy_ok E cfg ps"
  "proxy_ok E cfg (record_mpu_session_created ps) = proxy_ok E cfg ps"
  "proxy_ok E cfg (record_auth_failure ps) = proxy_ok E cfg ps"
  "proxy_ok E cfg (set_draining ps) = proxy_ok E cfg ps"
  by (simp_all add: proxy_ok_def record_footer_cache_def record_mpu_session_created_def record_auth_failure_def
      set_draining_def)

lemma proxy_ok_limiter:
  "proxy_ok E cfg ps \<Longrightarrow> proxy_ok E cfg (ps\<lparr> ps_auth_rate_limiter := record_failure now later ip (ps_auth_rate_limiter ps) \<rparr>)"
  by (simp add: proxy_ok_def record_failure_ok)

lemma io_ok_config: "io_ok (proxy_ok E cfg) (f cfg) Q \<Longrightarrow> io_ok (proxy_ok E cfg) (io_bind (io_read ps_config) f) Q"
  by (rule io_ok_bind [OF io_ok_read]) (auto simp: proxy_ok_def)

section \<open>The session table\<close>

definition table_ok :: "'w env \<Rightarrow> 'k sessions \<Rightarrow> bool" where
  "table_ok E ss \<longleftrightarrow> ss_ok ss \<and> length ss \<le> MAX_SESSIONS \<and> (\<forall>k s. ss_get ss k = Some s \<longrightarrow> session_valid E s)"

lemma proxy_ok_table:
  "proxy_ok E cfg ps \<longleftrightarrow> ps_config ps = cfg \<and> table_ok E (ps_sessions ps) \<and> limiter_ok (ps_auth_rate_limiter ps)"
  by (auto simp: proxy_ok_def table_ok_def)

lemma io_sessions_ok:
  assumes "\<And>ss a ss'. table_ok E ss \<Longrightarrow> f ss = (a, ss') \<Longrightarrow> table_ok E ss' \<and> Q a"
  shows "io_ok (proxy_ok E cfg) (io_sessions f) Q"
  using assms by (auto simp: io_ok_def io_sessions_def proxy_ok_table split: prod.splits)

lemma table_remove: "table_ok E ss \<Longrightarrow> table_ok E (ss_remove k ss)"
  using length_ss_remove_le [of k ss] by (auto simp: table_ok_def ss_ok_ops)

lemma table_make_room: "table_ok E ss \<Longrightarrow> make_room ss = (room, ss') \<Longrightarrow> table_ok E ss'"
  using make_room_cases [of ss room ss'] table_remove [of E ss] by (auto simp: table_ok_def)

lemma table_create:
  assumes "table_ok E ss" "Sessions_create now key dek alg cs ss = (created, ss')" "cs \<noteq> 0"
  shows "table_ok E ss'"
proof -
  note c = create_session_keeps_open_uploads_facts [OF _ _ assms(2)]
  have ok: "ss_ok ss" "length ss \<le> 1024" using assms(1) by (simp_all add: table_ok_def MAX_SESSIONS_def)
  have "session_valid E s" if s: "ss_get ss' k = Some s" for k s
  proof (cases "ss_get ss' k = ss_get ss k")
    case True
    with s assms(1) show ?thesis by (simp add: table_ok_def)
  next
    case False
    then have "created" using c(2) [OF ok] by metis
    moreover have "k = key" using c(5) [OF ok, of k] s False by auto
    ultimately have "k = key" "created" by simp_all
    with c(3) [OF ok] s assms(3) show ?thesis by (auto simp: session_valid_def Session_new_ok) (simp_all add: Session_new_def)
  qed
  with c(4) [OF ok] show ?thesis by (simp add: table_ok_def MAX_SESSIONS_def)
qed

lemma table_update:
  assumes "table_ok E ss" "\<And>s. session_valid E s \<Longrightarrow> session_valid E (f s)"
  shows "table_ok E (ss_update k f ss)"
  using assms by (auto simp: table_ok_def ss_ok_ops split: if_splits)

lemma io_update_session_ok [io_rules]:
  "(\<And>s. session_valid E s \<Longrightarrow> session_valid E (f s)) \<Longrightarrow> io_ok (proxy_ok E cfg) (io_update_session key f) (\<lambda>_. True)"
  unfolding io_update_session_def by (rule io_sessions_ok) (auto intro: table_update)

lemma table_expired: "table_ok E ss \<Longrightarrow> take_expired now ttl ss = (out, ss') \<Longrightarrow> table_ok E ss'"
proof -
  assume a: "table_ok E ss" "take_expired now ttl ss = (out, ss')"
  let ?P = "\<lambda>(_, s). \<not> session_expired now ttl s"
  have s: "ss' = filter ?P ss" using a by (simp add: take_expired_exact table_ok_def)
  have "ss_get ss k = Some s" if "ss_get (filter ?P ss) k = Some s" for k s
    using that a(1) by (auto simp: ss_get_def table_ok_def ss_ok_def dest: map_of_SomeD)
  with a(1) show ?thesis unfolding s
    by (auto simp: table_ok_def ss_ok_def distinct_map_filter intro: order.trans [OF length_filter_le])
qed

lemma table_get: "table_ok E ss \<Longrightarrow> ss_get ss k = Some s \<Longrightarrow> session_valid E s"
  by (simp add: table_ok_def)

lemma table_io_ok [io_rules]:
  "io_ok (proxy_ok E cfg) (io_sessions make_room) (\<lambda>_. True)"
  "cs \<noteq> 0 \<Longrightarrow> io_ok (proxy_ok E cfg) (io_sessions (Sessions_create now key dek alg cs)) (\<lambda>_. True)"
  "io_ok (proxy_ok E cfg) (io_sessions (\<lambda>ss. ((), ss_remove key ss))) (\<lambda>_. True)"
  "io_ok (proxy_ok E cfg) (io_sessions (take_expired now ttl)) (\<lambda>_. True)"
proof -
  show "io_ok (proxy_ok E cfg) (io_sessions make_room) (\<lambda>_. True)"
    by (rule io_sessions_ok) (simp add: table_make_room)
  show "io_ok (proxy_ok E cfg) (io_sessions (Sessions_create now key dek alg cs)) (\<lambda>_. True)" if "cs \<noteq> 0"
    by (rule io_sessions_ok) (use that in \<open>simp add: table_create\<close>)
  show "io_ok (proxy_ok E cfg) (io_sessions (\<lambda>ss. ((), ss_remove key ss))) (\<lambda>_. True)"
    by (rule io_sessions_ok) (auto intro: table_remove)
  show "io_ok (proxy_ok E cfg) (io_sessions (take_expired now ttl)) (\<lambda>_. True)"
    by (rule io_sessions_ok) (simp add: table_expired)
qed

lemma session_valid_touch [simp]: "session_valid E (touch now s) = session_valid E s"
  by (cases "s_completed s") (simp_all add: session_valid_def touch_def session_ok_def)

lemma session_valid_completing [simp]: "session_valid E (s\<lparr> s_completing := b \<rparr>) = session_valid E s"
  by (cases "s_completed s") (simp_all add: session_valid_def session_ok_def)

lemma session_valid_record: "session_valid E s \<Longrightarrow> session_valid E (Session_record_part now n len etag ct s)"
  by (auto simp: session_valid_def record_part_ok)
    (auto simp: Session_record_part_def touch_def buffer_tail_def Let_def split: option.splits if_splits)

lemma session_valid_finish:
  "session_valid E s \<Longrightarrow> header_errors E (ca_headers c) = None \<Longrightarrow> session_valid E (finish now c s)"
  by (simp add: session_valid_def finish_ok) (simp add: finish_def touch_def)


section \<open>Shared operations\<close>

lemma io_ok_routing [io_rules]:
  "(\<And>om. r = V1 om \<Longrightarrow> io_ok I (m om) Q) \<Longrightarrow> (r = PlainObject \<Longrightarrow> io_ok I n Q) \<Longrightarrow>
   io_ok I (case r of V1 om \<Rightarrow> m om | PlainObject \<Rightarrow> n) Q"
  by (cases r) simp_all

lemma io_ok_precondition [io_rules]:
  "io_ok I m Q \<Longrightarrow> io_ok I n Q \<Longrightarrow> io_ok I k Q \<Longrightarrow>
   io_ok I (case p of Proceed \<Rightarrow> m | NotModified \<Rightarrow> n | Failed \<Rightarrow> k) Q"
  by (cases p) simp_all

lemma io_expect_ok [io_rules]: "r \<noteq> None \<Longrightarrow> io_ok I (io_expect r) (\<lambda>a. r = Some a)"
  by (auto simp: io_ok_def io_expect_def)

lemma io_wrap_active_ok [io_rules]:
  "config_ok E cfg \<Longrightarrow> io_ok I (io_wrap_active E cfg dek b) (\<lambda>_. True)"
  by (rule io_okI)
    (auto simp: io_wrap_active_def config_ok_def keyring_ok_def wrap_active_def split: option.splits sum.splits if_splits)

lemma io_encrypting_ok [io_rules]: "io_ok I (io_encrypting E inner alg dek cs md5 len n) (\<lambda>_. True)"
  unfolding io_encrypting_def by (rule io_rules | simp)+

lemma ranged_get_ok [io_rules]: "http_ok E \<Longrightarrow> io_ok I (ranged_get E be path a b what) (\<lambda>_. True)"
  unfolding ranged_get_def by (rule io_rules io_ok_weaken [OF io_ok_lift] | simp)+

lemma cache_put_ok [io_rules]: "io_ok (proxy_ok E cfg) (cache_put E' key f) (\<lambda>_. True)"
  by (simp add: io_ok_def cache_put_def io_modify_def Let_def)

lemma fetch_footer_ok [io_rules]: "http_ok E \<Longrightarrow> io_ok I (fetch_footer E be path alg dek len) (\<lambda>_. True)"
  unfolding fetch_footer_def by (rule io_rules io_ok_weaken [OF io_ok_lift] | simp)+

lemma footer_load_ok [io_rules]:
  "http_ok E \<Longrightarrow> io_ok (proxy_ok E cfg) (footer_load E be path alg dek len etag) (\<lambda>_. True)"
  unfolding footer_load_def by (rule io_rules | simp)+

text \<open>The 304 answer builds: its header values are a backend's, the request id and a hexadecimal ETag.\<close>

lemma plain_charD: "plain_char c \<Longrightarrow> 32 \<le> (of_char c :: nat) \<and> (of_char c :: nat) \<le> 126"
  unfolding plain_char_def by linarith

lemma quoted_valid:
  assumes "http_ok E" "hex_plain (en_crypto E)"
  shows "en_value_error E (quoted (hex_encode (en_crypto E) bs)) = None"
proof -
  have "plain (hex_encode (en_crypto E) bs)" using assms(2) by (simp add: hex_plain_def)
  then have "\<forall>c \<in> set (hex_encode (en_crypto E) bs). 32 \<le> (of_char c :: nat) \<and> (of_char c :: nat) \<le> 126"
    using plain_charD unfolding plain_def list_all_iff by blast
  then have "\<forall>c \<in> set (quoted (hex_encode (en_crypto E) bs)). 32 \<le> (of_char c :: nat) \<and> (of_char c :: nat) \<le> 126"
    by (simp add: quoted_def)
  with assms(1) show ?thesis by (simp add: http_ok_def)
qed

lemma effective_etag_valid:
  assumes "http_ok E" "hex_plain (en_crypto E)" "header_errors E hs = None" "effective_etag E cfg r hs path = Some etag"
  shows "en_value_error E etag = None"
  using assms(4) quoted_valid [OF assms(1,2)] header_value_valid [OF assms(3)]
  by (auto simp: effective_etag_def emd5_etag_def bind_eq_Some_conv split: option.splits routing.splits if_splits)

lemma not_modified_builds:
  assumes "http_ok E" "header_errors E hs = None" "en_value_error E etag = None" "en_value_error E rid = None"
  shows "not_modified_response E hs etag rid \<noteq> None"
  using assms header_value_valid [OF assms(2)]
  by (auto simp: not_modified_response_def Let_def http_ok_def split: option.splits)

section \<open>Whole objects\<close>

lemma io_seal_emd5_ok [io_rules]: "io_ok I (io_seal_emd5 E alg dek md5) (\<lambda>_. True)"
  unfolding io_seal_emd5_def by (rule io_rules | simp)+

lemma put_handle_ok [io_rules]:
  "http_ok E \<Longrightarrow> config_ok E cfg \<Longrightarrow> io_ok (proxy_ok E cfg) (put_handle E be path query hs body md5 rid) (\<lambda>_. True)"
  unfolding put_handle_def by (rule io_ok_config io_rules | simp)+

lemma head_reply_ok [io_rules]:
  "http_ok E \<Longrightarrow> io_ok (proxy_ok E cfg) (head_reply E cfg be path r resp rid) (\<lambda>_. True)"
  unfolding head_reply_def by (rule io_rules | simp)+


definition client_ok :: "'w env \<Rightarrow> string \<Rightarrow> bool" where
  "client_ok E rid \<longleftrightarrow> http_ok E \<and> hex_plain (en_crypto E) \<and> en_value_error E rid = None"

lemma client_okD: "client_ok E rid \<Longrightarrow> http_ok E"
  by (simp add: client_ok_def)

lemma not_modified_ok [io_rules]:
  assumes "client_ok E rid" "header_errors E hs = None" "\<exists>cfg r path. effective_etag E cfg r hs path = Some etag"
  shows "io_ok I (io_expect (not_modified_response E hs etag rid)) (\<lambda>_. True)"
proof -
  have "not_modified_response E hs etag rid \<noteq> None"
    using assms effective_etag_valid not_modified_builds unfolding client_ok_def by blast
  then show ?thesis by (rule io_ok_weaken [OF io_expect_ok]) simp
qed

lemma head_handle_ok [io_rules]:
  assumes "client_ok E rid"
  shows "io_ok (proxy_ok E cfg) (head_handle E be path query hs rid) (\<lambda>_. True)"
  unfolding head_handle_def
  by (rule io_ok_config io_rules assms client_okD | force split: if_splits)+

lemma check_preconditions_ok [io_rules]:
  assumes "client_ok E rid"
  shows "io_ok (proxy_ok E cfg) (check_preconditions E be path query hs conds rid) (\<lambda>_. True)"
  unfolding check_preconditions_def
  by (rule io_ok_config io_rules assms client_okD | force split: if_splits)+

lemma full_reply_ok [io_rules]:
  "http_ok E \<Longrightarrow> io_ok (proxy_ok E cfg) (full_reply E cfg be path r resp rid) (\<lambda>_. True)"
  unfolding full_reply_def by (rule io_rules | simp)+

lemma handle_full_ok [io_rules]:
  "http_ok E \<Longrightarrow> io_ok (proxy_ok E cfg) (handle_full E be path query hs rid) (\<lambda>_. True)"
  unfolding handle_full_def by (rule io_ok_config io_rules | simp)+

lemma ranged_ok [io_rules]:
  assumes "http_ok E"
  shows "io_ok (proxy_ok E cfg) (ranged_multipart E cfg be path query hs rng om resp rid) (\<lambda>_. True)"
    "io_ok (proxy_ok E cfg) (ranged_single E cfg be path query hs rng om resp rid) (\<lambda>_. True)"
  unfolding ranged_multipart_def ranged_single_def by (rule io_rules assms | simp)+

lemma handle_ranged_ok [io_rules]:
  "http_ok E \<Longrightarrow> io_ok (proxy_ok E cfg) (handle_ranged E be path query hs rng rid) (\<lambda>_. True)"
  unfolding handle_ranged_def Let_def by (rule io_ok_config io_rules | simp)+

lemma get_handle_ok [io_rules]:
  assumes "client_ok E rid"
  shows "io_ok (proxy_ok E cfg) (get_handle E be path query hs rid) (\<lambda>_. True)"
proof -
  have "io_ok (proxy_ok E cfg) (if b then io_return None else check_preconditions E be path query h c rid) (\<lambda>_. True)" for b h c
    using check_preconditions_ok [OF assms] by (simp add: io_ok_return)
  note early = io_ok_bind [OF this]
  show ?thesis unfolding get_handle_def
    by (rule early io_rules assms client_okD | simp)+
qed

section \<open>Copies\<close>

lemma rewrap_copy_ok [io_rules]:
  "http_ok E \<Longrightarrow> config_ok E cfg \<Longrightarrow> io_ok (proxy_ok E cfg) (rewrap_copy E cfg be path query hs sh sb sk om rid) (\<lambda>_. True)"
  unfolding rewrap_copy_def by (rule io_rules | simp)+

lemma copy_known_ok [io_rules]:
  "http_ok E \<Longrightarrow> config_ok E cfg \<Longrightarrow> io_ok (proxy_ok E cfg) (copy_known E cfg be path query hs hh sb sk r rid) (\<lambda>_. True)"
  unfolding copy_known_def Let_def by (rule io_rules | simp)+

lemma copy_handle_ok [io_rules]:
  "http_ok E \<Longrightarrow> config_ok E cfg \<Longrightarrow> io_ok (proxy_ok E cfg) (copy_handle E be path query hs rid) (\<lambda>_. True)"
  unfolding copy_handle_def by (rule io_ok_config io_rules | simp)+


section \<open>Multipart uploads\<close>

lemma chunk_size_nonzero: "config_ok E cfg \<Longrightarrow> cf_chunk_size cfg \<noteq> 0"
  by (auto simp: config_ok_def chunk_size_ok_def MIN_CHUNK_SIZE_def)

lemma handle_create_ok [io_rules]:
  "http_ok E \<Longrightarrow> config_ok E cfg \<Longrightarrow> io_ok (proxy_ok E cfg) (handle_create E be path query hs rid) (\<lambda>_. True)"
  unfolding handle_create_def
  by (rule io_ok_config io_rules chunk_size_nonzero | assumption | simp)+

lemma record_part_io_ok [io_rules]: "io_ok (proxy_ok E cfg) (record_part E' key n len etag ct) (\<lambda>_. True)"
  unfolding record_part_def by (rule io_rules session_valid_record | assumption)+

lemma io_encrypt_all_ok [io_rules]: "cs \<noteq> 0 \<Longrightarrow> io_ok I (io_encrypt_all E alg dek n cs pt) (\<lambda>_. True)"
  by (auto simp: io_ok_def io_encrypt_all_def encrypt_all_def Encryptor_new_def unat_eq_0 split: prod.splits)

lemma send_part_ok [io_rules]:
  assumes "http_ok E"
  shows "cs \<noteq> 0 \<Longrightarrow> io_ok I (send_small_part E be path query hs body alg dek cs len n) (\<lambda>r. header_errors E (br_headers (fst r)) = None)"
    "io_ok I (send_large_part E be path query hs body alg dek cs len n) (\<lambda>r. header_errors E (br_headers (fst r)) = None)"
  unfolding send_small_part_def send_large_part_def by (rule io_rules assms | simp)+

lemma io_ok_session:
  assumes "\<And>entry. (\<And>s. entry = Some s \<Longrightarrow> session_valid E s) \<Longrightarrow> io_ok (proxy_ok E cfg) (f entry) Q"
  shows "io_ok (proxy_ok E cfg) (io_bind (io_read (\<lambda>ps. ss_get (ps_sessions ps) key)) f) Q"
  by (rule io_ok_bind [OF io_ok_read], rule assms) (metis proxy_ok_table table_get)

lemma handle_upload_part_ok [io_rules]:
  assumes "http_ok E"
  shows "io_ok (proxy_ok E cfg) (handle_upload_part E be path query hs body rid) (\<lambda>_. True)"
proof -
  have send: "io_ok (proxy_ok E cfg) ((if b then send_small_part else send_large_part) E be path query hs body alg dek cs len n)
      (\<lambda>_. True)" if "cs \<noteq> 0" for b alg dek cs len n
    using io_ok_weaken [OF send_part_ok(1) [OF assms that]] io_ok_weaken [OF send_part_ok(2) [OF assms]] by simp
  show ?thesis unfolding handle_upload_part_def
    by (rule io_ok_session io_ok_bind [OF send] io_rules | force simp: session_valid_def)+
qed

lemma cached_response_builds: "client_ok E rid \<Longrightarrow> session_valid E s \<Longrightarrow> s_completed s = Some c \<Longrightarrow> cached_response E c rid \<noteq> None"
  by (auto simp: cached_response_def session_valid_def Let_def header_errors_filter)

lemma cached_for_session_ok [io_rules]:
  assumes "client_ok E rid"
  shows "io_ok (proxy_ok E cfg) (cached_response_for_session E key uid rid) (\<lambda>_. True)"
  unfolding cached_response_for_session_def
  by (rule io_ok_session io_rules cached_response_builds [OF assms] | force)+

lemma claim_completion_ok [io_rules]:
  assumes "client_ok E rid"
  shows "io_ok (proxy_ok E cfg) (claim_completion E key uid rid) (\<lambda>_. True)"
  unfolding claim_completion_def
  by (rule io_ok_session io_rules cached_response_builds [OF assms] | force)+

lemma upload_raw_part_ok [io_rules]: "http_ok E \<Longrightarrow> io_ok I (upload_raw_part E be path uid n ct) (\<lambda>_. True)"
  unfolding upload_raw_part_def by (rule io_rules io_ok_weaken [OF io_ok_lift] | simp)+

lemma finalize_parts_ok [io_rules]: "http_ok E \<Longrightarrow> io_ok I (finalize_parts E be path uid n tail_ct ps sf) (\<lambda>_. True)"
  unfolding finalize_parts_def by (rule io_rules | simp)+

lemma complete_upload_ok [io_rules]:
  assumes "http_ok E"
  shows "io_ok (proxy_ok E cfg) (complete_upload E be path query hs key uid ps n snap total_pt rid) (\<lambda>_. True)"
proof -
  have upd: "io_ok (proxy_ok E cfg) (if b then io_bind (io_instant_now E) (\<lambda>now. io_update_session key (finish now c))
      else io_update_session key (\<lambda>s. s\<lparr> s_completing := False \<rparr>)) (\<lambda>_. True)"
    if "header_errors E (ca_headers c) = None" for b c
    by (rule io_rules session_valid_finish that | simp)+
  show ?thesis unfolding complete_upload_def
    by (rule io_ok_bind [OF upd] io_rules assms | simp)+
qed

lemma releasing_claim_ok [io_rules]:
  assumes "io_ok (proxy_ok E cfg) m Q"
  shows "io_ok (proxy_ok E cfg) (releasing_claim key m) Q"
proof (rule io_okI)
  fix s r s'
  assume i: "proxy_ok E cfg (io_proxy s)" and b: "releasing_claim key m s = (r, s')"
  obtain r1 s1 where m: "m s = (r1, s1)" by (cases "m s")
  note m' = io_okD [OF assms i m]
  have u: "io_ok (proxy_ok E cfg) (io_update_session key (\<lambda>s. s\<lparr> s_completing := False \<rparr>)) (\<lambda>_. True)"
    by (rule io_update_session_ok) simp
  obtain r2 s2 where us: "io_update_session key (\<lambda>s. s\<lparr> s_completing := False \<rparr>) s1 = (r2, s2)"
    by (cases "io_update_session key (\<lambda>s. s\<lparr> s_completing := False \<rparr>) s1")
  show "r \<noteq> Panic \<and> proxy_ok E cfg (io_proxy s') \<and> (\<forall>a. r = Ret a \<longrightarrow> Q a)"
    using b m m' us io_okD(2) [OF u m'(2) us] by (cases r1) (auto simp: releasing_claim_def)
qed

lemma handle_complete_ok [io_rules]:
  assumes "client_ok E rid"
  shows "io_ok (proxy_ok E cfg) (handle_complete E be path query hs body rid) (\<lambda>_. True)"
  unfolding handle_complete_def
  by (rule io_ok_session io_rules client_okD cached_response_builds [OF assms] io_ok_weaken [OF io_expect_ok] assms | force)+

lemma handle_abort_ok [io_rules]:
  "http_ok E \<Longrightarrow> io_ok (proxy_ok E cfg) (handle_abort E be path query hs rid) (\<lambda>_. True)"
  unfolding handle_abort_def by (rule io_rules | simp)+


section \<open>The dispatcher\<close>

lemma pass_through_ok [io_rules]: "http_ok E \<Longrightarrow> io_ok I (pass_through E be meth path query hs body rid) (\<lambda>_. True)"
  unfolding pass_through_def by (rule io_rules | simp)+

lemma dispatch_op_ok:
  assumes "client_ok E rid" "config_ok E cfg" "refused op = None"
  shows "io_ok (proxy_ok E cfg) (dispatch_op E be op req hs body md5 rid) (\<lambda>_. True)"
proof -
  note rules = io_rules assms client_okD [OF assms(1)]
  show ?thesis
  proof (cases op)
    case (Mpu m)
    with assms(3) show ?thesis by (cases m; simp add: dispatch_op_def refused_def) (rule rules)+
  qed (use assms(3) in \<open>simp_all add: dispatch_op_def refused_def\<close>, (rule rules)+)
qed

lemma io_ok_abort: "io_ok I m Q \<Longrightarrow> io_ok I (\<lambda>s. m (s\<lparr> io_abort := x \<rparr>)) Q"
  by (simp add: io_ok_def)

lemma io_verify_ok [io_rules]: "io_ok (proxy_ok E cfg) (io_verify E req ip h) (\<lambda>_. True)"
  unfolding io_verify_def io_record_failure_def
  by (rule io_ok_config io_rules | simp add: proxy_ok_limiter)+

lemma handle_verified_ok [io_rules]:
  assumes "client_ok E rid" "config_ok E cfg"
  shows "io_ok (proxy_ok E cfg) (handle_verified E req ident h rid) (\<lambda>_. True)"
  unfolding handle_verified_def Let_def
  by (rule io_ok_config io_ok_abort dispatch_op_ok [OF assms] io_rules | assumption)+

lemma handle_inner_ok:
  assumes "client_ok E rid" "config_ok E cfg"
  shows "io_ok (proxy_ok E cfg) (handle_inner E req rid ip) (\<lambda>_. True)"
proof -
  have allow: "io_ok (proxy_ok E cfg) (io_allow E ip) (\<lambda>_. True)"
    unfolding io_allow_def by (rule io_rules io_ok_weaken [OF io_ok_read] | simp)+
  show ?thesis unfolding handle_inner_def
    by (rule io_ok_bind [OF allow] io_ok_config io_rules assms client_okD [OF assms(1)] | simp)+
qed

lemma ready_ok: "http_ok E \<Longrightarrow> io_ok I (ready_loop E bes) (\<lambda>_. True)"
proof (induction bes)
  case Nil
  then show ?case by (simp add: io_ok_def)
next
  case (Cons be bes)
  show ?case
  proof (rule io_okI)
    fix s r s'
    assume i: "I (io_proxy s)" and b: "ready_loop E (be # bes) s = (r, s')"
    obtain r1 s1 where f: "forward E be ''GET'' ''/'' '''' [] body_empty s = (r1, s1)"
      by (cases "forward E be ''GET'' ''/'' '''' [] body_empty s")
    note f' = io_okD [OF forward_ok [OF Cons.prems, where I = I] i f]
    show "r \<noteq> Panic \<and> I (io_proxy s') \<and> (\<forall>a. r = Ret a \<longrightarrow> True)"
      using b f f' io_okD [OF Cons.IH [OF Cons.prems] f'(2), of r s'] by (cases r1) auto
  qed
qed

lemma hex_upper_printable: "c \<in> set (hex_upper w) \<Longrightarrow> 32 \<le> (of_char c :: nat) \<and> (of_char c :: nat) \<le> 126"
proof -
  assume "c \<in> set (hex_upper w)"
  then obtain i where c: "c = hex_digit (unat (push_bit (4 * i) w div 2 ^ 60))" by (auto simp: hex_upper_def)
  have "unat (push_bit (4 * i) w div 2 ^ 60) < 16"
  proof -
    have "unat (push_bit (4 * i) w) < 2 ^ LENGTH(64)" by (rule unsigned_less)
    then show ?thesis by (simp add: unat_div less_mult_imp_div_less)
  qed
  then show ?thesis unfolding c by (auto simp: hex_digit_def of_char_of)
qed

lemma sweep_ok: "http_ok E \<Longrightarrow> io_ok (proxy_ok E cfg) (sweep_all E ks) (\<lambda>_. True)"
proof (induction ks)
  case (Cons k ks)
  have ab: "io_ok (proxy_ok E cfg) (abort_expired_upload E key) (\<lambda>_. True)" for key
  proof (rule io_okI)
    fix s r s'
    assume i: "proxy_ok E cfg (io_proxy s)" and b: "abort_expired_upload E key s = (r, s')"
    note fw = io_okD [OF forward_ok [OF Cons.prems, where I = "proxy_ok E cfg"] i]
    from b i show "r \<noteq> Panic \<and> proxy_ok E cfg (io_proxy s') \<and> (\<forall>a. r = Ret a \<longrightarrow> True)"
      by (auto simp: abort_expired_upload_def split: prod.splits option.splits io_result.splits dest: fw(1,2))
  qed
  from io_ok_bind [OF ab Cons.IH [OF Cons.prems]] Cons.IH [OF Cons.prems] show ?case
    by (cases k, cases "snd k") simp_all
qed (simp add: io_ok_return)


lemma next_request_id_valid: "http_ok E \<Longrightarrow> io_ok (proxy_ok E cfg) (next_request_id E) (\<lambda>rid. en_value_error E rid = None)"
proof -
  assume "http_ok E"
  then have "en_value_error E (hex_upper w) = None" for w using hex_upper_printable by (simp add: http_ok_def)
  note valid = this
  show ?thesis unfolding next_request_id_def Let_def by (rule io_rules valid | simp)+
qed

lemma ready_response_ok [io_rules]: "http_ok E \<Longrightarrow> io_ok (proxy_ok E cfg) (ready_response E) (\<lambda>_. True)"
  unfolding ready_response_def by (rule io_ok_config ready_ok io_rules | simp)+

lemma answer_errors_ok:
  assumes "io_ok I m (\<lambda>_. True)"
  shows "io_ok I (answer_errors rid m) (\<lambda>_. True)"
proof (rule io_okI)
  fix s r s'
  assume i: "I (io_proxy s)" and b: "answer_errors rid m s = (r, s')"
  obtain r1 s1 where m: "m s = (r1, s1)" by (cases "m s")
  from io_okD [OF assms i m] b m show "r \<noteq> Panic \<and> I (io_proxy s') \<and> (\<forall>a. r = Ret a \<longrightarrow> True)"
    by (cases r1) (auto simp: answer_errors_def)
qed

lemma with_abort_slot_ok: "io_ok I m Q \<Longrightarrow> io_ok I (with_abort_slot m) Q"
  by (simp add: io_ok_def with_abort_slot_def)

lemma handle_ok:
  assumes "http_ok E" "hex_plain (en_crypto E)" "config_ok E cfg"
  shows "io_ok (proxy_ok E cfg) (handle E req ip) (\<lambda>_. True)"
proof -
  have "io_ok (proxy_ok E cfg) (answer_errors rid (with_abort_slot (handle_inner E req rid ip))) (\<lambda>_. True)"
    if "en_value_error E rid = None" for rid
    using assms that by (intro answer_errors_ok with_abort_slot_ok handle_inner_ok) (simp_all add: client_ok_def)
  note inner = this
  show ?thesis unfolding handle_def
    by (rule io_ok_bind [OF next_request_id_valid [OF assms(1)]] inner io_rules assms | assumption | simp)+
qed

lemma answer_errors_no_Err: "fst (answer_errors rid m s) \<noteq> Err e"
  by (simp add: answer_errors_def split: prod.splits io_result.splits)

lemma ready_loop_no_Err: "ready_loop E bes s = (r, s') \<Longrightarrow> r \<noteq> Err e"
  by (induction E bes s rule: ready_loop.induct) (auto split: prod.splits io_result.splits)

lemma handle_no_Err: "fst (handle E req ip s) \<noteq> Err e"
proof -
  obtain rid s1 where n: "next_request_id E s = (Ret rid, s1)"
    by (cases "en_system_now E (io_world s)") (simp add: next_request_id_def io_defs Let_def)
  have "fst (ready_response E s1) \<noteq> Err e"
    using ready_loop_no_Err [of E _ s1]
    by (auto simp: ready_response_def io_defs split: prod.splits io_result.splits)
  then show ?thesis using n
    by (auto simp: handle_def io_bind_def io_read_def io_return_def answer_errors_no_Err)
qed

section \<open>The property\<close>


lemma sample_http_ok: "http_ok sample_env"
  by (simp add: http_ok_def)

lemma sample_config_ok: "config_ok sample_env sample_config"
  by (simp add: config_ok_def sample_keyring_ok sample_config_def chunk_size_ok_def MIN_CHUNK_SIZE_def MAX_CHUNK_SIZE_def)


end
