(* ===== verification/ConfigProps.thy ===== *)
theory ConfigProps
  imports ConfigFile ProxyInvariant
begin

text \<open>
  What a configuration that loads promises the request path, and that a configuration file can neither supply nor
  override a secret.
\<close>

section \<open>Discovered names\<close>

lemma valid_insert:
  "list_all is_valid_name (map fst names) \<Longrightarrow> is_valid_name n \<Longrightarrow> list_all is_valid_name (map fst (bt_insert n () names))"
  unfolding list_all_iff set_map set_bt_insert by blast

lemma match_suffixes_valid:
  "match_suffixes var rest sfxs names = Inr names' \<Longrightarrow> list_all is_valid_name (map fst names) \<Longrightarrow> list_all is_valid_name (map fst names')"
proof (induction sfxs arbitrary: names)
  case (Cons s sfxs)
  show ?case
  proof (cases "strip_suffix s rest")
    case None
    with Cons show ?thesis by simp
  next
    case (Some n)
    then have "is_valid_name n" "match_suffixes var rest sfxs (bt_insert n () names) = Inr names'"
      using Cons.prems(1) by (simp_all split: if_splits)
    then show ?thesis using Cons.IH Cons.prems(2) valid_insert by blast
  qed
qed simp

lemma discover_loop_valid:
  "discover_loop vars pre sfxs exclude names = Inr names' \<Longrightarrow> list_all is_valid_name (map fst names) \<Longrightarrow>
   list_all is_valid_name (map fst names')"
proof (induction vars arbitrary: names)
  case (Cons var vars)
  then show ?case
    by (cases "strip_prefix pre var") (auto simp: result_simps split: if_splits dest: match_suffixes_valid)
qed simp

lemma discover_names_valid: "discover_names env pre sfxs exclude = Inr names \<Longrightarrow> list_all is_valid_name names"
  by (auto simp: discover_names_def result_simps dest: discover_loop_valid)

section \<open>Backends and clients\<close>

lemma load_one_backend_name: "load_one_backend H env src name a b c d e f g = Inr (be, src') \<Longrightarrow> be_name be = name"
  by (auto simp: load_one_backend_def result_simps Let_def case_prod_beta)

definition backends_named :: "(string, backend) btree \<Rightarrow> bool" where
  "backends_named bs \<longleftrightarrow> list_all (\<lambda>(name, be). be_name be = name) bs"

lemma set_bt_insert_pairs: "set (bt_insert k v m) \<subseteq> insert (k, v) (set m)"
  by (induction k v m rule: bt_insert.induct) (auto simp: bt_insert.simps)

lemma backends_named_insert: "backends_named bs \<Longrightarrow> be_name be = name \<Longrightarrow> backends_named (bt_insert name be bs)"
  using set_bt_insert_pairs [of name be bs] by (fastforce simp: backends_named_def list_all_iff)

lemma named_backends_named:
  "named_backends H env names bs src = Inr (bs', src') \<Longrightarrow> backends_named bs \<Longrightarrow> backends_named bs'"
proof (induction names arbitrary: bs src)
  case (Cons name names)
  then show ?case
    by (auto simp: result_simps intro: backends_named_insert dest!: load_one_backend_name)
qed simp

lemma load_backends_named: "load_backends H env src = Inr (bs, src') \<Longrightarrow> backends_named bs"
  by (auto simp: load_backends_def result_simps split: if_splits dest!: load_one_backend_name
      intro!: named_backends_named [of H env _ _ _ bs src'] backends_named_insert) (simp_all add: backends_named_def)

lemma validated_clients:
  "validate_client_backends clients backends = Inr () \<Longrightarrow>
   list_all (\<lambda>(_, c). bt_get backends (cc_backend c) \<noteq> None) clients"
  by (auto simp: validate_client_backends_def find_None_iff list_all_iff split: option.splits)

section \<open>Keys\<close>

lemma same_material_distinct:
  "same_material C keys seen = Inr () \<Longrightarrow>
   distinct (map (\<lambda>(_, k). MasterKey_key_id C k) keys) \<and> (\<forall>(_, k) \<in> set keys. bt_get seen (MasterKey_key_id C k) = None)"
proof (induction keys arbitrary: seen)
  case (Cons nk keys)
  obtain n k where nk: "nk = (n, k)" by (cases nk)
  with Cons.prems have seen: "bt_get seen (MasterKey_key_id C k) = None"
    and rest: "same_material C keys (bt_insert (MasterKey_key_id C k) n seen) = Inr ()"
    by (auto split: option.splits)
  from Cons.IH [OF rest] have "distinct (map (\<lambda>(_, k). MasterKey_key_id C k) keys)"
    "\<forall>(_, k') \<in> set keys. MasterKey_key_id C k' \<noteq> MasterKey_key_id C k \<and> bt_get seen (MasterKey_key_id C k') = None"
    by (auto split: if_splits)
  with seen show ?case by (auto simp: nk)
qed simp

text \<open>Every named key is found under its own id.\<close>

lemma keyring_holds_keys:
  assumes "Keyring_new C active keys rsa = Some kr" "distinct (map (\<lambda>(_, k). MasterKey_key_id C k) keys)" "(n, k) \<in> set keys"
  shows "bt_get (kr_by_kid kr) (MasterKey_key_id C k) = Some k"
proof -
  let ?kvs = "map (\<lambda>(_, k). (MasterKey_key_id C k, k)) keys"
  have kr: "kr_by_kid kr = bt_from_list ?kvs" using assms(1) by (auto simp: Keyring_new_def Let_def)
  have get: "bt_get (bt_from_list ?kvs) x = map_of (rev ?kvs) x" for x
    unfolding bt_from_list_def by (simp add: bt.get_fold split: option.splits)
  have "map fst ?kvs = map (\<lambda>(_, k). MasterKey_key_id C k) keys" by (simp add: comp_def case_prod_beta)
  then have "distinct (map fst (rev ?kvs))" using assms(2) by (simp only: rev_map [symmetric] distinct_rev)
  moreover have "(MasterKey_key_id C k, k) \<in> set (rev ?kvs)" using assms(3) by force
  ultimately show ?thesis unfolding kr get by (rule map_of_is_SomeI)
qed

lemma named_clients_valid:
  "named_clients H env names cs src = Inr (cs', src') \<Longrightarrow> list_all is_valid_name names \<Longrightarrow>
   list_all is_valid_name (map fst cs) \<Longrightarrow> list_all is_valid_name (map fst cs')"
proof (induction names arbitrary: cs src)
  case (Cons name names)
  then obtain c src1 where "named_clients H env names (bt_insert name c cs) src1 = Inr (cs', src')"
    by (auto simp: result_simps Let_def case_prod_beta)
  moreover have "list_all is_valid_name (map fst (bt_insert name c cs))"
    using Cons.prems(2,3) unfolding list_all_iff set_map set_bt_insert by simp
  ultimately show ?case using Cons by simp
qed simp

lemma load_clients_valid: "load_clients H env src = Inr (cs, src') \<Longrightarrow> list_all is_valid_name (map fst cs)"
  by (auto simp: load_clients_def result_simps intro: named_clients_valid dest: discover_names_valid)

lemma load_rsa_kek_size:
  "load_rsa_kek H env src = Inr (rsa, src') \<Longrightarrow> case rsa of None \<Rightarrow> True | Some r \<Rightarrow> 2048 \<le> RsaKek_modulus_bits (h_crypto H) r"
  by (auto simp: load_rsa_kek_def result_simps check_rsa_modulus_def Let_def split: option.splits if_splits)

lemma load_keyring_steps:
  assumes "load_keyring H env src = Inr ((name, kr, pem), src')"
  obtains keys rsa where "Keyring_new (h_crypto H) name keys rsa = Some kr"
    "distinct (map (\<lambda>(_, k). MasterKey_key_id (h_crypto H) k) keys)"
    "case rsa of None \<Rightarrow> True | Some r \<Rightarrow> 2048 \<le> RsaKek_modulus_bits (h_crypto H) r"
proof -
  obtain keys rsa s1 s2 s3 where k: "load_keys H env s1 = Inr (keys, s2)" "load_rsa_kek H env s2 = Inr (rsa, s3)"
      "Keyring_new (h_crypto H) name keys rsa = Some kr"
    using assms by (auto simp: load_keyring_def result_simps)
  then have "same_material (h_crypto H) keys [] = Inr ()" by (auto simp: load_keys_def result_simps)
  with k same_material_distinct load_rsa_kek_size show thesis by (metis that)
qed

lemma Config_load_steps:
  assumes "Config_load H env = Inr lc"
  obtains s1 s2 s3 s4 s5 s6 raw1 raw2 pem where "load_backends H env s1 = Inr (cf_backends lc, s2)" "cf_backends lc \<noteq> []"
    "load_clients H env s3 = Inr (cf_clients lc, s4)" "validate_client_backends (cf_clients lc) (cf_backends lc) = Inr ()"
    "parse_chunk_size raw1 = Inr (cf_chunk_size lc)"
    "load_keyring H env s5 = Inr ((cf_key_active_name lc, cf_keyring lc, pem), s6)"
    "parse_footer_cache raw2 = Inr (cf_footer_cache lc)"
  using assms unfolding Config_load_def result_simps case_prod_beta
  by (elim exE conjE) (auto simp: result_simps case_prod_beta split: if_splits)

lemma verified_backend:
  assumes "verify C P meth raw_path raw_query hs ph clients now = Inr i"
  shows "\<exists>c \<in> snd ` set clients. cc_backend c = id_backend i"
proof (cases "presigned P raw_query")
  case True
  with verify_Inr_cases [OF assms]
  have "verify_presigned C P meth raw_path raw_query (parse_query_pairs P raw_query) hs clients now = Inr i" by simp
  then show ?thesis
    by (rule verify_presigned_Inr) (auto simp: check_signature_iff dest!: resolve_client_SomeD)
next
  case False
  with verify_Inr_cases [OF assms] obtain auth where
    "verify_header C P meth raw_path raw_query hs auth ph clients now = Inr i" by auto
  then show ?thesis
    by (rule verify_header_Inr) (auto simp: check_signature_iff dest!: resolve_client_SomeD)
qed

section \<open>The file layer\<close>

lemma reject_secrets_Inr: "reject_secrets out = Inr out' \<Longrightarrow> is_secret n \<Longrightarrow> bt_get out' n = None"
proof -
  assume a: "reject_secrets out = Inr out'" "is_secret n"
  then have "out' = out" "List.find (\<lambda>(k, _). is_secret k) out = None"
    by (auto simp: reject_secrets_def split: option.splits)
  with a(2) show ?thesis by (force simp: find_None_iff bt_get_def map_of_eq_None_iff)
qed

lemma flatten_no_secret: "flatten H T tbl = Inr out \<Longrightarrow> is_secret n \<Longrightarrow> bt_get out n = None"
  by (auto simp: flatten_def result_simps split: option.splits dest: reject_secrets_Inr)

lemma layered_secret:
  assumes "Layered_new H T is_file env path = Inr l" "is_secret n"
  shows "es_get (layered_source l) n = es_get env n" "es_get env n \<noteq> None \<Longrightarrow> es_origin (layered_source l) n = Env"
proof -
  have "ly_env l = env" "bt_get (ly_file l) n = None"
    using assms flatten_no_secret [OF _ assms(2)]
    by (auto simp: Layered_new_def load_file_def result_simps split: option.splits)
  then show "es_get (layered_source l) n = es_get env n"
    "es_get env n \<noteq> None \<Longrightarrow> es_origin (layered_source l) n = Env"
    by (simp_all add: layered_source_def layered_get_def layered_origin_def split: option.splits)
qed

text \<open>What the invariant of the request path needs.\<close>

lemma loaded_config_ok:
  assumes "Config_load H src = Inr lc" "h_crypto H = en_crypto E"
  shows "config_ok E (config.truncate lc)"
proof -
  obtain s5 s6 raw pem where st: "parse_chunk_size raw = Inr (cf_chunk_size lc)"
      "load_keyring H src s5 = Inr ((cf_key_active_name lc, cf_keyring lc, pem), s6)"
    by (rule Config_load_steps [OF assms(1)])
  obtain keys rsa where kr: "Keyring_new (h_crypto H) (cf_key_active_name lc) keys rsa = Some (cf_keyring lc)"
    by (rule load_keyring_steps [OF st(2)])
  have "chunk_size_ok (cf_chunk_size lc)"
    using st(1) by (auto simp: parse_chunk_size_def chunk_size_ok_def bind_eq_Some_conv split: if_splits)
  with Keyring_new_ok(1) [OF kr] assms(2) show ?thesis by (auto simp: config_ok_def config.truncate_def)
qed

section \<open>The property\<close>


text \<open>A concrete environment.\<close>

definition sample_host :: host where
  "sample_host = \<lparr> h_crypto = sample_crypto, h_codec = sample_codec, h_has_aes_hw = False, h_to_uppercase = (\<lambda>s. s),
     h_read_file = (\<lambda>_. Inl ''no such file'') \<rparr>"

definition sample_toml :: toml_crate where
  "sample_toml = \<lparr> tm_parse = (\<lambda>_. Inr []), tm_debug = (\<lambda>_. '''') \<rparr>"

definition sample_vars :: "(string \<times> string) list" where
  "sample_vars =
     [(''S3A_BACKEND_ENDPOINT'', ''https://s3''), (''S3A_BACKEND_ACCESS_KEY'', ''B''), (''S3A_BACKEND_SECRET_KEY'', ''S''),
      (''S3A_CLIENT_MAIN_ACCESS_KEY'', ''AK''), (''S3A_CLIENT_MAIN_SECRET_KEY'', ''SK''),
      (''S3A_KEY_ACTIVE'', ''K''), (''S3A_KEY_K'', replicate 32 CHR ''A'')]"

definition sample_layered :: layered where
  "sample_layered = \<lparr> ly_env = ProcessEnv sample_vars, ly_file = [], ly_file_path = None \<rparr>"

lemma sample_names: "es_names (layered_source sample_layered) =
  [''S3A_BACKEND_ACCESS_KEY'', ''S3A_BACKEND_ENDPOINT'', ''S3A_BACKEND_SECRET_KEY'', ''S3A_CLIENT_MAIN_ACCESS_KEY'',
   ''S3A_CLIENT_MAIN_SECRET_KEY'', ''S3A_KEY_ACTIVE'', ''S3A_KEY_K'']"
  by code_simp

lemma sample_discovered:
  "discover_names (layered_source sample_layered) ''S3A_BACKEND_'' [''_ENDPOINT'', ''_REGION'', ''_ACCESS_KEY'', ''_SECRET_KEY'']
     DEFAULT_SUFFIXES = Inr []"
  "discover_names (layered_source sample_layered) ''S3A_CLIENT_'' [''_ACCESS_KEY'', ''_SECRET_KEY''] [] = Inr [''MAIN'']"
  "key_names (es_names (layered_source sample_layered)) [] = Inr [(''K'', ())]"
  unfolding discover_names_def sample_names
  by code_simp+

lemma sample_get: "es_get (layered_source sample_layered) n = map_of sample_vars n"
  by (simp add: layered_source_def layered_get_def sample_layered_def ProcessEnv_def split: option.splits)

lemma sample_backends:
  "\<exists>b src'. load_backends sample_host (layered_source sample_layered) src = Inr ([(''DEFAULT'', b)], src')"
  unfolding load_backends_def sample_discovered
  by (simp add: default_present_def DEFAULT_SUFFIXES_def load_one_backend_def read_var_def sample_get sample_vars_def
      bt_insert.simps DEFAULT_BACKEND_NAME_def)

lemma sample_clients_load:
  "\<exists>c src'. load_clients sample_host (layered_source sample_layered) src = Inr ([(''MAIN'', c)], src') \<and> cc_backend c = ''DEFAULT''"
  unfolding load_clients_def sample_discovered
  by (simp add: read_var_def sample_get sample_vars_def bt_insert.simps DEFAULT_BACKEND_NAME_def Let_def)

lemma sample_keys_load:
  "\<exists>src'. load_keys sample_host (layered_source sample_layered) src = Inr ([(''K'', MasterKey (replicate 32 65))], src')"
proof -
  have "decode_key_material sample_host ''K'' (replicate 32 CHR ''A'') = Inr (replicate 32 65)" by code_simp
  then show ?thesis unfolding load_keys_def sample_discovered
    by (simp add: read_var_def sample_get sample_vars_def bt_insert.simps Let_def)
qed

lemma sample_keyring_load:
  "\<exists>kr pem src'. load_keyring sample_host (layered_source sample_layered) src = Inr ((''K'', kr, pem), src')"
proof -
  have a: "\<exists>src1. required sample_host (layered_source sample_layered) src ''S3A_KEY_ACTIVE'' = Inr (''K'', src1)" for src
    by (simp add: required_def read_var_def sample_get sample_vars_def)
  have r: "\<exists>src1. load_rsa_kek sample_host (layered_source sample_layered) src = Inr (None, src1)" for src
    by (simp add: load_rsa_kek_def read_var_def sample_get sample_vars_def)
  have k: "\<exists>kr. Keyring_new (h_crypto sample_host) ''K'' [(''K'', MasterKey (replicate 32 65))] None = Some kr"
    by (simp add: Keyring_new_def RSA_ACTIVE_NAME_def bt_get_def)
  obtain src1 where 1: "required sample_host (layered_source sample_layered) src ''S3A_KEY_ACTIVE'' = Inr (''K'', src1)"
    using a by blast
  obtain src2 where 2: "load_keys sample_host (layered_source sample_layered) src1 = Inr ([(''K'', MasterKey (replicate 32 65))], src2)"
    using sample_keys_load by blast
  obtain src3 where 3: "load_rsa_kek sample_host (layered_source sample_layered) src2 = Inr (None, src3)" using r by blast
  from k show ?thesis by (auto simp: load_keyring_def 1 2 3)
qed

lemma sample_optional:
  "map_of sample_vars n = None \<Longrightarrow> map_of sample_vars (n @ ''_FILE'') = None \<Longrightarrow>
   optional sample_host (layered_source sample_layered) src n d = Inr (d, bt_insert n Default src)"
  by (simp add: optional_def read_var_def sample_get)

lemma sample_loads: "\<exists>lc. Config_load sample_host (layered_source sample_layered) = Inr lc \<and> fst (hd (cf_clients lc)) = ''MAIN''"
proof -
  let ?E = "layered_source sample_layered" and ?H = sample_host
  note opt = sample_optional [of "''S3A_LISTEN''"] sample_optional [of "''S3A_LOG''"] sample_optional [of "''S3A_LOG_FORMAT''"]
    sample_optional [of "''S3A_TIMEOUT_CONNECT''"] sample_optional [of "''S3A_TIMEOUT_REQUEST''"]
    sample_optional [of "''S3A_CHUNK_SIZE''"] sample_optional [of "''S3A_ALG''"] sample_optional [of "''S3A_MP_TTL''"]
    sample_optional [of "''S3A_FOOTER_CACHE''"] sample_optional [of "''S3A_AUTH_FAIL_LIMIT''"] sample_optional [of "''S3A_BIND_PATHS''"]
  note opt' = opt [simplified, unfolded sample_vars_def, simplified]
  have met: "read_metrics ?H ?E src = Inr (None, bt_insert ''S3A_METRICS'' Default src)" for src
    by (simp add: read_metrics_def read_var_def sample_get sample_vars_def)
  have tls: "\<exists>src'. parse_tls ?E src = Inr (None, src')" for src
    by (simp add: parse_tls_def sample_get sample_vars_def)
  have num: "parse_u64 ''10'' = Some 10" "parse_u64 ''300'' = Some 300" "parse_u64 ''24'' = Some 24" "parse_u64 ''24h'' = None"
    "parse_u64 ''1024'' = Some 1024" "parse_u32 ''60'' = Some 60"
    by (simp_all add: parse_u64_def parse_u32_def parse_unsigned_def digit_value_def)
  have vals: "parse_log_format ''text'' = Inr Text" "parse_duration_secs ''10'' n = Inr 10" "parse_duration_secs ''300'' n = Inr 300"
    "parse_alg ?H ''auto'' = Inr XChaCha20Poly1305"
    "parse_duration ''24h'' n = Inr 86400" "parse_footer_cache ''1024'' = Inr 1024" "parse_u32 ''60'' = Some 60"
    "parse_bind_mode ''off'' = Inr Off" for n
    by (simp_all add: num parse_log_format_def parse_duration_secs_def parse_alg_def parse_duration_def
        parse_footer_cache_def parse_bind_mode_def sample_host_def duration_unit_def strip_suffix_def strip_prefix_def
        checked_mul_def Let_def)
  have chunk: "parse_chunk_size (dec_string (unat DEFAULT_CHUNK_SIZE)) = Inr DEFAULT_CHUNK_SIZE"
    by (simp add: parse_chunk_size_def) (simp add: DEFAULT_CHUNK_SIZE_def MIN_CHUNK_SIZE_def MAX_CHUNK_SIZE_def)
  have "\<exists>b src'. load_backends ?H ?E src = Inr ([(''DEFAULT'', b)], src')" for src by (rule sample_backends)
  then obtain bk sb where b: "\<And>src. load_backends ?H ?E src = Inr ([(''DEFAULT'', bk src)], sb src)" by metis
  obtain cl sc where c: "\<And>src. load_clients ?H ?E src = Inr ([(''MAIN'', cl src)], sc src)" "\<And>src. cc_backend (cl src) = ''DEFAULT''"
    using sample_clients_load by metis
  obtain kr pem sk where k: "\<And>src. load_keyring ?H ?E src = Inr ((''K'', kr src, pem src), sk src)"
    using sample_keyring_load by metis
  obtain st where t: "\<And>src. parse_tls ?E src = Inr (None, st src)" using tls by metis
  have v: "validate_client_backends [(''MAIN'', cl src)] [(''DEFAULT'', be)] = Inr ()" for src be
    by (simp add: validate_client_backends_def c bt_get_def)
  show ?thesis unfolding Config_load_def
    by (simp add: opt' b c(1) k t met vals chunk v)
qed


end
