(* ===== verification/Rewrap.thy ===== *)
theory Rewrap
  imports ObjectOps MpuOps
begin

text \<open>
  The offline tools that rotate keys: the listing client (\<open>tools/list.rs\<close>), the choice of the backend and the checkpoint
  (\<open>tools/mod.rs\<close>), and \<open>s3armor rewrap\<close> and \<open>rebind\<close> (\<open>tools/rewrap.rs\<close>), which walk a bucket and put new wrapped keys
  on its objects by self-copies. The tools run the signed requests of \<open>Upstream\<close>. Objects are processed one after the
  other, in listing order; \<open>buffer_unordered\<close> runs several at a time, each on its own key. What is printed is not modelled.
\<close>

section \<open>Errors\<close>

datatype tool_error = Backend string | Xml string | Format error | Io string

definition tool_of_s3 :: "s3error \<Rightarrow> tool_error" where
  "tool_of_s3 e = Backend (e_message e @ '' ('' @ e_code e @ '')'')"

text \<open>A tool's step: an answer or an error of its own, in the state of the handlers. \<open>t_try\<close> is \<open>?\<close> on an \<open>S3Error\<close>.\<close>

type_synonym ('w, 'a) tool = "('w, tool_error + 'a) io"

definition t_return :: "'a \<Rightarrow> ('w, 'a) tool" where
  "t_return a = io_return (Inr a)"

definition t_lift :: "tool_error + 'a \<Rightarrow> ('w, 'a) tool" where
  "t_lift r = io_return r"

definition t_bind :: "('w, 'a) tool \<Rightarrow> ('a \<Rightarrow> ('w, 'b) tool) \<Rightarrow> ('w, 'b) tool" where
  "t_bind m f = io_bind m (\<lambda>r. case r of Inl e \<Rightarrow> io_return (Inl e) | Inr a \<Rightarrow> f a)"

definition t_try :: "('w, 'a) io \<Rightarrow> ('w, 'a) tool" where
  "t_try m s =
     (case m s of (Ret a, s') \<Rightarrow> (Ret (Inr a), s') | (Err e, s') \<Rightarrow> (Ret (Inl (tool_of_s3 e)), s') | (Panic, s') \<Rightarrow> (Panic, s'))"

section \<open>The backend and the checkpoint\<close>

definition known_backends :: "config \<Rightarrow> string" where
  "known_backends cfg = join '', '' (map fst (cf_backends cfg))"

definition resolve_backend :: "(string \<Rightarrow> string) \<Rightarrow> config \<Rightarrow> string option \<Rightarrow> tool_error + backend" where
  "resolve_backend to_uppercase cfg name =
     (case name of
        None \<Rightarrow>
          (case cf_backends cfg of
             [(_, only)] \<Rightarrow> Inr only
           | _ \<Rightarrow> Inl (Backend (''no --backend given and more than one is configured ('' @ known_backends cfg @ '') ''
                     @ [CHR 0xE2, CHR 0x80, CHR 0x94] @ '' pass --backend to choose one'')))
      | Some n \<Rightarrow>
          ok_or (bt_get (cf_backends cfg) (to_uppercase n))
            (Backend (''unknown backend '' @ to_uppercase n @ '' '' @ [CHR 0xE2, CHR 0x80, CHR 0x94]
               @ '' known backends: '' @ known_backends cfg)))"

text \<open>The checkpoint's file is its text; \<open>str::lines\<close> drops the end of a last line and a carriage return before a newline.\<close>

record checkpoint =
  cp_done :: "string list"
  cp_file :: "string option"

definition strip_cr :: "string \<Rightarrow> string" where
  "strip_cr l = (case strip_suffix [CHR 0x0D] l of Some l' \<Rightarrow> l' | None \<Rightarrow> l)"

definition str_lines :: "string \<Rightarrow> string list" where
  "str_lines s =
     (let ls = split_on CHR 0x0A s; ls = (if last ls = [] then butlast ls else ls) in map strip_cr ls)"

text \<open>What the file system says of the checkpoint's path: the text of the file, an error reading it, or no file; and the
  error of opening it for append, if any.\<close>

record checkpoint_path =
  pa_text :: "(string + string) option"
  pa_open_error :: "string option"

definition Checkpoint_open :: "checkpoint_path option \<Rightarrow> tool_error + checkpoint" where
  "Checkpoint_open path =
     (case path of
        None \<Rightarrow> Inr \<lparr> cp_done = [], cp_file = None \<rparr>
      | Some p \<Rightarrow>
          rbind (case pa_text p of None \<Rightarrow> Inr '''' | Some r \<Rightarrow> map_err Io r) (\<lambda>text.
            case pa_open_error p of
              Some e \<Rightarrow> Inl (Io e)
            | None \<Rightarrow> Inr \<lparr> cp_done = str_lines text, cp_file = Some text \<rparr>))"

definition cp_is_done :: "checkpoint \<Rightarrow> string \<Rightarrow> bool" where
  "cp_is_done cp key \<longleftrightarrow> key \<in> set (cp_done cp)"

text \<open>A write that fails is only reported on the terminal by the callers; the key is in the set all the same.\<close>

definition mark_done :: "string \<Rightarrow> checkpoint \<Rightarrow> checkpoint" where
  "mark_done key cp =
     cp\<lparr> cp_done := key # cp_done cp, cp_file := map_option (\<lambda>text. text @ key @ [CHR 0x0A]) (cp_file cp) \<rparr>"

section \<open>Listing\<close>

record listed_page =
  lp_objects :: "string list"
  lp_next_token :: "string option"

text \<open>The variables of the event loop.\<close>

record list_state =
  ls_objects :: "string list"
  ls_next_token :: "string option"
  ls_truncated :: bool
  ls_tag :: string
  ls_in_contents :: bool
  ls_key :: "string option"

definition ls_start :: list_state where
  "ls_start = \<lparr> ls_objects = [], ls_next_token = None, ls_truncated = False, ls_tag = '''', ls_in_contents = False, ls_key = None \<rparr>"

definition handle_start_event :: "string \<Rightarrow> list_state \<Rightarrow> list_state" where
  "handle_start_event name ls =
     (let ls = ls\<lparr> ls_tag := name \<rparr> in
      if name = ''Contents'' then ls\<lparr> ls_in_contents := True, ls_key := None \<rparr> else ls)"

definition handle_end_event :: "string \<Rightarrow> list_state \<Rightarrow> list_state" where
  "handle_end_event name ls =
     (if name = ''Contents'' then
        ls\<lparr> ls_in_contents := False, ls_key := None,
            ls_objects := (case ls_key ls of Some k \<Rightarrow> ls_objects ls @ [k] | None \<Rightarrow> ls_objects ls) \<rparr>
      else ls)"

definition assign_list_field :: "string \<Rightarrow> list_state \<Rightarrow> list_state" where
  "assign_list_field text ls =
     (if ls_tag ls = ''Key'' \<and> ls_in_contents ls then ls\<lparr> ls_key := Some text \<rparr>
      else if ls_tag ls = ''IsTruncated'' then ls\<lparr> ls_truncated := (text = ''true'') \<rparr>
      else if ls_tag ls = ''NextContinuationToken'' then ls\<lparr> ls_next_token := Some text \<rparr>
      else ls)"

fun process_list_xml_events :: "'w env \<Rightarrow> xml_event list \<Rightarrow> string option \<Rightarrow> list_state \<Rightarrow> tool_error + list_state" where
  "process_list_xml_events E [] fin ls = (case fin of Some e \<Rightarrow> Inl (Xml e) | None \<Rightarrow> Inr ls)"
| "process_list_xml_events E (ev # evs) fin ls =
     (case ev of
        XStart name \<Rightarrow> process_list_xml_events E evs fin (handle_start_event name ls)
      | XText t \<Rightarrow> rbind (map_err Xml (en_xml_unescape E t)) (\<lambda>text.
                      process_list_xml_events E evs fin (assign_list_field text ls))
      | XEnd name \<Rightarrow> process_list_xml_events E evs fin (handle_end_event name ls)
      | XOther \<Rightarrow> process_list_xml_events E evs fin ls)"

definition check_truncation_state :: "bool \<Rightarrow> string option \<Rightarrow> tool_error + unit" where
  "check_truncation_state is_truncated next_token =
     (if is_truncated \<and> next_token = None then Inl (Backend ''backend reported truncation with no continuation token'')
      else Inr ())"

definition parse_list_xml :: "'w env \<Rightarrow> string \<Rightarrow> tool_error + listed_page" where
  "parse_list_xml E xml =
     (let (evs, fin) = en_xml_events E xml in
      rbind (process_list_xml_events E evs fin ls_start) (\<lambda>ls.
      rbind (check_truncation_state (ls_truncated ls) (ls_next_token ls)) (\<lambda>_.
        Inr \<lparr> lp_objects = ls_objects ls, lp_next_token = (if ls_truncated ls then ls_next_token ls else None) \<rparr>)))"

definition list_query :: "'w env \<Rightarrow> string \<Rightarrow> string option \<Rightarrow> string" where
  "list_query E pre token =
     ''list-type=2&max-keys=1000''
     @ (if pre = '''' then '''' else ''&prefix='' @ percent_encode (en_pct E) NON_ALPHANUMERIC (str_bytes pre))
     @ (case token of None \<Rightarrow> '''' | Some t \<Rightarrow> ''&continuation-token='' @ percent_encode (en_pct E) NON_ALPHANUMERIC (str_bytes t))"

definition list_page :: "'w env \<Rightarrow> backend \<Rightarrow> string \<Rightarrow> string \<Rightarrow> string option \<Rightarrow> ('w, listed_page) tool" where
  "list_page E be bucket pre token =
     t_bind (t_try (forward E be ''GET'' (''/'' @ bucket) (list_query E pre token) [] body_empty)) (\<lambda>resp.
       if \<not> is_success (br_status resp) then
         t_lift (Inl (Backend (''ListObjectsV2 on '' @ bucket @ '' failed: HTTP '' @ en_status_text E (br_status resp))))
       else
         t_lift (rbind (map_err (\<lambda>e. Backend (''reading list response: '' @ e)) (collect_body (br_body resp))) (\<lambda>bytes.
           parse_list_xml E (decode_utf8_lossy (en_pct E) bytes))))"

text \<open>The walk over the pages ends only when the backend stops handing out tokens; not returning is \<open>None\<close>.\<close>

partial_function (option) list_walk ::
  "'w env \<Rightarrow> backend \<Rightarrow> string \<Rightarrow> string \<Rightarrow> string option \<Rightarrow> string list \<Rightarrow> 'w io_state
   \<Rightarrow> ((tool_error + string list) io_result \<times> 'w io_state) option" where
  "list_walk E be bucket pre token objects s =
     (case list_page E be bucket pre token s of
        (Ret (Inr page), s') \<Rightarrow>
          (case lp_next_token page of
             None \<Rightarrow> Some (Ret (Inr (objects @ lp_objects page)), s')
           | Some t \<Rightarrow> list_walk E be bucket pre (Some t) (objects @ lp_objects page) s')
      | (Ret (Inl e), s') \<Rightarrow> Some (Ret (Inl e), s')
      | (Err e, s') \<Rightarrow> Some (Err e, s')
      | (Panic, s') \<Rightarrow> Some (Panic, s'))"

definition list_pending ::
  "'w env \<Rightarrow> backend \<Rightarrow> string \<Rightarrow> string \<Rightarrow> checkpoint \<Rightarrow> 'w io_state
   \<Rightarrow> ((tool_error + string list) io_result \<times> 'w io_state) option" where
  "list_pending E be bucket pre cp s =
     map_option (\<lambda>(r, s'). (case r of Ret (Inr objects) \<Rightarrow> Ret (Inr (filter (\<lambda>k. \<not> cp_is_done cp k) objects)) | _ \<Rightarrow> r, s'))
       (list_walk E be bucket pre None [] s)"

section \<open>Key rotation\<close>

record rewrap_report =
  rr_rewrapped :: u64
  rr_skipped_already_active :: u64
  rr_skipped_not_v1 :: u64
  rr_failed :: "(string \<times> tool_error) list"

datatype outcome_kind = Rewrapped | AlreadyActive | NotV1

definition PRESERVED_SYSTEM_HEADERS :: "string list" where
  "PRESERVED_SYSTEM_HEADERS =
     [''cache-control'', ''content-disposition'', ''content-encoding'', ''content-language'', ''expires'', ''x-amz-storage-class'']"

definition preserve_system_headers :: "headers \<Rightarrow> headers \<Rightarrow> headers" where
  "preserve_system_headers head_headers copy_headers =
     fold (\<lambda>name hs. case header_value head_headers name of Some v \<Rightarrow> set_header hs name v | None \<Rightarrow> hs)
       PRESERVED_SYSTEM_HEADERS copy_headers"

definition object_path :: "'w env \<Rightarrow> string \<Rightarrow> string \<Rightarrow> string" where
  "object_path E bucket key = ''/'' @ bucket @ ''/'' @ encode_key_for_path (en_pct E) key"

definition user_metadata :: "headers \<Rightarrow> headers" where
  "user_metadata hs = filter (\<lambda>(k, _). starts_with (to_ascii_lowercase k) ''x-amz-meta-'' \<and> \<not> is_own_metadata_header k) hs"

definition self_copy_headers :: "'w env \<Rightarrow> string \<Rightarrow> headers \<Rightarrow> object_meta \<Rightarrow> headers" where
  "self_copy_headers E path head_headers new_meta =
     (let hs = set_header [] ''x-amz-copy-source'' path;
          hs = set_header hs ''x-amz-metadata-directive'' ''REPLACE'';
          hs = (case header_value head_headers ''content-type'' of Some ct \<Rightarrow> set_header hs ''content-type'' ct | None \<Rightarrow> hs);
          hs = preserve_system_headers head_headers hs;
          hs = fold (\<lambda>(k, v) hs. set_header hs k v) (user_metadata head_headers) hs
      in set_meta_headers E new_meta hs)"

text \<open>The end both tools share: wrap the key under the active key and copy the object onto itself.\<close>

definition t_wrap_active :: "'w env \<Rightarrow> config \<Rightarrow> bytes \<Rightarrow> bytes \<Rightarrow> ('w, kek \<times> string \<times> bytes) tool" where
  "t_wrap_active E cfg dek binding s =
     (case wrap_active (en_crypto E) (io_rng s) (cf_keyring cfg) dek binding of
        None \<Rightarrow> (Panic, s)
      | Some (Inl e) \<Rightarrow> (Ret (Inl (Format e)), s)
      | Some (Inr (r, g)) \<Rightarrow> (Ret (Inr r), s\<lparr> io_rng := g \<rparr>))"

definition self_copy :: "'w env \<Rightarrow> config \<Rightarrow> backend \<Rightarrow> string \<Rightarrow> headers \<Rightarrow> object_meta \<Rightarrow> bytes \<Rightarrow> bytes \<Rightarrow> ('w, unit) tool" where
  "self_copy E cfg be path head_headers om dek binding =
     t_bind (t_wrap_active E cfg dek binding) (\<lambda>(new_kek, new_kid, wrapped_dek).
       let new_meta = om\<lparr> m_kek := new_kek, m_kid := new_kid, m_wrapped_dek := wrapped_dek \<rparr> in
     t_bind (t_try (forward E be ''PUT'' path '''' (self_copy_headers E path head_headers new_meta) body_empty)) (\<lambda>resp.
       if \<not> is_success (br_status resp) then t_lift (Inl (Backend (''self-copy failed: '' @ en_status_text E (br_status resp))))
       else t_return ()))"

definition head_object :: "'w env \<Rightarrow> backend \<Rightarrow> string \<Rightarrow> ('w, headers) tool" where
  "head_object E be path =
     t_bind (t_try (forward E be ''HEAD'' path '''' [] body_empty)) (\<lambda>head.
       if \<not> is_success (br_status head) then t_lift (Inl (Backend (''HEAD failed: '' @ en_status_text E (br_status head))))
       else t_return (br_headers head))"

definition rewrap_one :: "'w env \<Rightarrow> config \<Rightarrow> backend \<Rightarrow> string \<Rightarrow> string \<Rightarrow> bool \<Rightarrow> ('w, outcome_kind) tool" where
  "rewrap_one E cfg be bucket key dry_run =
     (let path = object_path E bucket key in
      t_bind (head_object E be path) (\<lambda>head_headers.
      t_bind (t_lift (map_err Format (route_from_headers (en_codec E) head_headers))) (\<lambda>r.
        case r of
          PlainObject \<Rightarrow> t_return NotV1
        | V1 om \<Rightarrow>
            if m_kid om = kr_active_kid (cf_keyring cfg) then t_return AlreadyActive
            else
              t_bind (t_lift (map_err (\<lambda>_. Backend (''old key '' @ m_kid om @ '' is not configured''))
                        (resolve_key_for E cfg om bucket (str_bytes key)))) (\<lambda>dek.
                if dry_run then t_return Rewrapped
                else t_bind (self_copy E cfg be path head_headers om dek (binding_for cfg bucket (str_bytes key)))
                       (\<lambda>_. t_return Rewrapped)))))"

definition count_outcome :: "string \<Rightarrow> tool_error + outcome_kind \<Rightarrow> rewrap_report \<Rightarrow> rewrap_report" where
  "count_outcome key r report =
     (case r of
        Inr Rewrapped \<Rightarrow> report\<lparr> rr_rewrapped := rr_rewrapped report + 1 \<rparr>
      | Inr AlreadyActive \<Rightarrow> report\<lparr> rr_skipped_already_active := rr_skipped_already_active report + 1 \<rparr>
      | Inr NotV1 \<Rightarrow> report\<lparr> rr_skipped_not_v1 := rr_skipped_not_v1 report + 1 \<rparr>
      | Inl reason \<Rightarrow> report\<lparr> rr_failed := rr_failed report @ [(key, reason)] \<rparr>)"

fun rewrap_all ::
  "'w env \<Rightarrow> config \<Rightarrow> backend \<Rightarrow> string \<Rightarrow> bool \<Rightarrow> string list \<Rightarrow> rewrap_report \<Rightarrow> checkpoint
   \<Rightarrow> 'w io_state \<Rightarrow> (rewrap_report \<times> checkpoint) io_result \<times> 'w io_state" where
  "rewrap_all E cfg be bucket dry_run [] report cp s = (Ret (report, cp), s)"
| "rewrap_all E cfg be bucket dry_run (key # keys) report cp s =
     (case rewrap_one E cfg be bucket key dry_run s of
        (Ret r, s') \<Rightarrow> rewrap_all E cfg be bucket dry_run keys (count_outcome key r report)
                         (if is_ok r \<and> \<not> dry_run then mark_done key cp else cp) s'
      | (Err e, s') \<Rightarrow> (Err e, s')
      | (Panic, s') \<Rightarrow> (Panic, s'))"

definition empty_report :: rewrap_report where
  "empty_report = \<lparr> rr_rewrapped = 0, rr_skipped_already_active = 0, rr_skipped_not_v1 = 0, rr_failed = [] \<rparr>"

text \<open>\<open>None\<close> when the listing never ends.\<close>

definition rewrap ::
  "'w env \<Rightarrow> (string \<Rightarrow> string) \<Rightarrow> string option \<Rightarrow> string \<Rightarrow> string \<Rightarrow> checkpoint_path option \<Rightarrow> bool \<Rightarrow> 'w io_state
   \<Rightarrow> ((tool_error + rewrap_report \<times> checkpoint) io_result \<times> 'w io_state) option" where
  "rewrap E to_uppercase backend_name bucket pre checkpoint dry_run s =
     (let cfg = ps_config (io_proxy s) in
      case rbind (resolve_backend to_uppercase cfg backend_name) (\<lambda>be. rbind (Checkpoint_open checkpoint) (\<lambda>cp. Inr (be, cp))) of
        Inl e \<Rightarrow> Some (Ret (Inl e), s)
      | Inr (be, cp) \<Rightarrow>
          map_option (\<lambda>(r, s'). case r of
              Ret (Inr keys) \<Rightarrow> io_bind (rewrap_all E cfg be bucket dry_run keys empty_report cp) (\<lambda>a. io_return (Inr a)) s'
            | Ret (Inl e) \<Rightarrow> (Ret (Inl e), s') | Err e \<Rightarrow> (Err e, s') | Panic \<Rightarrow> (Panic, s'))
            (list_pending E be bucket pre cp s))"

section \<open>Binding\<close>

datatype rebind_kind = Rebound | AlreadyBound | RebindNotV1

definition no_binding_message :: "object_meta \<Rightarrow> string option \<Rightarrow> string" where
  "no_binding_message om from_bucket =
     ''no binding unwrapped key id '' @ m_kid om @ '' (tried this bucket, empty''
     @ (if from_bucket \<noteq> None then '', --from-bucket'' else '''') @ '')''"

definition rebind_key :: "'w env \<Rightarrow> config \<Rightarrow> object_meta \<Rightarrow> string \<Rightarrow> string option \<Rightarrow> error + bytes" where
  "rebind_key E cfg om key from_bucket =
     (let dek = unwrap_with E cfg om [] in
      case (dek, from_bucket) of
        (Inl _, Some from) \<Rightarrow> unwrap_with E cfg om (binding_for cfg from (str_bytes key))
      | _ \<Rightarrow> dek)"

definition rebind_one :: "'w env \<Rightarrow> config \<Rightarrow> backend \<Rightarrow> string \<Rightarrow> string \<Rightarrow> string option \<Rightarrow> bool \<Rightarrow> ('w, rebind_kind) tool" where
  "rebind_one E cfg be bucket key from_bucket dry_run =
     (let path = object_path E bucket key; current_binding = binding_for cfg bucket (str_bytes key) in
      t_bind (head_object E be path) (\<lambda>head_headers.
      t_bind (t_lift (map_err Format (route_from_headers (en_codec E) head_headers))) (\<lambda>r.
        case r of
          PlainObject \<Rightarrow> t_return RebindNotV1
        | V1 om \<Rightarrow>
            if is_ok (unwrap_with E cfg om current_binding) then t_return AlreadyBound
            else
              t_bind (t_lift (map_err (\<lambda>_. Backend (no_binding_message om from_bucket)) (rebind_key E cfg om key from_bucket))) (\<lambda>dek.
                if dry_run then t_return Rebound
                else t_bind (self_copy E cfg be path head_headers om dek current_binding) (\<lambda>_. t_return Rebound)))))"

record rebind_report =
  rb_rebound :: u64
  rb_skipped_already_bound :: u64
  rb_skipped_not_v1 :: u64
  rb_failed :: "(string \<times> tool_error) list"

definition count_rebind :: "string \<Rightarrow> tool_error + rebind_kind \<Rightarrow> rebind_report \<Rightarrow> rebind_report" where
  "count_rebind key r report =
     (case r of
        Inr Rebound \<Rightarrow> report\<lparr> rb_rebound := rb_rebound report + 1 \<rparr>
      | Inr AlreadyBound \<Rightarrow> report\<lparr> rb_skipped_already_bound := rb_skipped_already_bound report + 1 \<rparr>
      | Inr RebindNotV1 \<Rightarrow> report\<lparr> rb_skipped_not_v1 := rb_skipped_not_v1 report + 1 \<rparr>
      | Inl reason \<Rightarrow> report\<lparr> rb_failed := rb_failed report @ [(key, reason)] \<rparr>)"

fun rebind_all ::
  "'w env \<Rightarrow> config \<Rightarrow> backend \<Rightarrow> string \<Rightarrow> string option \<Rightarrow> bool \<Rightarrow> string list \<Rightarrow> rebind_report \<Rightarrow> checkpoint
   \<Rightarrow> 'w io_state \<Rightarrow> (rebind_report \<times> checkpoint) io_result \<times> 'w io_state" where
  "rebind_all E cfg be bucket from_bucket dry_run [] report cp s = (Ret (report, cp), s)"
| "rebind_all E cfg be bucket from_bucket dry_run (key # keys) report cp s =
     (case rebind_one E cfg be bucket key from_bucket dry_run s of
        (Ret r, s') \<Rightarrow> rebind_all E cfg be bucket from_bucket dry_run keys (count_rebind key r report)
                         (if is_ok r \<and> \<not> dry_run then mark_done key cp else cp) s'
      | (Err e, s') \<Rightarrow> (Err e, s')
      | (Panic, s') \<Rightarrow> (Panic, s'))"

definition rebind ::
  "'w env \<Rightarrow> (string \<Rightarrow> string) \<Rightarrow> string option \<Rightarrow> string \<Rightarrow> string \<Rightarrow> string option \<Rightarrow> checkpoint_path option \<Rightarrow> bool \<Rightarrow> 'w io_state
   \<Rightarrow> ((tool_error + rebind_report \<times> checkpoint) io_result \<times> 'w io_state) option" where
  "rebind E to_uppercase backend_name bucket pre from_bucket checkpoint dry_run s =
     (let cfg = ps_config (io_proxy s);
          report = \<lparr> rb_rebound = 0, rb_skipped_already_bound = 0, rb_skipped_not_v1 = 0, rb_failed = [] \<rparr> in
      case rbind (resolve_backend to_uppercase cfg backend_name) (\<lambda>be. rbind (Checkpoint_open checkpoint) (\<lambda>cp. Inr (be, cp))) of
        Inl e \<Rightarrow> Some (Ret (Inl e), s)
      | Inr (be, cp) \<Rightarrow>
          map_option (\<lambda>(r, s'). case r of
              Ret (Inr keys) \<Rightarrow> io_bind (rebind_all E cfg be bucket from_bucket dry_run keys report cp) (\<lambda>a. io_return (Inr a)) s'
            | Ret (Inl e) \<Rightarrow> (Ret (Inl e), s') | Err e \<Rightarrow> (Err e, s') | Panic \<Rightarrow> (Panic, s'))
            (list_pending E be bucket pre cp s))"

end
