(* ===== verification/ObjectProps.thy ===== *)
theory ObjectProps
  imports ProxyInvariant ResponseProps
begin

text \<open>
  The object handlers against a backend that stores objects: what a PUT stores, a GET and a HEAD of the same path
  read back. The backend is a parameter; \<open>object_backend\<close> states the part of the S3 contract that is used.
\<close>

section \<open>Requests\<close>

lemma forward_RetD:
  assumes "forward E be meth path query hs body s = (Ret resp, s')"
  obtains u auth now w1 w2 rq where "en_parse_uri E (be_endpoint be) = Some u" "u_authority u = Some auth"
    "en_system_now E (io_world s) = (now, w1)" "en_send E w1 rq = (Answered resp, w2)" "s' = s\<lparr> io_world := w2 \<rparr>"
    "rq_method rq = meth" "rq_body rq = body"
    "rq_uri rq = target_uri u auth path (filter_query (en_pct E) query PRESIGNED_QUERY_PARAMS)"
    "rq_headers rq = map (\<lambda>(k, v). (to_ascii_lowercase k, v)) (sign_for_backend E be now meth path
       (filter_query (en_pct E) query PRESIGNED_QUERY_PARAMS) (dated_headers auth now hs))"
  using assms
  by (auto simp: forward_def send_request_def build_request_def io_defs Let_def
      split: option.splits prod.splits outcome.splits if_splits)

section \<open>Stored metadata\<close>

definition meta_name :: "string \<Rightarrow> string" where
  "meta_name k = ''x-amz-meta-'' @ k"

lemma meta_name_inj [simp]: "meta_name k = meta_name k' \<longleftrightarrow> k = k'"
  by (simp add: meta_name_def)

lemma meta_name_lowercase [simp]: "to_ascii_lowercase (meta_name k) = meta_name (to_ascii_lowercase k)"
proof -
  have "to_ascii_lowercase ''x-amz-meta-'' = ''x-amz-meta-''" by (rule lowercase_eqI) simp
  then show ?thesis unfolding meta_name_def to_ascii_lowercase_append by (rule arg_cong2) simp
qed

lemma meta_headers_snoc: "meta_headers (hs @ [(n, v)]) =
    (case strip_prefix ''x-amz-meta-'' (to_ascii_lowercase n) of Some k \<Rightarrow> bt_insert k v (meta_headers hs) | None \<Rightarrow> meta_headers hs)"
  by (cases "strip_prefix ''x-amz-meta-'' (to_ascii_lowercase n)") (simp_all add: meta_headers_def)

lemma meta_headers_get_snoc:
  "bt_get (meta_headers (hs @ [(n, v)])) k =
     (if to_ascii_lowercase n = meta_name k then Some v else bt_get (meta_headers hs) k)"
proof (cases "strip_prefix ''x-amz-meta-'' (to_ascii_lowercase n)")
  case None
  then have "to_ascii_lowercase n \<noteq> meta_name k" unfolding meta_name_def by (metis option.simps(3) strip_prefix_append)
  with None show ?thesis by (simp only: meta_headers_snoc option.case if_False)
next
  case (Some r)
  then have "to_ascii_lowercase n = meta_name r" unfolding meta_name_def by (rule strip_prefix_SomeD)
  with Some show ?thesis by (simp only: meta_headers_snoc option.case bt_get_insert meta_name_inj) simp
qed

lemma meta_headers_lowercase [simp]: "meta_headers (map (\<lambda>(k, v). (to_ascii_lowercase k, v)) hs) = meta_headers hs"
proof (induction hs rule: rev_induct)
  case (snoc h hs)
  obtain n v where h: "h = (n, v)" by (cases h)
  from snoc show ?case
    by (cases "strip_prefix ''x-amz-meta-'' (to_ascii_lowercase n)") (simp_all add: h meta_headers_snoc)
qed simp

lemma meta_headers_get:
  "bt_get (meta_headers hs) k = map_of (rev (map (\<lambda>(n, v). (to_ascii_lowercase n, v)) hs)) (meta_name k)"
proof (induction hs rule: rev_induct)
  case (snoc h hs)
  then show ?case by (cases h) (simp add: meta_headers_get_snoc)
qed (simp add: meta_headers_def)

lemma meta_headers_set_header:
  "bt_get (meta_headers (set_header hs n v)) k =
     (if to_ascii_lowercase n = meta_name k then Some v else bt_get (meta_headers hs) k)"
proof -
  have "map_of (rev (map (\<lambda>(n, v). (to_ascii_lowercase n, v)) (filter (\<lambda>(m, _). \<not> eq_ignore_ascii_case m n) hs))) (meta_name k)
      = map_of (rev (map (\<lambda>(n, v). (to_ascii_lowercase n, v)) hs)) (meta_name k)"
    if "to_ascii_lowercase n \<noteq> meta_name k"
    using that by (induction hs rule: rev_induct) (auto simp: eq_ignore_ascii_case_def)
  then show ?thesis by (auto simp: set_header_def meta_headers_get_snoc meta_headers_get)
qed

lemma meta_headers_set_other:
  "\<not> starts_with (to_ascii_lowercase n) ''x-amz-meta-'' \<Longrightarrow>
   bt_get (meta_headers (set_header hs n v)) k = bt_get (meta_headers hs) k"
  by (auto simp: meta_headers_set_header starts_with_iff meta_name_def)

text \<open>User metadata is a header store of its own, addressed by the name after the prefix.\<close>

interpretation mh: header_store "\<lambda>hs m. bt_get (meta_headers hs) (to_ascii_lowercase m)"
    "\<lambda>hs n v. set_header hs (meta_name n) v" eq_ignore_ascii_case
  by unfold_locales (simp_all add: meta_headers_set_header eq_ignore_ascii_case_def)

lemma s3a_keys_lowercase: "k \<in> s3a_keys \<Longrightarrow> to_ascii_lowercase k = k"
  unfolding s3a_keys_def meta_keys by (elim insertE) (simp_all add: lowercase_eqI)

lemma to_map_keys: "fst ` set (to_map B om) \<subseteq> s3a_keys"
  by (auto simp: to_map_def Let_def set_bt_insert s3a_keys_def split: option.splits)

lemma find_SomeD: "List.find P xs = Some x \<Longrightarrow> x \<in> set xs \<and> P x"
  by (induction xs) (auto split: if_splits)

lemma own_keys_absent:
  assumes "\<forall>(n, v) \<in> set hs. \<not> is_own_metadata_header n" "k \<in> s3a_keys"
  shows "bt_get (meta_headers hs) k = None"
proof -
  obtain r where "k = ''s3a-'' @ r" using assms(2) unfolding s3a_keys_def meta_keys by (elim insertE) auto
  then have "meta_name k = ''x-amz-meta-s3a-'' @ r" by (simp add: meta_name_def)
  then have "meta_name k \<noteq> to_ascii_lowercase n" if "(n, v) \<in> set hs" for n v
  proof -
    have "\<not> is_own_metadata_header n" using assms(1) that by auto
    then show ?thesis unfolding own_metadata_iff using \<open>meta_name k = _\<close> by metis
  qed
  then show ?thesis unfolding meta_headers_get map_of_eq_None_iff by fastforce
qed

lemma set_meta_headers_get:
  assumes "\<forall>(n, v) \<in> set hs. \<not> is_own_metadata_header n" "k \<in> s3a_keys"
  shows "bt_get (meta_headers (set_meta_headers E om hs)) k = bt_get (to_map (en_codec E) om) k"
proof -
  let ?m = "to_map (en_codec E) om"
  have get: "bt_get (meta_headers (set_meta_headers E om hs)) k =
      (case List.find (\<lambda>(n, _). eq_ignore_ascii_case n k) (rev ?m) of Some (_, v) \<Rightarrow> Some v | None \<Rightarrow> bt_get (meta_headers hs) k)"
    using mh.get_set_all [of ?m hs k] unfolding s3a_keys_lowercase [OF assms(2)] set_meta_headers_def meta_name_def .
  have same: "n = k" if "(n, v) \<in> set ?m" "eq_ignore_ascii_case n k" for n v
  proof -
    have "n \<in> s3a_keys" using that(1) to_map_keys [of "en_codec E" om] by force
    with that(2) assms(2) show ?thesis by (simp add: eq_ignore_ascii_case_def s3a_keys_lowercase)
  qed
  have d: "distinct (map fst ?m)" using bt_ok_to_map [of "en_codec E" om] by (simp add: bt_ok_def strict_sorted_iff)
  show ?thesis
  proof (cases "List.find (\<lambda>(n, _). eq_ignore_ascii_case n k) (rev ?m)")
    case None
    then have "k \<notin> fst ` set ?m" by (auto simp: find_None_iff)
    then have "bt_get ?m k = None" by (simp add: bt_get_def map_of_eq_None_iff)
    with None get own_keys_absent [OF assms] show ?thesis by simp
  next
    case (Some nv)
    obtain n v where nv: "nv = (n, v)" by (cases nv)
    have "(n, v) \<in> set ?m" "eq_ignore_ascii_case n k" using find_SomeD [OF Some] by (simp_all add: nv)
    with same d have "bt_get ?m k = Some v" by (auto simp: bt_get_def)
    with Some nv get show ?thesis by simp
  qed
qed

lemma forwarded_meta [simp]:
  "bt_get (meta_headers (sign_for_backend E be now meth path q (dated_headers auth now hs))) k = bt_get (meta_headers hs) k"
  unfolding sign_for_backend_def dated_headers_def Let_def
  by (subst meta_headers_set_other, simp add: starts_with_def lowercase_eqI)+ simp

lemma route_of_keys:
  assumes "codec_ok (en_codec E)" "chunk_size_ok (m_chunk_size om)"
    and "\<And>k. k \<in> s3a_keys \<Longrightarrow> bt_get (meta_headers hs) k = bt_get (to_map (en_codec E) om) k"
  shows "route_from_headers (en_codec E) hs = Inr (V1 om)"
proof -
  have "bt_get (meta_headers hs) KEY_VERSION \<noteq> None" using assms(3) [of KEY_VERSION] by (simp add: s3a_keys_def to_map_get)
  with from_map_to_map [OF assms] show ?thesis by (simp add: route_from_headers_def rbind_def)
qed

lemma stored_route:
  assumes "codec_ok (en_codec E)" "chunk_size_ok (m_chunk_size om)" "\<forall>(n, v) \<in> set hs. \<not> is_own_metadata_header n"
    and "\<And>k. bt_get (meta_headers hs') k = bt_get (meta_headers (set_header (set_meta_headers E om hs) ''content-length'' l)) k"
  shows "route_from_headers (en_codec E) hs' = Inr (V1 om)"
proof (rule route_of_keys [OF assms(1,2)])
  show "bt_get (meta_headers hs') k = bt_get (to_map (en_codec E) om) k" if "k \<in> s3a_keys" for k
    unfolding assms(4) by (subst meta_headers_set_other, simp add: starts_with_def) (rule set_meta_headers_get [OF assms(3) that])
qed

section \<open>Keys\<close>

lemma resolve_written_key:
  assumes "aead_correct (c_aead (en_crypto E))" "rsa_correct (en_crypto E)" "keyring_ok (en_crypto E) (cf_keyring cfg)"
    and "rsa_pair_ok (en_crypto E) (kr_rsa (cf_keyring cfg))" "length dek = 32"
    and "write_binding E cfg path = Inr b"
    and "wrap_active (en_crypto E) g (cf_keyring cfg) dek b = Some (Inr ((m_kek om, m_kid om, m_wrapped_dek om), g'))"
    and "\<not> (m_kek om = Rsa \<and> Keyring_capability (cf_keyring cfg) = WriteOnly)"
  shows "resolve_key E cfg om path = Inr dek"
proof -
  have u: "unwrap_with E cfg om b = Inr dek"
    using Keyring_unwrap_wrap [OF assms(1-5,7)] assms(8) by (simp add: unwrap_with_def)
  then show ?thesis using assms(6)
    by (cases "cf_bind_mode cfg"; cases "r_bucket (route_parse path)"; cases "r_key (route_parse path)")
      (auto simp: write_binding_def resolve_key_def resolve_key_for_def binding_for_def Let_def)
qed

section \<open>A backend that stores objects\<close>

text \<open>The part of the S3 contract that is used, at one address. \<open>obj w\<close> is the object stored there, its headers and
  bytes. Reading the clock does not touch it; a PUT (not a copy) that the backend acknowledges had arrived in full and
  is what is stored; a successful answer to a GET without a range or conditional headers carries the stored bytes, the
  stored metadata and their length.\<close>

definition conditional_names :: "string set" where
  "conditional_names = {''range'', ''if-match'', ''if-none-match'', ''if-modified-since'', ''if-unmodified-since''}"

definition object_backend :: "'w env \<Rightarrow> string \<Rightarrow> ('w \<Rightarrow> (headers \<times> bytes) option) \<Rightarrow> bool" where
  "object_backend E uri obj \<longleftrightarrow>
     (\<forall>w. obj (snd (en_system_now E w)) = obj w) \<and>
     (\<forall>w rq resp w'. en_send E w rq = (Answered resp, w') \<and> rq_uri rq = uri \<and> is_success (br_status resp) \<longrightarrow>
        (rq_method rq = ''PUT'' \<and> header_value (rq_headers rq) ''x-amz-copy-source'' = None \<longrightarrow>
           snd (rq_body rq) = Eof \<and> obj w' = Some (rq_headers rq, body_data (fst (rq_body rq)))) \<and>
        (\<forall>hs b. rq_method rq = ''GET'' \<and> (\<forall>n \<in> conditional_names. header_value (rq_headers rq) n = None) \<and>
           obj w = Some (hs, b) \<longrightarrow>
             (\<forall>k. bt_get (meta_headers (br_headers resp)) k = bt_get (meta_headers hs) k) \<and>
             header_value (br_headers resp) ''content-length'' = Some (dec_string (length b)) \<and>
             body_data (fst (br_body resp)) = b \<and> snd (br_body resp) = None))"

text \<open>The address the proxy uses at a backend for a path and query.\<close>

definition object_address :: "'w env \<Rightarrow> backend \<Rightarrow> string \<Rightarrow> string \<Rightarrow> string option" where
  "object_address E be path query =
     Option.bind (en_parse_uri E (be_endpoint be)) (\<lambda>u.
       map_option (\<lambda>auth. target_uri u auth path (filter_query (en_pct E) query PRESIGNED_QUERY_PARAMS)) (u_authority u))"

text \<open>The abstract meaning of a stored single-part object: under the configuration, at the path, it is the plaintext
  \<open>pt\<close> with the digest \<open>md5\<close>, if one was declared.\<close>

definition stands_for :: "'w env \<Rightarrow> config \<Rightarrow> string \<Rightarrow> headers \<times> bytes \<Rightarrow> bytes \<Rightarrow> bytes option \<Rightarrow> bool" where
  "stands_for E cfg path ob pt md5 \<longleftrightarrow> (\<exists>om key g g'.
     (\<forall>hs. (\<forall>k. bt_get (meta_headers hs) k = bt_get (meta_headers (fst ob)) k) \<longrightarrow>
        route_from_headers (en_codec E) hs = Inr (V1 om)) \<and>
     \<not> m_multipart om \<and> chunk_size_ok (m_chunk_size om) \<and> resolve_key E cfg om path = Inr key \<and>
     encrypt_all (c_aead (en_crypto E)) g (m_alg om) key 0 (unat (m_chunk_size om)) pt = Some (snd ob, g') \<and>
     (case md5 of None \<Rightarrow> m_emd5 om = None
      | Some m \<Rightarrow> \<exists>sealed. m_emd5 om = Some sealed \<and> open_emd5 (c_aead (en_crypto E)) (m_alg om) key sealed = Inr m))"

lemma io_bind_Ret: "io_bind m f s = (Ret b, s') \<longleftrightarrow> (\<exists>a t. m s = (Ret a, t) \<and> f a t = (Ret b, s'))"
  by (auto simp: io_bind_def split: prod.splits io_result.splits)

lemma io_lift_Ret: "io_lift r s = (Ret a, t) \<longleftrightarrow> r = Inr a \<and> t = s"
  by (auto simp: io_lift_def io_return_def io_fail_def split: sum.splits)

lemma io_seal_emd5_Ret:
  assumes "aead_correct (c_aead (en_crypto E))" "io_seal_emd5 E alg dek (parse_content_md5 E h) s = (Ret emd5, t)"
  shows "(case parse_content_md5 E h of None \<Rightarrow> emd5 = None
    | Some m \<Rightarrow> \<exists>sealed. emd5 = Some sealed \<and> open_emd5 (c_aead (en_crypto E)) alg dek sealed = Inr m)"
proof (cases "parse_content_md5 E h")
  case None
  with assms(2) show ?thesis by (simp add: io_seal_emd5_def io_return_def)
next
  case (Some m)
  then have "length m = 16" by (auto simp: parse_content_md5_def bind_eq_Some_conv split: if_splits)
  from open_emd5_seal_emd5 [OF assms(1) this, of alg dek "io_rng s"] Some assms(2) show ?thesis
    by (cases "seal_emd5 (c_aead (en_crypto E)) (io_rng s) alg dek m") (auto simp: io_seal_emd5_def io_drawing_def)
qed

lemma io_encrypting_Ret:
  assumes "aead_correct (c_aead (en_crypto E))" "length (body_data fs) < 2 ^ 64" "0 < unat cs"
    and "io_encrypting E (fs, fin) alg dek cs md5 pt_len part s = (Ret body, t)" "snd body = Eof"
  shows "\<exists>g g'. encrypt_all (c_aead (en_crypto E)) g alg dek part (unat cs) (body_data fs) = Some (body_data (fst body), g')"
proof -
  let ?g = "\<lambda>i. io_rng s (2 * i)"
  obtain out e where enc: "encrypting (c_aead (en_crypto E)) (en_md5 E) ?g (fs, fin) alg dek (unat cs) md5 pt_len part None = Some (out, e)"
    using assms(3) by (cases "encrypting (c_aead (en_crypto E)) (en_md5 E) ?g (fs, fin) alg dek (unat cs) md5 pt_len part None")
      (auto simp: encrypting_def Encryptor_new_def)
  with assms(4) have "body = (out, e)" by (simp add: io_encrypting_def io_defs)
  with encrypting_outcome [OF assms(1,2) enc] assms(5) show ?thesis by auto
qed

lemma header_value_lowercase [simp]:
  "header_value (map (\<lambda>(k, v). (to_ascii_lowercase k, v)) hs) n = header_value hs n"
  by (induction hs) (auto simp: header_value_def eq_ignore_ascii_case_def)

lemma forwarded_header:
  assumes "to_ascii_lowercase n = n" "n \<notin> {''host'', ''x-amz-date'', ''x-amz-content-sha256'', ''authorization''}"
  shows "header_value (sign_for_backend E be now meth path q (dated_headers auth now hs)) n = header_value hs n"
proof -
  have "\<not> eq_ignore_ascii_case ''host'' n" "\<not> eq_ignore_ascii_case ''x-amz-date'' n"
    "\<not> eq_ignore_ascii_case ''x-amz-content-sha256'' n" "\<not> eq_ignore_ascii_case ''authorization'' n"
    using assms by (auto simp: eq_ignore_ascii_case_def lowercase_eqI)
  then show ?thesis unfolding sign_for_backend_def dated_headers_def Let_def header_value_set_header by simp
qed

lemma forward_put_stores:
  assumes "object_backend E uri obj" "object_address E be path query = Some uri"
    and "forward E be ''PUT'' path query hs body s = (Ret resp, s')" "is_success (br_status resp)"
    and "header_value hs ''x-amz-copy-source'' = None"
  shows "snd body = Eof" "\<exists>hs'. obj (io_world s') = Some (hs', body_data (fst body)) \<and>
    (\<forall>k. bt_get (meta_headers hs') k = bt_get (meta_headers hs) k)"
proof -
  obtain u auth now w1 w2 rq where f: "en_parse_uri E (be_endpoint be) = Some u" "u_authority u = Some auth"
    "en_send E w1 rq = (Answered resp, w2)" "s' = s\<lparr> io_world := w2 \<rparr>" "rq_method rq = ''PUT''" "rq_body rq = body"
    "rq_uri rq = target_uri u auth path (filter_query (en_pct E) query PRESIGNED_QUERY_PARAMS)"
    "rq_headers rq = map (\<lambda>(k, v). (to_ascii_lowercase k, v)) (sign_for_backend E be now ''PUT'' path
       (filter_query (en_pct E) query PRESIGNED_QUERY_PARAMS) (dated_headers auth now hs))"
    using forward_RetD [OF assms(3)] by metis
  have "rq_uri rq = uri" using assms(2) f by (simp add: object_address_def)
  moreover have "header_value (rq_headers rq) ''x-amz-copy-source'' = None"
    using assms(5) unfolding f header_value_lowercase by (subst forwarded_header) (simp_all add: lowercase_eqI)
  ultimately have st: "snd (rq_body rq) = Eof" "obj w2 = Some (rq_headers rq, body_data (fst (rq_body rq)))"
    using assms(1,4) f(3,5) unfolding object_backend_def by blast+
  then show "snd body = Eof" by (simp add: f)
  show "\<exists>hs'. obj (io_world s') = Some (hs', body_data (fst body)) \<and>
    (\<forall>k. bt_get (meta_headers hs') k = bt_get (meta_headers hs) k)" using st(2) by (simp add: f)
qed

lemma set_meta_headers_other:
  assumes "\<And>r. to_ascii_lowercase n \<noteq> meta_name r"
  shows "header_value (set_meta_headers E om hs) n = header_value hs n"
proof -
  have "\<not> eq_ignore_ascii_case (meta_name k) n" for k
    using assms [of "to_ascii_lowercase k"] by (auto simp: eq_ignore_ascii_case_def)
  then have "header_value (fold (\<lambda>(k, v) hs. set_header hs (meta_name k) v) kvs hs) n = header_value hs n" for kvs
    by (induction kvs arbitrary: hs) (auto simp: header_value_set_header)
  then show ?thesis by (simp only: set_meta_headers_def meta_name_def)
qed

lemma put_handle_steps:
  assumes "put_handle E be path query hs body md5h rid s = (Ret rep, s')"
  obtains pt_len dek b om g g' s1 s2 s3 body' resp where
    "length dek = 32" "write_binding E (ps_config (io_proxy s)) path = Inr b"
    "wrap_active (en_crypto E) g (cf_keyring (ps_config (io_proxy s))) dek b = Some (Inr ((m_kek om, m_kid om, m_wrapped_dek om), g'))"
    "m_alg om = cf_alg (ps_config (io_proxy s))" "m_chunk_size om = cf_chunk_size (ps_config (io_proxy s))" "\<not> m_multipart om"
    "io_seal_emd5 E (m_alg om) dek (parse_content_md5 E md5h) s1 = (Ret (m_emd5 om), s2)"
    "io_encrypting E body (m_alg om) dek (m_chunk_size om) (parse_content_md5 E md5h) pt_len 0 s2 = (Ret body', s3)"
    "forward E be ''PUT'' path query (set_header (set_meta_headers E om hs) ''content-length''
       (dec_string (unat (ciphertext_len (m_alg om) pt_len (ucast (m_chunk_size om)))))) body' s3 = (Ret resp, s')"
    "rp_status rep = br_status resp"
proof -
  let ?cfg = "ps_config (io_proxy s)" and ?em = "parse_content_md5 E md5h"
  obtain pt_len dek s0 b kek kid w s1 emd5 s2 body' s3 resp where
    p: "io_random 32 s = (Ret dek, s0)" "write_binding E ?cfg path = Inr b" "io_wrap_active E ?cfg dek b s0 = (Ret (kek, kid, w), s1)"
      "io_seal_emd5 E (cf_alg ?cfg) dek ?em s1 = (Ret emd5, s2)"
      "io_encrypting E body (cf_alg ?cfg) dek (cf_chunk_size ?cfg) ?em pt_len 0 s2 = (Ret body', s3)"
      "forward E be ''PUT'' path query (set_header (set_meta_headers E \<lparr> m_alg = cf_alg ?cfg, m_kek = kek, m_kid = kid,
          m_wrapped_dek = w, m_chunk_size = cf_chunk_size ?cfg, m_multipart = False, m_emd5 = emd5 \<rparr> hs) ''content-length''
         (dec_string (unat (ciphertext_len (cf_alg ?cfg) pt_len (ucast (cf_chunk_size ?cfg)))))) body' s3 = (Ret resp, s')"
    and r: "rep = (if is_success (br_status resp) then (case ?em of
         Some md5 \<Rightarrow> set_response_header E ''etag'' (quoted (hex_encode (en_crypto E) md5)) (translate_response resp rid)
       | None \<Rightarrow> translate_response resp rid) else translate_response resp rid)"
    using assms unfolding put_handle_def io_bind_Ret io_lift_Ret io_read_def Let_def io_return_def
    by (auto simp: io_bind_Ret)
  have "length dek = 32" using p(1) fill_bytes_length [of "io_rng s" 32]
    by (cases "fill_bytes (io_rng s) 32") (simp add: io_random_def)
  moreover obtain g g' where "wrap_active (en_crypto E) g (cf_keyring ?cfg) dek b = Some (Inr ((kek, kid, w), g'))"
    using p(3) by (auto simp: io_wrap_active_def split: option.splits sum.splits)
  moreover have "rp_status rep = br_status resp"
    by (simp add: r translate_response_def build_client_response_def set_response_header_def split: option.splits)
  ultimately show thesis using p
    by (intro that [of dek b g "\<lparr> m_alg = cf_alg ?cfg, m_kek = kek, m_kid = kid, m_wrapped_dek = w,
          m_chunk_size = cf_chunk_size ?cfg, m_multipart = False, m_emd5 = emd5 \<rparr>" g' s1 s2 pt_len body' s3 resp]) simp_all
qed

text \<open>What the laws of the cryptography give the proxy, and the configurations that can read what they write.\<close>

definition crypto_laws :: "'w env \<Rightarrow> bool" where
  "crypto_laws E \<longleftrightarrow> aead_correct (c_aead (en_crypto E)) \<and> rsa_correct (en_crypto E) \<and> hex_plain (en_crypto E) \<and>
     codec_ok (en_codec E)"

definition reads_own_writes :: "'w env \<Rightarrow> config \<Rightarrow> bool" where
  "reads_own_writes E cfg \<longleftrightarrow> config_ok E cfg \<and> rsa_pair_ok (en_crypto E) (kr_rsa (cf_keyring cfg)) \<and>
     Keyring_capability (cf_keyring cfg) \<noteq> WriteOnly"

lemma chunk_size_okD: "chunk_size_ok c \<Longrightarrow> 65536 \<le> unat c \<and> unat c \<le> 8388608"
  by (simp add: chunk_size_ok_def MIN_CHUNK_SIZE_def MAX_CHUNK_SIZE_def word_le_nat_alt)

lemma put_stores:
  assumes "crypto_laws E" "reads_own_writes E (ps_config (io_proxy s))"
    and "object_backend E uri obj" "object_address E be path query = Some uri"
    and "\<forall>(n, v) \<in> set hs. \<not> is_own_metadata_header n" "header_value hs ''x-amz-copy-source'' = None"
    and "length (body_data fs) < 2 ^ 64"
    and "put_handle E be path query hs (fs, fin) md5h rid s = (Ret rep, s')" "is_success (rp_status rep)"
  shows "\<exists>ob. obj (io_world s') = Some ob \<and>
    stands_for E (ps_config (io_proxy s)) path ob (body_data fs) (parse_content_md5 E md5h)"
proof -
  let ?cfg = "ps_config (io_proxy s)" and ?A = "c_aead (en_crypto E)"
  note law = assms(1) [unfolded crypto_laws_def] and cfg = assms(2) [unfolded reads_own_writes_def config_ok_def]
  obtain pt_len dek b om g g' s1 s2 s3 body resp where
    k: "length dek = 32" "write_binding E ?cfg path = Inr b"
      "wrap_active (en_crypto E) g (cf_keyring ?cfg) dek b = Some (Inr ((m_kek om, m_kid om, m_wrapped_dek om), g'))"
    and om: "m_chunk_size om = cf_chunk_size ?cfg" "\<not> m_multipart om"
    and p: "io_seal_emd5 E (m_alg om) dek (parse_content_md5 E md5h) s1 = (Ret (m_emd5 om), s2)"
      "io_encrypting E (fs, fin) (m_alg om) dek (m_chunk_size om) (parse_content_md5 E md5h) pt_len 0 s2 = (Ret body, s3)"
      "forward E be ''PUT'' path query (set_header (set_meta_headers E om hs) ''content-length''
         (dec_string (unat (ciphertext_len (m_alg om) pt_len (ucast (m_chunk_size om)))))) body s3 = (Ret resp, s')"
      "rp_status rep = br_status resp"
    by (rule put_handle_steps [OF assms(8)])
  let ?hs = "set_header (set_meta_headers E om hs) ''content-length''
    (dec_string (unat (ciphertext_len (m_alg om) pt_len (ucast (m_chunk_size om)))))"
  have "to_ascii_lowercase ''x-amz-copy-source'' \<noteq> meta_name r" for r by (simp add: lowercase_eqI meta_name_def)
  then have "header_value ?hs ''x-amz-copy-source'' = None"
    using assms(6) by (simp add: header_value_set_header eq_ignore_ascii_case_def lowercase_eqI set_meta_headers_other)
  note st = forward_put_stores [OF assms(3,4) p(3) assms(9) [unfolded p(4)] this]
  obtain hs' where ob: "obj (io_world s') = Some (hs', body_data (fst body))"
    "\<And>k. bt_get (meta_headers hs') k = bt_get (meta_headers ?hs) k" using st(2) by blast
  have cs: "chunk_size_ok (m_chunk_size om)" using cfg om by simp
  have "route_from_headers (en_codec E) hs'' = Inr (V1 om)"
    if "\<forall>k. bt_get (meta_headers hs'') k = bt_get (meta_headers hs') k" for hs''
    by (rule stored_route [OF _ cs assms(5)]) (use law that ob in simp_all)
  moreover have "resolve_key E ?cfg om path = Inr dek"
    by (rule resolve_written_key [OF _ _ _ _ k]) (use law cfg in simp_all)
  moreover obtain g1 g2 where "encrypt_all ?A g1 (m_alg om) dek 0 (unat (m_chunk_size om)) (body_data fs) = Some (body_data (fst body), g2)"
    using io_encrypting_Ret [OF _ assms(7) _ p(2) st(1)] law chunk_size_okD [OF cs] by auto
  ultimately have "stands_for E ?cfg path (hs', body_data (fst body)) (body_data fs) (parse_content_md5 E md5h)"
    unfolding stands_for_def using om(2) cs io_seal_emd5_Ret [OF _ p(1)] law by auto
  with ob(1) show ?thesis by blast
qed

section \<open>Reading back\<close>

lemma forward_get_reads:
  assumes "object_backend E uri obj" "object_address E be path query = Some uri"
    and "forward E be ''GET'' path query hs body_empty t = (Ret resp, t')" "is_success (br_status resp)"
    and "\<forall>n \<in> conditional_names. header_value hs n = None" "obj (io_world t) = Some (hs', b)"
  shows "\<forall>k. bt_get (meta_headers (br_headers resp)) k = bt_get (meta_headers hs') k"
    "header_value (br_headers resp) ''content-length'' = Some (dec_string (length b))"
    "body_data (fst (br_body resp)) = b" "snd (br_body resp) = None"
proof -
  obtain u auth now w1 w2 rq where f: "en_parse_uri E (be_endpoint be) = Some u" "u_authority u = Some auth"
    "en_system_now E (io_world t) = (now, w1)" "en_send E w1 rq = (Answered resp, w2)" "rq_method rq = ''GET''"
    "rq_uri rq = target_uri u auth path (filter_query (en_pct E) query PRESIGNED_QUERY_PARAMS)"
    "rq_headers rq = map (\<lambda>(k, v). (to_ascii_lowercase k, v)) (sign_for_backend E be now ''GET'' path
       (filter_query (en_pct E) query PRESIGNED_QUERY_PARAMS) (dated_headers auth now hs))"
    using forward_RetD [OF assms(3)] by metis
  have "rq_uri rq = uri" using assms(2) f by (simp add: object_address_def)
  moreover have "header_value (rq_headers rq) n = None" if "n \<in> conditional_names" for n
  proof -
    have "to_ascii_lowercase n = n" "n \<notin> {''host'', ''x-amz-date'', ''x-amz-content-sha256'', ''authorization''}"
      using that unfolding conditional_names_def by (auto simp: lowercase_eqI)
    with forwarded_header [OF this] assms(5) that show ?thesis unfolding f header_value_lowercase by metis
  qed
  moreover have "obj (snd (en_system_now E (io_world t))) = obj (io_world t)"
    using assms(1) unfolding object_backend_def by blast
  then have "obj w1 = Some (hs', b)" using assms(6) f(3) by simp
  ultimately have "(\<forall>k. bt_get (meta_headers (br_headers resp)) k = bt_get (meta_headers hs') k) \<and>
      header_value (br_headers resp) ''content-length'' = Some (dec_string (length b)) \<and>
      body_data (fst (br_body resp)) = b \<and> snd (br_body resp) = None"
    using assms(1,4) f(4,5) unfolding object_backend_def by blast
  then show "\<forall>k. bt_get (meta_headers (br_headers resp)) k = bt_get (meta_headers hs') k"
    "header_value (br_headers resp) ''content-length'' = Some (dec_string (length b))"
    "body_data (fst (br_body resp)) = b" "snd (br_body resp) = None" by simp_all
qed

text \<open>The sizes: a chunk of at least 64 KiB keeps the ciphertext of half the address space within 64 bits.\<close>

lemma ciphertext_fits:
  assumes "pt < 2 ^ 63" "65536 \<le> c"
  shows "ciphertext_len_spec alg pt c < 2 ^ 64"
proof -
  have "(pt - 1) div c \<le> pt div 65536" using assms(2) div_le_mono2 [of 65536 c "pt - 1"] div_le_mono [of "pt - 1" pt 65536] by simp
  then have "n_chunks_spec pt c \<le> pt div 65536 + 1" by (simp add: n_chunks_spec_def)
  moreover have "overhead alg \<le> 40" by (cases alg) (simp_all add: overhead_def nonce_len_def TAG_LEN_def)
  ultimately have "n_chunks_spec pt c * overhead alg \<le> (pt div 65536 + 1) * 40" by (rule mult_le_mono)
  then show ?thesis using assms(1) by (simp add: ciphertext_len_spec_def)
qed

lemma stored_length:
  assumes "chunk_size_ok c" "length pt < 2 ^ 63" "aead_correct A" "encrypt_all A g alg key 0 (unat c) pt = Some (ct, g')"
  shows "parse_u64 (dec_string (length ct)) = Some (word_of_nat (length ct))"
    "plaintext_len alg (word_of_nat (length ct)) (ucast c) = Inr (word_of_nat (length pt))"
proof -
  note c = chunk_size_okD [OF assms(1)]
  have u: "unat (ucast c :: u64) = unat c" using c by (simp add: unsigned_ucast_eq take_bit_nat_eq_self)
  have l: "length ct = ciphertext_len_spec alg (length pt) (unat c)" by (rule length_encrypt_all [OF assms(3,4)])
  then have lt: "length ct < 2 ^ 64" using ciphertext_fits [OF assms(2)] c by simp
  then have uc: "unat (word_of_nat (length ct) :: u64) = length ct" by (simp add: unat_of_nat)
  then show "parse_u64 (dec_string (length ct)) = Some (word_of_nat (length ct))"
    using parse_u64_roundtrip [of "word_of_nat (length ct)"] by simp
  have "unat (word_of_nat (length pt) :: u64) = length pt" using assms(2) by (simp add: unat_of_nat)
  moreover have "(0 :: u64) < ucast c" using c u by (simp add: word_less_nat_alt)
  moreover have "overhead alg \<le> 40" by (cases alg) (simp_all add: overhead_def nonce_len_def TAG_LEN_def)
  ultimately show "plaintext_len alg (word_of_nat (length ct)) (ucast c) = Inr (word_of_nat (length pt))"
    using plaintext_len_exact [of "ucast c" alg "word_of_nat (length ct)" "word_of_nat (length pt)"] u uc l c by simp
qed

text \<open>The header map of an answer is a header store.\<close>

lemma header_value_hm_insert:
  "header_value (hm_insert hs n v) m = (if eq_ignore_ascii_case n m then Some v else header_value hs m)"
proof (induction hs)
  case (Cons h hs)
  obtain k w where h: "h = (k, w)" by (cases h)
  show ?case
  proof (cases "eq_ignore_ascii_case k n")
    case True
    then have "eq_ignore_ascii_case k m = eq_ignore_ascii_case n m" by (simp add: eq_ignore_ascii_case_def)
    with True header_value_remove_other [of n m hs] show ?thesis by (auto simp: h header_value_def)
  next
    case False
    with Cons show ?thesis by (auto simp: h header_value_def eq_ignore_ascii_case_def)
  qed
qed (simp add: header_value_def)

interpretation hm: header_store header_value hm_insert eq_ignore_ascii_case
  by unfold_locales (simp_all add: header_value_hm_insert)

lemma set_hm_insert: "(k, w) \<in> set (hm_insert hs n v) \<Longrightarrow> (k, w) \<in> set hs \<or> to_ascii_lowercase k = to_ascii_lowercase n"
  by (induction hs n v rule: hm_insert.induct) (auto simp: remove_header_def eq_ignore_ascii_case_def split: if_splits)

lemma dec_string_valid: "http_ok E \<Longrightarrow> en_value_error E (dec_string n) = None"
proof -
  assume "http_ok E"
  moreover have "32 \<le> (of_char c :: nat) \<and> (of_char c :: nat) \<le> 126" if c: "c \<in> set (dec_string n)" for c
  proof -
    obtain d where "d < 10" "c = digit_char d" using dec_string_digits [OF c] by blast
    then show ?thesis by (simp add: digit_char_def)
  qed
  ultimately show ?thesis by (simp add: http_ok_def)
qed

lemma plain_length_reply:
  assumes "http_ok E"
  shows "rp_status (with_plain_length E n rep) = rp_status rep" "rp_body (with_plain_length E n rep) = rp_body rep"
    "header_value (rp_headers (with_plain_length E n rep)) ''content-length'' = Some (dec_string (unat n))"
    "(k, v) \<in> set (rp_headers (with_plain_length E n rep)) \<Longrightarrow> \<not> is_own_metadata_header k"
proof -
  let ?hs = "hm_insert (rp_headers rep) ''content-length'' (dec_string (unat n))"
  have hs: "rp_headers (with_plain_length E n rep) = filter (\<lambda>(k, _). \<not> (is_own_metadata_header k \<or> is_checksum_header k)) ?hs"
    using assms dec_string_valid [OF assms]
    by (simp add: with_plain_length_def strip_reply_def set_response_header_def strip_s3armor_metadata_eq http_ok_def)
  have "\<not> is_own_metadata_header k \<and> \<not> is_checksum_header k" if "eq_ignore_ascii_case k ''content-length''" for k
    using that rewritten_forwarded [of "''content-length''"] never_forwarded_cong [OF that] stripped_iff [of k]
    by (auto simp: rewritten_def)
  then have "header_value (filter (\<lambda>(k, _). \<not> (is_own_metadata_header k \<or> is_checksum_header k)) ?hs) ''content-length''
      = header_value ?hs ''content-length''" by (intro header_value_filter) blast
  then show "header_value (rp_headers (with_plain_length E n rep)) ''content-length'' = Some (dec_string (unat n))"
    unfolding hs by (simp add: header_value_hm_insert)
  show "(k, v) \<in> set (rp_headers (with_plain_length E n rep)) \<Longrightarrow> \<not> is_own_metadata_header k" unfolding hs by simp
qed (simp_all add: with_plain_length_def strip_reply_def set_response_header_def)

lemma emd5_etag_reply:
  assumes "http_ok E"
  shows "rp_status (set_emd5_etag E cfg om path rep) = rp_status rep" "rp_body (set_emd5_etag E cfg om path rep) = rp_body rep"
    "header_value (rp_headers (set_emd5_etag E cfg om path rep)) ''content-length'' = header_value (rp_headers rep) ''content-length''"
    "emd5_etag E cfg om path = Some (quoted (hex_encode (en_crypto E) m)) \<Longrightarrow> hex_plain (en_crypto E) \<Longrightarrow>
     header_value (rp_headers (set_emd5_etag E cfg om path rep)) ''etag'' = Some (quoted (hex_encode (en_crypto E) m))"
    "(k, v) \<in> set (rp_headers (set_emd5_etag E cfg om path rep)) \<Longrightarrow> is_own_metadata_header k \<Longrightarrow> (k, v) \<in> set (rp_headers rep)"
proof -
  have ne: "\<not> eq_ignore_ascii_case ''etag'' ''content-length''" by (simp add: eq_ignore_ascii_case_def lowercase_eqI)
  show "rp_status (set_emd5_etag E cfg om path rep) = rp_status rep" "rp_body (set_emd5_etag E cfg om path rep) = rp_body rep"
    by (simp_all add: set_emd5_etag_def set_response_header_def split: option.splits)
  show "header_value (rp_headers (set_emd5_etag E cfg om path rep)) ''content-length'' = header_value (rp_headers rep) ''content-length''"
    using ne by (simp add: set_emd5_etag_def set_response_header_def header_value_hm_insert split: option.splits)
  show "header_value (rp_headers (set_emd5_etag E cfg om path rep)) ''etag'' = Some (quoted (hex_encode (en_crypto E) m))"
    if "emd5_etag E cfg om path = Some (quoted (hex_encode (en_crypto E) m))" "hex_plain (en_crypto E)"
    using that quoted_valid [OF assms that(2), of m] assms
    by (simp add: set_emd5_etag_def set_response_header_def header_value_hm_insert http_ok_def)
  show "(k, v) \<in> set (rp_headers rep)"
    if "(k, v) \<in> set (rp_headers (set_emd5_etag E cfg om path rep))" "is_own_metadata_header k"
  proof -
    have "to_ascii_lowercase k \<noteq> ''etag''" using that(2) by (auto simp: own_metadata_iff)
    then have "to_ascii_lowercase k \<noteq> to_ascii_lowercase ''etag''" by (simp add: lowercase_eqI)
    with that(1) show ?thesis
      by (auto simp: set_emd5_etag_def set_response_header_def split: option.splits if_splits dest!: set_hm_insert)
  qed
qed

lemma header_absent: "header_value hs n = None \<Longrightarrow> filter (\<lambda>(k, v). eq_ignore_ascii_case k n \<and> P k v) hs = []"
  by (induction hs) (auto simp: header_value_def split: if_splits)

lemma header_absent_remove: "header_value hs n = None \<Longrightarrow> remove_header n hs = hs"
  by (induction hs) (auto simp: header_value_def remove_header_def split: if_splits)

lemma take_header_absent:
  assumes "header_value hs n = None"
  shows "take_header n hs = (None, hs)"
proof -
  have f: "filter (\<lambda>(k, v). eq_ignore_ascii_case k n \<and> trim v \<noteq> ''*'') hs = []" by (rule header_absent [OF assms])
  then have "filter (\<lambda>h. \<not> (case h of (k, v) \<Rightarrow> eq_ignore_ascii_case k n \<and> trim v \<noteq> ''*'')) hs = hs"
    unfolding filter_id_conv filter_empty_conv by blast
  with f show ?thesis by (simp add: take_header_def)
qed

lemma plain_get_is_full:
  assumes "\<forall>n \<in> conditional_names. header_value hs n = None"
  shows "get_handle E be path query hs rid t = handle_full E be path query hs rid t"
proof -
  have "header_value hs ''if-match'' = None" "header_value hs ''if-none-match'' = None" "header_value hs ''range'' = None"
    using assms by (simp_all add: conditional_names_def)
  then show ?thesis
    by (simp add: get_handle_def Conditionals_take_def take_header_absent header_absent_remove conds_empty_def io_defs)
qed

lemma full_reply_reads:
  assumes "http_ok E" "crypto_laws E" "length pt < 2 ^ 63"
    and om: "\<not> m_multipart om" "chunk_size_ok (m_chunk_size om)" "resolve_key E cfg om path = Inr key"
      "encrypt_all (c_aead (en_crypto E)) g (m_alg om) key 0 (unat (m_chunk_size om)) pt = Some (b, g')"
    and resp: "header_value (br_headers resp) ''content-length'' = Some (dec_string (length b))"
      "body_data (fst (br_body resp)) = b" "snd (br_body resp) = None"
  shows "\<exists>sk t'. full_reply E cfg be path (V1 om) resp rid t = (Ret (set_emd5_etag E cfg om path
      (with_plain_length E (word_of_nat (length pt)) (build_client_response resp (sink_body sk) rid))), t') \<and>
    sk_data sk = pt \<and> sk_err sk = None"
proof -
  let ?A = "c_aead (en_crypto E)"
  have A: "aead_correct ?A" using assms(2) by (simp add: crypto_laws_def)
  note len = stored_length [OF om(2) assms(3) A om(4)]
  obtain fs where fs: "br_body resp = (fs, None)" "body_data fs = b" using resp by (cases "br_body resp") auto
  let ?sk = "decrypting ?A (fs, None) (m_alg om) key (unat (m_chunk_size om)) 0 (Some (ps_chunk_verify_failures (io_proxy t)))"
  have "0 < unat (m_chunk_size om)" using chunk_size_okD [OF om(2)] by simp
  from whole_object_outcome [OF this, where A = ?A and fs = fs and fin = None and alg = "m_alg om" and dek = key and part = 0
      and counter = "Some (ps_chunk_verify_failures (io_proxy t))" and sk = ?sk] decrypt_encrypt_all [OF A om(4)] fs(2)
  have "sk_data ?sk = pt" "sk_err ?sk = None" by (simp_all add: sent_def)
  moreover have "\<exists>t'. full_reply E cfg be path (V1 om) resp rid t = (Ret (set_emd5_etag E cfg om path
      (with_plain_length E (word_of_nat (length pt)) (build_client_response resp (sink_body ?sk) rid))), t')"
    using om(1,3) resp(1) len fs(1) by (simp add: full_reply_def io_defs header_u64_def ok_or_def map_err_def io_decrypting_def Let_def)
  ultimately show ?thesis by blast
qed

lemma get_reads:
  assumes "http_ok E" "crypto_laws E" "object_backend E uri obj" "object_address E be path query = Some uri"
    and "obj (io_world t) = Some ob" "stands_for E (ps_config (io_proxy t)) path ob pt md5" "length pt < 2 ^ 63"
    and "\<forall>n \<in> conditional_names. header_value hs n = None"
    and "forward E be ''GET'' path query hs body_empty t = (Ret resp, t1)" "is_success (br_status resp)"
  shows "\<exists>rep t'. get_handle E be path query hs rid t = (Ret rep, t') \<and> rp_status rep = br_status resp \<and>
    body_data (fst (rp_body rep)) = pt \<and> snd (rp_body rep) = Eof \<and>
    header_value (rp_headers rep) ''content-length'' = Some (dec_string (length pt)) \<and>
    (case md5 of None \<Rightarrow> True | Some m \<Rightarrow> header_value (rp_headers rep) ''etag'' = Some (quoted (hex_encode (en_crypto E) m))) \<and>
    \<not> list_ex (\<lambda>(k, _). is_own_metadata_header k) (rp_headers rep)"
proof -
  let ?cfg = "ps_config (io_proxy t)"
  obtain om key g g' where om: "\<And>hs. (\<forall>k. bt_get (meta_headers hs) k = bt_get (meta_headers (fst ob)) k) \<Longrightarrow>
        route_from_headers (en_codec E) hs = Inr (V1 om)"
      "\<not> m_multipart om" "chunk_size_ok (m_chunk_size om)" "resolve_key E ?cfg om path = Inr key"
      "encrypt_all (c_aead (en_crypto E)) g (m_alg om) key 0 (unat (m_chunk_size om)) pt = Some (snd ob, g')"
    and md5: "case md5 of None \<Rightarrow> m_emd5 om = None
      | Some m \<Rightarrow> \<exists>sealed. m_emd5 om = Some sealed \<and> open_emd5 (c_aead (en_crypto E)) (m_alg om) key sealed = Inr m"
    using assms(6) unfolding stands_for_def by blast
  have "obj (io_world t) = Some (fst ob, snd ob)" using assms(5) by simp
  note rd = forward_get_reads [OF assms(3,4,9,10,8) this]
  obtain sk t' where sk: "full_reply E ?cfg be path (V1 om) resp rid t1 = (Ret (set_emd5_etag E ?cfg om path
      (with_plain_length E (word_of_nat (length pt)) (build_client_response resp (sink_body sk) rid))), t')"
    "sk_data sk = pt" "sk_err sk = None"
    using full_reply_reads [OF assms(1,2,7) om(2-5) rd(2-4)] by blast
  let ?rep = "with_plain_length E (word_of_nat (length pt)) (build_client_response resp (sink_body sk) rid)"
  have h: "get_handle E be path query hs rid t = (Ret (set_emd5_etag E ?cfg om path ?rep), t')"
    using assms(9,10) om(1) [OF rd(1)] sk(1)
    by (simp add: plain_get_is_full [OF assms(8)] handle_full_def io_defs map_err_def)
  have "emd5_etag E ?cfg om path = Some (quoted (hex_encode (en_crypto E) m))" if "md5 = Some m" for m
    using md5 that om(2,4) by (auto simp: emd5_etag_def ok_def)
  then have etag: "case md5 of None \<Rightarrow> True | Some m \<Rightarrow>
      header_value (rp_headers (set_emd5_etag E ?cfg om path ?rep)) ''etag'' = Some (quoted (hex_encode (en_crypto E) m))"
    using emd5_etag_reply(4) [OF assms(1)] assms(2) by (simp add: crypto_laws_def split: option.splits)
  have len: "unat (word_of_nat (length pt) :: u64) = length pt" using assms(7) by (simp add: unat_of_nat)
  have own: "\<not> list_ex (\<lambda>(k, _). is_own_metadata_header k) (rp_headers (set_emd5_etag E ?cfg om path ?rep))"
    using emd5_etag_reply(5) [OF assms(1)] plain_length_reply(4) [OF assms(1)] by (fastforce simp: list_ex_iff)
  show ?thesis
    by (rule exI, rule exI, rule conjI [OF h])
      (use etag own len sk(2,3) in \<open>simp add: emd5_etag_reply(1-3) [OF assms(1)] plain_length_reply(1-3) [OF assms(1)]
        build_client_response_def sink_body_def sk_data_def\<close>)
qed

text \<open>C1. What a PUT stores, a GET reads back. When the backend acknowledges a PUT of a single-part object, then any
  later plain GET of the same address that the backend answers with success, while the object has not been
  overwritten, is answered with the backend's status and with exactly the plaintext the client sent, ending cleanly,
  with the plaintext's length as its content length, with the MD5 the client declared (if it did) as its ETag, and with none of the
  proxy's own metadata headers. This is for any cut of the client's body into frames, any cut of the backend's answer,
  any headers the client sent, and each of the three path-binding modes.\<close>

theorem put_then_get:
  assumes "http_ok E" "crypto_laws E" "reads_own_writes E cfg"
    and "object_backend E uri obj" "object_address E be path query = Some uri"
    and "ps_config (io_proxy s) = cfg" "header_value (outbound_headers_of hs) ''x-amz-copy-source'' = None"
    and "length (body_data fs) < 2 ^ 63"
    and "put_handle E be path query (outbound_headers_of hs) (fs, fin) md5h rid s = (Ret rep, s')" "is_success (rp_status rep)"
    and "ps_config (io_proxy t) = cfg" "obj (io_world t) = obj (io_world s')"
    and "\<forall>n \<in> conditional_names. header_value hs' n = None"
    and "forward E be ''GET'' path query hs' body_empty t = (Ret resp, t1)" "is_success (br_status resp)"
  shows "\<exists>rep' t'. get_handle E be path query hs' rid' t = (Ret rep', t') \<and> rp_status rep' = br_status resp \<and>
    body_data (fst (rp_body rep')) = body_data fs \<and> snd (rp_body rep') = Eof \<and>
    header_value (rp_headers rep') ''content-length'' = Some (dec_string (length (body_data fs))) \<and>
    (case parse_content_md5 E md5h of None \<Rightarrow> True
     | Some m \<Rightarrow> header_value (rp_headers rep') ''etag'' = Some (quoted (hex_encode (en_crypto E) m))) \<and>
    \<not> list_ex (\<lambda>(k, _). is_own_metadata_header k) (rp_headers rep')"
proof -
  have "\<forall>(n, v) \<in> set (outbound_headers_of hs). \<not> is_own_metadata_header n"
    using outbound_clean [of hs] stripped_iff unfolding filter_empty_conv by fastforce
  moreover have "length (body_data fs) < 2 ^ 64" using assms(8) by simp
  ultimately obtain ob where "obj (io_world s') = Some ob" "stands_for E cfg path ob (body_data fs) (parse_content_md5 E md5h)"
    using put_stores [OF assms(2) _ assms(4,5) _ assms(7) _ assms(9,10)] assms(3,6) by blast
  with get_reads [OF assms(1,2,4,5) _ _ assms(8,13,14,15)] assms(11,12) show ?thesis by simp
qed

section \<open>A concrete run\<close>

lemma sample_object_backend: "object_backend sample_env uri (\<lambda>st. map_of st uri)"
proof -
  have "\<not> starts_with (to_ascii_lowercase ''content-length'') ''x-amz-meta-''" by (simp add: starts_with_def)
  note other = meta_headers_set_other [OF this]
  show ?thesis
    by (auto simp: object_backend_def store_send_def Let_def other header_value_set_header is_success_def split: if_splits option.splits)
qed

lemma sample_laws: "crypto_laws sample_env" "reads_own_writes sample_env sample_config"
proof -
  show "crypto_laws sample_env"
    by (simp add: crypto_laws_def sample_aead_correct sample_crypto_rsa sample_hex_plain sample_codec_ok)
  have "kr_rsa sample_keyring = None" using Keyring_new_ok(2) [OF sample_keyring_new] .
  then show "reads_own_writes sample_env sample_config"
    by (simp add: reads_own_writes_def sample_config_ok) (simp add: sample_config_def rsa_pair_ok_def Keyring_capability_def)
qed

lemma sample_address: "object_address sample_env sample_backend ''/b/k'' '''' = Some ''https://s3/b/k''"
  by (simp add: object_address_def filter_query_def target_uri_def)

lemma sample_forward_put:
  "snd body = Eof \<Longrightarrow> header_value hs ''x-amz-copy-source'' = None \<Longrightarrow> \<exists>resp s'. forward sample_env be ''PUT'' path query hs body s = (Ret resp, s') \<and> br_status resp = 200 \<and>
     io_proxy s' = io_proxy s"
  by (simp add: forward_def send_request_def build_request_def io_defs Let_def store_send_def forwarded_header lowercase_eqI)

lemma sample_forward_get:
  assumes "object_address sample_env be path query = Some uri" "map_of (io_world s) uri \<noteq> None"
  shows "\<exists>resp s'. forward sample_env be ''GET'' path query hs body s = (Ret resp, s') \<and> br_status resp = 200"
  using assms
  by (auto simp: object_address_def forward_def send_request_def build_request_def io_defs Let_def store_send_def)

lemma sample_wrap:
  "\<exists>r g'. wrap_active sample_crypto g sample_keyring dek b = Some (Inr (r, g'))"
proof -
  have "\<not> kr_active_is_rsa sample_keyring"
    by (simp add: sample_keyring_def Keyring_new_def RSA_ACTIVE_NAME_def bt_get_def)
  moreover from this sample_keyring_ok obtain key where "bt_get (kr_by_kid sample_keyring) (kr_active_kid sample_keyring) = Some key"
    by (auto simp: keyring_ok_def)
  ultimately show ?thesis
    by (cases "MasterKey_wrap sample_crypto g key dek b") (simp add: wrap_active_def)
qed

lemma sample_encrypting:
  "\<exists>out s'. io_encrypting sample_env ([DataFrame [1, 2, 3]], Eof) Aes256Gcm dek 65536 None 3 0 s = (Ret (out, Eof), s') \<and>
     io_proxy s' = io_proxy s"
  by (simp add: io_encrypting_def io_defs encrypting_def Encryptor_new_def finish_encrypting_def Let_def case_prod_beta
      check_md5_def send_then_def)

lemma config_new [simp]: "ps_config (ProxyState_new cfg) = cfg"
  by (simp add: ProxyState_new_def)

lemma sample_write_binding: "write_binding sample_env sample_config ''/b/k'' = Inr (binding_for sample_config ''b'' (decode_key sample_pct ''k''))"
proof -
  have "route_parse ''/b/k'' = \<lparr> r_bucket = Some ''b'', r_key = Some ''k'' \<rparr>" by code_simp
  then show ?thesis by (simp add: write_binding_def) (simp add: sample_config_def)
qed

lemma sample_headers_length:
  "header_u64 (outbound_headers_of [(''content-length'', ''3'')]) ''content-length'' = Some 3"
  "header_value (outbound_headers_of [(''content-length'', ''3'')]) ''x-amz-copy-source'' = None"
proof -
  have "header_value (outbound_headers_of [(''content-length'', ''3'')]) ''content-length'' = Some ''3''"
    unfolding outbound_content_length by (simp add: header_value_def eq_ignore_ascii_case_def)
  then show "header_u64 (outbound_headers_of [(''content-length'', ''3'')]) ''content-length'' = Some 3"
    by (simp add: header_u64_def parse_u64_def parse_unsigned_def digit_value_def)
  show "header_value (outbound_headers_of [(''content-length'', ''3'')]) ''x-amz-copy-source'' = None"
    by (simp add: outbound_headers_of_def strip_for_backend_def header_value_def eq_ignore_ascii_case_def lowercase_eqI)
qed

lemma sample_put:
  "\<exists>rep s'. put_handle sample_env sample_backend ''/b/k'' '''' (outbound_headers_of [(''content-length'', ''3'')])
      ([DataFrame [1, 2, 3]], Eof) None ''1'' sample_state = (Ret rep, s') \<and> rp_status rep = 200 \<and>
    io_proxy s' = io_proxy sample_state"
proof -
  have cfg: "cf_keyring sample_config = sample_keyring" "cf_alg sample_config = Aes256Gcm" "cf_chunk_size sample_config = 65536"
    by (simp_all add: sample_config_def)
  obtain dek g where r: "fill_bytes (io_rng sample_state) 32 = (dek, g)" by fastforce
  let ?b = "binding_for sample_config ''b'' (decode_key sample_pct ''k'')"
  obtain kek kid w g' where wr: "wrap_active sample_crypto g sample_keyring dek ?b = Some (Inr ((kek, kid, w), g'))"
    using sample_wrap [of g dek ?b] by auto
  let ?s1 = "sample_state\<lparr> io_rng := g, io_rng := g' \<rparr>"
  obtain out s2 where enc: "io_encrypting sample_env ([DataFrame [1, 2, 3]], Eof) Aes256Gcm dek 65536 None 3 0 ?s1 = (Ret (out, Eof), s2)"
      "io_proxy s2 = io_proxy sample_state"
    using sample_encrypting [of dek ?s1] by auto
  let ?om = "\<lparr> m_alg = Aes256Gcm, m_kek = kek, m_kid = kid, m_wrapped_dek = w, m_chunk_size = 65536, m_multipart = False, m_emd5 = None \<rparr>"
  let ?hs = "set_header (set_meta_headers sample_env ?om (outbound_headers_of [(''content-length'', ''3'')])) ''content-length''
    (dec_string (unat (ciphertext_len Aes256Gcm 3 (ucast (65536 :: u32)))))"
  have "to_ascii_lowercase ''x-amz-copy-source'' \<noteq> meta_name r" for r by (simp add: lowercase_eqI meta_name_def)
  then have "header_value ?hs ''x-amz-copy-source'' = None" using sample_headers_length(2)
    by (simp add: header_value_set_header eq_ignore_ascii_case_def lowercase_eqI set_meta_headers_other)
  then obtain resp s3 where f: "forward sample_env sample_backend ''PUT'' ''/b/k'' '''' ?hs (out, Eof) s2 = (Ret resp, s3)"
      "br_status resp = 200" "io_proxy s3 = io_proxy s2"
    using sample_forward_put [where body = "(out, Eof)" and hs = ?hs] by fastforce
  have c: "ps_config (io_proxy sample_state) = sample_config" by simp
  have "put_handle sample_env sample_backend ''/b/k'' '''' (outbound_headers_of [(''content-length'', ''3'')])
      ([DataFrame [1, 2, 3]], Eof) None ''1'' sample_state = (Ret (translate_response resp ''1''), s3)"
    using r wr enc(1) f(1)
    by (simp add: put_handle_def io_bind_def io_read_def io_lift_def io_return_def io_random_def c cfg sample_headers_length
        ok_or_def sample_write_binding io_wrap_active_def io_seal_emd5_def parse_content_md5_def Let_def)
  with f enc(2) show ?thesis by (simp add: translate_response_def build_client_response_def)
qed

theorem put_then_get_witness:
  "\<exists>s' rep' t'. snd (put_handle sample_env sample_backend ''/b/k'' '''' (outbound_headers_of [(''content-length'', ''3'')])
        ([DataFrame [1, 2, 3]], Eof) None ''1'' sample_state) = s' \<and>
      get_handle sample_env sample_backend ''/b/k'' '''' [] ''2'' s' = (Ret rep', t') \<and>
      body_data (fst (rp_body rep')) = [1, 2, 3] \<and> header_value (rp_headers rep') ''content-length'' = Some ''3''"
proof -
  let ?obj = "\<lambda>st :: store. map_of st ''https://s3/b/k''"
  obtain rep s' where p: "put_handle sample_env sample_backend ''/b/k'' '''' (outbound_headers_of [(''content-length'', ''3'')])
      ([DataFrame [1, 2, 3]], Eof) None ''1'' sample_state = (Ret rep, s')" "rp_status rep = 200" "io_proxy s' = io_proxy sample_state"
    using sample_put by blast
  have ok: "is_success (rp_status rep)" by (simp add: p is_success_def)
  have c: "ps_config (io_proxy sample_state) = sample_config" by simp
  have own: "\<forall>(n, v) \<in> set (outbound_headers_of [(''content-length'', ''3'')]). \<not> is_own_metadata_header n"
    using outbound_clean [of "[(''content-length'', ''3'')]"] stripped_iff unfolding filter_empty_conv by fastforce
  have "reads_own_writes sample_env (ps_config (io_proxy sample_state))" using sample_laws(2) c by simp
  from put_stores [OF sample_laws(1) this sample_object_backend sample_address own sample_headers_length(2) _ p(1) ok]
  have "?obj (io_world s') \<noteq> None" by auto
  from sample_forward_get [OF sample_address this] obtain resp t1 where
    f: "forward sample_env sample_backend ''GET'' ''/b/k'' '''' [] body_empty s' = (Ret resp, t1)" "br_status resp = 200" by blast
  have g: "is_success (br_status resp)" by (simp add: f is_success_def)
  have "\<exists>rep' t'. get_handle sample_env sample_backend ''/b/k'' '''' [] ''2'' s' = (Ret rep', t') \<and> rp_status rep' = br_status resp \<and>
      body_data (fst (rp_body rep')) = body_data [DataFrame [1, 2, 3]] \<and> snd (rp_body rep') = Eof \<and>
      header_value (rp_headers rep') ''content-length'' = Some (dec_string (length (body_data [DataFrame [1, 2, 3]]))) \<and>
      (case parse_content_md5 sample_env None of None \<Rightarrow> True
       | Some m \<Rightarrow> header_value (rp_headers rep') ''etag'' = Some (quoted (hex_encode (en_crypto sample_env) m))) \<and>
      \<not> list_ex (\<lambda>(k, _). is_own_metadata_header k) (rp_headers rep')"
    by (rule put_then_get [OF sample_http_ok sample_laws sample_object_backend sample_address c sample_headers_length(2)
          _ p(1) ok _ refl _ f(1) g]) (simp_all add: p(3) c conditional_names_def header_value_def)
  moreover have "dec_string (Suc (Suc (Suc 0))) = ''3''" by code_simp
  ultimately show ?thesis using p(1) by auto
qed

end
