(* ===== verification/RewrapProps.thy ===== *)
theory RewrapProps
  imports Rewrap ObjectProps
begin

text \<open>
  Properties of the key rotation tools: a rewrapped object keeps its bytes, its data key and the user's metadata, and its
  key is then wrapped under the active key.
\<close>

section \<open>Metadata of a self-copy\<close>

definition clean :: "headers \<Rightarrow> bool" where
  "clean hs \<longleftrightarrow> (\<forall>(n, v) \<in> set hs. \<not> is_own_metadata_header n)"

lemma clean_set_header: "clean hs \<Longrightarrow> \<not> is_own_metadata_header n \<Longrightarrow> clean (set_header hs n v)"
  by (auto simp: clean_def set_header_def)

lemma clean_fold_set: "clean hs \<Longrightarrow> clean kvs \<Longrightarrow> clean (fold (\<lambda>(k, v) hs. set_header hs k v) kvs hs)"
proof (induction kvs arbitrary: hs)
  case (Cons kv kvs)
  then show ?case by (cases kv) (simp add: clean_set_header clean_def [of "_ # _"] flip: clean_def)
qed simp

lemma not_own: "\<not> starts_with (to_ascii_lowercase n) ''x-amz-meta-'' \<Longrightarrow> \<not> is_own_metadata_header n"
  by (auto simp: is_own_metadata_header_def starts_with_iff split: option.splits dest: strip_prefix_SomeD)

lemma system_names:
  "n \<in> set PRESERVED_SYSTEM_HEADERS \<Longrightarrow> \<not> starts_with (to_ascii_lowercase n) ''x-amz-meta-''"
  "\<not> starts_with (to_ascii_lowercase ''x-amz-copy-source'') ''x-amz-meta-''"
  "\<not> starts_with (to_ascii_lowercase ''x-amz-metadata-directive'') ''x-amz-meta-''"
  "\<not> starts_with (to_ascii_lowercase ''content-type'') ''x-amz-meta-''"
  unfolding PRESERVED_SYSTEM_HEADERS_def set_simps by (auto simp: lowercase_eqI starts_with_def)

text \<open>The headers of the copy before the proxy's own metadata goes in.\<close>

definition copy_base :: "string \<Rightarrow> headers \<Rightarrow> headers" where
  "copy_base path head_headers =
     (let hs = set_header (set_header [] ''x-amz-copy-source'' path) ''x-amz-metadata-directive'' ''REPLACE'' in
      preserve_system_headers head_headers
        (case header_value head_headers ''content-type'' of Some ct \<Rightarrow> set_header hs ''content-type'' ct | None \<Rightarrow> hs))"

lemma self_copy_headers_eq:
  "self_copy_headers E path head_headers om =
     set_meta_headers E om (fold (\<lambda>(k, v) hs. set_header hs k v) (user_metadata head_headers) (copy_base path head_headers))"
  by (simp add: self_copy_headers_def copy_base_def Let_def)

text \<open>The base carries no metadata, so it is clean, and it names the source and the directive.\<close>

lemma preserve_induct:
  assumes "P hs" "\<And>hs n v. n \<in> set PRESERVED_SYSTEM_HEADERS \<Longrightarrow> P hs \<Longrightarrow> P (set_header hs n v)"
  shows "P (preserve_system_headers head_headers hs)"
proof -
  have "P (fold (\<lambda>name hs. case header_value head_headers name of Some v \<Rightarrow> set_header hs name v | None \<Rightarrow> hs) ns hs)"
    if "set ns \<subseteq> set PRESERVED_SYSTEM_HEADERS" "P hs" for ns hs
    using that by (induction ns arbitrary: hs) (auto split: option.splits intro: assms(2))
  then show ?thesis using assms(1) by (simp add: preserve_system_headers_def)
qed

lemma copy_base_induct:
  assumes "P []" "\<And>hs n v. \<not> starts_with (to_ascii_lowercase n) ''x-amz-meta-'' \<Longrightarrow> P hs \<Longrightarrow> P (set_header hs n v)"
  shows "P (copy_base path hh)"
  unfolding copy_base_def Let_def
proof (rule preserve_induct [where P = P])
  have "P (set_header (set_header [] ''x-amz-copy-source'' path) ''x-amz-metadata-directive'' ''REPLACE'')"
    by (rule assms(2) [OF system_names(3)], rule assms(2) [OF system_names(2)], rule assms(1))
  then show "P (case header_value hh ''content-type'' of
      None \<Rightarrow> set_header (set_header [] ''x-amz-copy-source'' path) ''x-amz-metadata-directive'' ''REPLACE''
    | Some ct \<Rightarrow> set_header (set_header (set_header [] ''x-amz-copy-source'' path) ''x-amz-metadata-directive'' ''REPLACE'') ''content-type'' ct)"
    using assms(2) [OF system_names(4)] by (cases "header_value hh ''content-type''") (simp_all only: option.case)
  show "P (set_header hs n v)" if "n \<in> set PRESERVED_SYSTEM_HEADERS" "P hs" for hs n v
    using assms(2) [OF system_names(1) [OF that(1)] that(2)] .
qed

lemma copy_base_meta: "bt_get (meta_headers (copy_base path hh)) k = None"
  by (rule copy_base_induct [where P = "\<lambda>hs. bt_get (meta_headers hs) k = None"])
    (simp_all add: meta_headers_def [of "[]"] meta_headers_set_other)

lemma copy_base_clean: "clean (copy_base path hh)"
  by (rule copy_base_induct [where P = clean]) (simp_all add: clean_def [of "[]"] clean_set_header not_own)

lemma meta_fold_set:
  "bt_get (meta_headers (fold (\<lambda>(k, v) hs. set_header hs k v) kvs hs)) k =
     (case map_of (rev (map (\<lambda>(n, v). (to_ascii_lowercase n, v)) kvs)) (meta_name k) of
        Some v \<Rightarrow> Some v | None \<Rightarrow> bt_get (meta_headers hs) k)"
proof (induction kvs arbitrary: hs)
  case (Cons kv kvs)
  then show ?case by (cases kv) (auto simp: meta_headers_set_header map_add_def split: option.splits)
qed simp

lemma own_name_iff: "to_ascii_lowercase n = meta_name k \<Longrightarrow> is_own_metadata_header n = starts_with k ''s3a-''"
  unfolding is_own_metadata_header_def meta_name_def by (simp only: strip_prefix_append option.case)

lemma user_metadata_get:
  assumes "\<not> starts_with k ''s3a-''"
  shows "map_of (rev (map (\<lambda>(n, v). (to_ascii_lowercase n, v)) (user_metadata hs))) (meta_name k) = bt_get (meta_headers hs) k"
proof (induction hs rule: rev_induct)
  case (snoc h hs)
  obtain n v where h: "h = (n, v)" by (cases h)
  show ?case
  proof (cases "to_ascii_lowercase n = meta_name k")
    case True
    then have "starts_with (to_ascii_lowercase n) ''x-amz-meta-''" "\<not> is_own_metadata_header n"
      using assms by (auto simp only: starts_with_iff meta_name_def own_name_iff [OF True])
    then have "user_metadata (hs @ [h]) = user_metadata hs @ [h]" by (simp only: user_metadata_def h) simp
    then show ?thesis by (simp only: h meta_headers_get_snoc True) (simp add: True)
  next
    case False
    have "user_metadata (hs @ [h]) = user_metadata hs \<or> user_metadata (hs @ [h]) = user_metadata hs @ [h]"
      by (simp only: user_metadata_def filter_append) (auto simp only: filter.simps h split: if_splits)
    then show ?thesis using snoc False by (elim disjE) (simp_all only: h meta_headers_get_snoc if_False, simp_all)
  qed
qed (simp add: meta_headers_def user_metadata_def)

lemma user_metadata_clean: "clean (user_metadata hs)"
  by (simp add: clean_def user_metadata_def)

lemma set_meta_headers_user:
  assumes "\<not> starts_with k ''s3a-''"
  shows "bt_get (meta_headers (set_meta_headers E om hs)) k = bt_get (meta_headers hs) k"
proof -
  have "to_ascii_lowercase n \<noteq> k" if "n \<in> s3a_keys" for n
  proof -
    have "starts_with n ''s3a-''" using that unfolding s3a_keys_def meta_keys by (elim insertE) (simp_all add: starts_with_def)
    then show ?thesis using assms s3a_keys_lowercase [OF that] by auto
  qed
  then have "bt_get (meta_headers (fold (\<lambda>(n, v) hs. set_header hs (meta_name n) v) kvs hs)) k = bt_get (meta_headers hs) k"
    if "fst ` set kvs \<subseteq> s3a_keys" for kvs
    using that by (induction kvs arbitrary: hs) (auto simp: meta_headers_set_header)
  from this [OF to_map_keys] show ?thesis unfolding set_meta_headers_def meta_name_def .
qed

lemma self_copy_meta:
  "k \<in> s3a_keys \<Longrightarrow> bt_get (meta_headers (self_copy_headers E path hh om)) k = bt_get (to_map (en_codec E) om) k"
  "\<not> starts_with k ''s3a-'' \<Longrightarrow> bt_get (meta_headers (self_copy_headers E path hh om)) k = bt_get (meta_headers hh) k"
proof -
  show "bt_get (meta_headers (self_copy_headers E path hh om)) k = bt_get (to_map (en_codec E) om) k" if "k \<in> s3a_keys"
    unfolding self_copy_headers_eq
    by (rule set_meta_headers_get [OF _ that])
      (use clean_fold_set [OF copy_base_clean user_metadata_clean] in \<open>simp add: clean_def\<close>)
  show "bt_get (meta_headers (self_copy_headers E path hh om)) k = bt_get (meta_headers hh) k" if "\<not> starts_with k ''s3a-''"
    unfolding self_copy_headers_eq set_meta_headers_user [OF that] meta_fold_set user_metadata_get [OF that] copy_base_meta
    by (simp split: option.splits)
qed

lemma self_copy_header:
  assumes "n \<in> {''x-amz-copy-source'', ''x-amz-metadata-directive''}"
  shows "header_value (self_copy_headers E path hh om) n = header_value
    (set_header (set_header [] ''x-amz-copy-source'' path) ''x-amz-metadata-directive'' ''REPLACE'') n"
proof -
  let ?hs = "set_header (set_header [] ''x-amz-copy-source'' path) ''x-amz-metadata-directive'' ''REPLACE''"
  have n: "to_ascii_lowercase n = n" "\<not> starts_with n ''x-amz-meta-''" using assms by (auto simp: lowercase_eqI starts_with_def)
  have ct: "\<not> eq_ignore_ascii_case ''content-type'' n" using assms by (auto simp: eq_ignore_ascii_case_def lowercase_eqI)
  have sys: "\<not> eq_ignore_ascii_case m n" if "m \<in> set PRESERVED_SYSTEM_HEADERS" for m
    using that assms unfolding PRESERVED_SYSTEM_HEADERS_def set_simps by (auto simp: eq_ignore_ascii_case_def lowercase_eqI)
  have base: "header_value (copy_base path hh) n = header_value ?hs n"
    unfolding copy_base_def Let_def
    by (rule preserve_induct [where P = "\<lambda>hs. header_value hs n = header_value ?hs n"])
      (simp_all add: header_value_set_header ct sys split: option.splits)
  have user: "header_value (fold (\<lambda>(k, v) hs. set_header hs k v) kvs hs) n = header_value hs n"
    if "\<forall>(k, v) \<in> set kvs. starts_with (to_ascii_lowercase k) ''x-amz-meta-''" for kvs hs
    using that
  proof (induction kvs arbitrary: hs)
    case (Cons kv kvs)
    obtain k v where kv: "kv = (k, v)" by (cases kv)
    have "\<not> eq_ignore_ascii_case k n" using Cons.prems n by (auto simp: kv eq_ignore_ascii_case_def)
    with Cons show ?case by (simp add: kv header_value_set_header)
  qed simp
  have um: "\<forall>(k, v) \<in> set (user_metadata hh). starts_with (to_ascii_lowercase k) ''x-amz-meta-''"
    by (auto simp: user_metadata_def)
  have "to_ascii_lowercase n \<noteq> meta_name r" for r using n by (auto simp: starts_with_iff meta_name_def)
  then show ?thesis unfolding self_copy_headers_eq by (subst set_meta_headers_other) (simp_all only: user [OF um] base not_False_eq_True)
qed

lemma self_copy_headers_name:
  "header_value (self_copy_headers E path hh om) ''x-amz-copy-source'' = Some path"
  "header_value (self_copy_headers E path hh om) ''x-amz-metadata-directive'' = Some ''REPLACE''"
  by (simp_all add: self_copy_header header_value_set_header eq_ignore_ascii_case_def lowercase_eqI)

section \<open>A backend that copies\<close>

text \<open>At one address and path: reading the clock and HEAD leave the object alone, a successful HEAD answers the stored
  metadata, and an acknowledged copy of the object onto itself with the directive \<open>REPLACE\<close> stores the request's
  headers with the same bytes.\<close>

definition copy_backend :: "'w env \<Rightarrow> string \<Rightarrow> string \<Rightarrow> ('w \<Rightarrow> (headers \<times> bytes) option) \<Rightarrow> bool" where
  "copy_backend E uri path obj \<longleftrightarrow>
     (\<forall>w. obj (snd (en_system_now E w)) = obj w) \<and>
     (\<forall>w rq out w'. en_send E w rq = (out, w') \<and> rq_uri rq = uri \<and> rq_method rq = ''HEAD'' \<longrightarrow> obj w' = obj w) \<and>
     (\<forall>w rq resp w' hs b. en_send E w rq = (Answered resp, w') \<and> rq_uri rq = uri \<and> is_success (br_status resp) \<and>
        obj w = Some (hs, b) \<longrightarrow>
        (rq_method rq = ''HEAD'' \<longrightarrow> (\<forall>k. bt_get (meta_headers (br_headers resp)) k = bt_get (meta_headers hs) k)) \<and>
        (rq_method rq = ''PUT'' \<and> header_value (rq_headers rq) ''x-amz-copy-source'' = Some path \<and>
         header_value (rq_headers rq) ''x-amz-metadata-directive'' = Some ''REPLACE'' \<longrightarrow> obj w' = Some (rq_headers rq, b)))"

text \<open>What it takes to read an object at a path: its metadata and its data key.\<close>

definition opens_with :: "'w env \<Rightarrow> config \<Rightarrow> string \<Rightarrow> headers \<Rightarrow> object_meta \<Rightarrow> bytes \<Rightarrow> bool" where
  "opens_with E cfg path hs om dek \<longleftrightarrow>
     (\<forall>hs'. (\<forall>k. bt_get (meta_headers hs') k = bt_get (meta_headers hs) k) \<longrightarrow> route_from_headers (en_codec E) hs' = Inr (V1 om)) \<and>
     chunk_size_ok (m_chunk_size om) \<and> resolve_key E cfg om path = Inr dek"

lemma t_bind_Ret: "t_bind m f s = (Ret (Inr b), s') \<longleftrightarrow> (\<exists>a t. m s = (Ret (Inr a), t) \<and> f a t = (Ret (Inr b), s'))"
  by (auto simp: t_bind_def io_bind_def io_return_def split: prod.splits io_result.splits sum.splits)

lemma t_try_Ret: "t_try m s = (Ret (Inr a), s') \<longleftrightarrow> m s = (Ret a, s')"
  by (auto simp: t_try_def split: prod.splits io_result.splits)

lemma t_lift_Ret: "t_lift r s = (Ret (Inr a), s') \<longleftrightarrow> r = Inr a \<and> s' = s"
  by (auto simp: t_lift_def io_return_def)

lemma t_return_Ret: "t_return a s = (Ret (Inr b), s') \<longleftrightarrow> a = b \<and> s' = s"
  by (auto simp: t_return_def io_return_def)

lemmas tool_rets = t_bind_Ret t_try_Ret t_lift_Ret t_return_Ret

lemma head_object_reads:
  assumes "copy_backend E uri path' obj" "object_address E be path '''' = Some uri"
    and "head_object E be path s = (Ret (Inr hh), s')" "obj (io_world s) = Some (hs, b)"
  shows "\<forall>k. bt_get (meta_headers hh) k = bt_get (meta_headers hs) k" "obj (io_world s') = Some (hs, b)"
    "io_rng s' = io_rng s"
proof -
  obtain resp where r: "forward E be ''HEAD'' path '''' [] body_empty s = (Ret resp, s')" "is_success (br_status resp)"
      "hh = br_headers resp"
    using assms(3) by (auto simp: head_object_def tool_rets split: if_splits)
  obtain u auth now w1 w2 rq where f: "en_parse_uri E (be_endpoint be) = Some u" "u_authority u = Some auth"
    "en_system_now E (io_world s) = (now, w1)" "en_send E w1 rq = (Answered resp, w2)" "s' = s\<lparr> io_world := w2 \<rparr>"
    "rq_method rq = ''HEAD''" "rq_uri rq = target_uri u auth path (filter_query (en_pct E) '''' PRESIGNED_QUERY_PARAMS)"
    using forward_RetD [OF r(1)] by metis
  have u: "rq_uri rq = uri" using assms(2) f by (simp add: object_address_def)
  have "obj (snd (en_system_now E (io_world s))) = obj (io_world s)" using assms(1) unfolding copy_backend_def by blast
  then have w1: "obj w1 = Some (hs, b)" using assms(4) f(3) by simp
  show "\<forall>k. bt_get (meta_headers hh) k = bt_get (meta_headers hs) k"
    using assms(1) w1 f(4,6) u r(2,3) unfolding copy_backend_def by blast
  have "obj w2 = obj w1" using assms(1) f(4,6) u unfolding copy_backend_def by blast
  then show "obj (io_world s') = Some (hs, b)" using w1 by (simp add: f(5))
  show "io_rng s' = io_rng s" by (simp add: f(5))
qed

lemma self_copy_stores:
  assumes "copy_backend E uri path obj" "object_address E be path '''' = Some uri"
    and "self_copy E cfg be path hh om dek binding s = (Ret (Inr ()), s')" "obj (io_world s) = Some (hs, b)"
  obtains kek kid w g' hs' where
    "wrap_active (en_crypto E) (io_rng s) (cf_keyring cfg) dek binding = Some (Inr ((kek, kid, w), g'))"
    "obj (io_world s') = Some (hs', b)"
    "\<forall>k. bt_get (meta_headers hs') k =
       bt_get (meta_headers (self_copy_headers E path hh (om\<lparr> m_kek := kek, m_kid := kid, m_wrapped_dek := w \<rparr>))) k"
proof -
  obtain kek kid w g' resp where wr: "wrap_active (en_crypto E) (io_rng s) (cf_keyring cfg) dek binding = Some (Inr ((kek, kid, w), g'))"
    and r: "forward E be ''PUT'' path '''' (self_copy_headers E path hh (om\<lparr> m_kek := kek, m_kid := kid, m_wrapped_dek := w \<rparr>))
         body_empty (s\<lparr> io_rng := g' \<rparr>) = (Ret resp, s')" "is_success (br_status resp)"
    using assms(3)
    by (auto simp: self_copy_def tool_rets t_wrap_active_def Let_def split: option.splits sum.splits if_splits)
  let ?hs = "self_copy_headers E path hh (om\<lparr> m_kek := kek, m_kid := kid, m_wrapped_dek := w \<rparr>)"
  obtain u auth now w1 w2 rq where f: "en_parse_uri E (be_endpoint be) = Some u" "u_authority u = Some auth"
    "en_system_now E (io_world (s\<lparr> io_rng := g' \<rparr>)) = (now, w1)" "en_send E w1 rq = (Answered resp, w2)"
    "s' = s\<lparr> io_rng := g', io_world := w2 \<rparr>"
    "rq_method rq = ''PUT''" "rq_uri rq = target_uri u auth path (filter_query (en_pct E) '''' PRESIGNED_QUERY_PARAMS)"
    "rq_headers rq = map (\<lambda>(k, v). (to_ascii_lowercase k, v)) (sign_for_backend E be now ''PUT'' path
       (filter_query (en_pct E) '''' PRESIGNED_QUERY_PARAMS) (dated_headers auth now ?hs))"
    using forward_RetD [OF r(1)] by metis
  have u: "rq_uri rq = uri" using assms(2) f by (simp add: object_address_def)
  have "obj (snd (en_system_now E (io_world s))) = obj (io_world s)" using assms(1) unfolding copy_backend_def by blast
  then have w1: "obj w1 = Some (hs, b)" using assms(4) f(3) by simp
  have "header_value (rq_headers rq) ''x-amz-copy-source'' = Some path"
    "header_value (rq_headers rq) ''x-amz-metadata-directive'' = Some ''REPLACE''"
    unfolding f header_value_lowercase
    by (subst forwarded_header, simp add: lowercase_eqI, simp, rule self_copy_headers_name)+
  then have "obj w2 = Some (rq_headers rq, b)" using assms(1) w1 f(4,6) u r(2) unfolding copy_backend_def by blast
  then show thesis using that [OF wr, of "rq_headers rq"] f(5) by (simp add: f(8))
qed

section \<open>The rewrapped object\<close>

lemma unwrap_length: "unwrap_with E cfg om b = Inr dek \<Longrightarrow> length dek = 32"
  by (auto simp: unwrap_with_def Keyring_unwrap_def MasterKey_unwrap_def RsaKek_unwrap_def Let_def result_simps
      split: kek.splits if_splits)

lemma resolve_key_for_length: "resolve_key_for E cfg om bucket key = Inr dek \<Longrightarrow> length dek = 32"
  by (auto simp: resolve_key_for_def Let_def split: bind_mode.splits if_splits dest: unwrap_length)

definition object_name :: "'w env \<Rightarrow> string \<Rightarrow> string \<Rightarrow> bool" where
  "object_name E bucket key \<longleftrightarrow> pct_stream (en_pct E) \<and> CHR ''/'' \<notin> set bucket \<and> bucket \<noteq> [] \<and> key \<noteq> []"

lemma at_path:
  assumes "object_name E bucket key"
  shows "resolve_key E cfg om (object_path E bucket key) = resolve_key_for E cfg om bucket (str_bytes key)"
    "write_binding E cfg (object_path E bucket key) = Inr (binding_for cfg bucket (str_bytes key))"
proof -
  have r: "route_parse (object_path E bucket key) = \<lparr> r_bucket = Some bucket, r_key = Some (encode_key_for_path (en_pct E) key) \<rparr>"
    unfolding object_path_def
    by (rule route_parse_object) (use assms in \<open>simp_all add: object_name_def encode_key_not_Nil\<close>)
  have d: "decode_key (en_pct E) (encode_key_for_path (en_pct E) key) = str_bytes key"
    using assms by (simp add: object_name_def decode_encoded_key)
  show "resolve_key E cfg om (object_path E bucket key) = resolve_key_for E cfg om bucket (str_bytes key)"
    by (simp add: resolve_key_def r d)
  show "write_binding E cfg (object_path E bucket key) = Inr (binding_for cfg bucket (str_bytes key))"
    by (simp add: write_binding_def r d binding_for_def)
qed

lemma wrap_active_kid: "wrap_active C g kr dek b = Some (Inr ((kek, kid, w), g')) \<Longrightarrow> kid = kr_active_kid kr"
  by (auto simp: wrap_active_def case_prod_beta result_simps split: if_splits)

text \<open>A self-copy keeps the bytes, the data key and the user's metadata.\<close>

lemma self_copy_opens:
  assumes "crypto_laws E" "reads_own_writes E cfg" "object_name E bucket key"
    and "copy_backend E uri (object_path E bucket key) obj" "object_address E be (object_path E bucket key) '''' = Some uri"
    and "self_copy E cfg be (object_path E bucket key) hh om dek (binding_for cfg bucket (str_bytes key)) s = (Ret (Inr ()), s')"
    and "obj (io_world s) = Some (hs, b)" "length dek = 32" "chunk_size_ok (m_chunk_size om)"
    and "\<forall>k. bt_get (meta_headers hh) k = bt_get (meta_headers hs) k"
  shows "\<exists>hs' om'. obj (io_world s') = Some (hs', b) \<and> opens_with E cfg (object_path E bucket key) hs' om' dek \<and>
    m_kid om' = kr_active_kid (cf_keyring cfg) \<and>
    om' = om\<lparr> m_kek := m_kek om', m_kid := m_kid om', m_wrapped_dek := m_wrapped_dek om' \<rparr> \<and>
    (\<forall>k. \<not> starts_with k ''s3a-'' \<longrightarrow> bt_get (meta_headers hs') k = bt_get (meta_headers hs) k)"
proof -
  let ?path = "object_path E bucket key"
  obtain kek kid w g' hs' where
    wr: "wrap_active (en_crypto E) (io_rng s) (cf_keyring cfg) dek (binding_for cfg bucket (str_bytes key)) = Some (Inr ((kek, kid, w), g'))"
    and ob: "obj (io_world s') = Some (hs', b)"
    and meta: "\<forall>k. bt_get (meta_headers hs') k =
        bt_get (meta_headers (self_copy_headers E ?path hh (om\<lparr> m_kek := kek, m_kid := kid, m_wrapped_dek := w \<rparr>))) k"
    by (rule self_copy_stores [OF assms(4-7)])
  let ?om = "om\<lparr> m_kek := kek, m_kid := kid, m_wrapped_dek := w \<rparr>"
  note law = assms(1) [unfolded crypto_laws_def] and cfg = assms(2) [unfolded reads_own_writes_def config_ok_def]
  have "resolve_key E cfg ?om ?path = Inr dek"
    by (rule resolve_written_key [OF _ _ _ _ assms(8) at_path(2) [OF assms(3)]]) (use law cfg wr in simp_all)
  moreover have "route_from_headers (en_codec E) hs'' = Inr (V1 ?om)"
    if "\<forall>k. bt_get (meta_headers hs'') k = bt_get (meta_headers hs') k" for hs''
    by (rule route_of_keys) (use law assms(9) that meta self_copy_meta(1) in simp_all)
  ultimately have "opens_with E cfg ?path hs' ?om dek" using assms(9) by (simp add: opens_with_def)
  moreover have "\<forall>k. \<not> starts_with k ''s3a-'' \<longrightarrow> bt_get (meta_headers hs') k = bt_get (meta_headers hs) k"
    using meta self_copy_meta(2) assms(10) by metis
  ultimately show ?thesis using ob wrap_active_kid [OF wr]
    by (intro exI [of _ hs'] exI [of _ ?om]) simp
qed


section \<open>A concrete rotation\<close>

lemma sample_copy_backend: "copy_backend sample_env uri path (\<lambda>st. map_of st uri)"
proof -
  have "\<not> starts_with (to_ascii_lowercase ''content-length'') ''x-amz-meta-''" by (simp add: starts_with_def)
  note other = meta_headers_set_other [OF this]
  show ?thesis
    by (auto simp: copy_backend_def store_send_def Let_def other is_success_def split: if_splits option.splits)
qed

definition old_binding :: bytes where
  "old_binding = binding_for sample_config ''b'' (str_bytes ''k'')"

definition old_meta :: object_meta where
  "old_meta = \<lparr> m_alg = Aes256Gcm, m_kek = Aes, m_kid = MasterKey_key_id sample_crypto (MasterKey [2]),
     m_wrapped_dek = fst (MasterKey_wrap sample_crypto (\<lambda>i. 0) (MasterKey [2]) (replicate 32 5) old_binding),
     m_chunk_size = 65536, m_multipart = True, m_emd5 = None \<rparr>"

definition old_headers :: headers where
  "old_headers = set_meta_headers sample_env old_meta [(''x-amz-meta-color'', ''red'')]"

definition old_state :: "store io_state" where
  "old_state = sample_state\<lparr> io_world := [(''https://s3/b/k'', old_headers, [9, 9])] \<rparr>"

lemma sample_object_path: "object_path sample_env ''b'' ''k'' = ''/b/k''" "object_name sample_env ''b'' ''k''"
proof -
  have "encode_key_for_path sample_pct ''k'' = ''k''" by code_simp
  then show "object_path sample_env ''b'' ''k'' = ''/b/k''" by (simp add: object_path_def)
  show "object_name sample_env ''b'' ''k''" by (simp add: object_name_def sample_pct_stream)
qed

lemma old_object_opens: "opens_with sample_env sample_config ''/b/k'' old_headers old_meta (replicate 32 5)"
proof -
  have "route_from_headers sample_codec hs = Inr (V1 old_meta)"
    if "\<forall>k. bt_get (meta_headers hs) k = bt_get (meta_headers old_headers) k" for hs
  proof (rule route_of_keys [where E = sample_env, simplified])
    have "\<forall>(n, v) \<in> set [(''x-amz-meta-color'', ''red'')]. \<not> is_own_metadata_header n"
      by (simp add: is_own_metadata_header_def strip_prefix_def starts_with_def lowercase_eqI)
    then show "bt_get (meta_headers hs) k = bt_get (to_map sample_codec old_meta) k" if "k \<in> s3a_keys" for k
      using that set_meta_headers_get [of "[(''x-amz-meta-color'', ''red'')]" k sample_env old_meta]
        \<open>\<forall>k. bt_get (meta_headers hs) k = _\<close> by (simp add: old_headers_def)
  qed (simp_all add: sample_codec_ok old_meta_def chunk_size_ok_def MIN_CHUNK_SIZE_def MAX_CHUNK_SIZE_def)
  moreover have "bt_get (kr_by_kid sample_keyring) (MasterKey_key_id sample_crypto (MasterKey [2])) = Some (MasterKey [2])"
    by (simp add: sample_keyring_def Keyring_new_def RSA_ACTIVE_NAME_def bt_get_def [of "[_, _]"] bt_from_list_def)
  then have "unwrap_with sample_env sample_config old_meta old_binding = Inr (replicate 32 5)"
    using MasterKey_unwrap_wrap [of sample_crypto "replicate 32 5" "MasterKey [2]" "\<lambda>i. 0" old_binding]
    by (simp add: unwrap_with_def Keyring_unwrap_def old_meta_def sample_config_def sample_aead_correct)
  then have "resolve_key_for sample_env sample_config old_meta ''b'' (str_bytes ''k'') = Inr (replicate 32 5)"
    by (simp add: resolve_key_for_def old_binding_def Let_def split: bind_mode.splits) (simp add: sample_config_def)
  then have "resolve_key sample_env sample_config old_meta ''/b/k'' = Inr (replicate 32 5)"
    using at_path(1) [OF sample_object_path(2)] by (simp add: sample_object_path)
  ultimately show ?thesis
    by (simp add: opens_with_def) (simp add: old_meta_def chunk_size_ok_def MIN_CHUNK_SIZE_def MAX_CHUNK_SIZE_def)
qed

lemma sample_head:
  "head_object sample_env sample_backend ''/b/k'' old_state =
     (Ret (Inr (set_header old_headers ''content-length'' (dec_string (Suc (Suc 0))))), old_state)"
  by (simp add: head_object_def t_bind_def t_try_def t_return_def forward_def send_request_def build_request_def io_defs Let_def
      store_send_def old_state_def filter_query_def target_uri_def is_success_def)

lemma sample_self_copy:
  "\<exists>s'. self_copy sample_env sample_config sample_backend ''/b/k'' hh om dek bi old_state = (Ret (Inr ()), s')"
proof -
  obtain kek kid w g' where wr: "wrap_active sample_crypto (io_rng old_state) sample_keyring dek bi = Some (Inr ((kek, kid, w), g'))"
    using sample_wrap by (metis prod_cases3)
  let ?hs = "self_copy_headers sample_env ''/b/k'' hh (om\<lparr> m_kek := kek, m_kid := kid, m_wrapped_dek := w \<rparr>)"
  have "header_value (sign_for_backend sample_env sample_backend t ''PUT'' ''/b/k'' q (dated_headers a t ?hs)) ''x-amz-copy-source'' = Some ''/b/k''" for t q a
    by (subst forwarded_header) (simp_all add: lowercase_eqI self_copy_headers_name)
  then have "\<exists>resp s'. forward sample_env sample_backend ''PUT'' ''/b/k'' '''' ?hs body_empty (old_state\<lparr> io_rng := g' \<rparr>) = (Ret resp, s') \<and>
      br_status resp = 200"
    by (simp add: forward_def send_request_def build_request_def io_defs Let_def store_send_def old_state_def
        filter_query_def target_uri_def)
  then obtain resp s' where "forward sample_env sample_backend ''PUT'' ''/b/k'' '''' ?hs body_empty (old_state\<lparr> io_rng := g' \<rparr>) = (Ret resp, s')"
    "br_status resp = 200" by blast
  with wr show ?thesis
    by (simp add: self_copy_def t_bind_def t_try_def t_return_def t_wrap_active_def io_bind_def io_return_def is_success_def
        sample_config_def Let_def)
qed

lemma sample_rewrap:
  "\<exists>s'. rewrap_one sample_env sample_config sample_backend ''b'' ''k'' False old_state = (Ret (Inr Rewrapped), s')"
proof -
  let ?hh = "set_header old_headers ''content-length'' (dec_string (Suc (Suc 0)))"
  have "\<forall>k. bt_get (meta_headers ?hh) k = bt_get (meta_headers old_headers) k"
    by (simp add: meta_headers_set_other starts_with_def)
  then have r: "route_from_headers sample_codec ?hh = Inr (V1 old_meta)" using old_object_opens by (simp add: opens_with_def)
  have k: "resolve_key_for sample_env sample_config old_meta ''b'' (str_bytes ''k'') = Inr (replicate 32 5)"
    using old_object_opens at_path(1) [OF sample_object_path(2)] by (simp add: opens_with_def sample_object_path)
  have "MasterKey_key_id sample_crypto (MasterKey [2]) \<noteq> MasterKey_key_id sample_crypto (MasterKey [1])"
    by (simp add: MasterKey_key_id_def sample_crypto_def)
  then have "MasterKey_key_id sample_crypto (MasterKey [2]) \<noteq> kr_active_kid sample_keyring"
    by (simp add: sample_keyring_def Keyring_new_def RSA_ACTIVE_NAME_def bt_get_def [of "[_, _]"])
  then have kid: "m_kid old_meta \<noteq> kr_active_kid (cf_keyring sample_config)" by (simp add: old_meta_def sample_config_def)
  obtain s' where "self_copy sample_env sample_config sample_backend ''/b/k'' ?hh old_meta (replicate 32 5)
      (binding_for sample_config ''b'' (str_bytes ''k'')) old_state = (Ret (Inr ()), s')"
    using sample_self_copy by blast
  with r k kid show ?thesis
    by (simp add: rewrap_one_def sample_object_path tool_rets sample_head Let_def)
qed


end
