(* ===== verification/RewrapRun.thy ===== *)
theory RewrapRun
  imports RewrapProps
begin

text \<open>
  The runs of \<open>s3armor rewrap\<close> over a bucket: the walk over the pages of a listing ends and visits every page
  (\<open>list_pending\<close>), a finished run leaves a checkpoint from which the next run takes up exactly what failed, and what the
  listing makes of the text of a key.
\<close>

section \<open>The walk over a bucket\<close>

text \<open>The pages of a listing, one after the other, until one has no token.\<close>

inductive page_run ::
  "'w env \<Rightarrow> backend \<Rightarrow> string \<Rightarrow> string \<Rightarrow> string option \<Rightarrow> 'w io_state \<Rightarrow> string list \<Rightarrow> 'w io_state \<Rightarrow> bool"
  for E be bucket pre where
  last_page: "list_page E be bucket pre token s = (Ret (Inr page), s') \<Longrightarrow> lp_next_token page = None \<Longrightarrow>
     page_run E be bucket pre token s (lp_objects page) s'"
| next_page: "list_page E be bucket pre token s = (Ret (Inr page), s1) \<Longrightarrow> lp_next_token page = Some t \<Longrightarrow>
     page_run E be bucket pre (Some t) s1 objs s' \<Longrightarrow> page_run E be bucket pre token s (lp_objects page @ objs) s'"

inductive_cases page_runE: "page_run E be bucket pre token s objs s'"

lemma list_walk_sound:
  assumes "list_walk E be bucket pre token acc s = Some (Ret (Inr objs), s')"
  shows "\<exists>new. objs = acc @ new \<and> page_run E be bucket pre token s new s'"
proof -
  have "\<forall>objs s'. r = (Ret (Inr objs), s') \<longrightarrow> (\<exists>new. objs = acc @ new \<and> page_run E be bucket pre token s new s')"
    if "list_walk E be bucket pre token acc s = Some r" for r
    using that
  proof (induction rule: list_walk.raw_induct [rotated, consumes 1])
    case (1 walk E be bucket pre token acc s r)
    show ?case
    proof (intro allI impI)
      fix objs s' assume r: "r = (Ret (Inr objs), s')"
      with 1(2) obtain page s1 where p: "list_page E be bucket pre token s = (Ret (Inr page), s1)"
        by (auto split: prod.splits io_result.splits sum.splits)
      show "\<exists>new. objs = acc @ new \<and> page_run E be bucket pre token s new s'"
      proof (cases "lp_next_token page")
        case None
        with 1(2) r p last_page [OF p None] show ?thesis by auto
      next
        case (Some t)
        with 1(2) p have "walk E be bucket pre (Some t) (acc @ lp_objects page) s1 = Some r" by simp
        from 1(1) [OF this] r next_page [OF p Some] show ?thesis by fastforce
      qed
    qed
  qed
  with assms show ?thesis by blast
qed

lemma list_walk_complete:
  "page_run E be bucket pre token s new s' \<Longrightarrow> list_walk E be bucket pre token acc s = Some (Ret (Inr (acc @ new)), s')"
proof (induction arbitrary: acc rule: page_run.induct)
  case (last_page token s page s')
  then show ?case by (simp add: list_walk.simps)
next
  case (next_page token s page s1 t objs s')
  then show ?case by (subst list_walk.simps) simp
qed

lemma list_walk_iff:
  "list_walk E be bucket pre token [] s = Some (Ret (Inr objs), s') \<longleftrightarrow> page_run E be bucket pre token s objs s'"
proof
  assume "list_walk E be bucket pre token [] s = Some (Ret (Inr objs), s')"
  then show "page_run E be bucket pre token s objs s'" by (elim list_walk_sound [THEN exE]) simp
next
  assume "page_run E be bucket pre token s objs s'"
  from list_walk_complete [OF this, of "[]"] show "list_walk E be bucket pre token [] s = Some (Ret (Inr objs), s')" by simp
qed

definition tokens_advance :: "'w env \<Rightarrow> backend \<Rightarrow> string \<Rightarrow> string \<Rightarrow> (string option \<Rightarrow> nat) \<Rightarrow> bool" where
  "tokens_advance E be bucket pre rank \<longleftrightarrow>
     (\<forall>token s page s' t. list_page E be bucket pre token s = (Ret (Inr page), s') \<and> lp_next_token page = Some t \<longrightarrow>
        rank (Some t) < rank token)"

lemma list_walk_returns:
  assumes "tokens_advance E be bucket pre rank"
  shows "list_walk E be bucket pre token acc s \<noteq> None"
proof (induction "rank token" arbitrary: token acc s rule: less_induct)
  case less
  obtain r s1 where p: "list_page E be bucket pre token s = (r, s1)" by (cases "list_page E be bucket pre token s")
  have "list_walk E be bucket pre (Some t) (acc @ lp_objects page) s1 \<noteq> None"
    if "r = Ret (Inr page)" "lp_next_token page = Some t" for page t
    using less assms p that unfolding tokens_advance_def by blast
  then show ?case by (subst list_walk.simps) (auto simp: p split: io_result.splits sum.splits option.splits)
qed

lemma list_pending_iff:
  "list_pending E be bucket pre cp s = Some (Ret (Inr keys), s') \<longleftrightarrow>
    (\<exists>objs. list_walk E be bucket pre None [] s = Some (Ret (Inr objs), s') \<and> keys = filter (\<lambda>k. \<not> cp_is_done cp k) objs)"
proof (cases "list_walk E be bucket pre None [] s")
  case (Some p)
  obtain r t where p: "p = (r, t)" by (cases p)
  show ?thesis
  proof (cases r)
    case (Ret x)
    then show ?thesis by (cases x) (auto simp: list_pending_def Some p)
  qed (simp_all add: list_pending_def Some p)
qed (simp add: list_pending_def)

text \<open>C24. The walk over a bucket ends: if the tokens the backend hands out advance (they descend along some rank), then
  listing returns, with an answer or an error; and it returns keys exactly when the pages, followed from token to
  token, end in one that is not truncated, with the keys of all of them in order, less those the checkpoint has.\<close>

theorem listing_terminates:
  assumes "tokens_advance E be bucket pre rank"
  shows "list_pending E be bucket pre cp s \<noteq> None \<and>
    (list_pending E be bucket pre cp s = Some (Ret (Inr keys), s') \<longleftrightarrow>
      (\<exists>objs. page_run E be bucket pre None s objs s' \<and> keys = filter (\<lambda>k. \<not> cp_is_done cp k) objs))"
proof
  show "list_pending E be bucket pre cp s \<noteq> None"
    using list_walk_returns [OF assms] by (simp add: list_pending_def)
  show "list_pending E be bucket pre cp s = Some (Ret (Inr keys), s') \<longleftrightarrow>
      (\<exists>objs. page_run E be bucket pre None s objs s' \<and> keys = filter (\<lambda>k. \<not> cp_is_done cp k) objs)"
    unfolding list_pending_iff list_walk_iff ..
qed

section \<open>A concrete listing\<close>

text \<open>A backend whose listing of the bucket \<open>b\<close> has two pages; the answer's body is the request's address, which the
  XML reader turns into the page.\<close>

definition first_page :: "xml_event list" where
  "first_page = [XStart ''IsTruncated'', XText ''true'', XEnd ''IsTruncated'',
     XStart ''NextContinuationToken'', XText ''t'', XEnd ''NextContinuationToken'',
     XStart ''Contents'', XStart ''Key'', XText ''k1'', XEnd ''Key'', XEnd ''Contents'']"

definition second_page :: "xml_event list" where
  "second_page = [XStart ''Contents'', XStart ''Key'', XText ''k2'', XEnd ''Key'', XEnd ''Contents'']"

definition paged_env :: "store env" where
  "paged_env = sample_env\<lparr>
     en_send := (\<lambda>w rq. (Answered \<lparr> br_status = (if rq_method rq = ''HEAD'' \<and> rq_uri rq = ''https://s3/b/k2'' then 404 else 200), br_headers = [], br_body = ([DataFrame (str_bytes (rq_uri rq))], None) \<rparr>, w)),
     en_pct := sample_pct\<lparr> percent_encode := (\<lambda>set bs. if set 45 then ''T'' else bytes_str bs) \<rparr>,
     en_xml_events := (\<lambda>xml. (if xml = ''https://s3/b?list-type=2&max-keys=1000'' then first_page else second_page, None)),
     en_xml_unescape := Inr \<rparr>"

lemma sample_list_queries:
  "filter_query (en_pct paged_env) (list_query paged_env '''' None) PRESIGNED_QUERY_PARAMS = ''list-type=2&max-keys=1000''"
  "filter_query (en_pct paged_env) (list_query paged_env '''' (Some t)) PRESIGNED_QUERY_PARAMS =
     ''list-type=2&max-keys=1000&continuation-token=T''"
proof -
  have q: "list_query paged_env '''' None = ''list-type=2&max-keys=1000''"
    "list_query paged_env '''' (Some t) = ''list-type=2&max-keys=1000&continuation-token=T''"
    by (simp_all add: list_query_def paged_env_def NON_ALPHANUMERIC_def is_alnum_def)
  have f: "filter_query (sample_pct\<lparr> percent_encode := (\<lambda>set bs. if set 45 then ''T'' else bytes_str bs) \<rparr>) s ks = filter_query sample_pct s ks" for s ks
    by (simp add: filter_query_def)
  have "filter_query sample_pct ''list-type=2&max-keys=1000'' PRESIGNED_QUERY_PARAMS = ''list-type=2&max-keys=1000''"
    "filter_query sample_pct ''list-type=2&max-keys=1000&continuation-token=T'' PRESIGNED_QUERY_PARAMS =
       ''list-type=2&max-keys=1000&continuation-token=T''"
    by code_simp+
  then show "filter_query (en_pct paged_env) (list_query paged_env '''' None) PRESIGNED_QUERY_PARAMS = ''list-type=2&max-keys=1000''"
    "filter_query (en_pct paged_env) (list_query paged_env '''' (Some t)) PRESIGNED_QUERY_PARAMS =
       ''list-type=2&max-keys=1000&continuation-token=T''"
    unfolding q by (simp_all add: paged_env_def f)
qed

lemma sample_pages:
  "parse_list_xml paged_env ''https://s3/b?list-type=2&max-keys=1000'' = Inr \<lparr> lp_objects = [''k1''], lp_next_token = Some ''t'' \<rparr>"
  "parse_list_xml paged_env ''https://s3/b?list-type=2&max-keys=1000&continuation-token=T'' = Inr \<lparr> lp_objects = [''k2''], lp_next_token = None \<rparr>"
  by (simp_all add: parse_list_xml_def paged_env_def first_page_def second_page_def ls_start_def handle_start_event_def
      handle_end_event_def assign_list_field_def check_truncation_state_def)

lemma paged_env_simps:
  "en_parse_uri paged_env e = Some \<lparr> u_scheme = Some ''https'', u_authority = Some ''s3'' \<rparr>"
  "en_system_now paged_env w = (1704067260000000000, w)" "header_errors paged_env hs = None" "en_request_error paged_env m u = None"
  "decode_utf8_lossy (en_pct paged_env) = bytes_str"
  "en_send paged_env w rq = (Answered \<lparr> br_status = (if rq_method rq = ''HEAD'' \<and> rq_uri rq = ''https://s3/b/k2'' then 404 else 200), br_headers = [], br_body = ([DataFrame (str_bytes (rq_uri rq))], None) \<rparr>, w)"
  by (simp_all add: paged_env_def sample_pct_def) (induction hs, auto)

lemma sample_list_page:
  "list_page paged_env sample_backend ''b'' '''' token s =
     (Ret (Inr (if token = None then \<lparr> lp_objects = [''k1''], lp_next_token = Some ''t'' \<rparr>
                else \<lparr> lp_objects = [''k2''], lp_next_token = None \<rparr>)), s)"
  by (cases token) (simp_all add: list_page_def t_bind_def t_try_def t_lift_def forward_def send_request_def build_request_def
        io_defs Let_def paged_env_simps sample_list_queries target_uri_def is_success_def collect_body_def bytes_str_def sample_pages)

definition done_k1 :: checkpoint where
  "done_k1 = \<lparr> cp_done = [''k1''], cp_file = None \<rparr>"

lemma sample_page_run: "page_run paged_env sample_backend ''b'' '''' None s [''k1'', ''k2''] s"
  using next_page [OF sample_list_page [of None s, simplified]] last_page [OF sample_list_page [of "Some ''t''" s, simplified]]
  by simp

lemma sample_tokens_advance: "tokens_advance paged_env sample_backend ''b'' '''' (\<lambda>t. if t = None then 1 else 0)"
  by (auto simp: tokens_advance_def sample_list_page split: if_splits)

theorem listing_witness:
  "list_pending paged_env sample_backend ''b'' '''' done_k1 sample_state = Some (Ret (Inr [''k2'']), sample_state)"
proof -
  note t = listing_terminates [OF sample_tokens_advance, of done_k1 sample_state "[''k2'']" sample_state]
  have "[''k2''] = filter (\<lambda>k. \<not> cp_is_done done_k1 k) [''k1'', ''k2'']" by (simp add: done_k1_def cp_is_done_def)
  with t sample_page_run show ?thesis by blast
qed

section \<open>Resuming\<close>

text \<open>A checkpoint file is written in whole lines; a key fits on one when it has no newline and no carriage return at its
  end. Then reading the file back gives the keys that were marked.\<close>

definition whole_lines :: "string \<Rightarrow> bool" where
  "whole_lines text \<longleftrightarrow> text = '''' \<or> last text = CHR 0x0A"

definition line_key :: "string \<Rightarrow> bool" where
  "line_key k \<longleftrightarrow> CHR 0x0A \<notin> set k \<and> strip_cr k = k"

lemma split_on_at: "split_on c (s @ c # t) = split_on c s @ split_on c t"
  by (induction s) (auto split: list.splits)

lemma str_lines_append:
  assumes "whole_lines text" "line_key k"
  shows "str_lines (text @ k @ [CHR 0x0A]) = str_lines text @ [k]"
proof (cases "text" rule: rev_cases)
  case Nil
  with assms(2) show ?thesis
    by (simp add: str_lines_def line_key_def split_on_single split_on_append)
next
  case (snoc t c)
  with assms(1) have "c = CHR 0x0A" by (simp add: whole_lines_def)
  with snoc assms(2) show ?thesis
    by (simp add: str_lines_def line_key_def split_on_at [where c = "CHR 0x0A"] split_on_single Let_def butlast_append)
qed

text \<open>The keys of the file are the keys of the set.\<close>

definition cp_persists :: "checkpoint \<Rightarrow> bool" where
  "cp_persists cp \<longleftrightarrow> (case cp_file cp of None \<Rightarrow> False | Some text \<Rightarrow> whole_lines text \<and> set (str_lines text) = set (cp_done cp))"

lemma mark_done_persists: "cp_persists cp \<Longrightarrow> line_key k \<Longrightarrow> cp_persists (mark_done k cp)"
  by (auto simp: cp_persists_def mark_done_def str_lines_append whole_lines_def split: option.splits)

lemma Checkpoint_open_persists:
  assumes "Checkpoint_open (Some p) = Inr cp" "pa_text p = None \<or> pa_text p = Some (Inr text) \<and> whole_lines text"
  shows "cp_persists cp"
  using assms by (auto simp: Checkpoint_open_def map_err_def cp_persists_def whole_lines_def str_lines_def split: option.splits)

definition considered :: "rewrap_report \<Rightarrow> u64" where
  "considered report = rr_rewrapped report + rr_skipped_already_active report + rr_skipped_not_v1 report
     + of_nat (length (rr_failed report))"

lemma considered_count: "considered (count_outcome k r report) = considered report + 1"
  by (cases r) (auto simp: count_outcome_def considered_def split: outcome_kind.splits)

lemma count_outcome_failed:
  "map fst (rr_failed (count_outcome k r report)) = map fst (rr_failed report) @ (if is_ok r then [] else [k])"
  by (cases r) (auto simp: count_outcome_def is_ok_def split: outcome_kind.splits)

lemma rewrap_all_persists:
  assumes "rewrap_all E cfg be bucket False keys report cp s = (Ret (report', cp'), s')"
    and "cp_persists cp" "distinct keys" "set keys \<inter> set (cp_done cp) = {}" "list_all line_key keys"
  shows "cp_persists cp' \<and> considered report' = considered report + of_nat (length keys) \<and>
    set (cp_done cp) \<subseteq> set (cp_done cp') \<and> set (cp_done cp') \<subseteq> set (cp_done cp) \<union> set keys \<and>
    map fst (rr_failed report') = map fst (rr_failed report) @ filter (\<lambda>k. k \<notin> set (cp_done cp')) keys"
  using assms
proof (induction keys arbitrary: report cp s)
  case (Cons k keys)
  from Cons.prems(1) obtain r s1 where
    run: "rewrap_all E cfg be bucket False keys (count_outcome k r report) (if is_ok r then mark_done k cp else cp) s1 = (Ret (report', cp'), s')"
    by (auto split: prod.splits io_result.splits)
  let ?cp = "if is_ok r then mark_done k cp else cp"
  have d: "set (cp_done ?cp) = set (cp_done cp) \<union> (if is_ok r then {k} else {})" by (simp add: mark_done_def)
  have "cp_persists ?cp" using Cons.prems mark_done_persists by auto
  then have ih: "cp_persists cp' \<and> considered report' = considered (count_outcome k r report) + of_nat (length keys) \<and>
    set (cp_done ?cp) \<subseteq> set (cp_done cp') \<and> set (cp_done cp') \<subseteq> set (cp_done ?cp) \<union> set keys \<and>
    map fst (rr_failed report') = map fst (rr_failed (count_outcome k r report)) @ filter (\<lambda>k. k \<notin> set (cp_done cp')) keys"
    using Cons.prems d by (intro Cons.IH [OF run]) auto
  moreover have "k \<in> set (cp_done cp') \<longleftrightarrow> is_ok r" using ih Cons.prems(3,4) d by (cases "is_ok r") auto
  ultimately show ?case using d by (auto simp: considered_count count_outcome_failed)
qed simp

lemma list_pending_not_done:
  "list_pending E be bucket pre cp s = Some (Ret (Inr keys), s') \<Longrightarrow> k \<in> set keys \<Longrightarrow> \<not> cp_is_done cp k"
  by (auto simp: list_pending_iff)


lemma paged_path: "object_path paged_env ''b'' ''k1'' = ''/b/k1''" "object_path paged_env ''b'' ''k2'' = ''/b/k2''"
  by (simp_all add: object_path_def paged_env_def encode_key_for_path_def PATH_UNRESERVED_def)

lemma paged_head:
  "rewrap_one paged_env cfg sample_backend ''b'' ''k1'' False s = (Ret (Inr NotV1), s)"
  "\<exists>e. rewrap_one paged_env cfg sample_backend ''b'' ''k2'' False s = (Ret (Inl e), s)"
  by (simp_all add: rewrap_one_def paged_path head_object_def t_bind_def t_try_def t_lift_def t_return_def forward_def
      send_request_def build_request_def io_defs Let_def paged_env_simps filter_query_def target_uri_def is_success_def
      route_from_headers_def meta_headers_def bt_get_def)

lemma sample_pending:
  "list_pending paged_env sample_backend ''b'' '''' \<lparr> cp_done = [], cp_file = Some '''' \<rparr> sample_state = Some (Ret (Inr [''k1'', ''k2'']), sample_state)"
  unfolding list_pending_iff list_walk_iff using sample_page_run by (auto simp: cp_is_done_def)

lemma sample_resolve: "resolve_backend (\<lambda>u. u) (ps_config (io_proxy sample_state)) None = Inr sample_backend"
  by (simp add: resolve_backend_def sample_state_def ProxyState_new_def sample_config_def)

lemma sample_rewrap_run:
  "\<exists>e cp. rewrap paged_env (\<lambda>u. u) None ''b'' '''' (Some \<lparr> pa_text = None, pa_open_error = None \<rparr>) False sample_state =
     Some (Ret (Inr (\<lparr> rr_rewrapped = 0, rr_skipped_already_active = 0, rr_skipped_not_v1 = 1, rr_failed = [(''k2'', e)] \<rparr>, cp)), sample_state)"
proof -
  let ?cfg = "ps_config (io_proxy sample_state)"
  let ?cp = "\<lparr> cp_done = [], cp_file = Some '''' \<rparr>"
  obtain e where e: "rewrap_one paged_env ?cfg sample_backend ''b'' ''k2'' False sample_state = (Ret (Inl e), sample_state)"
    using paged_head(2) by blast
  show ?thesis
    using sample_pending sample_resolve e
    by (simp add: rewrap_def Checkpoint_open_def str_lines_def io_bind_def io_return_def paged_head(1) count_outcome_def empty_report_def is_ok_def)
qed


section \<open>Keys that do not survive\<close>

text \<open>A key with a newline is two lines of the checkpoint: after a restart both halves count as done, and the key does not.\<close>

lemma newline_splits_checkpoint:
  "\<exists>cp. Checkpoint_open (Some \<lparr> pa_text = Some (Inr (the (cp_file (mark_done (''a'' @ [CHR 0x0A] @ ''b'') \<lparr> cp_done = [], cp_file = Some '''' \<rparr>)))),
      pa_open_error = None \<rparr>) = Inr cp \<and> cp_is_done cp ''a'' \<and> \<not> cp_is_done cp (''a'' @ [CHR 0x0A] @ ''b'')"
  by (simp add: mark_done_def Checkpoint_open_def map_err_def cp_is_done_def str_lines_def strip_cr_def strip_suffix_def strip_prefix_def)

text \<open>The XML reader hands out an entity reference as an event of its own, between the texts on its two sides; the loop
  passes over it, and every text replaces the key: the key \<open>a&b\<close> is listed as \<open>b\<close>.\<close>

lemma reference_truncates_key:
  assumes "en_xml_unescape E = Inr"
    and "en_xml_events E xml = ([XStart ''Contents'', XStart ''Key'', XText a, XOther, XText b, XEnd ''Key'', XEnd ''Contents''], None)"
  shows "parse_list_xml E xml = Inr \<lparr> lp_objects = [b], lp_next_token = None \<rparr>"
  using assms by (simp add: parse_list_xml_def ls_start_def handle_start_event_def handle_end_event_def assign_list_field_def
      check_truncation_state_def)

end
