(* ===== verification/Check.thy ===== *)
theory Check
  imports Rewrap
begin

unbundle bit_operations_syntax

text \<open>
  \<open>s3armor check\<close> (\<open>tools/check.rs\<close>): the probes that try a backend before traffic is pointed at it, their requests in
  order with every early return, the verdict, the CRC-32 of the checksum probe and the scan of a lifecycle
  configuration. The parser of HTTP dates is the parameter \<open>parse_http_date\<close>; printing the report is not modelled.
\<close>

section \<open>Reports\<close>

datatype status = StatusOk | Warn string | Fail string

record probe =
  pb_name :: string
  pb_status :: status

definition Probe :: "string \<Rightarrow> status \<Rightarrow> probe" where
  "Probe name st = \<lparr> pb_name = name, pb_status = st \<rparr>"

definition verdict :: "probe list \<Rightarrow> string" where
  "verdict probes =
     (if list_ex (\<lambda>p. case pb_status p of Fail _ \<Rightarrow> True | _ \<Rightarrow> False) probes then ''incompatible''
      else if list_ex (\<lambda>p. case pb_status p of Warn _ \<Rightarrow> True | _ \<Rightarrow> False) probes then ''degraded''
      else ''compatible'')"

definition report_ok :: "probe list \<Rightarrow> bool" where
  "report_ok probes \<longleftrightarrow> verdict probes \<noteq> ''incompatible''"

definition em_dash :: string where
  "em_dash = [CHR 0x20, CHR 0xE2, CHR 0x80, CHR 0x94, CHR 0x20]"

text \<open>The \<open>Display\<close> of an error, and a match on the result of a request.\<close>

definition s3error_display :: "'w env \<Rightarrow> s3error \<Rightarrow> string" where
  "s3error_display E e = e_code e @ '' ('' @ en_status_text E (e_status e) @ ''): '' @ e_message e"

definition attempt :: "('w, 'a) io \<Rightarrow> ('w, s3error + 'a) io" where
  "attempt m s =
     (case m s of (Ret a, s') \<Rightarrow> (Ret (Inr a), s') | (Err e, s') \<Rightarrow> (Ret (Inl e), s') | (Panic, s') \<Rightarrow> (Panic, s'))"

definition try_forward ::
  "'w env \<Rightarrow> backend \<Rightarrow> string \<Rightarrow> string \<Rightarrow> string \<Rightarrow> headers \<Rightarrow> proxy_body \<Rightarrow> ('w, s3error + backend_response) io" where
  "try_forward E be meth path query hs body = attempt (forward E be meth path query hs body)"

definition delete :: "'w env \<Rightarrow> backend \<Rightarrow> string \<Rightarrow> string \<Rightarrow> ('w, unit) io" where
  "delete E be bucket key = io_bind (try_forward E be ''DELETE'' (object_path E bucket key) '''' [] body_empty) (\<lambda>_. io_return ())"

fun hex_lower :: "nat \<Rightarrow> string" where
  "hex_lower n =
     (let d = n mod 16; c = (if d < 10 then digit_char d else char_of (87 + d)) in
      if n < 16 then [c] else hex_lower (n div 16) @ [c])"

declare hex_lower.simps [simp del]

definition probe_nonce :: "'w env \<Rightarrow> ('w, nat) io" where
  "probe_nonce E = io_bind (io_system_now E) (\<lambda>now. io_return (nat (unwrap_or (duration_since now 0) 0)))"

section \<open>Reachability\<close>

definition tls_probe :: "backend \<Rightarrow> probe" where
  "tls_probe be =
     Probe ''endpoint reachable, TLS in use''
       (if starts_with (be_endpoint be) ''https://'' then StatusOk
        else Warn (''backend '' @ be_name be @ [CHR 0x27] @ ''s endpoint '' @ be_endpoint be @ '' is not https://'' @ em_dash
          @ ''ciphertext streams to the backend over TLS keep the outer channel confidential too; plaintext HTTP defeats that (docs/ARCHITECTURE.md ''
          @ [CHR 0x27] @ ''UNSIGNED-PAYLOAD to the backend over TLS'' @ [CHR 0x27] @ '')''))"

text \<open>\<open>{:?}\<close> of a duration of at least a second.\<close>

definition debug_duration :: "int \<Rightarrow> string" where
  "debug_duration d =
     (let frac = nat (d mod 1000000000) in
      dec_string (nat (d div 1000000000))
      @ (if frac = 0 then '''' else ''.'' @ rev (dropWhile (\<lambda>c. c = digit_char 0) (rev (zero_padded 9 frac)))) @ ''s'')"

definition skew_status :: "int \<Rightarrow> status" where
  "skew_status skew =
     (if skew > 15 * 60 * 1000000000 then
        Fail (''backend clock is '' @ debug_duration skew @ '' away from this host'' @ [CHR 0x27] @ ''s'' @ em_dash
          @ ''SigV4 rejects requests outside '' @ [CHR 0xC2, CHR 0xB1] @ ''15 min; fix NTP on one side'')
      else StatusOk)"

definition reachable_and_auth_probe :: "'w env \<Rightarrow> (string \<Rightarrow> system_time option) \<Rightarrow> backend \<Rightarrow> string \<Rightarrow> ('w, probe) io" where
  "reachable_and_auth_probe E parse_http_date be bucket =
     (let done = (\<lambda>st. io_return (Probe ''auth valid, backend reachable, clock skew'' st)) in
      io_bind (try_forward E be ''HEAD'' (''/'' @ bucket) '''' [] body_empty) (\<lambda>r.
        case r of
          Inl e \<Rightarrow> done (Fail (''HeadBucket failed: '' @ s3error_display E e))
        | Inr resp \<Rightarrow>
            if \<not> is_success (br_status resp) then
              done (Fail (''HeadBucket returned '' @ en_status_text E (br_status resp) @ em_dash
                @ ''check credentials and that the bucket exists''))
            else
              (case header_value (br_headers resp) ''date'' of
                 None \<Rightarrow> done (Warn (''backend sent no Date header'' @ em_dash @ ''cannot check clock skew''))
               | Some date \<Rightarrow>
                   (case parse_http_date date of
                      None \<Rightarrow> done (Warn (''backend Date header did not parse: '' @ date))
                    | Some backend_time \<Rightarrow>
                        io_bind (io_system_now E) (\<lambda>now.
                          case duration_since backend_time now of
                            Some skew \<Rightarrow> done (skew_status skew)
                          | None \<Rightarrow>
                              io_bind (io_system_now E) (\<lambda>now'.
                                done (skew_status (unwrap_or (duration_since now' backend_time) 0))))))))"

section \<open>Objects\<close>

definition round_trip_probe :: "'w env \<Rightarrow> backend \<Rightarrow> string \<Rightarrow> string \<Rightarrow> ('w, probe) io" where
  "round_trip_probe E be bucket pre =
     (let done = (\<lambda>st. io_return (Probe ''put/get/delete round-trip (1 KiB)'' st));
          key = pre @ ''/roundtrip''; path = object_path E bucket key; body_bytes = replicate 1024 0x5A in
      io_bind (try_forward E be ''PUT'' path '''' (set_header [] ''content-length'' ''1024'') (body_full body_bytes)) (\<lambda>put.
        case put of
          Inl e \<Rightarrow> done (Fail (''PUT failed: '' @ s3error_display E e))
        | Inr resp \<Rightarrow>
            if \<not> is_success (br_status resp) then done (Fail (''PUT returned '' @ en_status_text E (br_status resp)))
            else
              io_bind (try_forward E be ''GET'' path '''' [] body_empty) (\<lambda>got.
                let st = (case got of
                    Inr resp \<Rightarrow>
                      if is_success (br_status resp) then
                        (if (case collect_body (br_body resp) of Inr b \<Rightarrow> b | Inl _ \<Rightarrow> []) = body_bytes then StatusOk
                         else Fail ''GET returned different bytes than were PUT'')
                      else Fail (''GET returned '' @ en_status_text E (br_status resp))
                  | Inl e \<Rightarrow> Fail (''GET failed: '' @ s3error_display E e))
                in io_bind (delete E be bucket key) (\<lambda>_. done st))))"

definition metadata_survives_probe :: "'w env \<Rightarrow> backend \<Rightarrow> string \<Rightarrow> string \<Rightarrow> ('w, probe) io" where
  "metadata_survives_probe E be bucket pre =
     (let key = pre @ ''/metadata''; path = object_path E bucket key;
          hs = set_header (set_header (set_header [] ''content-length'' ''4'') ''x-amz-meta-s3a-v'' ''1'')
                 ''x-amz-meta-s3a-kid'' ''0123456789abcdef'' in
      io_bind (try_forward E be ''PUT'' path '''' hs (body_full (str_bytes ''test''))) (\<lambda>put.
      io_bind (case put of
          Inr resp \<Rightarrow>
            if is_success (br_status resp) then
              io_bind (try_forward E be ''HEAD'' path '''' [] body_empty) (\<lambda>head.
                io_return (case head of
                    Inr h \<Rightarrow>
                      if header_value (br_headers h) ''x-amz-meta-s3a-v'' = Some ''1''
                         \<and> header_value (br_headers h) ''x-amz-meta-s3a-kid'' = Some ''0123456789abcdef'' then StatusOk
                      else Fail (''s3a-* user metadata did not survive a PUT -> HEAD round-trip'' @ em_dash
                             @ ''the format cannot work against this backend'')
                  | Inl e \<Rightarrow> Fail (''HEAD failed: '' @ s3error_display E e)))
            else io_return (Fail (''PUT returned '' @ en_status_text E (br_status resp)))
        | Inl e \<Rightarrow> io_return (Fail (''PUT failed: '' @ s3error_display E e))) (\<lambda>st.
      io_bind (delete E be bucket key) (\<lambda>_. io_return (Probe ''user metadata survives PUT -> HEAD'' st)))))"

definition metadata_headroom_probe :: "'w env \<Rightarrow> backend \<Rightarrow> string \<Rightarrow> string \<Rightarrow> ('w, probe) io" where
  "metadata_headroom_probe E be bucket pre =
     (let key = pre @ ''/headroom''; path = object_path E bucket key;
          hs = set_header (set_header [] ''content-length'' ''0'') ''x-amz-meta-s3a-check-padding'' (replicate 1200 CHR ''a'') in
      io_bind (try_forward E be ''PUT'' path '''' hs body_empty) (\<lambda>put.
        let st = (case put of
            Inr resp \<Rightarrow>
              if is_success (br_status resp) then StatusOk
              else Fail (''PUT with 1200 bytes of metadata (v1'' @ [CHR 0x27] @ ''s real worst case, RSA wrap included, is under 900) returned ''
                     @ en_status_text E (br_status resp) @ em_dash @ ''headroom is below what v1 objects need'')
          | Inl e \<Rightarrow> Fail (''PUT failed: '' @ s3error_display E e))
        in io_bind (delete E be bucket key) (\<lambda>_. io_return (Probe ''metadata size headroom (real v1 worst case fits)'' st))))"

text \<open>The two probes with a setup PUT end early when it does not succeed.\<close>

definition setup_put :: "'w env \<Rightarrow> backend \<Rightarrow> string \<Rightarrow> headers \<Rightarrow> bytes \<Rightarrow> ('w, status option) io" where
  "setup_put E be path hs data =
     io_bind (try_forward E be ''PUT'' path '''' hs (body_full data)) (\<lambda>r.
       io_return (case r of
           Inr resp \<Rightarrow> if is_success (br_status resp) then None
                       else Some (Fail (''setup PUT returned '' @ en_status_text E (br_status resp)))
         | Inl e \<Rightarrow> Some (Fail (''setup PUT failed: '' @ s3error_display E e))))"

definition ranged_get_probe :: "'w env \<Rightarrow> backend \<Rightarrow> string \<Rightarrow> string \<Rightarrow> ('w, probe) io" where
  "ranged_get_probe E be bucket pre =
     (let done = (\<lambda>st. io_return (Probe ''ranged GET honored (bytes=5-9 -> 206)'' st));
          key = pre @ ''/ranged''; path = object_path E bucket key in
      io_bind (setup_put E be path (set_header [] ''content-length'' ''20'') (replicate 20 0x11)) (\<lambda>setup.
        case setup of
          Some st \<Rightarrow> done st
        | None \<Rightarrow>
            io_bind (try_forward E be ''GET'' path '''' (set_header [] ''range'' ''bytes=5-9'') body_empty) (\<lambda>got.
              let st = (case got of
                  Inr resp \<Rightarrow>
                    if br_status resp = 206 then StatusOk
                    else Warn (''ranged GET returned '' @ en_status_text E (br_status resp) @ '' instead of 206'' @ em_dash
                           @ ''the proxy'' @ [CHR 0x27] @ ''s ranged reads depend on this'')
                | Inl e \<Rightarrow> Fail (''ranged GET failed: '' @ s3error_display E e))
              in io_bind (delete E be bucket key) (\<lambda>_. done st))))"

definition copy_preserves_metadata_probe :: "'w env \<Rightarrow> backend \<Rightarrow> string \<Rightarrow> string \<Rightarrow> ('w, probe) io" where
  "copy_preserves_metadata_probe E be bucket pre =
     (let done = (\<lambda>st. io_return (Probe ''CopyObject preserves user metadata'' st));
          src_key = pre @ ''/copy-src''; dst_key = pre @ ''/copy-dst'';
          src_path = object_path E bucket src_key; dst_path = object_path E bucket dst_key;
          put_headers = set_header (set_header [] ''content-length'' ''4'') ''x-amz-meta-s3a-v'' ''1'' in
      io_bind (setup_put E be src_path put_headers (str_bytes ''copy'')) (\<lambda>setup.
        case setup of
          Some st \<Rightarrow> done st
        | None \<Rightarrow>
            io_bind (try_forward E be ''PUT'' dst_path '''' (set_header [] ''x-amz-copy-source'' src_path) body_empty) (\<lambda>copied.
            io_bind (case copied of
                Inr resp \<Rightarrow>
                  if is_success (br_status resp) then
                    io_bind (try_forward E be ''HEAD'' dst_path '''' [] body_empty) (\<lambda>head.
                      io_return (case head of
                          Inr h \<Rightarrow> if header_value (br_headers h) ''x-amz-meta-s3a-v'' = Some ''1'' then StatusOk
                                   else Fail ''CopyObject dropped user metadata''
                        | Inl e \<Rightarrow> Fail (''HEAD of copy failed: '' @ s3error_display E e)))
                  else io_return (Fail (''CopyObject returned '' @ en_status_text E (br_status resp)))
              | Inl e \<Rightarrow> io_return (Fail (''CopyObject failed: '' @ s3error_display E e))) (\<lambda>st.
            io_bind (delete E be bucket src_key) (\<lambda>_.
            io_bind (delete E be bucket dst_key) (\<lambda>_. done st))))))"

section \<open>Checksums\<close>

definition crc_bit :: "u32 \<Rightarrow> u32" where
  "crc_bit crc = (let mask = - (crc AND 1) in drop_bit 1 crc XOR (0xEDB88320 AND mask))"

definition crc_byte :: "u32 \<Rightarrow> u8 \<Rightarrow> u32" where
  "crc_byte crc byte = (crc_bit ^^ 8) (crc XOR ucast byte)"

definition crc32 :: "bytes \<Rightarrow> u32" where
  "crc32 data = NOT (foldl crc_byte 0xFFFFFFFF data)"

definition to_be_bytes32 :: "u32 \<Rightarrow> bytes" where
  "to_be_bytes32 w = [ucast (drop_bit 24 w), ucast (drop_bit 16 w), ucast (drop_bit 8 w), ucast w]"

definition checksum_header_probe :: "'w env \<Rightarrow> backend \<Rightarrow> string \<Rightarrow> string \<Rightarrow> ('w, probe) io" where
  "checksum_header_probe E be bucket pre =
     (let key = pre @ ''/checksum''; path = object_path E bucket key;
          body_bytes = str_bytes ''checksum me'';
          checksum = encode_text (en_codec E) (to_be_bytes32 (crc32 body_bytes));
          hs = set_header (set_header (set_header [] ''content-length'' (dec_string (length body_bytes)))
                 ''x-amz-checksum-crc32'' checksum) ''x-amz-sdk-checksum-algorithm'' ''CRC32'' in
      io_bind (try_forward E be ''PUT'' path '''' hs (body_full body_bytes)) (\<lambda>put.
        let st = (case put of
            Inr resp \<Rightarrow>
              if is_success (br_status resp) then StatusOk
              else Warn (''PUT with a checksum header returned '' @ en_status_text E (br_status resp) @ em_dash
                     @ ''a modern SDK'' @ [CHR 0x27] @ ''s default checksum-on-write may fail against this backend'')
          | Inl e \<Rightarrow> Fail (''PUT failed: '' @ s3error_display E e))
        in io_bind (delete E be bucket key) (\<lambda>_. io_return (Probe ''modern checksum header accepted'' st))))"

section \<open>Multipart\<close>

definition abort_upload :: "'w env \<Rightarrow> backend \<Rightarrow> string \<Rightarrow> string \<Rightarrow> ('w, unit) io" where
  "abort_upload E be path encoded_id =
     io_bind (try_forward E be ''DELETE'' path (''uploadId='' @ encoded_id) [] body_empty) (\<lambda>_. io_return ())"

definition has_window :: "'c list \<Rightarrow> 'c list \<Rightarrow> bool" where
  "has_window w s \<longleftrightarrow> list_ex (\<lambda>i. take (length w) (drop i s) = w) [0..<Suc (length s - length w)]"

definition complete_small_final_part ::
  "'w env \<Rightarrow> backend \<Rightarrow> string \<Rightarrow> string \<Rightarrow> (u32 \<times> string) list \<Rightarrow> ('w, status) io" where
  "complete_small_final_part E be path encoded_id etags =
     (let complete_xml = build_complete_xml etags in
      io_bind (try_forward E be ''POST'' path (''uploadId='' @ encoded_id)
                 (set_header [] ''content-length'' (dec_string (length complete_xml))) (body_full (str_bytes complete_xml))) (\<lambda>r.
        case r of
          Inl e \<Rightarrow>
            io_bind (abort_upload E be path encoded_id) (\<lambda>_.
              io_return (Fail (''CompleteMultipartUpload failed: '' @ s3error_display E e)))
        | Inr resp \<Rightarrow>
            if \<not> is_success (br_status resp) then
              io_bind (abort_upload E be path encoded_id) (\<lambda>_.
                io_return (Fail (''CompleteMultipartUpload with a small final part returned '' @ en_status_text E (br_status resp)
                  @ em_dash @ ''this backend rejects the footer tail-merge this format relies on (docs/ARCHITECTURE.md ''
                  @ [CHR 0x27] @ ''Multipart v1'' @ [CHR 0x27] @ '')'')))
            else
              (case collect_body (br_body resp) of
                 Inl e \<Rightarrow> io_return (Fail (''reading CompleteMultipartUpload body: '' @ e))
               | Inr b \<Rightarrow>
                   if has_window (str_bytes ''<Error'') b then
                     io_bind (abort_upload E be path encoded_id) (\<lambda>_.
                       io_return (Fail (''CompleteMultipartUpload returned 200 with an <Error> body'' @ em_dash
                         @ ''this backend rejects the small-final-part footer tail-merge this format relies on (docs/ARCHITECTURE.md ''
                         @ [CHR 0x27] @ ''Multipart v1'' @ [CHR 0x27] @ '')'')))
                   else io_return StatusOk)))"

text \<open>The parts, in order; a part that is not taken aborts the upload and ends the probe.\<close>

fun upload_parts ::
  "'w env \<Rightarrow> backend \<Rightarrow> string \<Rightarrow> string \<Rightarrow> (u32 \<times> nat) list \<Rightarrow> (u32 \<times> string) list \<Rightarrow> ('w, status + (u32 \<times> string) list) io" where
  "upload_parts E be path encoded_id [] etags = io_return (Inr etags)"
| "upload_parts E be path encoded_id ((number, sz) # parts) etags =
     io_bind (try_forward E be ''PUT'' path (''partNumber='' @ dec_string (unat number) @ ''&uploadId='' @ encoded_id)
                (set_header [] ''content-length'' (dec_string sz)) (body_full (replicate sz 0x22))) (\<lambda>r.
       case r of
         Inr resp \<Rightarrow>
           if is_success (br_status resp) then
             upload_parts E be path encoded_id parts (etags @ [(number, unwrap_or (header_value (br_headers resp) ''etag'') '''')])
           else
             io_bind (abort_upload E be path encoded_id) (\<lambda>_.
               io_return (Inl (Fail (''UploadPart '' @ dec_string (unat number) @ '' returned '' @ en_status_text E (br_status resp)))))
       | Inl e \<Rightarrow>
           io_bind (abort_upload E be path encoded_id) (\<lambda>_.
             io_return (Inl (Fail (''UploadPart '' @ dec_string (unat number) @ '' failed: '' @ s3error_display E e)))))"

definition FIVE_MIB :: nat where
  "FIVE_MIB = 5 * 1024 * 1024"

definition multipart_small_final_part_probe :: "'w env \<Rightarrow> backend \<Rightarrow> string \<Rightarrow> string \<Rightarrow> ('w, probe) io" where
  "multipart_small_final_part_probe E be bucket pre =
     (let done = (\<lambda>st. io_return (Probe ''multipart accepts a small final part'' st));
          key = pre @ ''/multipart''; path = object_path E bucket key in
      io_bind (try_forward E be ''POST'' path ''uploads'' [] body_empty) (\<lambda>create.
        case create of
          Inl e \<Rightarrow> done (Fail (''CreateMultipartUpload failed: '' @ s3error_display E e))
        | Inr resp \<Rightarrow>
            if \<not> is_success (br_status resp) then
              done (Fail (''CreateMultipartUpload returned '' @ en_status_text E (br_status resp)))
            else
              (case collect_body (br_body resp) of
                 Inl e \<Rightarrow> done (Fail (''reading CreateMultipartUpload body: '' @ e))
               | Inr xml \<Rightarrow>
                   (case parse_single_tag E xml ''UploadId'' of
                      None \<Rightarrow> done (Fail ''backend did not return an UploadId'')
                    | Some upload_id \<Rightarrow>
                        let encoded_id = encode_key_for_path (en_pct E) upload_id in
                        io_bind (upload_parts E be path encoded_id [(1, FIVE_MIB), (2, 1024)] []) (\<lambda>up.
                          case up of
                            Inl st \<Rightarrow> done st
                          | Inr etags \<Rightarrow>
                              io_bind (complete_small_final_part E be path encoded_id etags) (\<lambda>st.
                              io_bind (delete E be bucket key) (\<lambda>_. done st)))))))"

section \<open>Lifecycle rules\<close>

record rule_scan =
  rs_tag :: string
  rs_in_rule :: bool
  rs_enabled :: bool
  rs_has_abort :: bool
  rs_narrowed :: bool

definition RuleScan_default :: rule_scan where
  "RuleScan_default = \<lparr> rs_tag = '''', rs_in_rule = False, rs_enabled = False, rs_has_abort = False, rs_narrowed = False \<rparr>"

definition NARROWING_ELEMENTS :: "string list" where
  "NARROWING_ELEMENTS = [''Tag'', ''And'', ''ObjectSizeGreaterThan'', ''ObjectSizeLessThan'']"

definition scan_start :: "string \<Rightarrow> rule_scan \<Rightarrow> rule_scan" where
  "scan_start name sc =
     (let sc = sc\<lparr> rs_tag := name \<rparr> in
      if name = ''Rule'' then sc\<lparr> rs_in_rule := True, rs_enabled := False, rs_has_abort := False, rs_narrowed := False \<rparr>
      else if rs_in_rule sc \<and> name = ''AbortIncompleteMultipartUpload'' then sc\<lparr> rs_has_abort := True \<rparr>
      else if rs_in_rule sc \<and> name \<in> set NARROWING_ELEMENTS then sc\<lparr> rs_narrowed := True \<rparr>
      else sc)"

definition scan_text :: "string \<Rightarrow> rule_scan \<Rightarrow> rule_scan" where
  "scan_text t sc =
     (if \<not> rs_in_rule sc then sc
      else if rs_tag sc = ''Status'' \<and> trim t = ''Enabled'' then sc\<lparr> rs_enabled := True \<rparr>
      else if rs_tag sc = ''Prefix'' \<and> t \<noteq> '''' then sc\<lparr> rs_narrowed := True \<rparr>
      else sc)"

definition scan_end :: "string \<Rightarrow> rule_scan \<Rightarrow> bool \<times> rule_scan" where
  "scan_end name sc =
     (if name \<noteq> ''Rule'' then (False, sc)
      else (rs_enabled sc \<and> rs_has_abort sc \<and> \<not> rs_narrowed sc, sc\<lparr> rs_in_rule := False \<rparr>))"

text \<open>The events end at the end of the file or at an error, both with the answer no.\<close>

fun scan_loop :: "xml_event list \<Rightarrow> rule_scan \<Rightarrow> bool" where
  "scan_loop [] sc = False"
| "scan_loop (ev # evs) sc =
     (case ev of
        XStart name \<Rightarrow> scan_loop evs (scan_start name sc)
      | XText t \<Rightarrow> scan_loop evs (scan_text t sc)
      | XEnd name \<Rightarrow> (let (found, sc) = scan_end name sc in found \<or> scan_loop evs sc)
      | XOther \<Rightarrow> scan_loop evs sc)"

definition has_enabled_abort_rule :: "'w env \<Rightarrow> bytes \<Rightarrow> bool" where
  "has_enabled_abort_rule E body = scan_loop (fst (en_xml_events E (decode_utf8_lossy (en_pct E) body))) RuleScan_default"

definition classify_lifecycle :: "'w env \<Rightarrow> nat \<Rightarrow> string option \<Rightarrow> bytes \<Rightarrow> status" where
  "classify_lifecycle E st server body =
     (if (case server of Some s \<Rightarrow> has_window ''minio'' (to_ascii_lowercase s) | None \<Rightarrow> False) then StatusOk
      else if st = 200 then
        (if has_enabled_abort_rule E body then StatusOk
         else Warn (''no lifecycle rule aborts incomplete multipart uploads for the whole bucket'' @ em_dash
                @ ''orphaned multipart parts stay billed until one does''))
      else if st = 404 then
        Warn (''no lifecycle configuration is set on the bucket'' @ em_dash
          @ ''orphaned multipart parts stay billed until a rule aborts incomplete multipart uploads'')
      else if st = 403 then
        Warn (''GetBucketLifecycleConfiguration returned 403'' @ em_dash
          @ ''the credential needs the s3:GetLifecycleConfiguration permission to read the rule'')
      else Warn (''cannot read the lifecycle configuration: HTTP '' @ dec_string st))"

definition lifecycle_abort_rule_probe :: "'w env \<Rightarrow> backend \<Rightarrow> string \<Rightarrow> ('w, probe) io" where
  "lifecycle_abort_rule_probe E be bucket =
     (let done = (\<lambda>st. io_return (Probe ''lifecycle rule aborts incomplete multipart uploads'' st)) in
      io_bind (try_forward E be ''GET'' (''/'' @ bucket) ''lifecycle'' [] body_empty) (\<lambda>r.
        case r of
          Inl e \<Rightarrow> done (Warn (''could not read the lifecycle configuration: '' @ s3error_display E e))
        | Inr resp \<Rightarrow>
            done (classify_lifecycle E (br_status resp) (header_value (br_headers resp) ''server'')
              (case collect_body (br_body resp) of Inr b \<Rightarrow> b | Inl _ \<Rightarrow> []))))"

section \<open>The run\<close>

text \<open>\<open>run_probes\<close> is the order in which the vector of probes is evaluated.\<close>

fun run_probes :: "('w, probe) io list \<Rightarrow> ('w, probe list) io" where
  "run_probes [] = io_return []"
| "run_probes (p # ps) = io_bind p (\<lambda>a. io_bind (run_probes ps) (\<lambda>as. io_return (a # as)))"

definition check :: "'w env \<Rightarrow> (string \<Rightarrow> system_time option) \<Rightarrow> backend \<Rightarrow> string \<Rightarrow> ('w, probe list) io" where
  "check E parse_http_date be bucket =
     io_bind (probe_nonce E) (\<lambda>nonce.
       let pre = ''s3a-check-'' @ hex_lower nonce in
       run_probes
         [io_return (tls_probe be),
          reachable_and_auth_probe E parse_http_date be bucket,
          round_trip_probe E be bucket pre,
          metadata_survives_probe E be bucket pre,
          metadata_headroom_probe E be bucket pre,
          ranged_get_probe E be bucket pre,
          copy_preserves_metadata_probe E be bucket pre,
          checksum_header_probe E be bucket pre,
          multipart_small_final_part_probe E be bucket pre,
          lifecycle_abort_rule_probe E be bucket])"

end
