(* ===== verification/CheckProps.thy ===== *)
theory CheckProps
  imports Check RewrapRun
begin

unbundle bit_operations_syntax

text \<open>
  Properties of \<open>s3armor check\<close>: what a run writes to the bucket it removes again, whatever the backend answers; a
  lifecycle rule is recognised exactly when the text of the configuration has one; the check sequence of the CRC-32.
\<close>

section \<open>A record of the requests\<close>

text \<open>An environment that also records, for every request sent, its method, its address without the query, and whether
  the backend acknowledged it.\<close>

type_synonym entry = "string \<times> string \<times> bool"

fun acknowledged :: "outcome \<Rightarrow> bool" where
  "acknowledged (Answered resp) = is_success (br_status resp)"
| "acknowledged _ = False"

definition without_query :: "string \<Rightarrow> string" where
  "without_query uri = takeWhile (\<lambda>c. c \<noteq> CHR ''?'') uri"

definition logged :: "'w env \<Rightarrow> ('w \<times> entry list) env" where
  "logged E = \<lparr>
     en_send = (\<lambda>(w, l) rq. let (out, w') = en_send E w rq in
                  (out, (w', l @ [(rq_method rq, without_query (rq_uri rq), acknowledged out)]))),
     en_system_now = (\<lambda>(w, l). let (t, w') = en_system_now E w in (t, (w', l))),
     en_instant_now = (\<lambda>(w, l). let (t, w') = en_instant_now E w in (t, (w', l))),
     en_crypto = en_crypto E, en_codec = en_codec E, en_pct = en_pct E, en_md5 = en_md5 E, en_parse_uri = en_parse_uri E,
     en_name_error = en_name_error E, en_value_error = en_value_error E, en_request_error = en_request_error E,
     en_status_text = en_status_text E, en_lru_evicts = (\<lambda>(w, l). en_lru_evicts E w),
     en_xml_events = en_xml_events E, en_xml_unescape = en_xml_unescape E \<rparr>"

text \<open>The objects written and not deleted since.\<close>

definition outstanding_step :: "string set \<Rightarrow> entry \<Rightarrow> string set" where
  "outstanding_step X e =
     (case e of (meth, uri, fine) \<Rightarrow> if meth = ''PUT'' \<and> fine then insert uri X else if meth = ''DELETE'' then X - {uri} else X)"

definition outstanding :: "entry list \<Rightarrow> string set" where
  "outstanding l = foldl outstanding_step {} l"

lemma outstanding_snoc [simp]: "outstanding (l @ [e]) = outstanding_step (outstanding l) e"
  by (simp add: outstanding_def)

text \<open>The address of a path at a backend, and that a DELETE to it can be built: the \<open>http\<close> crate takes the header
  values the signer produces and the address.\<close>

definition address_of :: "'w env \<Rightarrow> backend \<Rightarrow> string \<Rightarrow> string" where
  "address_of E be path =
     (case en_parse_uri E (be_endpoint be) of None \<Rightarrow> '''' | Some u \<Rightarrow>
        (case u_authority u of None \<Rightarrow> '''' | Some a \<Rightarrow> without_query (target_uri u a path '''')))"

definition deletes_build :: "'w env \<Rightarrow> backend \<Rightarrow> bool" where
  "deletes_build E be \<longleftrightarrow>
     (\<exists>u a. en_parse_uri E (be_endpoint be) = Some u \<and> u_authority u = Some a \<and>
        (\<forall>now path q. header_errors E (sign_for_backend E be now ''DELETE'' path q (dated_headers a now [])) = None \<and>
           en_request_error E ''DELETE'' (target_uri u a path q) = None))"

lemma without_query_target: "without_query (target_uri u a path q) = without_query (target_uri u a path '''')"
proof -
  have "takeWhile P (xs @ (if c then [] else y # ys)) = takeWhile P xs" if "\<not> P y" for P and xs ys :: string and c y
    using that by (induction xs) auto
  from this [of "\<lambda>c. c \<noteq> CHR ''?''" "CHR ''?''" "(case u_scheme u of Some s \<Rightarrow> s | None \<Rightarrow> ''http'') @ ''://'' @ a @ path" "q = ''''" q]
  show ?thesis by (cases "q = ''''") (simp_all add: without_query_def target_uri_def)
qed

section \<open>Triples\<close>

text \<open>\<open>tidy own X m Y\<close>: started with at most the objects \<open>X\<close> outstanding, \<open>m\<close> returns some \<open>a\<close> with at most \<open>Y a\<close>
  outstanding, and everything it wrote is \<open>own\<close>.\<close>

definition log_ok :: "(string \<Rightarrow> bool) \<Rightarrow> string set \<Rightarrow> ('w \<times> entry list) io_state \<Rightarrow> bool" where
  "log_ok own X s \<longleftrightarrow> outstanding (snd (io_world s)) \<subseteq> X \<and>
     (\<forall>(meth, uri, fine) \<in> set (snd (io_world s)). meth \<in> {''PUT'', ''POST'', ''DELETE''} \<longrightarrow> own uri)"

definition tidy :: "(string \<Rightarrow> bool) \<Rightarrow> string set \<Rightarrow> ('w \<times> entry list, 'a) io \<Rightarrow> ('a \<Rightarrow> string set) \<Rightarrow> bool" where
  "tidy own X m Y \<longleftrightarrow> (\<forall>s. log_ok own X s \<longrightarrow> (\<exists>a s'. m s = (Ret a, s') \<and> log_ok own (Y a) s'))"

named_theorems tidy_rules

lemma log_ok_mono: "log_ok own X s \<Longrightarrow> X \<subseteq> Y \<Longrightarrow> log_ok own Y s"
  by (auto simp: log_ok_def)

lemma tidy_return: "X \<subseteq> Y a \<Longrightarrow> tidy own X (io_return a) Y"
  by (auto simp: tidy_def io_return_def intro: log_ok_mono)

lemma tidyD: "tidy own X m Y \<Longrightarrow> log_ok own X s \<Longrightarrow> \<exists>a s'. m s = (Ret a, s') \<and> log_ok own (Y a) s'"
  by (simp add: tidy_def)

lemma tidy_bind:
  assumes "tidy own X m Z" "\<And>a. tidy own (Z a) (f a) Y"
  shows "tidy own X (io_bind m f) Y"
  unfolding tidy_def
proof (intro allI impI)
  fix s :: "('a \<times> entry list) io_state" assume l: "log_ok own X s"
  then obtain b t where m: "m s = (Ret b, t)" "log_ok own (Z b) t" using tidyD [OF assms(1)] by blast
  then obtain c u where "f b t = (Ret c, u)" "log_ok own (Y c) u" using tidyD [OF assms(2)] by blast
  with m show "\<exists>c u. io_bind m f s = (Ret c, u) \<and> log_ok own (Y c) u" by (simp add: io_bind_def)
qed

lemma tidy_now: "tidy own X (io_system_now (logged E)) (\<lambda>_. X)"
  by (auto simp: tidy_def io_system_now_def logged_def log_ok_def Let_def split: prod.splits)

text \<open>What a request adds to the record: nothing, or one entry with the outcome it reports.\<close>

definition acked :: "s3error + backend_response \<Rightarrow> bool" where
  "acked r = (case r of Inr resp \<Rightarrow> is_success (br_status resp) | Inl _ \<Rightarrow> False)"

lemma send_logged:
  "\<exists>r s'. attempt (send_request (logged E) rq) s = (Ret r, s') \<and>
     snd (io_world s') = snd (io_world s) @ [(rq_method rq, without_query (rq_uri rq), acked r)]"
  by (auto simp: attempt_def send_request_def logged_def acked_def Let_def split: prod.splits outcome.splits option.splits)

lemma logged_simps [simp]:
  "en_parse_uri (logged E) = en_parse_uri E" "en_request_error (logged E) = en_request_error E"
  "en_pct (logged E) = en_pct E" "en_crypto (logged E) = en_crypto E" "en_codec (logged E) = en_codec E"
  by (simp_all add: logged_def)

lemma header_errors_logged [simp]: "header_errors (logged E) hs = header_errors E hs"
  by (induction hs) (auto simp: logged_def split: option.splits)

lemma sign_logged [simp]: "sign_for_backend (logged E) be now meth path q hs = sign_for_backend E be now meth path q hs"
  by (simp add: sign_for_backend_def)

lemma address_of_logged [simp]: "address_of (logged E) be path = address_of E be path"
  by (simp add: address_of_def)

lemma object_path_logged [simp]: "object_path (logged E) bucket key = object_path E bucket key"
  by (simp add: object_path_def)

lemma try_forward_logged:
  "\<exists>r s'. try_forward (logged E) be meth path q hs body s = (Ret r, s') \<and>
     (snd (io_world s') = snd (io_world s) @ [(meth, address_of E be path, acked r)] \<or>
      snd (io_world s') = snd (io_world s) \<and> \<not> acked r \<and> \<not> (deletes_build E be \<and> meth = ''DELETE'' \<and> hs = []))"
proof (cases "\<exists>u a. en_parse_uri E (be_endpoint be) = Some u \<and> u_authority u = Some a")
  case False
  then show ?thesis
    by (cases "en_parse_uri E (be_endpoint be)")
      (auto simp: try_forward_def forward_def attempt_def io_fail_def acked_def deletes_build_def split: option.splits)
next
  case True
  then obtain u a where u: "en_parse_uri E (be_endpoint be) = Some u" "u_authority u = Some a" by blast
  obtain now w where "en_system_now E (fst (io_world s)) = (now, w)" by fastforce
  then have now: "en_system_now (logged E) (io_world s) = (now, w, snd (io_world s))"
    by (cases "io_world s") (simp add: logged_def)
  define q' where "q' = filter_query (en_pct E) q PRESIGNED_QUERY_PARAMS"
  define built where "built = build_request (logged E) meth (target_uri u a path q')
    (sign_for_backend E be now meth path q' (dated_headers a now hs)) body"
  let ?s = "s\<lparr> io_world := (w, snd (io_world s)) \<rparr>"
  have run: "try_forward (logged E) be meth path q hs body s = attempt (io_bind (io_lift built) (send_request (logged E))) ?s"
    by (simp add: try_forward_def forward_def attempt_def u io_bind_def [of "io_system_now _"] io_system_now_def now q'_def built_def Let_def)
  show ?thesis
  proof (cases built)
    case (Inl e)
    then have "\<not> (deletes_build E be \<and> meth = ''DELETE'' \<and> hs = [])"
      using u by (auto simp: built_def build_request_def deletes_build_def split: option.splits)
    with Inl show ?thesis by (simp add: run attempt_def io_bind_def io_lift_def io_fail_def acked_def)
  next
    case (Inr rq)
    then have rq: "rq_method rq = meth" "without_query (rq_uri rq) = address_of E be path"
      using without_query_target [of u a path q'] u
      by (auto simp: built_def build_request_def address_of_def split: option.splits)
    have "attempt (io_bind (io_lift built) (send_request (logged E))) ?s = attempt (send_request (logged E) rq) ?s"
      by (simp add: Inr attempt_def io_bind_def io_lift_def io_return_def)
    with send_logged [of E rq ?s] rq run show ?thesis by auto
  qed
qed

lemma tidy_try:
  assumes "meth \<in> {''PUT'', ''POST'', ''DELETE''} \<Longrightarrow> own (address_of E be path)"
    and "\<And>r. outstanding_step X (meth, address_of E be path, acked r) \<subseteq> Y r"
    and "\<And>r. \<not> acked r \<Longrightarrow> \<not> (deletes_build E be \<and> meth = ''DELETE'' \<and> hs = []) \<Longrightarrow> X \<subseteq> Y r"
  shows "tidy own X (try_forward (logged E) be meth path q hs body) Y"
  unfolding tidy_def
proof (intro allI impI)
  fix s :: "('a \<times> entry list) io_state" assume l: "log_ok own X s"
  obtain r s' where r: "try_forward (logged E) be meth path q hs body s = (Ret r, s')"
    and w: "snd (io_world s') = snd (io_world s) @ [(meth, address_of E be path, acked r)] \<or>
      snd (io_world s') = snd (io_world s) \<and> \<not> acked r \<and> \<not> (deletes_build E be \<and> meth = ''DELETE'' \<and> hs = [])"
    using try_forward_logged by metis
  have "log_ok own (Y r) s'"
    using w
  proof
    assume e: "snd (io_world s') = snd (io_world s) @ [(meth, address_of E be path, acked r)]"
    have "outstanding (snd (io_world s')) \<subseteq> outstanding_step X (meth, address_of E be path, acked r)"
      using l by (auto simp: e log_ok_def outstanding_step_def)
    with assms(1) assms(2) [of r] l show ?thesis by (auto simp: log_ok_def e)
  next
    assume "snd (io_world s') = snd (io_world s) \<and> \<not> acked r \<and> \<not> (deletes_build E be \<and> meth = ''DELETE'' \<and> hs = [])"
    with assms(3) [of r] l show ?thesis by (auto simp: log_ok_def)
  qed
  with r show "\<exists>r s'. try_forward (logged E) be meth path q hs body s = (Ret r, s') \<and> log_ok own (Y r) s'" by blast
qed

lemma tidy_read: "meth \<in> {''GET'', ''HEAD''} \<Longrightarrow> tidy own X (try_forward (logged E) be meth path q hs body) (\<lambda>_. X)"
  by (rule tidy_try) (auto simp: outstanding_step_def)

lemma tidy_post: "own (address_of E be path) \<Longrightarrow> tidy own X (try_forward (logged E) be ''POST'' path q hs body) (\<lambda>_. X)"
  by (rule tidy_try) (auto simp: outstanding_step_def)

lemma tidy_put:
  "own (address_of E be path) \<Longrightarrow>
   tidy own X (try_forward (logged E) be ''PUT'' path q hs body) (\<lambda>r. if acked r then insert (address_of E be path) X else X)"
  by (rule tidy_try) (auto simp: outstanding_step_def)

lemma tidy_delete:
  "deletes_build E be \<Longrightarrow> own (address_of E be path) \<Longrightarrow>
   tidy own X (try_forward (logged E) be ''DELETE'' path q [] body) (\<lambda>_. X - {address_of E be path})"
  by (rule tidy_try) (auto simp: outstanding_step_def)

lemma outstanding_put:
  "uri \<in> outstanding (a @ (''PUT'', uri, True) # b) \<or> (\<exists>fine. (''DELETE'', uri, fine) \<in> set b)"
proof (induction b rule: rev_induct)
  case (snoc e b)
  then show ?case
    by (cases e) (use outstanding_snoc [of "a @ (''PUT'', uri, True) # b" e] in \<open>auto simp: outstanding_step_def\<close>)
qed (simp add: outstanding_step_def)

section \<open>The probes\<close>

text \<open>\<open>own\<close> holds of the addresses under the run's prefix.\<close>

definition own_address :: "'w env \<Rightarrow> backend \<Rightarrow> string \<Rightarrow> string \<Rightarrow> string \<Rightarrow> bool" where
  "own_address E be bucket pre uri \<longleftrightarrow> (\<exists>k. uri = address_of E be (object_path E bucket (pre @ ''/'' @ k)))"

lemma own_addressI [simp]: "own_address E be bucket pre (address_of E be (object_path E bucket (pre @ CHR ''/'' # k)))"
  unfolding own_address_def by (rule exI [of _ k]) simp

lemma tidy_delete_object:
  "deletes_build E be \<Longrightarrow> own (address_of E be (object_path E bucket key)) \<Longrightarrow>
   X - {address_of E be (object_path E bucket key)} \<subseteq> Y () \<Longrightarrow> tidy own X (delete (logged E) be bucket key) Y"
  unfolding delete_def object_path_logged by (rule tidy_bind [OF tidy_delete]) (auto intro: tidy_return)

lemma tidy_abort:
  "deletes_build E be \<Longrightarrow> own (address_of E be path) \<Longrightarrow> X - {address_of E be path} \<subseteq> Y () \<Longrightarrow>
   tidy own X (abort_upload (logged E) be path i) Y"
  unfolding abort_upload_def by (rule tidy_bind [OF tidy_delete]) (auto intro: tidy_return)

lemma tidy_setup:
  "own (address_of E be path) \<Longrightarrow>
   tidy own X (setup_put (logged E) be path hs data) (\<lambda>r. if r = None then insert (address_of E be path) X else X)"
  unfolding setup_put_def
  by (rule tidy_bind [OF tidy_put]) (auto simp: acked_def intro!: tidy_return split: sum.splits)

lemmas tidy_steps = tidy_return tidy_now tidy_read tidy_post tidy_put tidy_setup

lemma tidy_reachable: "tidy own {} (reachable_and_auth_probe (logged E) phd be bucket) (\<lambda>_. {})"
  unfolding reachable_and_auth_probe_def Let_def
  by (rule tidy_bind [OF tidy_read])
    (auto intro!: tidy_return tidy_bind [OF tidy_now] split: sum.splits option.splits)

lemma tidy_round_trip:
  "deletes_build E be \<Longrightarrow> tidy (own_address E be bucket pre) {} (round_trip_probe (logged E) be bucket pre) (\<lambda>_. {})"
  unfolding round_trip_probe_def Let_def object_path_logged
  by (rule tidy_bind [OF tidy_put])
    (auto simp: acked_def intro!: tidy_return tidy_bind [OF tidy_read] tidy_bind [OF tidy_delete_object [where Y = "\<lambda>_. {}"]]
      split: sum.splits)

lemma tidy_metadata:
  "deletes_build E be \<Longrightarrow> tidy (own_address E be bucket pre) {} (metadata_survives_probe (logged E) be bucket pre) (\<lambda>_. {})"
  unfolding metadata_survives_probe_def Let_def object_path_logged
  by (rule tidy_bind [OF tidy_put], simp,
      rule tidy_bind [where Z = "\<lambda>_. {address_of E be (object_path E bucket (pre @ ''/metadata''))}"])
    (auto simp: acked_def intro!: tidy_return tidy_bind [OF tidy_read] tidy_bind [OF tidy_delete_object [where Y = "\<lambda>_. {}"]]
      split: sum.splits)

lemma tidy_headroom:
  "deletes_build E be \<Longrightarrow> tidy (own_address E be bucket pre) {} (metadata_headroom_probe (logged E) be bucket pre) (\<lambda>_. {})"
  unfolding metadata_headroom_probe_def Let_def object_path_logged
  by (rule tidy_bind [OF tidy_put])
    (auto simp: acked_def intro!: tidy_return tidy_bind [OF tidy_delete_object [where Y = "\<lambda>_. {}"]] split: sum.splits)

lemma tidy_ranged:
  "deletes_build E be \<Longrightarrow> tidy (own_address E be bucket pre) {} (ranged_get_probe (logged E) be bucket pre) (\<lambda>_. {})"
  unfolding ranged_get_probe_def Let_def object_path_logged
  by (rule tidy_bind [OF tidy_setup])
    (auto intro!: tidy_return tidy_bind [OF tidy_read] tidy_bind [OF tidy_delete_object [where Y = "\<lambda>_. {}"]]
      split: sum.splits option.splits)

lemma tidy_copy:
  assumes "deletes_build E be"
  shows "tidy (own_address E be bucket pre) {} (copy_preserves_metadata_probe (logged E) be bucket pre) (\<lambda>_. {})"
proof -
  let ?src = "address_of E be (object_path E bucket (pre @ ''/copy-src''))"
  let ?dst = "address_of E be (object_path E bucket (pre @ ''/copy-dst''))"
  have del: "tidy (own_address E be bucket pre) {?src, ?dst} (io_bind (delete (logged E) be bucket (pre @ ''/copy-src'')) (\<lambda>_.
      io_bind (delete (logged E) be bucket (pre @ ''/copy-dst'')) (\<lambda>_. io_return p))) (\<lambda>_. {})" for p :: probe
    using assms
    by (intro tidy_bind [OF tidy_delete_object [where Y = "\<lambda>_. {?dst}"]] tidy_bind [OF tidy_delete_object [where Y = "\<lambda>_. {}"]] tidy_return)
      auto
  show ?thesis
    unfolding copy_preserves_metadata_probe_def Let_def object_path_logged
  proof (rule tidy_bind [OF tidy_setup], goal_cases)
    case (2 r)
    show ?case
    proof (cases r)
      case None
      show ?thesis
        unfolding None option.case
        by (rule tidy_bind [OF tidy_put], simp, rule tidy_bind [OF _ del])
          (auto simp: acked_def intro!: tidy_return tidy_bind [OF tidy_read] split: sum.splits)
    qed (simp add: tidy_return)
  qed simp
qed

lemma tidy_checksum:
  "deletes_build E be \<Longrightarrow> tidy (own_address E be bucket pre) {} (checksum_header_probe (logged E) be bucket pre) (\<lambda>_. {})"
  unfolding checksum_header_probe_def Let_def object_path_logged
  by (rule tidy_bind [OF tidy_put])
    (auto simp: acked_def intro!: tidy_return tidy_bind [OF tidy_delete_object [where Y = "\<lambda>_. {}"]] split: sum.splits)

lemma tidy_upload_parts:
  assumes "deletes_build E be" "own (address_of E be path)"
  shows "X \<subseteq> {address_of E be path} \<Longrightarrow>
    tidy own X (upload_parts (logged E) be path i parts etags) (\<lambda>r. case r of Inl _ \<Rightarrow> {} | Inr _ \<Rightarrow> {address_of E be path})"
proof (induction parts arbitrary: X etags)
  case Nil
  then show ?case by (simp add: tidy_return)
next
  case (Cons part parts)
  obtain number sz where part: "part = (number, sz)" by (cases part)
  show ?case
    unfolding part upload_parts.simps
    using Cons assms
    by (intro tidy_bind [OF tidy_put])
      (auto simp: acked_def intro!: tidy_return tidy_bind [OF tidy_abort [where Y = "\<lambda>_. {}"]] split: sum.splits)
qed

lemma tidy_complete:
  assumes "deletes_build E be" "own (address_of E be path)"
  shows "tidy own {address_of E be path} (complete_small_final_part (logged E) be path i etags) (\<lambda>_. {address_of E be path})"
  unfolding complete_small_final_part_def Let_def
  using assms
  by (intro tidy_bind [OF tidy_post])
    (auto intro!: tidy_return tidy_bind [OF tidy_abort [where Y = "\<lambda>_. {}"]] split: sum.splits)

lemma tidy_multipart:
  assumes "deletes_build E be"
  shows "tidy (own_address E be bucket pre) {} (multipart_small_final_part_probe (logged E) be bucket pre) (\<lambda>_. {})"
  unfolding multipart_small_final_part_probe_def Let_def object_path_logged
  using assms
  by (intro tidy_bind [OF tidy_post])
    (auto simp del: upload_parts.simps intro!: tidy_return tidy_bind [OF tidy_upload_parts] tidy_bind [OF tidy_complete]
        tidy_bind [OF tidy_delete_object [where Y = "\<lambda>_. {}"]] split: sum.splits option.splits)

lemma tidy_lifecycle: "tidy own {} (lifecycle_abort_rule_probe (logged E) be bucket) (\<lambda>_. {})"
  unfolding lifecycle_abort_rule_probe_def Let_def
  by (rule tidy_bind [OF tidy_read]) (auto intro!: tidy_return split: sum.splits)

lemma tidy_run_probes:
  "list_all (\<lambda>p. tidy own {} p (\<lambda>_. {})) ps \<Longrightarrow> tidy own {} (run_probes ps) (\<lambda>_. {})"
  by (induction ps) (auto intro!: tidy_return intro: tidy_bind)



section \<open>Lifecycle rules\<close>

text \<open>What the scan looks for: a rule of the configuration, from its start to its end, that is enabled, has the abort
  element, and does not narrow itself to part of the bucket. A text belongs to the element opened last before it.\<close>

fun latest_tag :: "string \<Rightarrow> xml_event list \<Rightarrow> string" where
  "latest_tag tag [] = tag"
| "latest_tag tag (XStart name # evs) = latest_tag name evs"
| "latest_tag tag (_ # evs) = latest_tag tag evs"

definition has_text :: "string \<Rightarrow> (string \<Rightarrow> bool) \<Rightarrow> string \<Rightarrow> xml_event list \<Rightarrow> bool" where
  "has_text tag P el evs \<longleftrightarrow> (\<exists>a t b. evs = a @ XText t # b \<and> latest_tag tag a = el \<and> P t)"

definition rule_body :: "xml_event list \<Rightarrow> bool" where
  "rule_body evs \<longleftrightarrow> XStart ''Rule'' \<notin> set evs \<and> XEnd ''Rule'' \<notin> set evs"

definition narrows :: "string \<Rightarrow> xml_event list \<Rightarrow> bool" where
  "narrows tag evs \<longleftrightarrow> (\<exists>n \<in> set NARROWING_ELEMENTS. XStart n \<in> set evs) \<or> has_text tag (\<lambda>t. t \<noteq> '''') ''Prefix'' evs"

definition aborts_whole_bucket :: "xml_event list \<Rightarrow> bool" where
  "aborts_whole_bucket evs \<longleftrightarrow> has_text ''Rule'' (\<lambda>t. trim t = ''Enabled'') ''Status'' evs
     \<and> XStart ''AbortIncompleteMultipartUpload'' \<in> set evs \<and> \<not> narrows ''Rule'' evs"

lemma text_split_Cons:
  "(\<exists>a t b. ev # evs = a @ XText t # b \<and> Q a t) \<longleftrightarrow>
     (\<exists>t. ev = XText t \<and> Q [] t) \<or> (\<exists>a t b. evs = a @ XText t # b \<and> Q (ev # a) t)" (is "?l \<longleftrightarrow> ?r")
proof
  assume ?l
  then obtain a t b where "ev # evs = a @ XText t # b" "Q a t" by blast
  then show ?r by (cases a) auto
next
  assume ?r
  then consider t where "ev # evs = [] @ XText t # evs" "Q [] t"
    | a t b where "ev # evs = (ev # a) @ XText t # b" "Q (ev # a) t" by auto
  then show ?l by cases blast+
qed

lemma has_text_Cons:
  "has_text tag P el (ev # evs) \<longleftrightarrow>
     (case ev of XStart name \<Rightarrow> has_text name P el evs
      | XText t \<Rightarrow> (tag = el \<and> P t) \<or> has_text tag P el evs
      | _ \<Rightarrow> has_text tag P el evs)"
  unfolding has_text_def text_split_Cons by (cases ev) simp_all

lemma has_text_Nil [simp]: "\<not> has_text tag P el []"
  by (simp add: has_text_def)

lemma scan_elements [simp]: "''Rule'' \<noteq> ''AbortIncompleteMultipartUpload''" "''AbortIncompleteMultipartUpload'' \<notin> set NARROWING_ELEMENTS"
  by (simp_all add: NARROWING_ELEMENTS_def)

text \<open>The scan inside a rule, and between rules.\<close>

definition settled :: "rule_scan \<Rightarrow> bool" where
  "settled sc \<longleftrightarrow> \<not> (rs_enabled sc \<and> rs_has_abort sc \<and> \<not> rs_narrowed sc)"

definition closes_good :: "rule_scan \<Rightarrow> xml_event list \<Rightarrow> bool" where
  "closes_good sc body \<longleftrightarrow> (rs_enabled sc \<or> has_text (rs_tag sc) (\<lambda>t. trim t = ''Enabled'') ''Status'' body)
     \<and> (rs_has_abort sc \<or> XStart ''AbortIncompleteMultipartUpload'' \<in> set body)
     \<and> \<not> (rs_narrowed sc \<or> narrows (rs_tag sc) body)"

lemma closes_good_Cons:
  "rs_in_rule sc \<Longrightarrow> ev \<noteq> XStart ''Rule'' \<Longrightarrow> ev \<noteq> XEnd ''Rule'' \<Longrightarrow>
   closes_good sc (ev # body) \<longleftrightarrow>
     closes_good (case ev of XStart name \<Rightarrow> scan_start name sc | XText t \<Rightarrow> scan_text t sc | _ \<Rightarrow> sc) body"
  by (cases ev) (auto simp: closes_good_def has_text_Cons narrows_def scan_start_def scan_text_def Let_def)

definition good_rule :: "xml_event list \<Rightarrow> bool" where
  "good_rule evs \<longleftrightarrow>
     (\<exists>a body b. evs = a @ XStart ''Rule'' # body @ XEnd ''Rule'' # b \<and> rule_body body \<and> aborts_whole_bucket body)"

definition good_rest :: "rule_scan \<Rightarrow> xml_event list \<Rightarrow> bool" where
  "good_rest sc evs \<longleftrightarrow> (\<exists>body b. evs = body @ XEnd ''Rule'' # b \<and> rule_body body \<and> closes_good sc body)"

lemma closes_good_start [simp]: "closes_good (scan_start ''Rule'' sc) body \<longleftrightarrow> aborts_whole_bucket body"
  by (simp add: closes_good_def scan_start_def aborts_whole_bucket_def)

lemma good_rule_Cons:
  "good_rule (ev # evs) \<longleftrightarrow> (ev = XStart ''Rule'' \<and> good_rest (scan_start ''Rule'' sc) evs) \<or> good_rule evs"
proof
  assume "good_rule (ev # evs)"
  then obtain a body b where g: "ev # evs = a @ XStart ''Rule'' # body @ XEnd ''Rule'' # b" "rule_body body" "aborts_whole_bucket body"
    unfolding good_rule_def by blast
  then show "(ev = XStart ''Rule'' \<and> good_rest (scan_start ''Rule'' sc) evs) \<or> good_rule evs"
  proof (cases a)
    case Nil
    with g have "ev = XStart ''Rule'' \<and> evs = body @ XEnd ''Rule'' # b" by simp
    with g(2,3) show ?thesis unfolding good_rest_def closes_good_start by blast
  next
    case (Cons x a')
    with g have "evs = a' @ XStart ''Rule'' # body @ XEnd ''Rule'' # b" by simp
    with g(2,3) show ?thesis unfolding good_rule_def by blast
  qed
next
  assume "(ev = XStart ''Rule'' \<and> good_rest (scan_start ''Rule'' sc) evs) \<or> good_rule evs"
  then consider body b where "ev # evs = [] @ XStart ''Rule'' # body @ XEnd ''Rule'' # b" "rule_body body" "aborts_whole_bucket body"
    | a body b where "ev # evs = (ev # a) @ XStart ''Rule'' # body @ XEnd ''Rule'' # b" "rule_body body" "aborts_whole_bucket body"
    unfolding good_rule_def good_rest_def by auto
  then show "good_rule (ev # evs)" unfolding good_rule_def by cases blast+
qed

lemma good_rest_Cons:
  assumes "rs_in_rule sc"
  shows "good_rest sc (ev # evs) \<longleftrightarrow>
    (if ev = XEnd ''Rule'' then closes_good sc []
     else ev \<noteq> XStart ''Rule'' \<and>
       good_rest (case ev of XStart name \<Rightarrow> scan_start name sc | XText t \<Rightarrow> scan_text t sc | _ \<Rightarrow> sc) evs)"
    (is "_ \<longleftrightarrow> ?r")
proof
  assume "good_rest sc (ev # evs)"
  then obtain body b where g: "ev # evs = body @ XEnd ''Rule'' # b" "rule_body body" "closes_good sc body"
    unfolding good_rest_def by blast
  then show ?r
    using closes_good_Cons [OF assms] by (cases body) (auto simp: good_rest_def rule_body_def)
next
  assume r: ?r
  show "good_rest sc (ev # evs)"
  proof (cases "ev = XEnd ''Rule''")
    case True
    with r have "ev # evs = [] @ XEnd ''Rule'' # evs \<and> rule_body [] \<and> closes_good sc []" by (simp add: rule_body_def)
    then show ?thesis unfolding good_rest_def by blast
  next
    case False
    with r obtain body b where b: "evs = body @ XEnd ''Rule'' # b" "rule_body body" "ev \<noteq> XStart ''Rule''"
      "closes_good (case ev of XStart name \<Rightarrow> scan_start name sc | XText t \<Rightarrow> scan_text t sc | _ \<Rightarrow> sc) body"
      unfolding good_rest_def by auto
    with False have "ev # evs = (ev # body) @ XEnd ''Rule'' # b \<and> rule_body (ev # body) \<and> closes_good sc (ev # body)"
      using closes_good_Cons [OF assms] by (simp add: rule_body_def)
    then show ?thesis unfolding good_rest_def by blast
  qed
qed

lemma in_rule_simps [simp]:
  "rs_in_rule (scan_start name sc) \<longleftrightarrow> name = ''Rule'' \<or> rs_in_rule sc" "rs_in_rule (scan_text t sc) \<longleftrightarrow> rs_in_rule sc"
  "\<not> rs_in_rule sc \<Longrightarrow> name \<noteq> ''Rule'' \<Longrightarrow> settled (scan_start name sc) \<longleftrightarrow> settled sc"
  "\<not> rs_in_rule sc \<Longrightarrow> scan_text t sc = sc"
  by (simp_all add: scan_start_def scan_text_def settled_def Let_def)

lemma scan_loop_iff:
  "(rs_in_rule sc \<or> settled sc) \<Longrightarrow> scan_loop evs sc \<longleftrightarrow> (rs_in_rule sc \<and> good_rest sc evs) \<or> good_rule evs"
proof (induction evs arbitrary: sc)
  case Nil
  then show ?case by (simp add: good_rest_def good_rule_def)
next
  case (Cons ev evs)
  have e: "closes_good sc [] \<longleftrightarrow> \<not> settled sc" by (auto simp: closes_good_def settled_def narrows_def)
  show ?case
  proof (cases ev)
    case (XStart name)
    then show ?thesis
      using Cons good_rule_Cons [of ev evs sc] good_rest_Cons [of sc ev evs]
      by (cases "name = ''Rule''"; cases "rs_in_rule sc") auto
  next
    case (XText t)
    then show ?thesis
      using Cons good_rule_Cons [of ev evs sc] good_rest_Cons [of sc ev evs] by (cases "rs_in_rule sc") auto
  next
    case (XEnd name)
    show ?thesis
    proof (cases "name = ''Rule''")
      case True
      have "settled (sc\<lparr> rs_in_rule := False \<rparr>) \<longleftrightarrow> settled sc" by (simp add: settled_def)
      with True XEnd show ?thesis
        using Cons.IH [of "sc\<lparr> rs_in_rule := False \<rparr>"] Cons.prems good_rule_Cons [of ev evs sc] good_rest_Cons [of sc ev evs] e
        by (cases "rs_in_rule sc") (auto simp: scan_end_def settled_def)
    next
      case False
      with XEnd show ?thesis
        using Cons good_rule_Cons [of ev evs sc] good_rest_Cons [of sc ev evs]
        by (cases "rs_in_rule sc") (auto simp: scan_end_def)
    qed
  next
    case XOther
    then show ?thesis
      using Cons good_rule_Cons [of ev evs sc] good_rest_Cons [of sc ev evs] by (cases "rs_in_rule sc") auto
  qed
qed


section \<open>The checksum\<close>

text \<open>The published check value of the CRC-32 of IEEE 802.3.\<close>

lemma crc_byte_bits: "crc_byte crc b = crc_bit (crc_bit (crc_bit (crc_bit (crc_bit (crc_bit (crc_bit (crc_bit (crc XOR ucast b))))))))"
  by (simp add: crc_byte_def numeral_eq_Suc)

lemma crc32_check_value: "crc32 (str_bytes ''123456789'') = 0xCBF43926"
proof -
  have "crc_byte 0xFFFFFFFF 0x31 = 0x7C231048"
    "crc_byte 0x7C231048 0x32 = 0xB0ACBB32"
    "crc_byte 0xB0ACBB32 0x33 = 0x77B79C2D"
    "crc_byte 0x77B79C2D 0x34 = 0x641C1F5C"
    "crc_byte 0x641C1F5C 0x35 = 0x340AC5E3"
    "crc_byte 0x340AC5E3 0x36 = 0xF68D2C9E"
    "crc_byte 0xF68D2C9E 0x37 = 0xAFFC9660"
    "crc_byte 0xAFFC9660 0x38 = 0x651F2550"
    "crc_byte 0x651F2550 0x39 = 0x340BC6D9"
    by (simp_all add: crc_byte_bits crc_bit_def)
  moreover have "str_bytes ''123456789'' = [0x31, 0x32, 0x33, 0x34, 0x35, 0x36, 0x37, 0x38, 0x39]" by (simp add: str_bytes_def char_byte_def)
  ultimately show ?thesis by (simp add: crc32_def)
qed

end
