(* ===== verification/Serve.thy ===== *)
theory Serve
  imports Check ConfigFile Dispatch
begin

text \<open>
  The process around the proxy: the metrics page (\<open>proxy/metrics.rs\<close>), loading the listener's certificate (\<open>tls.rs\<close>), the
  exit codes of the operator commands (\<open>main.rs\<close>), and the accept loop with its drain on shutdown. The parsers of PEM and
  the construction of a TLS configuration are parameters; what is printed or logged is not modelled, nor is the
  profiler of the metrics port, which is compiled out by default.
\<close>

section \<open>Metrics\<close>

definition newline_text :: string where
  "newline_text = [CHR 0x0A]"

definition write_metric :: "string \<Rightarrow> string \<Rightarrow> string \<Rightarrow> u64 \<Rightarrow> string" where
  "write_metric kind name help v =
     ''# HELP '' @ name @ '' '' @ help @ newline_text
     @ ''# TYPE '' @ name @ '' '' @ kind @ newline_text
     @ name @ '' '' @ dec_string (unat v) @ newline_text"

definition write_counter :: "string \<Rightarrow> string \<Rightarrow> string \<Rightarrow> u64 \<Rightarrow> string" where
  "write_counter out name help v = out @ write_metric ''counter'' name help v"

definition write_gauge :: "string \<Rightarrow> string \<Rightarrow> string \<Rightarrow> u64 \<Rightarrow> string" where
  "write_gauge out name help v = out @ write_metric ''gauge'' name help v"

definition render :: "proxy_state \<Rightarrow> string" where
  "render ps =
     (let out = write_counter [] ''s3armor_auth_failures_total'' ''SigV4 verification failures'' (ps_auth_failures ps);
          out = write_counter out ''s3armor_auth_rate_limited_total''
                  ''requests rejected with 429 before SigV4 verification, over S3A_AUTH_FAIL_LIMIT'' (ps_auth_rate_limited ps);
          out = write_counter out ''s3armor_chunk_verify_failures_total''
                  (''v1 chunk AEAD verify failures'' @ em_dash @ ''alert on any'') (ps_chunk_verify_failures ps);
          out = write_counter out ''s3armor_mpu_sessions_created_total'' ''multipart sessions created'' (ps_mpu_sessions_created ps);
          out = write_counter out ''s3armor_footer_cache_hits_total'' ''multipart footer cache hits'' (ps_footer_cache_hits ps);
          out = write_counter out ''s3armor_footer_cache_misses_total'' ''multipart footer cache misses'' (ps_footer_cache_misses ps)
      in write_gauge out ''s3armor_mpu_sessions_active'' ''in-flight multipart sessions''
           (of_nat (length (ps_sessions ps))))"

definition metrics_handle :: "proxy_state \<Rightarrow> string \<Rightarrow> reply" where
  "metrics_handle ps path =
     (if path = ''/metrics'' then
        \<lparr> rp_status = 200, rp_headers = [(''content-type'', ''text/plain; version=0.0.4'')],
          rp_body = body_full (str_bytes (render ps)) \<rparr>
      else \<lparr> rp_status = 404, rp_headers = [], rp_body = body_empty \<rparr>)"

section \<open>TLS\<close>

datatype tls_error = TlsRead string string | NoCert string | TlsParse string string | TlsConfigError string

text \<open>\<open>std::fs::read\<close>, the PEM readers for certificates and for a key, and the builder of the server configuration.\<close>

record ('cert, 'key, 'cfg) tls_crates =
  tc_read :: "string \<Rightarrow> string + bytes"
  tc_certs :: "bytes \<Rightarrow> string + 'cert list"
  tc_key :: "bytes \<Rightarrow> string + 'key"
  tc_build :: "'cert list \<Rightarrow> 'key \<Rightarrow> string + 'cfg"

definition load_certs :: "('cert, 'key, 'cfg) tls_crates \<Rightarrow> string \<Rightarrow> tls_error + 'cert list" where
  "load_certs T path =
     rbind (map_err (TlsRead path) (tc_read T path)) (\<lambda>bytes.
     rbind (map_err (TlsParse path) (tc_certs T bytes)) (\<lambda>certs.
       if certs = [] then Inl (NoCert path) else Inr certs))"

definition load_key :: "('cert, 'key, 'cfg) tls_crates \<Rightarrow> string \<Rightarrow> tls_error + 'key" where
  "load_key T path =
     rbind (map_err (TlsRead path) (tc_read T path)) (\<lambda>bytes. map_err (TlsParse path) (tc_key T bytes))"

definition load_server_config :: "('cert, 'key, 'cfg) tls_crates \<Rightarrow> string \<Rightarrow> string \<Rightarrow> tls_error + 'cfg" where
  "load_server_config T cert_path key_path =
     rbind (load_certs T cert_path) (\<lambda>certs.
     rbind (load_key T key_path) (\<lambda>key. map_err TlsConfigError (tc_build T certs key)))"

section \<open>Commands\<close>

text \<open>A command ends with an exit code; \<open>Inl\<close> is an early \<open>process::exit\<close>.\<close>

record startup =
  su_host :: host
  su_toml :: toml_crate
  su_is_file :: "string \<Rightarrow> bool"
  su_env :: env_source
  su_config_path :: "string option"

definition load_config_or_exit :: "startup \<Rightarrow> nat + loaded_config" where
  "load_config_or_exit U =
     (case Layered_new (su_host U) (su_toml U) (su_is_file U) (su_env U) (su_config_path U) of
        Inl e \<Rightarrow> Inl 1
      | Inr l \<Rightarrow> (case Config_load (su_host U) (layered_source l) of Inl e \<Rightarrow> Inl 1 | Inr cfg \<Rightarrow> Inr cfg))"

definition build_tls_acceptor :: "('cert, 'key, 'cfg) tls_crates \<Rightarrow> tls_config option \<Rightarrow> nat + 'cfg option" where
  "build_tls_acceptor T tls =
     (case tls of None \<Rightarrow> Inr None
      | Some t \<Rightarrow> (case load_server_config T (tc_cert_path t) (tc_key_path t) of Inl e \<Rightarrow> Inl 1 | Inr c \<Rightarrow> Inr (Some c)))"

definition start_state :: "loaded_config \<Rightarrow> 'w io_state \<Rightarrow> 'w io_state" where
  "start_state cfg s = s\<lparr> io_proxy := ProxyState_new (config.truncate cfg) \<rparr>"

definition resolve_backend_or_exit :: "startup \<Rightarrow> config \<Rightarrow> string option \<Rightarrow> nat + backend" where
  "resolve_backend_or_exit U cfg name =
     (case resolve_backend (h_to_uppercase (su_host U)) cfg name of Inl e \<Rightarrow> Inl 1 | Inr be \<Rightarrow> Inr be)"

definition run_check ::
  "'w env \<Rightarrow> startup \<Rightarrow> (string \<Rightarrow> system_time option) \<Rightarrow> string \<Rightarrow> string option \<Rightarrow> ('w, nat) io" where
  "run_check E U parse_http_date bucket backend_name s =
     (case load_config_or_exit U of
        Inl code \<Rightarrow> (Ret code, s)
      | Inr cfg \<Rightarrow>
          (case resolve_backend_or_exit U (config.truncate cfg) backend_name of
             Inl code \<Rightarrow> (Ret code, start_state cfg s)
           | Inr be \<Rightarrow>
               io_bind (check E parse_http_date be bucket) (\<lambda>report. io_return (if report_ok report then 0 else 1)) (start_state cfg s)))"

text \<open>The code of a tool's result; the tools resolve the backend themselves.\<close>

definition exit_code :: "(tool_error + 'r) io_result \<Rightarrow> ('r \<Rightarrow> bool) \<Rightarrow> nat io_result" where
  "exit_code r report_is_ok =
     (case r of
        Ret (Inl e) \<Rightarrow> Ret 1
      | Ret (Inr report) \<Rightarrow> Ret (if report_is_ok report then 0 else 1)
      | Err e \<Rightarrow> Err e
      | Panic \<Rightarrow> Panic)"

definition run_rewrap ::
  "'w env \<Rightarrow> startup \<Rightarrow> string \<Rightarrow> string \<Rightarrow> checkpoint_path option \<Rightarrow> bool \<Rightarrow> string option \<Rightarrow> 'w io_state
   \<Rightarrow> (nat io_result \<times> 'w io_state) option" where
  "run_rewrap E U bucket pre cp dry_run backend_name s =
     (case load_config_or_exit U of
        Inl code \<Rightarrow> Some (Ret code, s)
      | Inr cfg \<Rightarrow>
          map_option (\<lambda>(r, s'). (exit_code r (\<lambda>(report, _). rr_failed report = []), s'))
            (rewrap E (h_to_uppercase (su_host U)) backend_name bucket pre cp dry_run (start_state cfg s)))"

definition run_rebind ::
  "'w env \<Rightarrow> startup \<Rightarrow> string \<Rightarrow> string \<Rightarrow> string option \<Rightarrow> checkpoint_path option \<Rightarrow> bool \<Rightarrow> string option \<Rightarrow> 'w io_state
   \<Rightarrow> (nat io_result \<times> 'w io_state) option" where
  "run_rebind E U bucket pre from_bucket cp dry_run backend_name s =
     (case load_config_or_exit U of
        Inl code \<Rightarrow> Some (Ret code, s)
      | Inr cfg \<Rightarrow>
          map_option (\<lambda>(r, s'). (exit_code r (\<lambda>(report, _). rb_failed report = []), s'))
            (rebind E (h_to_uppercase (su_host U)) backend_name bucket pre from_bucket cp dry_run (start_state cfg s)))"

text \<open>The start of the server, up to the accept loop: the configuration, the TLS acceptor, the address to listen on, the
  shared state. \<open>bind\<close> tells whether an address can be bound.\<close>

definition bind_or_exit :: "(string \<Rightarrow> bool) \<Rightarrow> string \<Rightarrow> nat + string" where
  "bind_or_exit bind listen = (if bind listen then Inr listen else Inl 1)"

definition serve :: "startup \<Rightarrow> ('cert, 'key, 'cfg) tls_crates \<Rightarrow> (string \<Rightarrow> bool) \<Rightarrow> nat + proxy_state \<times> 'cfg option \<times> string" where
  "serve U T bind =
     rbind (load_config_or_exit U) (\<lambda>cfg.
     rbind (build_tls_acceptor T (cf_tls cfg)) (\<lambda>tls_acceptor.
     rbind (bind_or_exit bind (cf_listen cfg)) (\<lambda>listener.
       Inr (ProxyState_new (config.truncate cfg), tls_acceptor, listener))))"

section \<open>Shutdown\<close>

text \<open>\<open>wait_for_drain\<close> polls every 50 ms. \<open>live t\<close> is the number of connection guards alive at time \<open>t\<close>, in milliseconds;
  the value is the time at which it returns.\<close>

function wait_for_drain :: "(nat \<Rightarrow> nat) \<Rightarrow> nat \<Rightarrow> nat \<Rightarrow> nat" where
  "wait_for_drain live now until = (if live now > 0 \<and> now < until then wait_for_drain live (now + 50) until else now)"
  by pat_completeness auto
termination
  by (relation "measure (\<lambda>(live, now, until). until - now)") auto

declare wait_for_drain.simps [simp del]

text \<open>What the accept loop keeps and changes: the drain flag behind \<open>/health\<close>, the value of the shutdown channel, the
  deadline of the drain, the connections alive and the clock.\<close>

record server =
  sv_draining :: bool
  sv_shutdown :: bool
  sv_deadline :: "nat option"
  sv_live :: nat
  sv_now :: nat

definition server_start :: "nat \<Rightarrow> server" where
  "server_start now = \<lparr> sv_draining = False, sv_shutdown = False, sv_deadline = None, sv_live = 0, sv_now = now \<rparr>"

definition on_signal :: "nat \<Rightarrow> server \<Rightarrow> server" where
  "on_signal timeout_request sv =
     sv\<lparr> sv_draining := True, sv_shutdown := True, sv_deadline := Some (sv_now sv + timeout_request) \<rparr>"

text \<open>The branch \<open>drained\<close> of the \<open>select!\<close> is ready when its first poll returns.\<close>

definition drained_ready :: "server \<Rightarrow> bool" where
  "drained_ready sv =
     (case sv_deadline sv of
        None \<Rightarrow> False
      | Some deadline \<Rightarrow>
          wait_for_drain (\<lambda>_. sv_live sv) (sv_now sv) (sv_now sv + (deadline - sv_now sv)) = sv_now sv)"

text \<open>One round of the loop, or of the world around it. The signal branches are disabled once a deadline is set; the loop
  goes on accepting while it drains; a failed accept waits 100 ms.\<close>

inductive accept_step :: "nat \<Rightarrow> server \<Rightarrow> server \<Rightarrow> bool" for timeout_request where
  signal: "sv_deadline sv = None \<Longrightarrow> accept_step timeout_request sv (on_signal timeout_request sv)"
| accepted: "accept_step timeout_request sv (sv\<lparr> sv_live := Suc (sv_live sv) \<rparr>)"
| accept_failed: "accept_step timeout_request sv (sv\<lparr> sv_now := sv_now sv + 100 \<rparr>)"
| connection_ends: "sv_live sv = Suc n \<Longrightarrow> accept_step timeout_request sv (sv\<lparr> sv_live := n \<rparr>)"
| time_passes: "accept_step timeout_request sv (sv\<lparr> sv_now := sv_now sv + d \<rparr>)"

inductive accept_loop :: "nat \<Rightarrow> server \<Rightarrow> server \<Rightarrow> bool" for timeout_request where
  enter: "accept_loop timeout_request sv sv"
| round: "accept_loop timeout_request sv sv1 \<Longrightarrow> accept_step timeout_request sv1 sv2 \<Longrightarrow> accept_loop timeout_request sv sv2"

inductive_cases accept_stepE: "accept_step timeout_request sv sv'"

end
