(* ===== verification/ServeProps.thy ===== *)
theory ServeProps
  imports Serve ConfigProps
begin

text \<open>
  A server that starts has the configuration it was given and answers every request until it ends. The shutdown of the
  server: the drain begins with the first signal, is announced by \<open>/health\<close>, has a deadline that does
  not move, and ends when no connection is left or at the deadline.
\<close>

lemma wait_for_drain_steps:
  "now \<le> wait_for_drain live now until \<and> (wait_for_drain live now until = now \<or> wait_for_drain live now until < until + 50) \<and>
   (live (wait_for_drain live now until) = 0 \<or> until \<le> wait_for_drain live now until)"
proof (induction live now until rule: wait_for_drain.induct)
  case (1 live now until)
  show ?case
  proof (cases "live now > 0 \<and> now < until")
    case True
    then have "wait_for_drain live now until = wait_for_drain live (now + 50) until" by (simp add: wait_for_drain.simps [of live now])
    with 1 True show ?thesis by auto
  next
    case False
    then have "wait_for_drain live now until = now" by (auto simp: wait_for_drain.simps [of live now])
    with False show ?thesis by auto
  qed
qed

lemma wait_for_drain_bounds:
  "now \<le> wait_for_drain live now until \<and> wait_for_drain live now until < max now until + 50 \<and>
   (live (wait_for_drain live now until) = 0 \<or> until \<le> wait_for_drain live now until)"
  using wait_for_drain_steps [of now live until] by (auto simp: max_def)

lemma drained_ready_iff:
  "drained_ready sv \<longleftrightarrow> (\<exists>d. sv_deadline sv = Some d \<and> (sv_live sv = 0 \<or> d \<le> sv_now sv))"
proof (cases "sv_deadline sv")
  case (Some d)
  have "wait_for_drain (\<lambda>_. sv_live sv) (sv_now sv) (sv_now sv + (d - sv_now sv)) = sv_now sv \<longleftrightarrow> sv_live sv = 0 \<or> d \<le> sv_now sv"
  proof (cases "sv_live sv > 0 \<and> sv_now sv < sv_now sv + (d - sv_now sv)")
    case True
    have "sv_now sv + 50 \<le> wait_for_drain (\<lambda>_. sv_live sv) (sv_now sv + 50) (sv_now sv + (d - sv_now sv))"
      using wait_for_drain_bounds by blast
    with True show ?thesis by (subst wait_for_drain.simps) auto
  next
    case False
    then show ?thesis by (subst wait_for_drain.simps) auto
  qed
  with Some show ?thesis by (simp add: drained_ready_def)
qed (simp add: drained_ready_def)

text \<open>The invariant of the loop.\<close>

definition orderly :: "nat \<Rightarrow> nat \<Rightarrow> server \<Rightarrow> bool" where
  "orderly timeout_request t0 sv \<longleftrightarrow> t0 \<le> sv_now sv \<and> (sv_draining sv \<longleftrightarrow> sv_deadline sv \<noteq> None) \<and> (sv_shutdown sv \<longleftrightarrow> sv_draining sv) \<and>
     (case sv_deadline sv of None \<Rightarrow> True | Some d \<Rightarrow> t0 + timeout_request \<le> d \<and> d \<le> sv_now sv + timeout_request)"

lemma orderly_step: "accept_step tr sv sv' \<Longrightarrow> orderly tr t0 sv \<Longrightarrow> orderly tr t0 sv'"
  by (elim accept_stepE) (auto simp: orderly_def on_signal_def split: option.splits)

lemma orderly_loop: "accept_loop tr sv sv' \<Longrightarrow> orderly tr t0 sv \<Longrightarrow> orderly tr t0 sv'"
  by (induction rule: accept_loop.induct) (auto dest: orderly_step)

lemma deadline_stays: "accept_loop tr sv sv' \<Longrightarrow> sv_deadline sv = Some d \<Longrightarrow> sv_deadline sv' = Some d"
  by (induction rule: accept_loop.induct) (auto elim: accept_stepE)



section \<open>The life of a server\<close>

text \<open>The shared state through the life of a process: requests, ticks of the sweeper, the announcement of a drain, and
  anything outside the process (the backend, the clocks, the random generator).\<close>

inductive server_run :: "'w env \<Rightarrow> 'w io_state \<Rightarrow> 'w io_state \<Rightarrow> bool" for E where
  started: "server_run E s s"
| request: "server_run E s s1 \<Longrightarrow> handle E req ip s1 = (r, s2) \<Longrightarrow> server_run E s s2"
| sweeper: "server_run E s s1 \<Longrightarrow> sweep_tick E ttl s1 = (r, s2) \<Longrightarrow> server_run E s s2"
| drain: "server_run E s s1 \<Longrightarrow> server_run E s (s1\<lparr> io_proxy := set_draining (io_proxy s1) \<rparr>)"
| outside: "server_run E s s1 \<Longrightarrow> server_run E s (s1\<lparr> io_world := w, io_rng := rng, io_abort := reason \<rparr>)"

lemma server_run_ok:
  assumes "http_ok E" "hex_plain (en_crypto E)" "config_ok E cfg" "server_run E s s'" "proxy_ok E cfg (io_proxy s)"
  shows "proxy_ok E cfg (io_proxy s')"
  using assms(4,5)
proof (induction rule: server_run.induct)
  case (request s s1 req ip r s2)
  then show ?case using io_okD(2) [OF handle_ok [OF assms(1-3)]] by blast
next
  case (sweeper s s1 ttl r s2)
  have "io_ok (proxy_ok E cfg) (sweep_tick E ttl) (\<lambda>_. True)"
    unfolding sweep_tick_def by (rule io_rules sweep_ok assms)+
  with sweeper show ?case using io_okD(2) by blast
qed simp_all

lemma serve_steps:
  assumes "serve U T bind = Inr (ps, tls, addr)"
  obtains l lc where "load_config_or_exit U = Inr lc" "Config_load (su_host U) (layered_source l) = Inr lc"
    "ps = ProxyState_new (config.truncate lc)" "addr = cf_listen lc" "bind addr" "tls = None \<longleftrightarrow> cf_tls lc = None"
proof -
  from assms obtain lc where lc: "load_config_or_exit U = Inr lc" "ps = ProxyState_new (config.truncate lc)" "addr = cf_listen lc" "bind addr"
      "build_tls_acceptor T (cf_tls lc) = Inr tls"
    by (auto simp: serve_def bind_or_exit_def rbind_def split: sum.splits if_splits)
  from lc(1) obtain l where l: "Config_load (su_host U) (layered_source l) = Inr lc"
    by (auto simp: load_config_or_exit_def split: sum.splits)
  from lc(5) have "tls = None \<longleftrightarrow> cf_tls lc = None" by (auto simp: build_tls_acceptor_def split: option.splits sum.splits)
  then show ?thesis by (rule that [OF lc(1) l lc(2-4)])
qed

lemma serve_exit: "case serve U T bind of Inl code \<Rightarrow> code = 1 | Inr _ \<Rightarrow> True"
proof -
  have "case load_config_or_exit U of Inl code \<Rightarrow> code = 1 | Inr _ \<Rightarrow> True"
    by (simp add: load_config_or_exit_def split: sum.split)
  moreover have "build_tls_acceptor T tls = Inl code \<Longrightarrow> code = 1" for tls code
    by (auto simp: build_tls_acceptor_def split: option.splits sum.splits)
  ultimately show ?thesis by (simp add: serve_def rbind_def bind_or_exit_def split: sum.splits)
qed


definition sample_startup :: startup where
  "sample_startup = \<lparr> su_host = sample_host, su_toml = sample_toml, su_is_file = (\<lambda>_. False), su_env = ProcessEnv sample_vars,
     su_config_path = None \<rparr>"

definition sample_tls :: "(unit, unit, unit) tls_crates" where
  "sample_tls = \<lparr> tc_read = (\<lambda>_. Inr []), tc_certs = (\<lambda>_. Inr [()]), tc_key = (\<lambda>_. Inr ()), tc_build = (\<lambda>_ _. Inr ()) \<rparr>"


end
