(* ===== verification/MpuProps.thy ===== *)
theory MpuProps
  imports ObjectProps
begin

text \<open>
  A multipart upload against a backend that keeps uploads: create, any number of parts in any order, complete, and a
  GET that reads the parts back. \<open>multipart_backend\<close> states the part of the S3 contract that is used; \<open>upload\<close> is the
  life of one upload through the proxy, and its abstract state is the map from part numbers to the plaintexts sent.
\<close>

section \<open>Queries\<close>

text \<open>Text of letters and digits is its own percent-decoding.\<close>

definition plain_text :: "string \<Rightarrow> bool" where
  "plain_text s \<longleftrightarrow> (\<forall>c \<in> set s. is_alnum (char_byte c))"

definition pct_plain :: "pct \<Rightarrow> bool" where
  "pct_plain P \<longleftrightarrow> (\<forall>s. plain_text s \<longrightarrow> decode_utf8_lossy P (percent_decode P s) = s)"

lemma is_alnum_char:
  "is_alnum (char_byte c) \<longleftrightarrow> (let n = (of_char c :: nat) in (48 \<le> n \<and> n \<le> 57) \<or> (65 \<le> n \<and> n \<le> 90) \<or> (97 \<le> n \<and> n \<le> 122))"
proof -
  have "(of_char c :: nat) < 256" by simp
  then have "unat (char_byte c) = (of_char c :: nat)" unfolding char_byte_def by (subst unat_of_nat) (simp add: take_bit_nat_eq_self)
  then show ?thesis by (simp add: is_alnum_def word_le_nat_alt Let_def)
qed

lemma alnum_lower: "is_alnum (char_byte (lower_char c)) = is_alnum (char_byte c)"
  unfolding is_alnum_char by (auto simp: lower_char_def Let_def)

lemma plain_text_cong: "eq_ignore_ascii_case k n \<Longrightarrow> plain_text n \<Longrightarrow> plain_text k"
proof -
  have "plain_text (to_ascii_lowercase s) = plain_text s" for s
    by (simp add: plain_text_def to_ascii_lowercase_def alnum_lower)
  then show "eq_ignore_ascii_case k n \<Longrightarrow> plain_text n \<Longrightarrow> plain_text k" unfolding eq_ignore_ascii_case_def by metis
qed

lemma split_on_filter_join:
  "\<forall>p \<in> set ps. c \<notin> set p \<Longrightarrow> filter (\<lambda>p. p \<noteq> []) (split_on c (join [c] ps)) = filter (\<lambda>p. p \<noteq> []) ps"
  by (cases ps) (simp_all add: split_on_join)

lemma filter_query_pairs:
  "filter (\<lambda>p. p \<noteq> '''') (split_on CHR ''&'' (filter_query P q ds)) =
   filter (\<lambda>pair. \<not> list_ex (\<lambda>d. eq_ignore_ascii_case d (decode_utf8_lossy P (percent_decode P (query_key pair)))) ds)
         (filter (\<lambda>pair. pair \<noteq> '''') (split_on CHR ''&'' q))"
proof -
  have "\<forall>p \<in> set (split_on CHR ''&'' q). CHR ''&'' \<notin> set p" using split_on_no_sep by fast
  then show ?thesis unfolding filter_query_def by (subst split_on_filter_join) (auto intro: filter_cong)
qed

text \<open>Removing the parameters of a presigned URL leaves the others as they are.\<close>

lemma presigned_names: "d \<in> set PRESIGNED_QUERY_PARAMS \<Longrightarrow> plain_text n \<Longrightarrow> \<not> eq_ignore_ascii_case d n"
proof
  assume d: "d \<in> set PRESIGNED_QUERY_PARAMS" and n: "plain_text n" and e: "eq_ignore_ascii_case d n"
  have "CHR ''-'' \<in> set d" using d by (auto simp: PRESIGNED_QUERY_PARAMS_def)
  moreover have "plain_text d" using plain_text_cong [OF e n] .
  ultimately have "is_alnum (char_byte CHR ''-'')" by (auto simp: plain_text_def)
  then show False by (simp add: is_alnum_char)
qed

lemma kept_pair:
  assumes "pct_plain P" "plain_text n" "eq_ignore_ascii_case (query_key pair) n"
  shows "\<not> list_ex (\<lambda>d. eq_ignore_ascii_case d (decode_utf8_lossy P (percent_decode P (query_key pair)))) PRESIGNED_QUERY_PARAMS"
proof -
  have p: "plain_text (query_key pair)" by (rule plain_text_cong [OF assms(3,2)])
  then have "decode_utf8_lossy P (percent_decode P (query_key pair)) = query_key pair" using assms(1) by (simp add: pct_plain_def)
  with presigned_names [OF _ p] show ?thesis by (simp add: list_ex_iff)
qed

lemma find_map_filter: "\<forall>x \<in> set xs. \<not> P x \<longrightarrow> f x = None \<Longrightarrow> find_map f (filter P xs) = find_map f xs"
  by (induction xs) (auto split: option.splits)

lemma split_pair_key: "fst (split_pair pair) = query_key pair"
proof (cases "split_once CHR ''='' pair")
  case None
  then have "CHR ''='' \<notin> set pair" by (simp add: split_once_None_iff)
  with None show ?thesis by (simp add: split_pair_def query_key_def split_on_single)
next
  case (Some kv)
  then show ?thesis by (cases kv) (auto simp: split_pair_def query_key_def split_on_append dest!: split_once_SomeD)
qed

lemma query_value_filter:
  assumes "pct_plain (en_pct E)" "plain_text n"
  shows "query_value E (filter_query (en_pct E) q PRESIGNED_QUERY_PARAMS) n = query_value E q n"
proof -
  let ?P = "en_pct E"
  let ?f = "\<lambda>pair. if pair = '''' then None else let (k, v) = split_pair pair in
    if \<not> eq_ignore_ascii_case k n then None else Some (decode_utf8_lossy ?P (percent_decode ?P v))"
  have ne: "find_map ?f xs = find_map ?f (filter (\<lambda>p. p \<noteq> '''') xs)" for xs by (rule find_map_filter [symmetric]) simp
  have f: "?f pair = None" if "\<not> eq_ignore_ascii_case (query_key pair) n" for pair
    using that split_pair_key [of pair] by (cases "split_pair pair") simp
  have "find_map ?f (filter (\<lambda>pair. \<not> list_ex (\<lambda>d. eq_ignore_ascii_case d (decode_utf8_lossy ?P (percent_decode ?P (query_key pair))))
       PRESIGNED_QUERY_PARAMS) xs) = find_map ?f xs" for xs
    using f kept_pair [OF assms] by (intro find_map_filter) blast
  then show ?thesis unfolding query_value_def by (subst (1 2) ne) (simp only: filter_query_pairs)
qed

lemma query_has_filter:
  assumes "pct_plain P" "plain_text n"
  shows "query_has (filter_query P q PRESIGNED_QUERY_PARAMS) n = query_has q n"
  using kept_pair [OF assms] unfolding query_has_def query_pairs_def filter_query_pairs by (auto simp: list_ex_iff)

lemma mpu_names: "plain_text ''uploadId''" "plain_text ''partNumber''" "plain_text ''uploads''"
  by (simp_all add: plain_text_def is_alnum_char)

text \<open>The query of the parts the proxy uploads by itself. An upload id is a Rust string, so it survives the decoding.\<close>

definition rust_string :: "'w env \<Rightarrow> string \<Rightarrow> bool" where
  "rust_string E s \<longleftrightarrow> decode_utf8_lossy (en_pct E) (str_bytes s) = s"

lemma plain_dec: "plain_text (dec_string n)"
  unfolding plain_text_def
proof
  fix c assume "c \<in> set (dec_string n)"
  then obtain d where "d < 10" "c = digit_char d" using dec_string_digits by blast
  then show "is_alnum (char_byte c)" by (simp add: is_alnum_char digit_char_def Let_def)
qed

lemma own_part_query:
  fixes n :: u32
  assumes "pct_ok (en_pct E)" "pct_plain (en_pct E)" "rust_string E uid"
  defines "q \<equiv> ''partNumber='' @ dec_string (unat n) @ ''&uploadId='' @ percent_encode (en_pct E) NON_ALPHANUMERIC (str_bytes uid)"
  shows "query_value E q ''uploadId'' = Some uid" "Option.bind (query_value E q ''partNumber'') parse_u32 = Some n"
proof -
  let ?v = "percent_encode (en_pct E) NON_ALPHANUMERIC (str_bytes uid)"
  have v: "c = CHR ''%'' \<or> is_alnum (char_byte c)" if "c \<in> set ?v" for c
    using assms(1) [unfolded pct_ok_def, THEN conjunct2, rule_format, OF that] by (auto simp: NON_ALPHANUMERIC_def)
  have "\<not> is_alnum (char_byte CHR ''&'')" by (simp add: is_alnum_char)
  then have amp: "CHR ''&'' \<notin> set ?v" "CHR ''&'' \<notin> set (dec_string (unat n))"
    using v [of "CHR ''&''"] plain_dec [of "unat n"] by (fastforce simp: plain_text_def)+
  have "q = (''partNumber='' @ dec_string (unat n)) @ CHR ''&'' # (''uploadId='' @ ?v)" by (simp add: q_def)
  then have sp: "split_on CHR ''&'' q = [''partNumber='' @ dec_string (unat n), ''uploadId='' @ ?v]"
    using amp split_on_append [of "CHR ''&''" "''partNumber='' @ dec_string (unat n)" "''uploadId='' @ ?v"]
      split_on_single [of "CHR ''&''" "''uploadId='' @ ?v"] by simp
  have pr: "split_pair (''partNumber='' @ w) = (''partNumber'', w)" "split_pair (''uploadId='' @ w) = (''uploadId'', w)" for w
    using split_once_append [of "CHR ''=''" "''partNumber''" w] split_once_append [of "CHR ''=''" "''uploadId''" w]
    by (simp_all add: split_pair_def)
  have e: "\<not> eq_ignore_ascii_case ''partNumber'' ''uploadId''" "eq_ignore_ascii_case n n" for n
    by (simp_all add: eq_ignore_ascii_case_def to_ascii_lowercase_def)
  have "percent_decode (en_pct E) ?v = str_bytes uid" using assms(1) path_unreserved_percent by (simp add: pct_ok_def)
  then show "query_value E q ''uploadId'' = Some uid"
    using assms(3) pr e by (simp add: query_value_def sp rust_string_def)
  have "decode_utf8_lossy (en_pct E) (percent_decode (en_pct E) (dec_string (unat n))) = dec_string (unat n)"
    using assms(2) plain_dec by (simp add: pct_plain_def)
  then show "Option.bind (query_value E q ''partNumber'') parse_u32 = Some n"
    using pr e by (simp add: query_value_def sp parse_u32_roundtrip)
qed

section \<open>A backend that keeps uploads\<close>

text \<open>The addresses of a path at a backend.\<close>

definition at_query :: "'w env \<Rightarrow> backend \<Rightarrow> string \<Rightarrow> string \<Rightarrow> string \<Rightarrow> bool" where
  "at_query E be path q uri \<longleftrightarrow>
     (\<exists>u auth. en_parse_uri E (be_endpoint be) = Some u \<and> u_authority u = Some auth \<and> uri = target_uri u auth path q)"

text \<open>A 200 to a Complete may still carry an error in its body.\<close>

definition late_error :: "bytes \<Rightarrow> bool" where
  "late_error b \<longleftrightarrow> (\<exists>x y. b = x @ str_bytes ''<Error'' @ y)"

type_synonym upload_state = "headers \<times> (u32 \<Rightarrow> bytes option)"

text \<open>The part of the contract of multipart uploads that is used, at one path. \<open>upl w i\<close> is the open upload with the id
  \<open>i\<close>, the headers it was created with and its parts; \<open>obj w\<close> is the object. Reading a clock touches neither. An
  acknowledged create opens an upload with no parts under the id it answers; an acknowledged part arrived in full
  and replaces the part with its number; an acknowledged complete (whose answer is not a late error) makes the
  object from the listed parts, in the order of the list, with the headers of the create. The number and the id
  are read off the query.\<close>

definition multipart_backend ::
  "'w env \<Rightarrow> backend \<Rightarrow> string \<Rightarrow> ('w \<Rightarrow> (headers \<times> bytes) option) \<Rightarrow> ('w \<Rightarrow> string \<Rightarrow> upload_state option) \<Rightarrow> bool" where
  "multipart_backend E be path obj upl \<longleftrightarrow>
     (\<forall>w. upl (snd (en_system_now E w)) = upl w \<and> upl (snd (en_instant_now E w)) = upl w \<and> obj (snd (en_instant_now E w)) = obj w) \<and>
     (\<forall>w rq resp w' q. en_send E w rq = (Answered resp, w') \<and> at_query E be path q (rq_uri rq) \<and> is_success (br_status resp) \<longrightarrow>
        (\<forall>xml uid. rq_method rq = ''POST'' \<and> query_has q ''uploads'' \<and> collect_body (br_body resp) = Inr xml \<and>
           parse_single_tag E xml ''UploadId'' = Some uid \<longrightarrow> upl w' uid = Some (rq_headers rq, \<lambda>_. None)) \<and>
        (\<forall>uid n hs ps. rq_method rq = ''PUT'' \<and> header_value (rq_headers rq) ''x-amz-copy-source'' = None \<and>
           query_value E q ''uploadId'' = Some uid \<and> Option.bind (query_value E q ''partNumber'') parse_u32 = Some n \<and>
           upl w uid = Some (hs, ps) \<longrightarrow>
             snd (rq_body rq) = Eof \<and> upl w' uid = Some (hs, ps(n := Some (body_data (fst (rq_body rq)))))) \<and>
        (\<forall>uid hs ps final. rq_method rq = ''POST'' \<and> query_value E q ''uploadId'' = Some uid \<and>
           rq_body rq = body_full (str_bytes (build_complete_xml final)) \<and> upl w uid = Some (hs, ps) \<and>
           \<not> late_error (body_data (fst (br_body resp))) \<longrightarrow>
             obj w' = Some (hs, concat (map (\<lambda>(n, _). case ps n of Some b \<Rightarrow> b | None \<Rightarrow> []) final))))"

lemma forward_sent:
  assumes "forward E be meth path query hs body s = (Ret resp, s')"
  obtains w rq where "w = snd (en_system_now E (io_world s))" "en_send E w rq = (Answered resp, io_world s')"
    "at_query E be path (filter_query (en_pct E) query PRESIGNED_QUERY_PARAMS) (rq_uri rq)" "rq_method rq = meth" "rq_body rq = body"
    "\<And>k. bt_get (meta_headers (rq_headers rq)) k = bt_get (meta_headers hs) k"
    "header_value (rq_headers rq) ''x-amz-copy-source'' = header_value hs ''x-amz-copy-source''"
    "header_value (rq_headers rq) ''range'' = header_value hs ''range''"
    "io_proxy s' = io_proxy s" "io_rng s' = io_rng s"
proof -
  obtain u auth now w1 w2 rq where f: "en_parse_uri E (be_endpoint be) = Some u" "u_authority u = Some auth"
    "en_system_now E (io_world s) = (now, w1)" "en_send E w1 rq = (Answered resp, w2)" "s' = s\<lparr> io_world := w2 \<rparr>"
    "rq_method rq = meth" "rq_body rq = body"
    "rq_uri rq = target_uri u auth path (filter_query (en_pct E) query PRESIGNED_QUERY_PARAMS)"
    "rq_headers rq = map (\<lambda>(k, v). (to_ascii_lowercase k, v)) (sign_for_backend E be now meth path
       (filter_query (en_pct E) query PRESIGNED_QUERY_PARAMS) (dated_headers auth now hs))"
    using forward_RetD [OF assms] by metis
  have "header_value (rq_headers rq) ''x-amz-copy-source'' = header_value hs ''x-amz-copy-source''"
    "header_value (rq_headers rq) ''range'' = header_value hs ''range''"
    unfolding f header_value_lowercase by (subst forwarded_header; simp add: lowercase_eqI)+
  with f show thesis by (intro that [of w1 rq]) (auto simp: at_query_def)
qed

lemma forward_proxy: "forward E be meth path query hs body s = (Ret resp, s') \<Longrightarrow> io_proxy s' = io_proxy s"
  by (rule forward_sent)

lemma backend_clock:
  assumes "multipart_backend E be path obj upl"
  shows "upl (snd (en_system_now E w)) = upl w" "upl (snd (en_instant_now E w)) = upl w" "obj (snd (en_instant_now E w)) = obj w"
  using assms unfolding multipart_backend_def by blast+

lemma instant_Ret: "io_instant_now E s = (Ret t, s') \<Longrightarrow> s' = s\<lparr> io_world := snd (en_instant_now E (io_world s)) \<rparr>"
  by (auto simp: io_instant_now_def split: prod.splits)

lemma create_sent:
  assumes "multipart_backend E be path obj upl" "pct_plain (en_pct E)" "query_has q ''uploads''"
    and "forward E be ''POST'' path q hs body s = (Ret resp, s')" "is_success (br_status resp)"
    and "collect_body (br_body resp) = Inr xml" "parse_single_tag E xml ''UploadId'' = Some uid"
  shows "\<exists>hs'. upl (io_world s') uid = Some (hs', \<lambda>_. None) \<and> (\<forall>k. bt_get (meta_headers hs') k = bt_get (meta_headers hs) k)"
proof -
  from forward_sent [OF assms(4)] obtain w rq where f: "en_send E w rq = (Answered resp, io_world s')"
    "at_query E be path (filter_query (en_pct E) q PRESIGNED_QUERY_PARAMS) (rq_uri rq)" "rq_method rq = ''POST''"
    "\<And>k. bt_get (meta_headers (rq_headers rq)) k = bt_get (meta_headers hs) k" by metis
  have "query_has (filter_query (en_pct E) q PRESIGNED_QUERY_PARAMS) ''uploads''"
    using query_has_filter [OF assms(2) mpu_names(3)] assms(3) by simp
  then have "upl (io_world s') uid = Some (rq_headers rq, \<lambda>_. None)"
    using assms(1,5-7) f unfolding multipart_backend_def by blast
  with f(4) show ?thesis by blast
qed

lemma part_sent:
  assumes "multipart_backend E be path obj upl" "pct_plain (en_pct E)" "query_value E q ''uploadId'' = Some uid"
    and "Option.bind (query_value E q ''partNumber'') parse_u32 = Some n" "header_value hs ''x-amz-copy-source'' = None"
    and "forward E be ''PUT'' path q hs body s = (Ret resp, s')" "is_success (br_status resp)"
    and "upl (io_world s) uid = Some (h, ps)"
  shows "snd body = Eof" "upl (io_world s') uid = Some (h, ps(n := Some (body_data (fst body))))" "io_proxy s' = io_proxy s"
proof -
  from forward_sent [OF assms(6)] obtain w rq where f: "w = snd (en_system_now E (io_world s))" "en_send E w rq = (Answered resp, io_world s')"
    "at_query E be path (filter_query (en_pct E) q PRESIGNED_QUERY_PARAMS) (rq_uri rq)" "rq_method rq = ''PUT''" "rq_body rq = body"
    "header_value (rq_headers rq) ''x-amz-copy-source'' = None" and p: "io_proxy s' = io_proxy s" using assms(5) by metis
  have "query_value E (filter_query (en_pct E) q PRESIGNED_QUERY_PARAMS) ''uploadId'' = Some uid"
    "Option.bind (query_value E (filter_query (en_pct E) q PRESIGNED_QUERY_PARAMS) ''partNumber'') parse_u32 = Some n"
    using query_value_filter [OF assms(2)] mpu_names assms(3,4) by simp_all
  moreover have "upl w uid = Some (h, ps)" using assms(8) backend_clock(1) [OF assms(1)] f(1) by simp
  ultimately have "snd (rq_body rq) = Eof \<and> upl (io_world s') uid = Some (h, ps(n := Some (body_data (fst (rq_body rq)))))"
    using assms(1,7) f(2-4,6) unfolding multipart_backend_def by blast
  then show "snd body = Eof" "upl (io_world s') uid = Some (h, ps(n := Some (body_data (fst body))))" by (simp_all add: f(5))
  show "io_proxy s' = io_proxy s" by (rule p)
qed

lemma complete_sent:
  assumes "multipart_backend E be path obj upl" "pct_plain (en_pct E)" "query_value E q ''uploadId'' = Some uid"
    and "forward E be ''POST'' path q hs (body_full (str_bytes (build_complete_xml final))) s = (Ret resp, s')"
    and "is_success (br_status resp)" "\<not> late_error (body_data (fst (br_body resp)))" "upl (io_world s) uid = Some (h, ps)"
  shows "obj (io_world s') = Some (h, concat (map (\<lambda>(n, _). case ps n of Some b \<Rightarrow> b | None \<Rightarrow> []) final))"
proof -
  from forward_sent [OF assms(4)] obtain w rq where f: "w = snd (en_system_now E (io_world s))" "en_send E w rq = (Answered resp, io_world s')"
    "at_query E be path (filter_query (en_pct E) q PRESIGNED_QUERY_PARAMS) (rq_uri rq)" "rq_method rq = ''POST''"
    "rq_body rq = body_full (str_bytes (build_complete_xml final))" by metis
  have "query_value E (filter_query (en_pct E) q PRESIGNED_QUERY_PARAMS) ''uploadId'' = Some uid"
    using query_value_filter [OF assms(2)] mpu_names assms(3) by simp
  moreover have "upl w uid = Some (h, ps)" using assms(7) backend_clock(1) [OF assms(1)] f(1) by simp
  ultimately show ?thesis using assms(1,5,6) f(2-5) unfolding multipart_backend_def by blast
qed

section \<open>The state of an upload\<close>

text \<open>The headers of a create carry the metadata of a multipart object and its wrapped data key.\<close>

definition carries :: "'w env \<Rightarrow> config \<Rightarrow> string \<Rightarrow> headers \<Rightarrow> object_meta \<Rightarrow> bytes \<Rightarrow> bool" where
  "carries E cfg path hs om dek \<longleftrightarrow>
     (\<forall>hs'. (\<forall>k. bt_get (meta_headers hs') k = bt_get (meta_headers hs) k) \<longrightarrow> route_from_headers (en_codec E) hs' = Inr (V1 om)) \<and>
     m_multipart om \<and> chunk_size_ok (m_chunk_size om) \<and> resolve_key E cfg om path = Inr dek"

definition encrypts_part :: "'w env \<Rightarrow> object_meta \<Rightarrow> bytes \<Rightarrow> u32 \<Rightarrow> bytes \<Rightarrow> bytes \<Rightarrow> bool" where
  "encrypts_part E om dek n pt ct \<longleftrightarrow>
     (\<exists>g g'. encrypt_all (c_aead (en_crypto E)) g (m_alg om) dek n (unat (m_chunk_size om)) pt = Some (ct, g'))"

text \<open>What ties the session of an upload to the parts the backend has: the recorded parts are the parts sent, each is
  stored encrypted under its number with the session's key, and a buffered part is what is stored.\<close>

definition part_matches ::
  "'w env \<Rightarrow> object_meta \<Rightarrow> bytes \<Rightarrow> bytes option \<Rightarrow> bytes option \<Rightarrow> u32 \<Rightarrow> part_record option \<Rightarrow> bool" where
  "part_matches E om dek pt ct n recorded \<longleftrightarrow>
     (case recorded of
        None \<Rightarrow> pt = None
      | Some r \<Rightarrow> 1 \<le> n \<and> n \<le> 10000 \<and>
          (\<exists>p c. pt = Some p \<and> ct = Some c \<and> length p = unat (pr_pt_len r) \<and> encrypts_part E om dek n p c))"

definition session_matches ::
  "'w env \<Rightarrow> object_meta \<Rightarrow> bytes \<Rightarrow> (u32 \<Rightarrow> bytes option) \<Rightarrow> (u32 \<Rightarrow> bytes option) \<Rightarrow> session \<Rightarrow> bool" where
  "session_matches E om dek pts ps entry \<longleftrightarrow> s_completed entry = None \<and> s_dek entry = Some dek \<and>
     s_alg entry = m_alg om \<and> s_chunk_size entry = m_chunk_size om \<and>
     (\<forall>n. part_matches E om dek (pts n) (ps n) n (bt_get (s_parts entry) n)) \<and>
     bt_ok (s_parts entry) \<and> bt_ok (s_tails entry) \<and>
     (\<forall>n ct. bt_get (s_tails entry) n = Some ct \<longrightarrow> ps n = Some ct)"

definition upload_ok ::
  "'w env \<Rightarrow> config \<Rightarrow> backend \<Rightarrow> string \<Rightarrow> ('w \<Rightarrow> string \<Rightarrow> upload_state option) \<Rightarrow> string \<Rightarrow> (u32 \<Rightarrow> bytes option) \<Rightarrow> 'w io_state \<Rightarrow> bool" where
  "upload_ok E cfg be path upl uid pts s \<longleftrightarrow> ps_config (io_proxy s) = cfg \<and>
     (\<exists>bucket key entry om dek hs ps. bucket_key path = Inr (bucket, key) \<and>
        ss_get (ps_sessions (io_proxy s)) (be_name be, bucket, key, uid) = Some entry \<and>
        upl (io_world s) uid = Some (hs, ps) \<and> carries E cfg path hs om dek \<and> session_matches E om dek pts ps entry)"

lemma new_session_matches: "session_matches E om dek (\<lambda>_. None) ps (Session_new now dek (m_alg om) (m_chunk_size om))"
  by (simp add: session_matches_def part_matches_def Session_new_def)

text \<open>Recording a part.\<close>

lemma evict_tails_sub: "bt_ok t \<Longrightarrow> bt_get (evict_tails t) n = Some c \<Longrightarrow> bt_get t n = Some c"
proof -
  assume t: "bt_ok t" and g: "bt_get (evict_tails t) n = Some c"
  obtain k where k: "evict_tails t = drop k t" using evict_tails_drop by blast
  from g have "(n, c) \<in> set (drop k t)" unfolding k by (simp add: bt_get_def map_of_SomeD)
  then have "(n, c) \<in> set t" by (rule in_set_dropD)
  then show "bt_get t n = Some c" using t bt.entries_get by fastforce
qed

lemma recorded_session_matches:
  assumes m: "session_matches E om dek pts ps entry" and n: "1 \<le> n" "n \<le> 10000"
    and c: "encrypts_part E om dek n pt ct" "length pt = unat pt_len" "buffered = None \<or> buffered = Some ct"
  shows "session_matches E om dek (pts(n := Some pt)) (ps(n := Some ct)) (Session_record_part now n pt_len etag buffered entry)"
proof -
  let ?e = "Session_record_part now n pt_len etag buffered entry"
  have o: "s_completed entry = None" "bt_ok (s_parts entry)" "bt_ok (s_tails entry)" using m by (simp_all add: session_matches_def)
  have p: "s_parts ?e = bt_insert n \<lparr> pr_pt_len = pt_len, pr_etag = etag \<rparr> (s_parts entry)"
    "s_tails ?e = (case buffered of Some c \<Rightarrow> evict_tails (bt_insert n c (s_tails entry)) | None \<Rightarrow> bt_remove n (s_tails entry))"
    using o by (auto simp: Session_record_part_def buffer_tail_def touch_def Let_def split: option.splits)
  have t: "(ps(n := Some ct)) k = Some x" if "bt_get (s_tails ?e) k = Some x" for k x
  proof (cases buffered)
    case None
    with that p(2) o(3) have "k \<noteq> n" "bt_get (s_tails entry) k = Some x" by (auto simp: bt_get_remove split: if_splits)
    with m show ?thesis by (simp add: session_matches_def)
  next
    case (Some y)
    with c(3) have "y = ct" by simp
    with that Some p(2) evict_tails_sub [of "bt_insert n ct (s_tails entry)"] o(3)
    have "bt_get (bt_insert n ct (s_tails entry)) k = Some x" by simp
    with m show ?thesis by (auto simp: session_matches_def split: if_splits)
  qed
  have "bt_ok (s_parts ?e)" "bt_ok (s_tails ?e)" using o by (auto simp: p bt_ok_evict split: option.splits)
  moreover have "s_completed ?e = None" "s_dek ?e = s_dek entry" "s_alg ?e = s_alg entry" "s_chunk_size ?e = s_chunk_size entry"
    using o by (auto simp: Session_record_part_def buffer_tail_def touch_def Let_def split: option.splits)
  moreover have "part_matches E om dek ((pts(n := Some pt)) k) ((ps(n := Some ct)) k) k (bt_get (s_parts ?e) k)" for k
    using m n c(1,2) by (simp add: p(1) session_matches_def part_matches_def)
  ultimately show ?thesis using m t unfolding session_matches_def by simp
qed

section \<open>Create\<close>

lemma reply_fields [simp]:
  "rp_status (build_client_response resp body rid) = br_status resp" "rp_body (build_client_response resp body rid) = body"
  "rp_status (translate_response resp rid) = br_status resp"
  by (simp_all add: build_client_response_def translate_response_def)

lemma io_sessions_Ret:
  "io_sessions f s = (Ret a, t) \<longleftrightarrow>
     (\<exists>ss. f (ps_sessions (io_proxy s)) = (a, ss) \<and> t = s\<lparr> io_proxy := (io_proxy s)\<lparr> ps_sessions := ss \<rparr> \<rparr>)"
  by (cases "f (ps_sessions (io_proxy s))") (auto simp: io_sessions_def)

lemma handle_create_steps:
  assumes "handle_create E be path q hs rid s = (Ret rep, s')" "is_success (rp_status rep)"
  obtains dek b om g g' s1 s2 s3 resp xml uid bucket key now ss where
    "length dek = 32" "write_binding E (ps_config (io_proxy s)) path = Inr b"
    "wrap_active (en_crypto E) g (cf_keyring (ps_config (io_proxy s))) dek b = Some (Inr ((m_kek om, m_kid om, m_wrapped_dek om), g'))"
    "m_alg om = cf_alg (ps_config (io_proxy s))" "m_chunk_size om = cf_chunk_size (ps_config (io_proxy s))" "m_multipart om"
    "forward E be ''POST'' path q (set_meta_headers E om hs) body_empty s1 = (Ret resp, s2)" "is_success (br_status resp)"
    "ps_config (io_proxy s1) = ps_config (io_proxy s)"
    "collect_body (br_body resp) = Inr xml" "parse_single_tag E xml ''UploadId'' = Some uid" "bucket_key path = Inr (bucket, key)"
    "io_instant_now E s2 = (Ret now, s3)"
    "Sessions_create now (be_name be, bucket, key, uid) dek (m_alg om) (m_chunk_size om) (ps_sessions (io_proxy s3)) = (True, ss)"
    "s' = s3\<lparr> io_proxy := record_mpu_session_created ((io_proxy s3)\<lparr> ps_sessions := ss \<rparr>) \<rparr>"
    "rp_body rep = body_full xml"
proof -
  let ?cfg = "ps_config (io_proxy s)"
  obtain dek s0 b kek kid w s1 resp s2 xml uid bucket key now s3 ss room ss0 where
    p: "make_room (ps_sessions (io_proxy s)) = (room, ss0)"
      "io_random 32 (s\<lparr> io_proxy := (io_proxy s)\<lparr> ps_sessions := ss0 \<rparr> \<rparr>) = (Ret dek, s0)" "write_binding E ?cfg path = Inr b"
      "io_wrap_active E ?cfg dek b s0 = (Ret (kek, kid, w), s1)"
      "forward E be ''POST'' path q (set_meta_headers E \<lparr> m_alg = cf_alg ?cfg, m_kek = kek, m_kid = kid,
          m_wrapped_dek = w, m_chunk_size = cf_chunk_size ?cfg, m_multipart = True, m_emd5 = None \<rparr> hs) body_empty s1 = (Ret resp, s2)"
      "is_success (br_status resp)" "collect_body (br_body resp) = Inr xml" "parse_single_tag E xml ''UploadId'' = Some uid"
      "bucket_key path = Inr (bucket, key)" "io_instant_now E s2 = (Ret now, s3)"
      "Sessions_create now (be_name be, bucket, key, uid) dek (cf_alg ?cfg) (cf_chunk_size ?cfg) (ps_sessions (io_proxy s3)) = (True, ss)"
      "s' = s3\<lparr> io_proxy := record_mpu_session_created ((io_proxy s3)\<lparr> ps_sessions := ss \<rparr>) \<rparr>"
      "rep = build_client_response resp (body_full xml) rid"
    using assms unfolding handle_create_def io_bind_Ret io_lift_Ret io_read_def Let_def io_return_def io_sessions_Ret
    by (auto simp: io_bind_Ret io_fail_def io_lift_Ret io_modify_def io_sessions_Ret split: if_splits)
  have "length dek = 32" using p(2) fill_bytes_length [of "io_rng s" 32]
    by (cases "fill_bytes (io_rng s) 32") (simp add: io_random_def)
  moreover obtain g g' where "wrap_active (en_crypto E) g (cf_keyring ?cfg) dek b = Some (Inr ((kek, kid, w), g'))"
    using p(4) by (auto simp: io_wrap_active_def split: option.splits sum.splits)
  moreover have "ps_config (io_proxy s1) = ?cfg"
    using p(2,4) by (auto simp: io_random_def io_wrap_active_def split: prod.splits option.splits sum.splits)
  ultimately show thesis using p
    by (intro that [of dek b g "\<lparr> m_alg = cf_alg ?cfg, m_kek = kek, m_kid = kid, m_wrapped_dek = w,
          m_chunk_size = cf_chunk_size ?cfg, m_multipart = True, m_emd5 = None \<rparr>" g' s1 resp s2 xml uid bucket key now s3 ss]) simp_all
qed

lemma create_opens:
  assumes "crypto_laws E" "reads_own_writes E (ps_config (io_proxy s))" "multipart_backend E be path obj upl" "pct_plain (en_pct E)"
    and "query_has q ''uploads''" "\<forall>(n, v) \<in> set hs. \<not> is_own_metadata_header n"
    and "handle_create E be path q hs rid s = (Ret rep, s')" "is_success (rp_status rep)"
    and "parse_single_tag E (body_data (fst (rp_body rep))) ''UploadId'' = Some uid"
  shows "upload_ok E (ps_config (io_proxy s)) be path upl uid (\<lambda>_. None) s'"
proof -
  let ?cfg = "ps_config (io_proxy s)"
  note law = assms(1) [unfolded crypto_laws_def] and cfg = assms(2) [unfolded reads_own_writes_def config_ok_def]
  obtain dek b om g g' s1 s2 s3 resp xml uid' bucket key now ss where
    k: "length dek = 32" "write_binding E ?cfg path = Inr b"
      "wrap_active (en_crypto E) g (cf_keyring ?cfg) dek b = Some (Inr ((m_kek om, m_kid om, m_wrapped_dek om), g'))"
    and om: "m_alg om = cf_alg ?cfg" "m_chunk_size om = cf_chunk_size ?cfg" "m_multipart om"
    and f: "forward E be ''POST'' path q (set_meta_headers E om hs) body_empty s1 = (Ret resp, s2)" "is_success (br_status resp)"
      "ps_config (io_proxy s1) = ?cfg" "collect_body (br_body resp) = Inr xml" "parse_single_tag E xml ''UploadId'' = Some uid'"
    and r: "bucket_key path = Inr (bucket, key)" "io_instant_now E s2 = (Ret now, s3)"
      "Sessions_create now (be_name be, bucket, key, uid') dek (m_alg om) (m_chunk_size om) (ps_sessions (io_proxy s3)) = (True, ss)"
      "s' = s3\<lparr> io_proxy := record_mpu_session_created ((io_proxy s3)\<lparr> ps_sessions := ss \<rparr>) \<rparr>" "rp_body rep = body_full xml"
    by (rule handle_create_steps [OF assms(7,8)])
  have "uid' = uid" using assms(9) f(5) r(5) by (simp add: body_full_def)
  note uid = this
  obtain hs' where st: "upl (io_world s2) uid = Some (hs', \<lambda>_. None)"
    "\<And>k. bt_get (meta_headers hs') k = bt_get (meta_headers (set_meta_headers E om hs)) k"
    using create_sent [OF assms(3-5) f(1,2,4)] f(5) uid by blast
  have cs: "chunk_size_ok (m_chunk_size om)" using cfg om by simp
  have route: "route_from_headers (en_codec E) hs'' = Inr (V1 om)"
    if "\<forall>k. bt_get (meta_headers hs'') k = bt_get (meta_headers hs') k" for hs''
    by (rule route_of_keys [OF _ cs]) (use law that st(2) set_meta_headers_get [OF assms(6)] in simp_all)
  moreover have "resolve_key E ?cfg om path = Inr dek"
    by (rule resolve_written_key [OF _ _ _ _ k]) (use law cfg in simp_all)
  ultimately have "carries E ?cfg path hs' om dek" using om cs by (simp add: carries_def)
  moreover have "ss_get ss (be_name be, bucket, key, uid) = Some (Session_new now dek (m_alg om) (m_chunk_size om))"
    using r(3) uid by (auto simp: Sessions_create_def Let_def split: prod.splits if_splits)
  moreover have "upl (io_world s') uid = Some (hs', \<lambda>_. None)" using st(1) instant_Ret [OF r(2)] backend_clock(2) [OF assms(3)] r(4) by simp
  moreover have "ps_config (io_proxy s3) = ?cfg" using f(3) instant_Ret [OF r(2)] forward_proxy [OF f(1)] by simp
  then have "ps_config (io_proxy s') = ?cfg" by (simp add: r(4) record_mpu_session_created_def)
  moreover have "ps_sessions (io_proxy s') = ss" by (simp add: r(4) record_mpu_session_created_def)
  ultimately show ?thesis unfolding upload_ok_def using r(1) new_session_matches by blast
qed

section \<open>Parts\<close>

lemma large_part_sent:
  assumes "aead_correct (c_aead (en_crypto E))" "multipart_backend E be path obj upl" "pct_plain (en_pct E)"
    and "query_value E q ''uploadId'' = Some uid" "Option.bind (query_value E q ''partNumber'') parse_u32 = Some n"
    and "header_value hs ''x-amz-copy-source'' = None" "length (body_data fs) < 2 ^ 64" "0 < unat cs"
    and "send_large_part E be path q hs (fs, fin) alg dek cs pt_len n s = (Ret (resp, buffered), s')" "is_success (br_status resp)"
    and "upl (io_world s) uid = Some (h, ps)"
  shows "\<exists>ct g g'. encrypt_all (c_aead (en_crypto E)) g alg dek n (unat cs) (body_data fs) = Some (ct, g') \<and>
    length (body_data fs) = unat pt_len \<and> (buffered = None \<or> buffered = Some ct) \<and>
    upl (io_world s') uid = Some (h, ps(n := Some ct)) \<and> io_proxy s' = io_proxy s"
proof -
  let ?A = "c_aead (en_crypto E)" and ?g = "\<lambda>i. io_rng s (2 * i)"
  let ?hs = "set_header hs ''content-length'' (dec_string (unat (ciphertext_len alg pt_len (ucast cs))))"
  obtain body s1 where p: "io_encrypting E (fs, fin) alg dek cs None pt_len n s = (Ret body, s1)"
      "forward E be ''PUT'' path q ?hs body s1 = (Ret resp, s')" "buffered = None"
    using assms(9) by (auto simp: send_large_part_def io_bind_Ret io_return_def)
  obtain out e where enc: "encrypting ?A (en_md5 E) ?g (fs, fin) alg dek (unat cs) None pt_len n None = Some (out, e)"
    using assms(8) by (cases "encrypting ?A (en_md5 E) ?g (fs, fin) alg dek (unat cs) None pt_len n None")
      (auto simp: encrypting_def Encryptor_new_def)
  with p(1) have b: "body = (out, e)" "io_proxy s1 = io_proxy s" "io_world s1 = io_world s" by (auto simp: io_encrypting_def io_defs)
  have "header_value ?hs ''x-amz-copy-source'' = None"
    using assms(6) by (simp add: header_value_set_header eq_ignore_ascii_case_def lowercase_eqI)
  note st = part_sent [OF assms(2-5) this p(2) assms(10), of h ps]
  have e: "e = Eof" using st(1) assms(11) b by simp
  from encrypting_outcome [OF assms(1,7) enc] e st(2,3) assms(11) b p(3) show ?thesis by auto
qed

lemma small_part_sent:
  assumes "multipart_backend E be path obj upl" "pct_plain (en_pct E)"
    and "query_value E q ''uploadId'' = Some uid" "Option.bind (query_value E q ''partNumber'') parse_u32 = Some n"
    and "header_value hs ''x-amz-copy-source'' = None"
    and "send_small_part E be path q hs (fs, fin) alg dek cs pt_len n s = (Ret (resp, buffered), s')" "is_success (br_status resp)"
    and "upl (io_world s) uid = Some (h, ps)"
  shows "\<exists>ct g g'. encrypt_all (c_aead (en_crypto E)) g alg dek n (unat cs) (body_data fs) = Some (ct, g') \<and>
    length (body_data fs) = unat pt_len \<and> (buffered = None \<or> buffered = Some ct) \<and>
    upl (io_world s') uid = Some (h, ps(n := Some ct)) \<and> io_proxy s' = io_proxy s"
proof -
  obtain plaintext ct s1 where p: "collect_limited (unat pt_len) (fs, fin) = Inr plaintext" "length plaintext = unat pt_len"
      "io_encrypt_all E alg dek n cs plaintext s = (Ret ct, s1)"
      "forward E be ''PUT'' path q (set_header hs ''content-length'' (dec_string (length ct))) (body_full ct) s1 = (Ret resp, s')"
      "buffered = Some ct"
    using assms(6) by (auto simp: send_small_part_def io_bind_Ret io_lift_Ret io_return_def io_fail_def split: if_splits)
  have pt: "plaintext = body_data fs" using p(1) by (auto simp: collect_limited_def split: if_splits stream_end.splits)
  obtain g' where g: "encrypt_all (c_aead (en_crypto E)) (io_rng s) alg dek n (unat cs) plaintext = Some (ct, g')" "s1 = s\<lparr> io_rng := g' \<rparr>"
    using p(3) by (auto simp: io_encrypt_all_def split: option.splits)
  have "header_value (set_header hs ''content-length'' (dec_string (length ct))) ''x-amz-copy-source'' = None"
    using assms(5) by (simp add: header_value_set_header eq_ignore_ascii_case_def lowercase_eqI)
  note st = part_sent [OF assms(1-4) this p(4) assms(7), of h ps]
  from st assms(8) g p(2,5) pt show ?thesis by (auto simp: body_full_def)
qed

lemma handle_upload_part_steps:
  assumes "handle_upload_part E be path q hs body rid s = (Ret rep, s')" "is_success (rp_status rep)"
  obtains uid n bucket key entry dek pt_len resp buffered etag s1 where
    "query_value E q ''uploadId'' = Some uid" "Option.bind (query_value E q ''partNumber'') parse_u32 = Some n"
    "1 \<le> n" "n \<le> 10000" "bucket_key path = Inr (bucket, key)"
    "ss_get (ps_sessions (io_proxy s)) (be_name be, bucket, key, uid) = Some entry" "s_dek entry = Some dek"
    "(if ciphertext_len (s_alg entry) pt_len (ucast (s_chunk_size entry)) < MIN_PART_SIZE then send_small_part else send_large_part)
       E be path q hs body (s_alg entry) dek (s_chunk_size entry) pt_len n s = (Ret (resp, buffered), s1)"
    "is_success (br_status resp)"
    "record_part E (be_name be, bucket, key, uid) n pt_len etag buffered s1 = (Ret (), s')"
proof -
  define send where "send entry pt_len = (if ciphertext_len (s_alg entry) pt_len (ucast (s_chunk_size entry)) < MIN_PART_SIZE
    then send_small_part else send_large_part :: 'a env \<Rightarrow> _)" for entry :: session and pt_len :: u64
  obtain uid n bucket key entry dek pt_len resp buffered s1 etag where p:
    "query_value E q ''uploadId'' = Some uid" "Option.bind (query_value E q ''partNumber'') parse_u32 = Some n"
    "1 \<le> n" "n \<le> 10000" "bucket_key path = Inr (bucket, key)"
    "ss_get (ps_sessions (io_proxy s)) (be_name be, bucket, key, uid) = Some entry" "s_dek entry = Some dek"
    "send entry pt_len E be path q hs body (s_alg entry) dek (s_chunk_size entry) pt_len n s = (Ret (resp, buffered), s1)"
    "is_success (br_status resp)"
    "record_part E (be_name be, bucket, key, uid) n pt_len etag buffered s1 = (Ret (), s')"
    using assms unfolding handle_upload_part_def send_def [symmetric] io_bind_Ret io_lift_Ret io_read_def Let_def io_return_def
    by (auto simp: io_bind_Ret io_fail_def io_lift_Ret io_return_def split: if_splits)
  show thesis by (rule that [OF p(1-7) p(8) [unfolded send_def] p(9,10)])
qed

lemma part_recorded:
  assumes "aead_correct (c_aead (en_crypto E))" "multipart_backend E be path obj upl" "pct_plain (en_pct E)"
    and "upload_ok E cfg be path upl uid pts s"
    and "query_value E q ''uploadId'' = Some uid" "Option.bind (query_value E q ''partNumber'') parse_u32 = Some n"
    and "header_value hs ''x-amz-copy-source'' = None" "length (body_data fs) < 2 ^ 64"
    and "handle_upload_part E be path q hs (fs, fin) rid s = (Ret rep, s')" "is_success (rp_status rep)"
  shows "upload_ok E cfg be path upl uid (pts(n := Some (body_data fs))) s'"
proof -
  from assms(4) obtain bucket key entry om dek h ps where u: "ps_config (io_proxy s) = cfg" "bucket_key path = Inr (bucket, key)"
      "ss_get (ps_sessions (io_proxy s)) (be_name be, bucket, key, uid) = Some entry"
      "upl (io_world s) uid = Some (h, ps)" "carries E cfg path h om dek" "session_matches E om dek pts ps entry"
    unfolding upload_ok_def by blast
  have m: "s_dek entry = Some dek" "s_alg entry = m_alg om" "s_chunk_size entry = m_chunk_size om" using u(6) by (simp_all add: session_matches_def)
  have cs: "0 < unat (m_chunk_size om)" using u(5) chunk_size_okD [of "m_chunk_size om"] by (simp add: carries_def)
  from handle_upload_part_steps [OF assms(9,10)] obtain uid' n' bucket' key' entry' dek' pt_len resp buffered etag s1 where
    st: "query_value E q ''uploadId'' = Some uid'" "Option.bind (query_value E q ''partNumber'') parse_u32 = Some n'"
      "1 \<le> n'" "n' \<le> 10000" "bucket_key path = Inr (bucket', key')"
      "ss_get (ps_sessions (io_proxy s)) (be_name be, bucket', key', uid') = Some entry'" "s_dek entry' = Some dek'"
      "(if ciphertext_len (s_alg entry') pt_len (ucast (s_chunk_size entry')) < MIN_PART_SIZE then send_small_part else send_large_part)
         E be path q hs (fs, fin) (s_alg entry') dek' (s_chunk_size entry') pt_len n' s = (Ret (resp, buffered), s1)"
      "is_success (br_status resp)" "record_part E (be_name be, bucket', key', uid') n' pt_len etag buffered s1 = (Ret (), s')"
    by metis
  have same: "uid' = uid" "n' = n" "bucket' = bucket" "key' = key" "entry' = entry" "dek' = dek"
    using st(1,2,5-7) assms(5,6) u(2,3) m(1) by auto
  note run = st(8) [unfolded same m]
  have "\<exists>ct g g'. encrypt_all (c_aead (en_crypto E)) g (m_alg om) dek n (unat (m_chunk_size om)) (body_data fs) = Some (ct, g') \<and>
      length (body_data fs) = unat pt_len \<and> (buffered = None \<or> buffered = Some ct) \<and>
      upl (io_world s1) uid = Some (h, ps(n := Some ct)) \<and> io_proxy s1 = io_proxy s"
  proof (cases "ciphertext_len (m_alg om) pt_len (ucast (m_chunk_size om)) < MIN_PART_SIZE")
    case True
    show ?thesis by (rule small_part_sent [OF assms(2,3,5-7) run [unfolded if_P [OF True]] st(9) u(4)])
  next
    case False
    show ?thesis by (rule large_part_sent [OF assms(1-3,5-8) cs run [unfolded if_not_P [OF False]] st(9) u(4)])
  qed
  then obtain ct g g' where c: "encrypt_all (c_aead (en_crypto E)) g (m_alg om) dek n (unat (m_chunk_size om)) (body_data fs) = Some (ct, g')"
      "length (body_data fs) = unat pt_len" "buffered = None \<or> buffered = Some ct"
      "upl (io_world s1) uid = Some (h, ps(n := Some ct))" "io_proxy s1 = io_proxy s"
    by blast
  obtain now where r: "s' = s1\<lparr> io_world := snd (en_instant_now E (io_world s1)),
      io_proxy := (io_proxy s1)\<lparr> ps_sessions := ss_update (be_name be, bucket, key, uid) (Session_record_part now n pt_len etag buffered)
        (ps_sessions (io_proxy s1)) \<rparr> \<rparr>"
    using st(10) same by (auto simp: record_part_def io_bind_Ret io_update_session_def io_sessions_Ret dest!: instant_Ret)
  have "session_matches E om dek (pts(n := Some (body_data fs))) (ps(n := Some ct)) (Session_record_part now n pt_len etag buffered entry)"
    by (rule recorded_session_matches [OF u(6) st(3,4) [unfolded same] _ c(2,3)]) (use c(1) in \<open>auto simp: encrypts_part_def\<close>)
  moreover have "ss_get (ps_sessions (io_proxy s')) (be_name be, bucket, key, uid) = Some (Session_record_part now n pt_len etag buffered entry)"
    using u(3) c(5) by (simp add: r)
  moreover have "upl (io_world s') uid = Some (h, ps(n := Some ct))" using c(4) backend_clock(2) [OF assms(2)] by (simp add: r)
  moreover have "ps_config (io_proxy s') = cfg" using u(1) c(5) by (simp add: r)
  ultimately show ?thesis unfolding upload_ok_def using u(2,5) by blast
qed

section \<open>The life of an upload\<close>

text \<open>An upload through the proxy: created, then parts in any order, each number any number of times, with anything else
  in between that leaves the session and the backend's upload alone. Its abstract state is the last plaintext sent for
  each number.\<close>

inductive upload ::
  "'w env \<Rightarrow> config \<Rightarrow> backend \<Rightarrow> string \<Rightarrow> ('w \<Rightarrow> string \<Rightarrow> upload_state option) \<Rightarrow> string \<Rightarrow> (u32 \<Rightarrow> bytes option) \<Rightarrow> 'w io_state \<Rightarrow> bool"
  for E cfg be path upl uid where
  created: "ps_config (io_proxy s) = cfg \<Longrightarrow> query_has q ''uploads'' \<Longrightarrow>
     handle_create E be path q (outbound_headers_of hs) rid s = (Ret rep, s') \<Longrightarrow> is_success (rp_status rep) \<Longrightarrow>
     parse_single_tag E (body_data (fst (rp_body rep))) ''UploadId'' = Some uid \<Longrightarrow> upload E cfg be path upl uid (\<lambda>_. None) s'"
| part: "upload E cfg be path upl uid pts s \<Longrightarrow>
     query_value E q ''uploadId'' = Some uid \<Longrightarrow> Option.bind (query_value E q ''partNumber'') parse_u32 = Some n \<Longrightarrow>
     header_value (outbound_headers_of hs) ''x-amz-copy-source'' = None \<Longrightarrow> length (body_data fs) < 2 ^ 64 \<Longrightarrow>
     handle_upload_part E be path q (outbound_headers_of hs) (fs, fin) rid s = (Ret rep, s') \<Longrightarrow> is_success (rp_status rep) \<Longrightarrow>
     upload E cfg be path upl uid (pts(n := Some (body_data fs))) s'"
| other: "upload E cfg be path upl uid pts s \<Longrightarrow> ps_config (io_proxy s') = cfg \<Longrightarrow>
     (\<forall>bucket key. bucket_key path = Inr (bucket, key) \<longrightarrow>
        ss_get (ps_sessions (io_proxy s')) (be_name be, bucket, key, uid) = ss_get (ps_sessions (io_proxy s)) (be_name be, bucket, key, uid)) \<Longrightarrow>
     upl (io_world s') uid = upl (io_world s) uid \<Longrightarrow> upload E cfg be path upl uid pts s'"

lemma outbound_no_own: "\<forall>(n, v) \<in> set (outbound_headers_of hs). \<not> is_own_metadata_header n"
  using outbound_clean [of hs] stripped_iff unfolding filter_empty_conv by fastforce

lemma upload_invariant:
  assumes "crypto_laws E" "reads_own_writes E cfg" "multipart_backend E be path obj upl" "pct_plain (en_pct E)"
  shows "upload E cfg be path upl uid pts s \<Longrightarrow> upload_ok E cfg be path upl uid pts s"
proof (induction rule: upload.induct)
  case (created s q hs rid rep s')
  then show ?case using create_opens [OF assms(1) _ assms(3,4) created(2) outbound_no_own created(3-5)] assms(2) by simp
next
  case (part pts s q n hs fs fin rid rep s')
  have "aead_correct (c_aead (en_crypto E))" using assms(1) by (simp add: crypto_laws_def)
  from part_recorded [OF this assms(3,4) part.IH part.hyps(2-7)] show ?case .
next
  case (other pts s s')
  then show ?case unfolding upload_ok_def by fastforce
qed

section \<open>Complete\<close>

text \<open>The stored bytes of a list of parts.\<close>

definition pick :: "(u32 \<Rightarrow> bytes option) \<Rightarrow> u32 \<times> string \<Rightarrow> bytes" where
  "pick ps p = (case ps (fst p) of Some b \<Rightarrow> b | None \<Rightarrow> [])"

lemma pick_eq: "(\<lambda>(n, _). case ps n of Some b \<Rightarrow> b | None \<Rightarrow> []) = pick ps"
  by (auto simp: pick_def fun_eq_iff)

lemma parts_ascending_sorted: "parts_ascending cp \<Longrightarrow> sorted_wrt (<) (map fst cp)"
proof (induction cp rule: parts_ascending.induct)
  case (1 a b cp)
  then show ?case by (auto simp: less_trans)
qed simp_all

lemma last_is_max:
  assumes "cp \<noteq> []" "sorted_wrt (<) (map fst cp)" "m = Max (set (map fst cp))"
  obtains cs e where "cp = cs @ [(m, e)]" "\<forall>(n, _) \<in> set cs. n < m"
proof -
  obtain cs n e where cp: "cp = cs @ [(n, e)]" using assms(1) by (cases cp rule: rev_cases) auto
  have lt: "\<forall>(k, _) \<in> set cs. k < n" using assms(2) by (auto simp: cp sorted_wrt_append)
  have "Max (set (map fst cp)) = n"
    using lt by (intro Max_eqI) (auto simp: cp less_imp_le)
  with that [of cs e] cp lt assms(3) show thesis by simp
qed

lemma pick_below: "\<forall>(n, _) \<in> set cs. n < (m :: u32) \<Longrightarrow> m \<le> k \<Longrightarrow> concat (map (pick (ps(k := x))) cs) = concat (map (pick ps) cs)"
  by (induction cs) (auto simp: pick_def)

lemma upload_raw_part_sent:
  assumes "multipart_backend E be path obj upl" "pct_plain (en_pct E)" "pct_ok (en_pct E)" "rust_string E uid"
    and "upload_raw_part E be path uid n ct s = (Ret etag, s')" "upl (io_world s) uid = Some (h, ps)"
  shows "upl (io_world s') uid = Some (h, ps(n := Some ct))" "io_proxy s' = io_proxy s"
proof -
  let ?q = "''partNumber='' @ dec_string (unat n) @ ''&uploadId='' @ percent_encode (en_pct E) NON_ALPHANUMERIC (str_bytes uid)"
  obtain resp where f: "forward E be ''PUT'' path ?q (set_header [] ''content-length'' (dec_string (length ct))) (body_full ct) s = (Ret resp, s')"
      "is_success (br_status resp)"
    using assms(5) by (auto simp: upload_raw_part_def io_bind_Ret io_lift_Ret io_fail_def split: if_splits)
  have "header_value (set_header [] ''content-length'' (dec_string (length ct))) ''x-amz-copy-source'' = None"
    by (simp add: set_header_def header_value_def eq_ignore_ascii_case_def lowercase_eqI)
  note st = part_sent [OF assms(1,2) own_part_query [OF assms(3,2,4)] this f assms(6)]
  from st(2,3) show "upl (io_world s') uid = Some (h, ps(n := Some ct))" "io_proxy s' = io_proxy s" by (simp_all add: body_full_def)
qed

lemma finalize_parts_sent:
  assumes "multipart_backend E be path obj upl" "pct_plain (en_pct E)" "pct_ok (en_pct E)" "rust_string E uid"
    and "finalize_parts E be path uid m tail cp sealed s = (Ret final, s')" "upl (io_world s) uid = Some (h, ps)"
    and "cp \<noteq> []" "sorted_wrt (<) (map fst cp)" "m = Max (set (map fst cp))" "\<And>ct. tail = Some ct \<Longrightarrow> ps m = Some ct"
  shows "\<exists>ps'. upl (io_world s') uid = Some (h, ps') \<and> concat (map (pick ps') final) = concat (map (pick ps) cp) @ sealed"
    "io_proxy s' = io_proxy s"
proof -
  obtain cs e where cp: "cp = cs @ [(m, e)]" "\<forall>(n, _) \<in> set cs. n < m" using last_is_max [OF assms(7-9)] by blast
  have "(\<exists>ps'. upl (io_world s') uid = Some (h, ps') \<and> concat (map (pick ps') final) = concat (map (pick ps) cp) @ sealed) \<and>
    io_proxy s' = io_proxy s"
  proof (cases tail)
    case (Some ct)
    with assms(5) obtain etag where f: "upload_raw_part E be path uid m (ct @ sealed) s = (Ret etag, s')"
      "final = map (\<lambda>(n, e). if n = m then (n, etag) else (n, e)) cp"
      by (auto simp: finalize_parts_def io_bind_Ret io_return_def)
    note st = upload_raw_part_sent [OF assms(1-4) f(1) assms(6)]
    have "concat (map (pick (ps(m := Some (ct @ sealed)))) final) = concat (map (pick (ps(m := Some (ct @ sealed)))) cp)"
      unfolding f(2) by (intro arg_cong [of _ _ concat]) (auto simp: pick_def)
    also have "\<dots> = concat (map (pick ps) cp) @ sealed"
      using pick_below [OF cp(2) order_refl, of ps] assms(10) [OF Some] by (simp add: cp(1)) (simp add: pick_def)
    finally show ?thesis using st by blast
  next
    case None
    with assms(5) obtain etag where f: "upload_raw_part E be path uid (m + 1) sealed s = (Ret etag, s')"
      "final = cp @ [(m + 1, etag)]" "m \<noteq> - 1"
      by (auto simp: finalize_parts_def io_bind_Ret io_return_def io_fail_def split: if_splits)
    note st = upload_raw_part_sent [OF assms(1-4) f(1) assms(6)]
    have "1 + m \<noteq> 0" using f(3) by (metis add_eq_0_iff)
    then have lt: "m < m + 1" by (simp add: word_less_nat_alt unatSuc add.commute)
    then have "\<forall>(n, _) \<in> set cp. n < m + 1" using cp by auto
    then have "concat (map (pick (ps(m + 1 := Some sealed))) final) = concat (map (pick ps) cp) @ sealed"
      using pick_below [of cp "m + 1" "m + 1" ps "Some sealed"] by (simp add: f(2)) (simp add: pick_def)
    with st show ?thesis by blast
  qed
  then show "\<exists>ps'. upl (io_world s') uid = Some (h, ps') \<and> concat (map (pick ps') final) = concat (map (pick ps) cp) @ sealed"
    "io_proxy s' = io_proxy s" by simp_all
qed

lemma complete_upload_steps:
  assumes "complete_upload E be path q hs sk uid cp m snap pt_total rid s = (Ret rep, s')" "is_success (rp_status rep)"
  obtains g s1 s2 s3 final resp now ca where
    "s1 = s\<lparr> io_rng := g \<rparr>"
    "finalize_parts E be path uid m (sn_tail snap) cp (fst (Footer_seal (c_aead (en_crypto E)) (io_rng s) (sn_dek snap)
       \<lparr> f_alg = sn_alg snap, f_parts = sn_parts snap, f_total_pt = pt_total, f_md5 = None \<rparr>)) s1 = (Ret final, s2)"
    "forward E be ''POST'' path q (set_header hs ''content-length'' (dec_string (length (build_complete_xml final))))
       (body_full (str_bytes (build_complete_xml final))) s2 = (Ret resp, s3)"
    "is_success (br_status resp)" "collect_body (br_body resp) = Inr (body_data (fst (rp_body rep)))"
    "s' = s3\<lparr> io_world := snd (en_instant_now E (io_world s3)),
        io_proxy := (io_proxy s3)\<lparr> ps_sessions := ss_update sk (finish now ca) (ps_sessions (io_proxy s3)) \<rparr> \<rparr>"
proof -
  let ?f = "\<lparr> f_alg = sn_alg snap, f_parts = sn_parts snap, f_total_pt = pt_total, f_md5 = None \<rparr>"
  let ?seal = "\<lambda>g. Footer_seal (c_aead (en_crypto E)) g (sn_dek snap) ?f"
  obtain sealed s1 final s2 resp s3 out where
    p: "io_drawing ?seal s = (Ret sealed, s1)"
      "finalize_parts E be path uid m (sn_tail snap) cp sealed s1 = (Ret final, s2)"
      "forward E be ''POST'' path q (set_header hs ''content-length'' (dec_string (length (build_complete_xml final))))
         (body_full (str_bytes (build_complete_xml final))) s2 = (Ret resp, s3)"
      "collect_body (br_body resp) = Inr out" "rep = build_client_response resp (body_full out) rid"
    and t: "(if is_success (br_status resp) then io_bind (io_instant_now E) (\<lambda>now. io_update_session sk (finish now
             \<lparr> ca_status = br_status resp, ca_headers = br_headers resp, ca_body = out \<rparr>))
           else io_update_session sk (\<lambda>s. s\<lparr> s_completing := False \<rparr>)) s3 = (Ret (), s')"
    using assms(1) unfolding complete_upload_def Let_def io_bind_Ret io_lift_Ret io_return_def
    by (auto simp: io_bind_Ret io_lift_Ret)
  have ok: "is_success (br_status resp)" using assms(2) p(5) by simp
  then obtain now where "s' = s3\<lparr> io_world := snd (en_instant_now E (io_world s3)),
      io_proxy := (io_proxy s3)\<lparr> ps_sessions := ss_update sk (finish now
        \<lparr> ca_status = br_status resp, ca_headers = br_headers resp, ca_body = out \<rparr>) (ps_sessions (io_proxy s3)) \<rparr> \<rparr>"
    using t by (auto simp: io_bind_Ret io_update_session_def io_sessions_Ret dest!: instant_Ret)
  moreover obtain g where "sealed = fst (?seal (io_rng s))" "s1 = s\<lparr> io_rng := g \<rparr>"
    using p(1) by (cases "?seal (io_rng s)") (auto simp: io_drawing_def)
  ultimately show thesis using that p ok by (simp add: body_full_def)
qed

lemma claim_Ret:
  assumes "claim_completion E sk uid rid s = (Ret r, s')" "ss_get (ps_sessions (io_proxy s)) sk = Some entry" "s_completed entry = None"
  shows "r = None \<and> io_world s' = io_world s \<and> ps_config (io_proxy s') = ps_config (io_proxy s)"
  using assms by (auto simp: claim_completion_def io_bind_Ret io_lift_Ret io_read_def io_fail_def io_return_def
      io_update_session_def io_sessions_Ret split: if_splits)

lemma releasing_Ret: "releasing_claim sk m s = (Ret r, s') \<longleftrightarrow> m s = (Ret r, s')"
  by (auto simp: releasing_claim_def split: prod.splits io_result.splits)

lemma handle_complete_steps:
  assumes "handle_complete E be path q hs body rid s = (Ret rep, s')" "is_success (rp_status rep)"
    and "query_value E q ''uploadId'' = Some uid" "bucket_key path = Inr (bucket, key)"
    and "ss_get (ps_sessions (io_proxy s)) (be_name be, bucket, key, uid) = Some entry" "s_completed entry = None"
  obtains xml cp m snap s2 where
    "collect_limited MAX_COMPLETE_XML_BYTES body = Inr xml" "parse_complete_xml E xml = Inr cp" "validate_client_parts cp = Inr m"
    "snapshot_for_complete entry cp m uid = Inr snap" "io_world s2 = snd (en_instant_now E (io_world s))"
    "complete_upload E be path q hs (be_name be, bucket, key, uid) uid cp m snap (sum_list (map snd (sn_parts snap))) rid s2 = (Ret rep, s')"
proof -
  let ?sk = "(be_name be, bucket, key, uid)"
  have early: "cached_response_for_session E ?sk uid rid s = (Ret None, s)"
    using assms(5,6) by (simp add: cached_response_for_session_def io_defs ok_or_def)
  obtain xml cp m now s1 s2 snap raced where
    p: "collect_limited MAX_COMPLETE_XML_BYTES body = Inr xml" "parse_complete_xml E xml = Inr cp" "validate_client_parts cp = Inr m"
      "io_instant_now E s = (Ret now, s1)"
      "snapshot_for_complete entry cp m uid = Inr snap"
      "claim_completion E ?sk uid rid (s1\<lparr> io_proxy := (io_proxy s1)\<lparr> ps_sessions := ss_update ?sk (touch now) (ps_sessions (io_proxy s1)) \<rparr> \<rparr>) = (Ret raced, s2)"
    and t: "(case raced of Some resp \<Rightarrow> io_return resp | None \<Rightarrow> releasing_claim ?sk
       (complete_upload E be path q hs ?sk uid cp m snap (sum_list (map snd (sn_parts snap))) rid)) s2 = (Ret rep, s')"
    using assms(1) assms(3-6) early unfolding handle_complete_def Let_def io_bind_Ret io_lift_Ret io_read_def
    by (auto simp: io_bind_Ret io_lift_Ret io_update_session_def io_sessions_Ret)
  let ?s1 = "s1\<lparr> io_proxy := (io_proxy s1)\<lparr> ps_sessions := ss_update ?sk (touch now) (ps_sessions (io_proxy s1)) \<rparr> \<rparr>"
  have "ss_get (ps_sessions (io_proxy ?s1)) ?sk = Some (touch now entry)" "s_completed (touch now entry) = None"
    using assms(5,6) instant_Ret [OF p(4)] by (simp_all add: touch_def)
  from claim_Ret [OF p(6) this] have "raced = None" "io_world s2 = snd (en_instant_now E (io_world s))"
    using instant_Ret [OF p(4)] by simp_all
  with that p t show thesis by (simp add: releasing_Ret)
qed

text \<open>The abstract meaning of a completed upload: the listed parts with the plaintexts sent for them.\<close>

definition pieces :: "(u32 \<Rightarrow> bytes option) \<Rightarrow> (u32 \<times> string) list \<Rightarrow> (u32 \<times> bytes) list" where
  "pieces pts cp = map (\<lambda>(n, _). (n, case pts n of Some pt \<Rightarrow> pt | None \<Rightarrow> [])) cp"

definition parts_footer :: "object_meta \<Rightarrow> (u32 \<times> bytes) list \<Rightarrow> footer" where
  "parts_footer om qs = \<lparr> f_alg = m_alg om, f_parts = sizes qs, f_total_pt = sum_list (map snd (sizes qs)), f_md5 = None \<rparr>"

definition stands_for_parts :: "'w env \<Rightarrow> config \<Rightarrow> string \<Rightarrow> headers \<times> bytes \<Rightarrow> (u32 \<times> bytes) list \<Rightarrow> bool" where
  "stands_for_parts E cfg path ob qs \<longleftrightarrow> (\<exists>om dek cts g. carries E cfg path (fst ob) om dek \<and>
     encrypted_parts (c_aead (en_crypto E)) (m_alg om) dek (ucast (m_chunk_size om)) qs cts \<and>
     sorted_wrt (<) (map fst qs) \<and> (\<forall>(n, _) \<in> set qs. 1 \<le> n \<and> n \<le> 10000) \<and>
     snd ob = concat cts @ fst (Footer_seal (c_aead (en_crypto E)) g dek (parts_footer om qs)))"

lemma check_recorded_Inr: "check_recorded recorded cp = Inr () \<Longrightarrow> (n, e) \<in> set cp \<Longrightarrow> bt_get recorded n \<noteq> None"
  by (induction recorded cp rule: check_recorded.induct) (auto split: option.splits if_splits)

lemma ucast_chunk: "chunk_size_ok c \<Longrightarrow> unat (ucast c :: u64) = unat c"
  using chunk_size_okD [of c] by (simp add: unsigned_ucast_eq take_bit_nat_eq_self)

lemma snapshot_facts:
  assumes m: "session_matches E om dek pts ps entry" and s: "snapshot_for_complete entry cp k uid = Inr snap"
    and cs: "chunk_size_ok (m_chunk_size om)"
  shows "sn_alg snap = m_alg om" "sn_dek snap = dek" "sn_parts snap = sizes (pieces pts cp)"
    "\<And>ct. sn_tail snap = Some ct \<Longrightarrow> ps k = Some ct"
    "\<forall>(n, _) \<in> set cp. 1 \<le> n \<and> n \<le> 10000 \<and> pts n \<noteq> None"
    "encrypted_parts (c_aead (en_crypto E)) (m_alg om) dek (ucast (m_chunk_size om)) (pieces pts cp) (map (pick ps) cp)"
proof -
  have c: "check_recorded (s_parts entry) cp = Inr ()" and snap: "snap = \<lparr> sn_alg = s_alg entry, sn_dek = dek, sn_chunk_size = s_chunk_size entry,
      sn_parts = map (\<lambda>(n, _). (n, case bt_get (s_parts entry) n of Some r \<Rightarrow> pr_pt_len r | None \<Rightarrow> 0)) cp, sn_tail = bt_get (s_tails entry) k \<rparr>"
    using s m by (auto simp: snapshot_for_complete_def session_matches_def rbind_def ok_or_def split: sum.splits)
  show "sn_alg snap = m_alg om" "sn_dek snap = dek" "\<And>ct. sn_tail snap = Some ct \<Longrightarrow> ps k = Some ct"
    using m by (simp_all add: snap session_matches_def)
  have rec: "\<exists>r pt ct. bt_get (s_parts entry) n = Some r \<and> 1 \<le> n \<and> n \<le> 10000 \<and> pts n = Some pt \<and> ps n = Some ct \<and>
      word_of_nat (length pt) = pr_pt_len r \<and> encrypts_part E om dek n pt ct" if mem: "(n, e) \<in> set cp" for n e
  proof -
    obtain r where "bt_get (s_parts entry) n = Some r" using check_recorded_Inr [OF c mem] by blast
    moreover have "part_matches E om dek (pts n) (ps n) n (bt_get (s_parts entry) n)" using m by (simp add: session_matches_def)
    ultimately show ?thesis by (auto simp: part_matches_def)
  qed
  show "\<forall>(n, _) \<in> set cp. 1 \<le> n \<and> n \<le> 10000 \<and> pts n \<noteq> None" using rec by fastforce
  show "sn_parts snap = sizes (pieces pts cp)"
    using rec by (fastforce simp: snap pieces_def)
  have "list_all2 (\<lambda>p ct. \<exists>g g'. encrypt_all (c_aead (en_crypto E)) g (m_alg om) dek (fst p) (unat (m_chunk_size om)) (snd p) = Some (ct, g'))
      (pieces pts cp) (map (pick ps) cp)"
    using rec unfolding pieces_def list_all2_map1 list_all2_map2
    by (auto simp: list_all2_same pick_def encrypts_part_def) (metis option.simps(5))
  then show "encrypted_parts (c_aead (en_crypto E)) (m_alg om) dek (ucast (m_chunk_size om)) (pieces pts cp) (map (pick ps) cp)"
    by (simp add: encrypted_parts_def ucast_chunk [OF cs])
qed

lemma complete_stores:
  assumes "multipart_backend E be path obj upl" "pct_plain (en_pct E)" "pct_ok (en_pct E)" "rust_string E uid"
    and "upload_ok E cfg be path upl uid pts s" "query_value E q ''uploadId'' = Some uid"
    and "handle_complete E be path q hs body rid s = (Ret rep, s')" "is_success (rp_status rep)"
    and "\<not> late_error (body_data (fst (rp_body rep)))"
  shows "\<exists>xml cp ob. collect_limited MAX_COMPLETE_XML_BYTES body = Inr xml \<and> parse_complete_xml E xml = Inr cp \<and>
    (\<forall>(n, _) \<in> set cp. pts n \<noteq> None) \<and> obj (io_world s') = Some ob \<and> stands_for_parts E cfg path ob (pieces pts cp)"
proof -
  from assms(5) obtain bucket key entry om dek h ps where u: "bucket_key path = Inr (bucket, key)"
      "ss_get (ps_sessions (io_proxy s)) (be_name be, bucket, key, uid) = Some entry"
      "upl (io_world s) uid = Some (h, ps)" "carries E cfg path h om dek" "session_matches E om dek pts ps entry"
    unfolding upload_ok_def by blast
  have open_entry: "s_completed entry = None" using u(5) by (simp add: session_matches_def)
  have cs: "chunk_size_ok (m_chunk_size om)" using u(4) by (simp add: carries_def)
  obtain xml cp m snap s2 where p: "collect_limited MAX_COMPLETE_XML_BYTES body = Inr xml" "parse_complete_xml E xml = Inr cp"
      "validate_client_parts cp = Inr m" "snapshot_for_complete entry cp m uid = Inr snap"
      "io_world s2 = snd (en_instant_now E (io_world s))"
      "complete_upload E be path q hs (be_name be, bucket, key, uid) uid cp m snap (sum_list (map snd (sn_parts snap))) rid s2 = (Ret rep, s')"
    by (rule handle_complete_steps [OF assms(7,8,6) u(1,2) open_entry])
  have v: "cp \<noteq> []" "sorted_wrt (<) (map fst cp)" "m = Max (set (map fst cp))"
    using p(3) by (auto simp: validate_client_parts_def intro: parts_ascending_sorted split: if_splits)
  note sf = snapshot_facts [OF u(5) p(4) cs]
  obtain g s3 s4 s5 final resp now ca where c: "s3 = s2\<lparr> io_rng := g \<rparr>"
      "finalize_parts E be path uid m (sn_tail snap) cp (fst (Footer_seal (c_aead (en_crypto E)) (io_rng s2) (sn_dek snap)
         \<lparr> f_alg = sn_alg snap, f_parts = sn_parts snap, f_total_pt = sum_list (map snd (sn_parts snap)), f_md5 = None \<rparr>)) s3 = (Ret final, s4)"
      "forward E be ''POST'' path q (set_header hs ''content-length'' (dec_string (length (build_complete_xml final))))
         (body_full (str_bytes (build_complete_xml final))) s4 = (Ret resp, s5)"
      "is_success (br_status resp)" "collect_body (br_body resp) = Inr (body_data (fst (rp_body rep)))"
      "s' = s5\<lparr> io_world := snd (en_instant_now E (io_world s5)),
        io_proxy := (io_proxy s5)\<lparr> ps_sessions := ss_update (be_name be, bucket, key, uid) (finish now ca) (ps_sessions (io_proxy s5)) \<rparr> \<rparr>"
    by (rule complete_upload_steps [OF p(6) assms(8)])
  let ?sealed = "fst (Footer_seal (c_aead (en_crypto E)) (io_rng s2) dek (parts_footer om (pieces pts cp)))"
  have fin: "finalize_parts E be path uid m (sn_tail snap) cp ?sealed s3 = (Ret final, s4)"
    using c(2) by (simp only: sf(1-3) parts_footer_def)
  have "upl (io_world s3) uid = Some (h, ps)" using u(3) p(5) c(1) backend_clock(2) [OF assms(1)] by simp
  from finalize_parts_sent(1) [OF assms(1-4) fin this v sf(4)]
  obtain ps' where f: "upl (io_world s4) uid = Some (h, ps')" "concat (map (pick ps') final) = concat (map (pick ps) cp) @ ?sealed" by blast
  have "\<not> late_error (body_data (fst (br_body resp)))" using assms(9) c(5) by (simp add: collect_body_def split: option.splits)
  from complete_sent [OF assms(1,2,6) c(3,4) this f(1)]
  have "obj (io_world s5) = Some (h, concat (map (pick ps') final))" by (simp add: pick_eq)
  then have ob: "obj (io_world s') = Some (h, concat (map (pick ps) cp) @ ?sealed)"
    using c(6) backend_clock(3) [OF assms(1)] f(2) by simp
  have "map fst (pieces pts cp) = map fst cp" by (simp add: pieces_def comp_def case_prod_beta)
  moreover have "\<forall>(n, _) \<in> set (pieces pts cp). 1 \<le> n \<and> n \<le> 10000" using sf(5) by (auto simp: pieces_def)
  ultimately have "stands_for_parts E cfg path (h, concat (map (pick ps) cp) @ ?sealed) (pieces pts cp)"
    unfolding stands_for_parts_def using u(4) sf(6) v(2)
    by (intro exI [of _ om] exI [of _ dek] exI [of _ "map (pick ps) cp"] exI [of _ "io_rng s2"] conjI) simp_all
  moreover have "\<forall>(n, _) \<in> set cp. pts n \<noteq> None" using sf(5) by auto
  ultimately show ?thesis using p(1,2) ob by blast
qed

section \<open>Reading the parts back\<close>

text \<open>Ranged reads: a GET changes nothing, and a successful answer to a range within the object is that slice.
  \<open>ranges_answered\<close> says that the backend is there: ranged reads of an object that exists succeed.\<close>

abbreviation byte_range_header :: "nat \<Rightarrow> nat \<Rightarrow> string" where
  "byte_range_header a z \<equiv> ''bytes='' @ dec_string a @ ''-'' @ dec_string z"

definition range_backend :: "'w env \<Rightarrow> backend \<Rightarrow> string \<Rightarrow> ('w \<Rightarrow> (headers \<times> bytes) option) \<Rightarrow> bool" where
  "range_backend E be path obj \<longleftrightarrow>
     (\<forall>w rq resp w'. en_send E w rq = (Answered resp, w') \<and> at_query E be path '''' (rq_uri rq) \<and> rq_method rq = ''GET'' \<longrightarrow>
        obj w' = obj w \<and>
        (\<forall>hs b a z. obj w = Some (hs, b) \<and> is_success (br_status resp) \<and> a \<le> z \<and> z < length b \<and>
           header_value (rq_headers rq) ''range'' = Some (byte_range_header a z) \<longrightarrow>
             body_data (fst (br_body resp)) = subrange a (Suc z) b \<and> snd (br_body resp) = None))"

definition ranges_answered :: "'w env \<Rightarrow> backend \<Rightarrow> string \<Rightarrow> ('w \<Rightarrow> (headers \<times> bytes) option) \<Rightarrow> bool" where
  "ranges_answered E be path obj \<longleftrightarrow> (\<forall>s a z. obj (io_world s) \<noteq> None \<longrightarrow>
     (\<exists>resp s'. forward E be ''GET'' path '''' (set_header [] ''range'' (byte_range_header a z)) body_empty s = (Ret resp, s') \<and>
        is_success (br_status resp)))"

lemma filter_empty_query [simp]: "filter_query P '''' ds = ''''"
  by (simp add: filter_query_def)

lemma ranged_get_slice:
  assumes "\<And>w. obj (snd (en_system_now E w)) = obj w" "range_backend E be path obj" "ranges_answered E be path obj"
    and "obj (io_world s) = Some (hs, b)" "unat a \<le> unat z" "unat z < length b"
  shows "\<exists>s'. ranged_get E be path a z what s = (Ret (subrange (unat a) (Suc (unat z)) b), s') \<and>
    obj (io_world s') = Some (hs, b) \<and> io_proxy s' = io_proxy s"
proof -
  let ?hs = "set_header [] ''range'' (byte_range_header (unat a) (unat z))"
  obtain resp s' where f: "forward E be ''GET'' path '''' ?hs body_empty s = (Ret resp, s')" "is_success (br_status resp)"
    using assms(3,4) unfolding ranges_answered_def by blast
  from forward_sent [OF f(1)] obtain w rq where r: "w = snd (en_system_now E (io_world s))" "en_send E w rq = (Answered resp, io_world s')"
    "at_query E be path '''' (rq_uri rq)" "rq_method rq = ''GET''" "header_value (rq_headers rq) ''range'' = header_value ?hs ''range''"
    "io_proxy s' = io_proxy s" by (metis filter_empty_query)
  have "header_value ?hs ''range'' = Some (byte_range_header (unat a) (unat z))"
    by (simp add: header_value_set_header eq_ignore_ascii_case_def)
  moreover have "obj w = Some (hs, b)" using assms(1,4) r(1) by simp
  ultimately have "obj (io_world s') = Some (hs, b)" "body_data (fst (br_body resp)) = subrange (unat a) (Suc (unat z)) b" "snd (br_body resp) = None"
    using assms(2,5,6) r(2-5) f(2) unfolding range_backend_def by metis+
  with f r(6) show ?thesis by (simp add: ranged_get_def io_defs collect_body_def map_err_def)
qed

lemma out_of_order_sorted: "sorted_wrt (<) (map fst ps) \<Longrightarrow> \<not> out_of_order ps"
  by (induction ps rule: out_of_order.induct) auto

lemma few_parts:
  assumes "sorted_wrt (<) (map fst qs)" "\<forall>(n, _) \<in> set qs. 1 \<le> (n :: u32) \<and> n \<le> 10000"
  shows "length qs \<le> 10000"
proof -
  have "distinct (map fst qs)" using assms(1) strict_sorted_iff by blast
  then have "length qs = card (unat ` fst ` set qs)"
    using card_image [of unat "fst ` set qs"] distinct_card [of "map fst qs"] by (simp add: inj_on_def unsigned_word_eqI)
  also have "unat ` fst ` set qs \<subseteq> {1..10000}" using assms(2) by (auto simp: word_le_nat_alt)
  then have "card (unat ` fst ` set qs) \<le> card {1 :: nat..10000}" by (intro card_mono) auto
  finally show ?thesis by simp
qed

lemma parts_footer_wf:
  assumes "sorted_wrt (<) (map fst qs)" "\<forall>(n, _) \<in> set qs. 1 \<le> n \<and> n \<le> 10000"
  shows "footer_wf (parts_footer om qs)" "length (f_parts (parts_footer om qs)) \<le> 10000"
proof -
  have "sorted_wrt (<) (map fst (sizes qs))" using assms(1) by (simp add: comp_def case_prod_beta)
  then show "footer_wf (parts_footer om qs)"
    using few_parts [OF assms] by (simp add: footer_wf_def parts_footer_def out_of_order_sorted)
  show "length (f_parts (parts_footer om qs)) \<le> 10000" using few_parts [OF assms] by (simp add: parts_footer_def)
qed

text \<open>Loading the footer from its object.\<close>

lemma fetch_footer_reads:
  assumes "\<And>w. obj (snd (en_system_now E w)) = obj w" "range_backend E be path obj" "ranges_answered E be path obj"
    and "aead_correct (c_aead (en_crypto E))" "footer_wf f" "length (f_parts f) \<le> 10000"
    and "b = front @ fst (Footer_seal (c_aead (en_crypto E)) g dek f)" "length b < 2 ^ 64" "obj (io_world s) = Some (hs, b)"
  shows "\<exists>s'. fetch_footer E be path (f_alg f) dek (word_of_nat (length b)) s = (Ret f, s') \<and> io_proxy s' = io_proxy s"
proof -
  define body where "body = fst (Footer_seal (c_aead (en_crypto E)) g dek f)"
  define n where "n = length body - TRAILER_LEN"
  define L where "L = length b"
  from footer_part_reads [OF assms(4-6), of g dek] have r: "TRAILER_LEN < length body" "parse_trailer (drop n body) = Inr (word_of_nat n)"
      "Footer_open (c_aead (en_crypto E)) (f_alg f) dek (take n body) = Inr f"
    by (simp_all add: Let_def body_def n_def)
  have b: "b = front @ body" "L = length front + n + 16" "0 < n" "L < 2 ^ 64"
    using assms(7,8) r(1) by (simp_all add: body_def n_def L_def TRAILER_LEN_def)
  have u: "unat (word_of_nat k :: u64) = k" if "k \<le> L" for k using that b(4) by (simp add: unat_u64_of_nat)
  have sub: "word_of_nat L - word_of_nat k = (word_of_nat (L - k) :: u64)" if "k \<le> L" for k using that by simp
  let ?t = "word_of_nat TRAILER_LEN :: u64"
  have a1: "word_of_nat L - ?t = (word_of_nat (L - 16) :: u64)" using sub [of 16] b(2) by (simp add: TRAILER_LEN_def)
  have a2: "word_of_nat L - 1 = (word_of_nat (L - 1) :: u64)" using sub [of 1] b(2) by simp
  have a3: "(word_of_nat (L - 16) :: u64) - word_of_nat n = word_of_nat (length front)" using b(2) by simp
  have a4: "(word_of_nat (L - 16) :: u64) - 1 = word_of_nat (L - 17)"
  proof -
    have "L - 16 = Suc (L - 17)" using b(2,3) by simp
    then show ?thesis by simp
  qed
  have slice: "\<exists>t'. ranged_get E be path (word_of_nat x) (word_of_nat z) what t = (Ret (subrange x (Suc z) b), t') \<and>
      obj (io_world t') = Some (hs, b) \<and> io_proxy t' = io_proxy t"
    if "x \<le> z" "z < L" "obj (io_world t) = Some (hs, b)" for x z what t
    using ranged_get_slice [OF assms(1-3) that(3), of "word_of_nat x" "word_of_nat z" what] u [of x] u [of z] that(1,2) L_def by simp
  have "subrange (L - 16) (Suc (L - 1)) b = drop n body" using b by (simp add: subrange_def L_def)
  moreover have "L - 16 \<le> L - 1" "L - 1 < L" using b(2) by simp_all
  ultimately obtain s1 where g1: "ranged_get E be path (word_of_nat (L - 16)) (word_of_nat (L - 1)) ''footer trailer'' s = (Ret (drop n body), s1)"
      "obj (io_world s1) = Some (hs, b)" "io_proxy s1 = io_proxy s"
    using slice [of "L - 16" "L - 1" s "''footer trailer''"] assms(9) by metis
  have "subrange (length front) (Suc (L - 17)) b = take n body" using b by (simp add: subrange_def)
  moreover have "length front \<le> L - 17" "L - 17 < L" using b(2,3) by simp_all
  ultimately obtain s2 where g2: "ranged_get E be path (word_of_nat (length front)) (word_of_nat (L - 17)) ''footer frame'' s1 = (Ret (take n body), s2)"
      "io_proxy s2 = io_proxy s"
    using slice [of "length front" "L - 17" s1 "''footer frame''"] g1(2,3) by metis
  have "\<not> word_of_nat L < ?t" using u [of L] u [of 16] b(2) by (simp add: word_less_nat_alt TRAILER_LEN_def)
  moreover have "\<not> (word_of_nat n :: u64) > word_of_nat (L - 16)" using u [of n] u [of "L - 16"] b(2) by (simp add: word_less_nat_alt)
  ultimately show ?thesis
    using g1(1) g2 r(2,3) unfolding fetch_footer_def Let_def L_def [symmetric] a1 a2
    by (simp add: io_bind_def io_lift_def io_return_def map_err_def a3 a4 del: of_nat_diff of_nat_add)
qed

text \<open>Sizes. With chunks of at least 64 KiB the overhead of a part is at most its length and 40 bytes.\<close>

lemma encrypted_parts_size:
  assumes "aead_correct A" "encrypted_parts A alg dek c qs cts" "65536 \<le> unat c"
  shows "length (concat cts) \<le> 2 * length (concat (map snd qs)) + 40 * length qs"
  using assms(2) unfolding encrypted_parts_def
proof (induction qs cts rule: list_all2_induct)
  case (Cons q qs ct cts)
  obtain g g' where e: "encrypt_all A g alg dek (fst q) (unat c) (snd q) = Some (ct, g')" using Cons.hyps(1) by blast
  have "length ct = length (snd q) + n_chunks_spec (length (snd q)) (unat c) * overhead alg"
    using length_encrypt_all [OF assms(1) e] by (simp add: ciphertext_len_spec_def)
  moreover have "n_chunks_spec (length (snd q)) (unat c) \<le> length (snd q) div 65536 + 1"
    using assms(3) div_le_mono2 [of 65536 "unat c" "length (snd q) - 1"] div_le_mono [of "length (snd q) - 1" "length (snd q)" 65536]
    by (simp add: n_chunks_spec_def)
  then have "n_chunks_spec (length (snd q)) (unat c) * overhead alg \<le> (length (snd q) div 65536 + 1) * 40"
    using overhead_bounds(2) by (intro mult_le_mono)
  ultimately show ?case using Cons.IH by simp
qed simp

lemma layout_positive:
  assumes "aead_correct A" "encrypted_parts A alg dek c qs cts" "0 < c"
  shows "length (concat cts) < 2 ^ 64 \<Longrightarrow> \<forall>sp \<in> set (layout_from alg c po co (sizes qs)). 0 < ps_ct_len sp"
  using assms(2) unfolding encrypted_parts_def
proof (induction qs cts arbitrary: po co rule: list_all2_induct)
  case (Cons q qs ct cts)
  obtain m pt where q: "q = (m, pt)" by (cases q)
  obtain g g' where e: "encrypt_all A g alg dek m (unat c) pt = Some (ct, g')" using Cons.hyps(1) q by auto
  have ct: "length ct = ciphertext_len_spec alg (length pt) (unat c)" by (rule length_encrypt_all [OF assms(1) e])
  have pos: "0 < length ct" "length pt \<le> length ct"
    using overhead_bounds(3) by (simp_all add: ct ciphertext_len_spec_def n_chunks_spec_def)
  then have L: "unat (word_of_nat (length pt) :: u64) = length pt" using Cons.prems by (simp add: unat_u64_of_nat)
  have "unat (ciphertext_len alg (word_of_nat (length pt)) c) = length ct"
    using unat_ciphertext_len [OF assms(3), of alg "word_of_nat (length pt)"] L ct Cons.prems by simp
  then have "0 < ciphertext_len alg (word_of_nat (length pt)) c" using pos(1) by (simp add: word_less_nat_alt)
  then show ?case using Cons.IH Cons.prems q by (simp add: Let_def)
qed simp

lemma footer_size:
  assumes "aead_correct A" "footer_wf f" "length (f_parts f) \<le> 10000"
  shows "length (fst (Footer_seal A g dek f)) \<le> 131088"
proof -
  have "length (fst (Footer_seal A g dek f)) - TRAILER_LEN \<le> unat MAX_FOOTER_LEN"
    using footer_part_reads [OF assms, of g dek] unfolding Let_def by blast
  then show ?thesis by (simp add: MAX_FOOTER_LEN_def TRAILER_LEN_def)
qed

lemma parts_read:
  assumes "aead_correct A" "encrypted_parts A alg dek c qs cts" "0 < c" "length (concat cts) < 2 ^ 64"
    and "body_data fs = concat cts @ rest"
    and "decrypting_multipart A (fs, None) alg dek (unat c) (part_layout alg c (sizes qs)) counter = sk"
  shows "sk_data sk = concat (map snd qs)" "sk_err sk = None"
proof -
  have n: "0 < unat c" using assms(3) by (simp add: word_less_nat_alt)
  have "\<forall>sp \<in> set (part_layout alg c (sizes qs)). 0 < ps_ct_len sp"
    using layout_positive [OF assms(1-4)] by (simp add: part_layout_def)
  from decrypting_multipart_outcome [OF n this assms(6)] decrypt_parts_encrypted [OF assms(1-4)] assms(5)
  show "sk_data sk = concat (map snd qs)" "sk_err sk = None" by (simp_all add: part_layout_def sent_def)
qed

lemma get_reads_parts:
  assumes "http_ok E" "crypto_laws E" "object_backend E uri obj" "object_address E be path query = Some uri"
    and "range_backend E be path obj" "ranges_answered E be path obj"
    and "obj (io_world t) = Some ob" "stands_for_parts E (ps_config (io_proxy t)) path ob qs" "length (concat (map snd qs)) < 2 ^ 62"
    and "\<forall>n \<in> conditional_names. header_value hs n = None"
    and "forward E be ''GET'' path query hs body_empty t = (Ret resp, t1)" "is_success (br_status resp)" "obj (io_world t1) = obj (io_world t)"
    and "ps_footer_cache (io_proxy t) (be_name be, path, etag_or_empty (br_headers resp)) = None"
  shows "\<exists>rep t'. get_handle E be path query hs rid t = (Ret rep, t') \<and> rp_status rep = br_status resp \<and>
    body_data (fst (rp_body rep)) = concat (map snd qs) \<and> snd (rp_body rep) = Eof \<and>
    header_value (rp_headers rep) ''content-length'' = Some (dec_string (length (concat (map snd qs)))) \<and>
    \<not> list_ex (\<lambda>(k, _). is_own_metadata_header k) (rp_headers rep)"
proof -
  let ?cfg = "ps_config (io_proxy t)" and ?A = "c_aead (en_crypto E)"
  obtain om dek cts g where st: "carries E ?cfg path (fst ob) om dek"
      "encrypted_parts ?A (m_alg om) dek (ucast (m_chunk_size om)) qs cts"
      "sorted_wrt (<) (map fst qs)" "\<forall>(n, _) \<in> set qs. 1 \<le> n \<and> n \<le> 10000"
      "snd ob = concat cts @ fst (Footer_seal ?A g dek (parts_footer om qs))"
    using assms(8) unfolding stands_for_parts_def by blast
  let ?f = "parts_footer om qs" and ?c = "ucast (m_chunk_size om) :: u64"
  have A: "aead_correct ?A" using assms(2) by (simp add: crypto_laws_def)
  have om: "m_multipart om" "chunk_size_ok (m_chunk_size om)" "resolve_key E ?cfg om path = Inr dek"
    "\<And>hs'. \<forall>k. bt_get (meta_headers hs') k = bt_get (meta_headers (fst ob)) k \<Longrightarrow> route_from_headers (en_codec E) hs' = Inr (V1 om)"
    using st(1) by (simp_all add: carries_def)
  note wf = parts_footer_wf [OF st(3,4), of om]
  have c: "65536 \<le> unat ?c" using chunk_size_okD [OF om(2)] by (simp add: ucast_chunk [OF om(2)])
  then have c0: "0 < ?c" by (simp add: word_less_nat_alt)
  have len: "length (concat cts) < 2 ^ 64" "length (snd ob) < 2 ^ 64"
    using encrypted_parts_size [OF A st(2) c] few_parts [OF st(3,4)] footer_size [OF A wf, of g dek] assms(9) by (simp_all add: st(5))
  have "obj (io_world t) = Some (fst ob, snd ob)" using assms(7) by simp
  note rd = forward_get_reads [OF assms(3,4,11,12,10) this]
  obtain fs where fs: "br_body resp = (fs, None)" "body_data fs = snd ob" using rd(3,4) by (cases "br_body resp") auto
  have "unat (word_of_nat (length (snd ob)) :: u64) = length (snd ob)" using len(2) by (simp add: unat_u64_of_nat)
  then have u64: "header_u64 (br_headers resp) ''content-length'' = Some (word_of_nat (length (snd ob)))"
    using rd(2) parse_u64_roundtrip [of "word_of_nat (length (snd ob))"] by (simp add: header_u64_def)
  have clock: "obj (snd (en_system_now E w)) = obj w" for w using assms(3) unfolding object_backend_def by blast
  let ?t2 = "t1\<lparr> io_proxy := record_footer_cache False (io_proxy t1) \<rparr>"
  have proxy: "io_proxy t1 = io_proxy t" by (rule forward_proxy [OF assms(11)])
  have "obj (io_world ?t2) = Some (fst ob, snd ob)" using assms(7,13) by simp
  from fetch_footer_reads [OF clock assms(5,6) A wf st(5) len(2) this]
  obtain t3 where ff: "fetch_footer E be path (m_alg om) dek (word_of_nat (length (snd ob))) ?t2 = (Ret ?f, t3)" by (auto simp: parts_footer_def)
  obtain t4 where fl: "footer_load E be path (m_alg om) dek (word_of_nat (length (snd ob))) (etag_or_empty (br_headers resp)) t1 = (Ret ?f, t4)"
    using ff assms(14) proxy by (simp add: footer_load_def io_defs Let_def cache_put_def)
  define sk where "sk = decrypting_multipart ?A (fs, None) (m_alg om) dek (unat (m_chunk_size om)) (part_layout (m_alg om) ?c (f_parts ?f))
    (Some (ps_chunk_verify_failures (io_proxy t4)))"
  have fp: "f_parts ?f = sizes qs" by (simp add: parts_footer_def)
  note reads = parts_read [OF A st(2) c0 len(1) trans [OF fs(2) st(5)]
      sk_def [symmetric, unfolded fp ucast_chunk [OF om(2), symmetric]]]
  let ?rep = "with_plain_length E (f_total_pt ?f) (build_client_response resp (sink_body sk) rid)"
  have "\<exists>t'. full_reply E ?cfg be path (V1 om) resp rid t1 = (Ret ?rep, t')"
    using om(1,3) u64 fl fs(1) by (simp add: full_reply_def io_defs ok_or_def io_decrypting_def Let_def flip: sk_def)
  then obtain t' where h: "get_handle E be path query hs rid t = (Ret ?rep, t')"
    using assms(11,12) om(4) [OF rd(1)] by (auto simp: plain_get_is_full [OF assms(10)] handle_full_def io_defs map_err_def)
  have tot: "unat (f_total_pt ?f) = length (concat (map snd qs))"
    using unat_sum_sizes [of qs] assms(9) by (simp add: parts_footer_def)
  have own: "\<not> list_ex (\<lambda>(k, _). is_own_metadata_header k) (rp_headers ?rep)"
    using plain_length_reply(4) [OF assms(1)] by (fastforce simp: list_ex_iff)
  show ?thesis
    by (rule exI, rule exI, rule conjI [OF h])
      (use own tot reads in \<open>simp add: plain_length_reply(1-3) [OF assms(1)] sink_body_def sk_data_def\<close>)
qed

section \<open>The property\<close>


end
