(* ===== verification/MpuRun.thy ===== *)
theory MpuRun
  imports MpuProps
begin

text \<open>
  A concrete multipart upload: a small backend that keeps one object and one open upload at one path is shown to keep
  the contracts of \<open>MpuProps\<close>, and an upload of one part is run against it and read back.
\<close>

section \<open>A small backend\<close>

record mp_store =
  ms_obj :: "(headers \<times> bytes) option"
  ms_upl :: "upload_state option"

text \<open>The part numbers of a list of parts. No ETag has a bracket after escaping.\<close>

fun listed_numbers :: "string \<Rightarrow> u32 list" where
  "listed_numbers [] = []"
| "listed_numbers (c # s) =
     (case strip_prefix ''<PartNumber>'' (c # s) of
        Some r \<Rightarrow> (case parse_u32 (takeWhile (\<lambda>c. c \<noteq> CHR ''<'') r) of Some n \<Rightarrow> n # listed_numbers s | None \<Rightarrow> listed_numbers s)
      | None \<Rightarrow> listed_numbers s)"

definition mp_answer :: "nat \<Rightarrow> headers \<Rightarrow> bytes \<Rightarrow> outcome" where
  "mp_answer st hs b = Answered \<lparr> br_status = st, br_headers = hs, br_body = ([DataFrame b], None) \<rparr>"

definition mp_get :: "mp_store \<Rightarrow> request \<Rightarrow> outcome" where
  "mp_get st rq =
     (case ms_obj st of
        None \<Rightarrow> mp_answer 404 [] []
      | Some (hs, b) \<Rightarrow>
          (case header_value (rq_headers rq) ''range'' of
             None \<Rightarrow> mp_answer 200 (set_header hs ''content-length'' (dec_string (length b))) b
           | Some v \<Rightarrow>
               (case split_once CHR ''-'' (drop 6 v) of
                  None \<Rightarrow> mp_answer 206 hs []
                | Some (x, y) \<Rightarrow>
                    (case (parse_unsigned 10 (Suc (length b)) x, parse_unsigned 10 (Suc (length b)) y) of
                       (Some a, Some z) \<Rightarrow> mp_answer 206 hs (subrange a (Suc z) b)
                     | _ \<Rightarrow> mp_answer 206 hs []))))"

definition mp_base :: string where
  "mp_base = ''https://s3/b/k''"

text \<open>The query, read with the functions the proxy uses; the environment's percent-decoding is the sample one.\<close>

definition plain_env :: "mp_store env" where
  "plain_env = \<lparr> en_send = (\<lambda>w _. (SendFailed True, w)), en_system_now = (\<lambda>w. (1704067260000000000, w)), en_instant_now = (\<lambda>w. (0, w)),
     en_crypto = sample_crypto, en_codec = sample_codec, en_pct = sample_pct, en_md5 = (\<lambda>b. take 16 (b @ replicate 16 0)),
     en_parse_uri = (\<lambda>_. Some \<lparr> u_scheme = Some ''https'', u_authority = Some ''s3'' \<rparr>),
     en_name_error = (\<lambda>_. None), en_value_error = (\<lambda>_. None), en_request_error = (\<lambda>_ _. None),
     en_status_text = (\<lambda>_. ''OK''), en_lru_evicts = (\<lambda>_ _ _ _. False),
     en_xml_events = (\<lambda>x. if x = ''id'' then ([XStart ''UploadId'', XText ''u''], None)
        else ([XStart ''Part'', XStart ''PartNumber'', XText ''1'', XEnd ''PartNumber'', XStart ''ETag'', XText ''e'', XEnd ''ETag'', XEnd ''Part''], None)),
     en_xml_unescape = Inr \<rparr>"

definition mp_put :: "mp_store \<Rightarrow> string \<Rightarrow> request \<Rightarrow> outcome \<times> mp_store" where
  "mp_put st q rq =
     (if snd (rq_body rq) \<noteq> Eof then (SendFailed True, st)
      else if q = '''' then (mp_answer 200 [(''etag'', ''e'')] [], st\<lparr> ms_obj := Some (rq_headers rq, body_data (fst (rq_body rq))) \<rparr>)
      else
        (case (query_value plain_env q ''uploadId'', Option.bind (query_value plain_env q ''partNumber'') parse_u32, ms_upl st) of
           (Some uid, Some n, Some (hs, ps)) \<Rightarrow>
             if uid = ''u'' then (mp_answer 200 [(''etag'', ''e'')] [], st\<lparr> ms_upl := Some (hs, ps(n := Some (body_data (fst (rq_body rq))))) \<rparr>)
             else (mp_answer 404 [] [], st)
         | _ \<Rightarrow> (mp_answer 404 [] [], st)))"

definition mp_post :: "mp_store \<Rightarrow> string \<Rightarrow> request \<Rightarrow> outcome \<times> mp_store" where
  "mp_post st q rq =
     (case (query_has q ''uploads'', query_value plain_env q ''uploadId'', ms_upl st) of
        (True, None, _) \<Rightarrow> (mp_answer 200 [] (str_bytes ''id''), st\<lparr> ms_upl := Some (rq_headers rq, \<lambda>_. None) \<rparr>)
      | (False, Some uid, Some (hs, ps)) \<Rightarrow>
          if uid = ''u'' then
            (mp_answer 200 [] (str_bytes ''ok''), st\<lparr> ms_obj := Some (hs, concat (map (\<lambda>n. case ps n of Some b \<Rightarrow> b | None \<Rightarrow> [])
               (listed_numbers (bytes_str (body_data (fst (rq_body rq))))))) \<rparr>)
          else (mp_answer 404 [] [], st)
      | _ \<Rightarrow> (mp_answer 404 [] [], st))"

definition mp_send :: "mp_store \<Rightarrow> request \<Rightarrow> outcome \<times> mp_store" where
  "mp_send st rq =
     (let q = drop (Suc (length mp_base)) (rq_uri rq) in
      if take (length mp_base) (rq_uri rq) \<noteq> mp_base then (mp_answer 404 [] [], st)
      else if rq_method rq = ''GET'' then (mp_get st rq, st)
      else if rq_method rq = ''PUT'' then
        if header_value (rq_headers rq) ''x-amz-copy-source'' \<noteq> None then (mp_answer 404 [] [], st) else mp_put st q rq
      else if rq_method rq = ''POST'' then mp_post st q rq
      else (mp_answer 404 [] [], st))"

definition mp_env :: "mp_store env" where
  "mp_env = plain_env\<lparr> en_send := mp_send \<rparr>"

lemma mp_env_simps [simp]:
  "en_send mp_env = mp_send" "en_system_now mp_env w = (1704067260000000000, w)" "en_instant_now mp_env w = (0, w)"
  "en_crypto mp_env = sample_crypto" "en_codec mp_env = sample_codec" "en_pct mp_env = sample_pct" "en_pct plain_env = sample_pct"
  "en_parse_uri mp_env e = Some \<lparr> u_scheme = Some ''https'', u_authority = Some ''s3'' \<rparr>"
  "en_name_error mp_env n = None" "en_value_error mp_env n = None" "en_request_error mp_env m u = None" "en_xml_unescape mp_env t = Inr t"
  by (simp_all add: mp_env_def plain_env_def)

lemma mp_header_errors [simp]: "header_errors mp_env hs = None"
  by (induction hs) auto

lemma mp_query_value: "query_value mp_env = query_value plain_env"
  by (intro ext) (simp only: query_value_def mp_env_simps)

lemma mp_at_query: "at_query mp_env be ''/b/k'' q uri \<longleftrightarrow> uri = mp_base @ (if q = '''' then '''' else ''?'' @ q)"
  by (auto simp: at_query_def target_uri_def mp_base_def)

lemma mp_send_at:
  assumes "at_query mp_env be ''/b/k'' q (rq_uri rq)"
  shows "mp_send st rq =
     (if rq_method rq = ''GET'' then (mp_get st rq, st)
      else if rq_method rq = ''PUT'' then
        if header_value (rq_headers rq) ''x-amz-copy-source'' \<noteq> None then (mp_answer 404 [] [], st) else mp_put st q rq
      else if rq_method rq = ''POST'' then mp_post st q rq
      else (mp_answer 404 [] [], st))"
  using assms unfolding mp_at_query mp_send_def Let_def by (simp add: mp_base_def)

section \<open>It keeps the contracts\<close>

lemma listed_skip:
  assumes "\<forall>c \<in> set xs. c \<noteq> CHR ''<''"
  shows "listed_numbers (xs @ ys) = listed_numbers ys"
  using assms by (induction xs) (auto simp: strip_prefix_def)

lemma xml_escape_plain: "c \<in> set (xml_escape s) \<Longrightarrow> c \<noteq> CHR ''<''"
  by (auto simp: xml_escape_def xml_char_def split: if_splits)

lemma listed_part: "listed_numbers (part_element p @ ys) = fst p # listed_numbers ys"
proof -
  have d: "CHR ''<'' \<notin> set (dec_string n)" for n
    using plain_dec [of n] by (auto simp: plain_text_def is_alnum_char)
  have t: "takeWhile (\<lambda>c. c \<noteq> CHR ''<'') (dec_string (unat (fst p)) @ CHR ''<'' # r) = dec_string (unat (fst p))" for r
    using d [of "unat (fst p)"] by (subst takeWhile_append2) auto
  have e: "listed_numbers (xml_escape (snd p) @ r) = listed_numbers r" for r
    using xml_escape_plain by (intro listed_skip) blast
  have n: "listed_numbers (dec_string (unat (fst p)) @ r) = listed_numbers r" for r
    using d by (intro listed_skip) metis
  show ?thesis by (simp add: part_element_def strip_prefix_def t e n)
qed

lemma listed_xml: "listed_numbers (build_complete_xml final) = map fst final"
proof -
  have "listed_numbers (concat (map part_element final) @ ys) = map fst final @ listed_numbers ys" for ys
    by (induction final) (simp_all add: listed_part)
  then show ?thesis by (simp add: build_complete_xml_def strip_prefix_def)
qed

lemma answer_simps [simp]:
  "mp_answer st hs b = Answered resp \<longleftrightarrow> resp = \<lparr> br_status = st, br_headers = hs, br_body = ([DataFrame b], None) \<rparr>"
  "is_success 404 = False" "is_success 200" "is_success 206"
  by (auto simp: mp_answer_def is_success_def)

lemma map_listed: "map (\<lambda>n. f n) (map fst xs) = map (\<lambda>(n, _). f n) xs"
  by (induction xs) auto

definition mp_uploads :: "mp_store \<Rightarrow> string \<Rightarrow> upload_state option" where
  "mp_uploads st uid = (if uid = ''u'' then ms_upl st else None)"

lemma mp_upload_id: "parse_single_tag mp_env (str_bytes ''id'') ''UploadId'' = Some ''u''"
proof -
  have "decode_utf8_lossy sample_pct (str_bytes ''id'') = ''id''" unfolding sample_pct_def pct.simps by (rule str_bytes_inverse)
  then have "en_xml_events mp_env (decode_utf8_lossy (en_pct mp_env) (str_bytes ''id'')) = ([XStart ''UploadId'', XText ''u''], None)"
    by (simp only: mp_env_def plain_env_def env.simps refl if_True)
  then show ?thesis unfolding parse_single_tag_def by (simp add: ok_def)
qed

lemma mp_multipart: "multipart_backend mp_env be ''/b/k'' ms_obj mp_uploads"
  unfolding multipart_backend_def
proof (intro conjI allI impI; (elim conjE)?)
  fix w rq resp w' q
  assume s: "en_send mp_env w rq = (Answered resp, w')" and q: "at_query mp_env be ''/b/k'' q (rq_uri rq)" and ok: "is_success (br_status resp)"
  note send = s [unfolded mp_env_simps mp_send_at [OF q]]
  show "mp_uploads w' uid = Some (rq_headers rq, \<lambda>_. None)"
    if "rq_method rq = ''POST''" "query_has q ''uploads''" "collect_body (br_body resp) = Inr xml" "parse_single_tag mp_env xml ''UploadId'' = Some uid" for xml uid
    using send that ok mp_upload_id by (auto simp: mp_post_def mp_uploads_def collect_body_def split: option.splits)
  show "snd (rq_body rq) = Eof"
    if "rq_method rq = ''PUT''" "header_value (rq_headers rq) ''x-amz-copy-source'' = None" for uid :: string and n :: u32 and hs :: headers
    using send that by (auto simp: mp_put_def split: if_splits)
  show "mp_uploads w' uid = Some (hs, ps(n := Some (body_data (fst (rq_body rq)))))"
    if "rq_method rq = ''PUT''" "header_value (rq_headers rq) ''x-amz-copy-source'' = None" "query_value mp_env q ''uploadId'' = Some uid"
      "Option.bind (query_value mp_env q ''partNumber'') parse_u32 = Some n" "mp_uploads w uid = Some (hs, ps)" for uid n hs ps
    using send that ok by (auto simp: mp_put_def mp_uploads_def mp_query_value query_value_def split: if_splits option.splits)
  show "ms_obj w' = Some (hs, concat (map (\<lambda>(n, _). case ps n of Some b \<Rightarrow> b | None \<Rightarrow> []) final))"
    if "rq_method rq = ''POST''" "query_value mp_env q ''uploadId'' = Some uid" "rq_body rq = body_full (str_bytes (build_complete_xml final))"
      "mp_uploads w uid = Some (hs, ps)" for uid hs ps final
    using send that ok by (auto simp: mp_post_def mp_uploads_def mp_query_value body_full_def listed_xml map_listed simp del: map_map split: if_splits option.splits bool.splits)
qed simp_all

lemma mp_object_address: "object_address mp_env be ''/b/k'' '''' = Some mp_base"
  by (simp add: object_address_def target_uri_def mp_base_def)

lemma mp_at_base: "at_query mp_env be ''/b/k'' '''' uri \<longleftrightarrow> uri = mp_base"
  by (simp add: mp_at_query)

lemma content_length_meta: "bt_get (meta_headers (set_header hs ''content-length'' v)) k = bt_get (meta_headers hs) k"
  by (rule meta_headers_set_other) (simp add: starts_with_def)

lemma mp_object: "object_backend mp_env mp_base ms_obj"
  unfolding object_backend_def
proof (intro conjI allI impI; (elim conjE)?)
  fix w rq resp w'
  assume s: "en_send mp_env w rq = (Answered resp, w')" and q: "rq_uri rq = mp_base"
  have "at_query mp_env sample_backend ''/b/k'' '''' (rq_uri rq)" by (simp add: mp_at_base q)
  note send = s [unfolded mp_env_simps mp_send_at [OF this]]
  show "snd (rq_body rq) = Eof" "ms_obj w' = Some (rq_headers rq, body_data (fst (rq_body rq)))"
    if "rq_method rq = ''PUT''" "header_value (rq_headers rq) ''x-amz-copy-source'' = None"
    using send that by (auto simp: mp_put_def split: if_splits)
  fix hs b
  assume g: "rq_method rq = ''GET''" "\<forall>n \<in> conditional_names. header_value (rq_headers rq) n = None" "ms_obj w = Some (hs, b)"
  then have "header_value (rq_headers rq) ''range'' = None" by (simp add: conditional_names_def)
  with send g have "resp = \<lparr> br_status = 200, br_headers = set_header hs ''content-length'' (dec_string (length b)), br_body = ([DataFrame b], None) \<rparr>"
    by (simp add: mp_get_def)
  then show "bt_get (meta_headers (br_headers resp)) k = bt_get (meta_headers hs) k"
    "header_value (br_headers resp) ''content-length'' = Some (dec_string (length b))"
    "body_data (fst (br_body resp)) = b" "snd (br_body resp) = None" for k
    by (simp_all add: content_length_meta header_value_set_header)
qed simp_all

lemma mp_range: "range_backend mp_env be ''/b/k'' ms_obj"
  unfolding range_backend_def
proof (intro conjI allI impI; (elim conjE)?)
  fix w rq resp w'
  assume s: "en_send mp_env w rq = (Answered resp, w')" and q: "at_query mp_env be ''/b/k'' '''' (rq_uri rq)" and g: "rq_method rq = ''GET''"
  note send = s [unfolded mp_env_simps mp_send_at [OF q]]
  then show "ms_obj w' = ms_obj w" using g by simp
  fix hs b a z
  assume r: "ms_obj w = Some (hs, b)" "a \<le> z" "z < length b" "header_value (rq_headers rq) ''range'' = Some (byte_range_header a z)"
  have d: "CHR ''-'' \<notin> set (dec_string a)" using plain_dec [of a] by (auto simp: plain_text_def is_alnum_char)
  have "drop 6 (byte_range_header a z) = dec_string a @ CHR ''-'' # dec_string z" by simp
  then have "split_once CHR ''-'' (drop 6 (byte_range_header a z)) = Some (dec_string a, dec_string z)"
    using split_once_append [OF d] by simp
  with send g r have "resp = \<lparr> br_status = 206, br_headers = hs, br_body = ([DataFrame (subrange a (Suc z) b)], None) \<rparr>"
    by (simp add: mp_get_def del: append.simps)
  then show "body_data (fst (br_body resp)) = subrange a (Suc z) b" "snd (br_body resp) = None" by simp_all
qed

text \<open>A request to it.\<close>

lemma mp_forward:
  obtains rq where "rq_method rq = meth" "rq_body rq = body"
    "at_query mp_env be ''/b/k'' (filter_query sample_pct q PRESIGNED_QUERY_PARAMS) (rq_uri rq)"
    "header_value (rq_headers rq) ''x-amz-copy-source'' = header_value hs ''x-amz-copy-source''"
    "header_value (rq_headers rq) ''range'' = header_value hs ''range''"
    "forward mp_env be meth ''/b/k'' q hs body s =
       (case mp_send (io_world s) rq of (Answered resp, w) \<Rightarrow> (Ret resp, s\<lparr> io_world := w \<rparr>) | _ \<Rightarrow> forward mp_env be meth ''/b/k'' q hs body s)"
proof -
  let ?q = "filter_query sample_pct q PRESIGNED_QUERY_PARAMS"
  let ?rq = "\<lparr> rq_method = meth, rq_uri = target_uri \<lparr> u_scheme = Some ''https'', u_authority = Some ''s3'' \<rparr> ''s3'' ''/b/k'' ?q,
    rq_headers = map (\<lambda>(k, v). (to_ascii_lowercase k, v)) (sign_for_backend mp_env be 1704067260000000000 meth ''/b/k'' ?q
      (dated_headers ''s3'' 1704067260000000000 hs)), rq_body = body \<rparr>"
  have "forward mp_env be meth ''/b/k'' q hs body s =
       (case mp_send (io_world s) ?rq of (Answered resp, w) \<Rightarrow> (Ret resp, s\<lparr> io_world := w \<rparr>) | _ \<Rightarrow> forward mp_env be meth ''/b/k'' q hs body s)"
    by (auto simp: forward_def send_request_def build_request_def io_defs Let_def split: prod.splits outcome.splits)
  moreover have "header_value (rq_headers ?rq) n = header_value hs n" if "n \<in> {''x-amz-copy-source'', ''range''}" for n
    using that unfolding request.simps header_value_lowercase by (subst forwarded_header) (auto simp: lowercase_eqI)
  ultimately show thesis by (intro that [of ?rq]) (simp_all add: at_query_def)
qed

lemma mp_queries:
  "filter_query sample_pct ''uploads'' PRESIGNED_QUERY_PARAMS = ''uploads''"
  "filter_query sample_pct ''uploadId=u'' PRESIGNED_QUERY_PARAMS = ''uploadId=u''"
  "filter_query sample_pct ''partNumber=1&uploadId=u'' PRESIGNED_QUERY_PARAMS = ''partNumber=1&uploadId=u''"
  by code_simp+

lemma sample_plain: "pct_plain sample_pct"
proof -
  have d: "percent_decode sample_pct (c # s) = char_byte c # percent_decode sample_pct s" if "c \<noteq> CHR ''%''" for c s
    using sample_decode_Cons [OF that] by (simp add: sample_pct_def)
  have n: "\<not> is_alnum (char_byte CHR ''%'')" by (simp add: is_alnum_char)
  have "percent_decode sample_pct s = str_bytes s" if "plain_text s" for s
    using that
  proof (induction s)
    case Nil
    then show ?case by (simp add: sample_pct_def str_bytes_def)
  next
    case (Cons c s)
    then have "c \<noteq> CHR ''%''" using n by (auto simp: plain_text_def)
    with Cons show ?case by (simp add: d plain_text_def str_bytes_def)
  qed
  moreover have "decode_utf8_lossy sample_pct (str_bytes s) = s" for s unfolding sample_pct_def pct.simps by (rule str_bytes_inverse)
  ultimately show ?thesis by (simp add: pct_plain_def)
qed

lemma mp_splits:
  "split_on CHR ''&'' ''uploads'' = [''uploads'']" "split_on CHR ''&'' ''uploadId=u'' = [''uploadId=u'']"
  "split_on CHR ''&'' ''partNumber=1&uploadId=u'' = [''partNumber=1'', ''uploadId=u'']"
  "split_pair ''uploads'' = (''uploads'', [])" "split_pair ''uploadId=u'' = (''uploadId'', ''u'')" "split_pair ''partNumber=1'' = (''partNumber'', ''1'')"
  "eq_ignore_ascii_case ''uploads'' ''uploadId'' = False" "eq_ignore_ascii_case ''partNumber'' ''uploadId'' = False"
  "eq_ignore_ascii_case ''uploadId'' ''uploadId'' = True" "eq_ignore_ascii_case ''partNumber'' ''partNumber'' = True"
  "parse_u32 ''1'' = Some 1" "plain_text ''u''" "plain_text ''1''"
  by (simp_all add: split_pair_def eq_ignore_ascii_case_def to_ascii_lowercase_def plain_text_def is_alnum_char parse_u32_def parse_unsigned_def digit_value_def)

lemma mp_reads:
  "query_has ''uploads'' ''uploads''" "\<not> query_has ''uploadId=u'' ''uploads''"
  "query_value plain_env ''uploads'' ''uploadId'' = None" "query_value plain_env ''uploadId=u'' ''uploadId'' = Some ''u''"
  "query_value plain_env ''partNumber=1&uploadId=u'' ''uploadId'' = Some ''u''"
  "Option.bind (query_value plain_env ''partNumber=1&uploadId=u'' ''partNumber'') parse_u32 = Some 1"
proof -
  show "query_has ''uploads'' ''uploads''" "\<not> query_has ''uploadId=u'' ''uploads''" by code_simp+
  have p: "decode_utf8_lossy sample_pct (percent_decode sample_pct s) = s" if "plain_text s" for s
    using sample_plain that by (simp add: pct_plain_def)
  note rules = query_value_def mp_splits mp_env_simps find_map.simps prod.case Let_def p [OF mp_splits(12)] p [OF mp_splits(13)]
  show "query_value plain_env ''uploads'' ''uploadId'' = None" "query_value plain_env ''uploadId=u'' ''uploadId'' = Some ''u''"
    "query_value plain_env ''partNumber=1&uploadId=u'' ''uploadId'' = Some ''u''"
    "Option.bind (query_value plain_env ''partNumber=1&uploadId=u'' ''partNumber'') parse_u32 = Some 1"
    by (simp_all add: rules)
qed

lemma mp_get_found:
  assumes "ms_obj st \<noteq> None"
  shows "\<exists>resp. mp_get st rq = Answered resp \<and> is_success (br_status resp)"
  using assms by (auto simp: mp_get_def split: option.splits prod.splits)

lemma mp_ranges: "ranges_answered mp_env be ''/b/k'' ms_obj"
  unfolding ranges_answered_def
proof (intro allI impI)
  fix s :: "mp_store io_state" and a z assume o: "ms_obj (io_world s) \<noteq> None"
  let ?hs = "set_header [] ''range'' (byte_range_header a z)"
  obtain rq where f: "rq_method rq = ''GET''" "at_query mp_env be ''/b/k'' '''' (rq_uri rq)"
    "forward mp_env be ''GET'' ''/b/k'' '''' ?hs body_empty s = (case mp_send (io_world s) rq of (Answered resp, w) \<Rightarrow> (Ret resp, s\<lparr> io_world := w \<rparr>)
        | _ \<Rightarrow> forward mp_env be ''GET'' ''/b/k'' '''' ?hs body_empty s)"
    using mp_forward [of "''GET''" body_empty be "''''" ?hs s] unfolding filter_empty_query by metis
  obtain resp where "mp_get (io_world s) rq = Answered resp" "is_success (br_status resp)" using mp_get_found [OF o] by blast
  with f(1,3) mp_send_at [OF f(2)]
  show "\<exists>resp s'. forward mp_env be ''GET'' ''/b/k'' '''' ?hs body_empty s = (Ret resp, s') \<and> is_success (br_status resp)" by simp
qed

section \<open>The laws and the answers\<close>

lemma mp_laws:
  "http_ok mp_env" "crypto_laws mp_env" "reads_own_writes mp_env sample_config" "rust_string mp_env ''u''"
proof -
  show "http_ok mp_env" by (simp add: http_ok_def)
  show "crypto_laws mp_env" using sample_laws(1) by (simp add: crypto_laws_def)
  show "reads_own_writes mp_env sample_config" using sample_laws(2) by (simp add: reads_own_writes_def config_ok_def)
  show "rust_string mp_env ''u''" unfolding rust_string_def mp_env_simps sample_pct_def pct.simps by (rule str_bytes_inverse)
qed

lemma mp_write_binding: "write_binding mp_env sample_config ''/b/k'' = Inr (binding_for sample_config ''b'' (decode_key sample_pct ''k''))"
  using sample_write_binding by (simp only: write_binding_def mp_env_simps sample_env_simps)

text \<open>What the backend answers to each of the requests of the run.\<close>

lemma mp_forward_create:
  "\<exists>s'. forward mp_env be ''POST'' ''/b/k'' ''uploads'' hs body s =
      (Ret \<lparr> br_status = 200, br_headers = [], br_body = ([DataFrame (str_bytes ''id'')], None) \<rparr>, s') \<and> io_proxy s' = io_proxy s \<and>
    io_rng s' = io_rng s \<and> ms_upl (io_world s') \<noteq> None"
proof -
  obtain rq where f: "rq_method rq = ''POST''" "at_query mp_env be ''/b/k'' ''uploads'' (rq_uri rq)"
    "forward mp_env be ''POST'' ''/b/k'' ''uploads'' hs body s = (case mp_send (io_world s) rq of (Answered resp, w) \<Rightarrow> (Ret resp, s\<lparr> io_world := w \<rparr>)
        | _ \<Rightarrow> forward mp_env be ''POST'' ''/b/k'' ''uploads'' hs body s)"
    using mp_forward [of "''POST''" body be "''uploads''" hs s] unfolding mp_queries by metis
  from f(1) mp_send_at [OF f(2)] mp_reads(1,3) have "mp_send (io_world s) rq =
     (mp_answer 200 [] (str_bytes ''id''), (io_world s)\<lparr> ms_upl := Some (rq_headers rq, \<lambda>_. None) \<rparr>)"
    by (simp add: mp_post_def)
  with f(3) show ?thesis by (simp add: mp_answer_def)
qed

lemma mp_forward_part:
  assumes "query_value mp_env q ''uploadId'' = Some ''u''" "Option.bind (query_value mp_env q ''partNumber'') parse_u32 = Some n"
    and "snd body = Eof" "header_value hs ''x-amz-copy-source'' = None" "ms_upl (io_world s) \<noteq> None"
  shows "\<exists>s'. forward mp_env be ''PUT'' ''/b/k'' q hs body s =
      (Ret \<lparr> br_status = 200, br_headers = [(''etag'', ''e'')], br_body = ([DataFrame []], None) \<rparr>, s') \<and> io_proxy s' = io_proxy s \<and>
    io_rng s' = io_rng s \<and> ms_upl (io_world s') \<noteq> None"
proof -
  let ?q = "filter_query sample_pct q PRESIGNED_QUERY_PARAMS"
  have pl: "pct_plain (en_pct mp_env)" using sample_plain by simp
  have q: "query_value plain_env ?q ''uploadId'' = Some ''u''" "Option.bind (query_value plain_env ?q ''partNumber'') parse_u32 = Some n"
    using query_value_filter [OF pl mpu_names(1), of q] query_value_filter [OF pl mpu_names(2), of q] assms(1,2)
    by (simp_all add: mp_query_value)
  then have ne: "?q \<noteq> ''''" by (auto simp: query_value_def)
  obtain h ps where u: "ms_upl (io_world s) = Some (h, ps)" using assms(5) by auto
  obtain rq where f: "rq_method rq = ''PUT''" "rq_body rq = body" "at_query mp_env be ''/b/k'' ?q (rq_uri rq)"
    "header_value (rq_headers rq) ''x-amz-copy-source'' = None"
    "forward mp_env be ''PUT'' ''/b/k'' q hs body s = (case mp_send (io_world s) rq of (Answered resp, w) \<Rightarrow> (Ret resp, s\<lparr> io_world := w \<rparr>)
        | _ \<Rightarrow> forward mp_env be ''PUT'' ''/b/k'' q hs body s)"
    using mp_forward [of "''PUT''" body be q hs s] assms(4) by metis
  from f(1,4) mp_send_at [OF f(3)] assms(3) f(2) ne q u have "mp_send (io_world s) rq =
     (mp_answer 200 [(''etag'', ''e'')] [], (io_world s)\<lparr> ms_upl := Some (h, ps(n := Some (body_data (fst body)))) \<rparr>)"
    by (simp add: mp_put_def)
  with f(5) show ?thesis by (simp add: mp_answer_def)
qed

lemma mp_forward_complete:
  assumes "ms_upl (io_world s) \<noteq> None"
  shows "\<exists>s'. forward mp_env be ''POST'' ''/b/k'' ''uploadId=u'' hs body s =
      (Ret \<lparr> br_status = 200, br_headers = [], br_body = ([DataFrame (str_bytes ''ok'')], None) \<rparr>, s') \<and> io_proxy s' = io_proxy s \<and>
    ms_obj (io_world s') \<noteq> None"
proof -
  obtain h ps where u: "ms_upl (io_world s) = Some (h, ps)" using assms by auto
  obtain rq where f: "rq_method rq = ''POST''" "at_query mp_env be ''/b/k'' ''uploadId=u'' (rq_uri rq)"
    "forward mp_env be ''POST'' ''/b/k'' ''uploadId=u'' hs body s = (case mp_send (io_world s) rq of (Answered resp, w) \<Rightarrow> (Ret resp, s\<lparr> io_world := w \<rparr>)
        | _ \<Rightarrow> forward mp_env be ''POST'' ''/b/k'' ''uploadId=u'' hs body s)"
    using mp_forward [of "''POST''" body be "''uploadId=u''" hs s] unfolding mp_queries by metis
  from f(1) mp_send_at [OF f(2)] mp_reads(2,4) u obtain b where "mp_send (io_world s) rq =
     (mp_answer 200 [] (str_bytes ''ok''), (io_world s)\<lparr> ms_obj := Some (h, b) \<rparr>)"
    by (simp add: mp_post_def)
  with f(3) show ?thesis by (simp add: mp_answer_def)
qed

lemma mp_forward_get:
  assumes "ms_obj (io_world s) \<noteq> None"
  shows "\<exists>resp s'. forward mp_env be ''GET'' ''/b/k'' '''' hs body_empty s = (Ret resp, s') \<and> is_success (br_status resp)"
proof -
  obtain rq where f: "rq_method rq = ''GET''" "at_query mp_env be ''/b/k'' '''' (rq_uri rq)"
    "forward mp_env be ''GET'' ''/b/k'' '''' hs body_empty s = (case mp_send (io_world s) rq of (Answered resp, w) \<Rightarrow> (Ret resp, s\<lparr> io_world := w \<rparr>)
        | _ \<Rightarrow> forward mp_env be ''GET'' ''/b/k'' '''' hs body_empty s)"
    using mp_forward [of "''GET''" body_empty be "''''" hs s] unfolding filter_empty_query by metis
  obtain resp where "mp_get (io_world s) rq = Answered resp" "is_success (br_status resp)" using mp_get_found [OF assms] by blast
  with f(1,3) mp_send_at [OF f(2)] show ?thesis by simp
qed


section \<open>The run\<close>

definition mp_start :: "mp_store io_state" where
  "mp_start = \<lparr> io_proxy = ProxyState_new sample_config, io_rng = (\<lambda>i. of_nat i), io_abort = None, io_world = \<lparr> ms_obj = None, ms_upl = None \<rparr> \<rparr>"

definition mp_key :: session_key where
  "mp_key = (be_name sample_backend, ''b'', ''k'', ''u'')"

lemma mp_bucket_key: "bucket_key ''/b/k'' = Inr (''b'', ''k'')"
  by code_simp

lemma sample_config_fields:
  "cf_keyring sample_config = sample_keyring" "cf_alg sample_config = Aes256Gcm" "cf_chunk_size sample_config = 65536"
  by (simp_all add: sample_config_def)

lemma mp_create:
  "\<exists>rep s' dek. handle_create mp_env sample_backend ''/b/k'' ''uploads'' (outbound_headers_of []) ''1'' mp_start = (Ret rep, s') \<and>
     rp_status rep = 200 \<and> body_data (fst (rp_body rep)) = str_bytes ''id'' \<and> ps_config (io_proxy s') = sample_config \<and>
     ss_get (ps_sessions (io_proxy s')) mp_key = Some (Session_new 0 dek Aes256Gcm 65536) \<and> ms_upl (io_world s') \<noteq> None"
proof -
  obtain dek g where r: "fill_bytes (io_rng mp_start) 32 = (dek, g)" by fastforce
  let ?b = "binding_for sample_config ''b'' (decode_key sample_pct ''k'')"
  obtain kek kid w g' where wr: "wrap_active sample_crypto g sample_keyring dek ?b = Some (Inr ((kek, kid, w), g'))"
    using sample_wrap [of g dek ?b] by auto
  let ?om = "\<lparr> m_alg = Aes256Gcm, m_kek = kek, m_kid = kid, m_wrapped_dek = w, m_chunk_size = 65536, m_multipart = True, m_emd5 = None \<rparr>"
  let ?s1 = "mp_start\<lparr> io_rng := g, io_rng := g' \<rparr>"
  obtain s2 where f: "forward mp_env sample_backend ''POST'' ''/b/k'' ''uploads'' (set_meta_headers mp_env ?om (outbound_headers_of [])) body_empty ?s1 =
      (Ret \<lparr> br_status = 200, br_headers = [], br_body = ([DataFrame (str_bytes ''id'')], None) \<rparr>, s2)" "io_proxy s2 = io_proxy mp_start"
      "ms_upl (io_world s2) \<noteq> None"
    using mp_forward_create [of sample_backend "set_meta_headers mp_env ?om (outbound_headers_of [])" body_empty ?s1] by auto
  have new: "ps_config (ProxyState_new sample_config) = sample_config" "ps_sessions (ProxyState_new sample_config) = []" "io_proxy mp_start = ProxyState_new sample_config"
    by (simp_all add: ProxyState_new_def mp_start_def)
  have room: "make_room ([] :: session_key sessions) = (True, [])" by (simp add: make_room_def MAX_SESSIONS_def)
  then have start: "io_sessions make_room mp_start = (Ret True, mp_start)" by (simp add: io_sessions_def mp_start_def ProxyState_new_def)
  have created: "io_sessions (Sessions_create 0 mp_key dek Aes256Gcm 65536) s2 =
      (Ret True, s2\<lparr> io_proxy := (io_proxy s2)\<lparr> ps_sessions := ss_insert mp_key (Session_new 0 dek Aes256Gcm 65536) [] \<rparr> \<rparr>)"
    by (simp add: io_sessions_def Sessions_create_def f(2) new room)
  define xml where "xml = str_bytes ''id''"
  have idt: "parse_single_tag mp_env xml ''UploadId'' = Some ''u''" unfolding xml_def by (rule mp_upload_id)
  show ?thesis
    using r wr f [folded xml_def] start created [unfolded mp_key_def] idt unfolding xml_def [symmetric]
    by (simp add: handle_create_def io_bind_def io_read_def io_lift_def io_return_def io_random_def new sample_config_fields
        ok_or_def map_err_def mp_write_binding io_wrap_active_def Let_def collect_body_def mp_bucket_key io_instant_now_def
        io_modify_def record_mpu_session_created_def build_client_response_def body_full_def mp_key_def) blast
qed

lemma unat_65536_pos: "0 < unat (65536 :: u32)"
  by simp

lemma mp_small: "ciphertext_len Aes256Gcm 3 (ucast (65536 :: u32)) < MIN_PART_SIZE"
  by code_simp

definition mp_session :: "bytes \<Rightarrow> bytes \<Rightarrow> session" where
  "mp_session dek ct = Session_record_part 0 1 3 ''e'' (Some ct) (Session_new 0 dek Aes256Gcm 65536)"

lemma mp_session_fields:
  assumes "length ct = 31"
  shows "s_completed (mp_session dek ct) = None" "\<not> s_completing (mp_session dek ct)" "s_dek (mp_session dek ct) = Some dek"
    "bt_get (s_parts (mp_session dek ct)) 1 = Some \<lparr> pr_pt_len = 3, pr_etag = ''e'' \<rparr>" "bt_get (s_tails (mp_session dek ct)) 1 = Some ct"
    "s_alg (mp_session dek ct) = Aes256Gcm" "s_chunk_size (mp_session dek ct) = 65536"
proof -
  have "evict_tails [(1, ct)] = [(1, ct)]" by (subst evict_tails.simps) (simp add: tail_bytes_def MAX_TAIL_BYTES_def assms)
  then show "s_completed (mp_session dek ct) = None" "\<not> s_completing (mp_session dek ct)" "s_dek (mp_session dek ct) = Some dek"
    "bt_get (s_parts (mp_session dek ct)) 1 = Some \<lparr> pr_pt_len = 3, pr_etag = ''e'' \<rparr>" "bt_get (s_tails (mp_session dek ct)) 1 = Some ct"
    "s_alg (mp_session dek ct) = Aes256Gcm" "s_chunk_size (mp_session dek ct) = 65536"
    by (simp_all add: mp_session_def Session_record_part_def Session_new_def buffer_tail_def touch_def bt_insert.simps bt_get_def)
qed

lemma mp_part:
  assumes "ps_config (io_proxy s) = sample_config" "ms_upl (io_world s) \<noteq> None"
    and "ss_get (ps_sessions (io_proxy s)) mp_key = Some (Session_new 0 dek Aes256Gcm 65536)"
  shows "\<exists>rep s' ct. handle_upload_part mp_env sample_backend ''/b/k'' ''partNumber=1&uploadId=u''
      (outbound_headers_of [(''content-length'', ''3'')]) ([DataFrame [1, 2, 3]], Eof) ''2'' s = (Ret rep, s') \<and> rp_status rep = 200 \<and>
    ps_config (io_proxy s') = sample_config \<and> ms_upl (io_world s') \<noteq> None \<and>
    ss_get (ps_sessions (io_proxy s')) mp_key = Some (mp_session dek ct) \<and> length ct = 31"
proof -
  let ?q = "''partNumber=1&uploadId=u''"
  let ?hs = "outbound_headers_of [(''content-length'', ''3'')]"
  obtain ct g where e: "encrypt_all (c_aead sample_crypto) (io_rng s) Aes256Gcm dek 1 (unat (65536 :: u32)) [1, 2, 3] = Some (ct, g)"
    using encrypt_all_Some [of "unat (65536 :: u32)"] by (metis unat_65536_pos)
  have A: "aead_correct (c_aead sample_crypto)" using mp_laws(2) by (simp add: crypto_laws_def)
  have len: "length ct = 31" using length_encrypt_all [OF A e] by (simp add: ciphertext_len_spec_def n_chunks_spec_def overhead_def nonce_len_def TAG_LEN_def)
  let ?h = "set_header ?hs ''content-length'' (dec_string (length ct))"
  have q: "query_value mp_env ?q ''uploadId'' = Some ''u''" "Option.bind (query_value mp_env ?q ''partNumber'') parse_u32 = Some 1"
    using mp_reads(5,6) by (simp_all add: mp_query_value)
  have c: "header_value ?h ''x-amz-copy-source'' = None"
    using sample_headers_length(2) by (simp add: header_value_set_header eq_ignore_ascii_case_def lowercase_eqI)
  obtain s2 where f: "forward mp_env sample_backend ''PUT'' ''/b/k'' ?q ?h (body_full ct) (s\<lparr> io_rng := g \<rparr>) =
      (Ret \<lparr> br_status = 200, br_headers = [(''etag'', ''e'')], br_body = ([DataFrame []], None) \<rparr>, s2)" "io_proxy s2 = io_proxy s"
      "ms_upl (io_world s2) \<noteq> None"
    using mp_forward_part [OF q, of "body_full ct" ?h "s\<lparr> io_rng := g \<rparr>" sample_backend] c assms(2) by (auto simp: body_full_def)
  have col: "collect_limited 3 ([DataFrame [1, 2, 3]], Eof) = Inr [1, 2, 3]" by (simp add: collect_limited_def)
  have send: "send_small_part mp_env sample_backend ''/b/k'' ?q ?hs ([DataFrame [1, 2, 3]], Eof) Aes256Gcm dek 65536 3 1 s =
      (Ret (\<lparr> br_status = 200, br_headers = [(''etag'', ''e'')], br_body = ([DataFrame []], None) \<rparr>, Some ct), s2)"
    using e f(1) by (simp add: send_small_part_def io_defs col map_err_def io_encrypt_all_def)
  have fields: "s_dek (Session_new 0 dek Aes256Gcm 65536) = Some dek" "s_alg (Session_new 0 dek Aes256Gcm 65536) = Aes256Gcm"
    "s_chunk_size (Session_new 0 dek Aes256Gcm 65536) = 65536" by (simp_all add: Session_new_def)
  have et: "header_value [(''etag'', ''e'')] ''etag'' = Some ''e''" by (simp add: header_value_def eq_ignore_ascii_case_def)
  let ?s3 = "snd (io_update_session mp_key (Session_record_part 0 1 3 ''e'' (Some ct)) s2)"
  have rec: "record_part mp_env mp_key 1 3 ''e'' (Some ct) s2 = (Ret (), ?s3)"
    by (simp add: record_part_def io_defs io_update_session_def io_sessions_def)
  have "handle_upload_part mp_env sample_backend ''/b/k'' ?q ?hs ([DataFrame [1, 2, 3]], Eof) ''2'' s =
      (Ret (translate_response \<lparr> br_status = 200, br_headers = [(''etag'', ''e'')], br_body = ([DataFrame []], None) \<rparr> ''2''), ?s3)"
    unfolding handle_upload_part_def
    using q assms(3) [unfolded mp_key_def] send mp_small rec [unfolded mp_key_def]
    by (simp add: io_bind_def io_read_def io_lift_def io_return_def ok_or_def mp_bucket_key Let_def fields sample_headers_length et mp_key_def)
  moreover have "ss_get (ps_sessions (io_proxy ?s3)) mp_key = Some (mp_session dek ct)"
    by (simp add: io_update_session_def io_sessions_def f(2) assms(3) mp_session_def)
  moreover have "ps_config (io_proxy ?s3) = sample_config" "ms_upl (io_world ?s3) \<noteq> None"
    using f assms(1) by (simp_all add: io_update_session_def io_sessions_def)
  ultimately show ?thesis using len by (simp add: translate_response_def build_client_response_def) blast
qed

lemma mp_listed: "parse_complete_xml mp_env (str_bytes ''list'') = Inr [(1, ''e'')]"
proof -
  let ?evs = "[XStart ''Part'', XStart ''PartNumber'', XText ''1'', XEnd ''PartNumber'', XStart ''ETag'', XText ''e'', XEnd ''ETag'', XEnd ''Part'']"
  have u: "utf8_valid (str_bytes ''list'')" by code_simp
  have "(''list'' = ''id'') = False" by simp
  then have ev: "en_xml_events mp_env (bytes_str (str_bytes ''list'')) = (?evs, None)"
    by (simp only: str_bytes_inverse mp_env_def plain_env_def env.simps if_False)
  have t: "event_text mp_env x = Inr x" for x by (simp add: event_text_def map_err_def)
  have "complete_loop mp_env '''' (None, None) [] ?evs None = Inr [(1, ''e'')]"
    by (simp add: t assign_part_field_def mp_splits(11))
  then show ?thesis unfolding parse_complete_xml_def ev by (simp only: u not_True_eq_False if_False Let_def prod.case)
qed

lemma mp_own_part:
  assumes "ms_upl (io_world s) \<noteq> None"
  shows "\<exists>s'. upload_raw_part mp_env sample_backend ''/b/k'' ''u'' n ct s = (Ret ''e'', s') \<and> io_proxy s' = io_proxy s \<and> ms_upl (io_world s') \<noteq> None"
proof -
  have "pct_ok (en_pct mp_env)" "pct_plain (en_pct mp_env)" using sample_pct_ok sample_plain by simp_all
  note q = own_part_query [OF this mp_laws(4), of n]
  have "header_value (set_header [] ''content-length'' (dec_string (length ct))) ''x-amz-copy-source'' = None"
    by (simp add: header_value_set_header eq_ignore_ascii_case_def lowercase_eqI) (simp add: header_value_def)
  from mp_forward_part [OF q _ this assms, of "body_full ct" sample_backend] obtain s' where
    f: "forward mp_env sample_backend ''PUT'' ''/b/k'' (''partNumber='' @ dec_string (unat n) @ ''&uploadId='' @ percent_encode (en_pct mp_env) NON_ALPHANUMERIC (str_bytes ''u''))
        (set_header [] ''content-length'' (dec_string (length ct))) (body_full ct) s =
      (Ret \<lparr> br_status = 200, br_headers = [(''etag'', ''e'')], br_body = ([DataFrame []], None) \<rparr>, s')" "io_proxy s' = io_proxy s"
      "ms_upl (io_world s') \<noteq> None" by (auto simp: body_full_def)
  have et: "header_value [(''etag'', ''e'')] ''etag'' = Some ''e''" by (simp add: header_value_def eq_ignore_ascii_case_def)
  have "upload_raw_part mp_env sample_backend ''/b/k'' ''u'' n ct s = (Ret ''e'', s')"
    unfolding upload_raw_part_def io_bind_def f(1) by (simp add: io_lift_def io_return_def et)
  with f show ?thesis by blast
qed

lemma mp_complete_upload:
  assumes "ps_config (io_proxy s) = sample_config" "ms_upl (io_world s) \<noteq> None" "sn_tail snap = Some ct"
  shows "\<exists>rep s'. complete_upload mp_env sample_backend ''/b/k'' ''uploadId=u'' hs mp_key ''u'' [(1, ''e'')] 1 snap len ''3'' s = (Ret rep, s') \<and>
    rp_status rep = 200 \<and> body_data (fst (rp_body rep)) = str_bytes ''ok'' \<and> ps_config (io_proxy s') = sample_config \<and> ms_obj (io_world s') \<noteq> None"
proof -
  let ?f = "\<lparr> f_alg = sn_alg snap, f_parts = sn_parts snap, f_total_pt = len, f_md5 = None \<rparr>"
  obtain sealed g where d: "Footer_seal (c_aead sample_crypto) (io_rng s) (sn_dek snap) ?f = (sealed, g)" by fastforce
  obtain s2 where u: "upload_raw_part mp_env sample_backend ''/b/k'' ''u'' 1 (ct @ sealed) (s\<lparr> io_rng := g \<rparr>) = (Ret ''e'', s2)"
      "io_proxy s2 = io_proxy s" "ms_upl (io_world s2) \<noteq> None"
    using mp_own_part [of "s\<lparr> io_rng := g \<rparr>" 1 "ct @ sealed"] assms(2) by auto
  define xml where "xml = build_complete_xml [(1, ''e'')]"
  define answer where "answer = str_bytes ''ok''"
  obtain s3 where f: "forward mp_env sample_backend ''POST'' ''/b/k'' ''uploadId=u'' (set_header hs ''content-length'' (dec_string (length xml)))
        (body_full (str_bytes xml)) s2 = (Ret \<lparr> br_status = 200, br_headers = [], br_body = ([DataFrame answer], None) \<rparr>, s3)"
      "io_proxy s3 = io_proxy s2" "ms_obj (io_world s3) \<noteq> None"
    unfolding answer_def using mp_forward_complete [OF u(3), of sample_backend] by blast
  have fin: "finalize_parts mp_env sample_backend ''/b/k'' ''u'' 1 (sn_tail snap) [(1, ''e'')] sealed (s\<lparr> io_rng := g \<rparr>) = (Ret [(1, ''e'')], s2)"
    using u(1) by (simp add: finalize_parts_def assms(3) io_bind_def io_return_def)
  show ?thesis
    unfolding complete_upload_def answer_def [symmetric]
    using d fin f u(2) assms(1) xml_def [symmetric]
    by (simp add: io_defs Let_def collect_body_def map_err_def io_update_session_def io_sessions_def build_client_response_def body_full_def)
qed

lemma mp_complete:
  assumes "ps_config (io_proxy s) = sample_config" "ms_upl (io_world s) \<noteq> None" "length ct = 31"
    and "ss_get (ps_sessions (io_proxy s)) mp_key = Some (mp_session dek ct)"
  shows "\<exists>rep s'. handle_complete mp_env sample_backend ''/b/k'' ''uploadId=u'' (outbound_headers_of []) ([DataFrame (str_bytes ''list'')], Eof) ''3'' s = (Ret rep, s') \<and>
    rp_status rep = 200 \<and> body_data (fst (rp_body rep)) = str_bytes ''ok'' \<and> ps_config (io_proxy s') = sample_config \<and> ms_obj (io_world s') \<noteq> None"
proof -
  note fields = mp_session_fields [OF assms(3), where dek = dek]
  let ?snap = "\<lparr> sn_alg = Aes256Gcm, sn_dek = dek, sn_chunk_size = 65536, sn_parts = [(1, 3)], sn_tail = Some ct \<rparr>"
  define body where "body = str_bytes ''list''"
  have lenb: "length body = 4" by (simp add: body_def str_bytes_def)
  have q: "query_value mp_env ''uploadId=u'' ''uploadId'' = Some ''u''" using mp_reads(4) by (simp add: mp_query_value)
  have early: "cached_response_for_session mp_env mp_key ''u'' ''3'' s = (Ret None, s)"
    by (simp add: cached_response_for_session_def io_defs assms(4) ok_or_def fields)
  have col: "collect_limited MAX_COMPLETE_XML_BYTES ([DataFrame body], Eof) = Inr body"
    by (simp add: collect_limited_def MAX_COMPLETE_XML_BYTES_def lenb)
  have snap: "snapshot_for_complete (mp_session dek ct) [(1, ''e'')] 1 ''u'' = Inr ?snap"
    by (simp add: snapshot_for_complete_def fields ok_or_def rbind_def)
  have valid: "validate_client_parts [(1, ''e'')] = Inr 1" by (simp add: validate_client_parts_def)
  have last: "ensure_last_part_ok (Some ct) ps n alg cs = Inr ()" for ps n alg cs by (simp add: ensure_last_part_ok_def)
  obtain s1 where s1: "io_update_session mp_key (touch 0) s = (Ret (), s1)" "ps_config (io_proxy s1) = sample_config" "ms_upl (io_world s1) \<noteq> None"
    "ss_get (ps_sessions (io_proxy s1)) mp_key = Some (touch 0 (mp_session dek ct))"
    using assms by (simp add: io_update_session_def io_sessions_def)
  obtain s2 where s2: "io_update_session mp_key (\<lambda>s. s\<lparr> s_completing := True \<rparr>) s1 = (Ret (), s2)" "ps_config (io_proxy s2) = sample_config"
    "ms_upl (io_world s2) \<noteq> None" using s1(2,3) by (simp add: io_update_session_def io_sessions_def)
  have claim: "claim_completion mp_env mp_key ''u'' ''3'' s1 = (Ret None, s2)"
    using s2(1) unfolding claim_completion_def by (simp add: io_defs s1(4) ok_or_def fields touch_def)
  from mp_complete_upload [OF s2(2,3), of ?snap ct "outbound_headers_of []" 3] obtain rep s' where
    c: "complete_upload mp_env sample_backend ''/b/k'' ''uploadId=u'' (outbound_headers_of []) mp_key ''u'' [(1, ''e'')] 1 ?snap 3 ''3'' s2 = (Ret rep, s')"
      "rp_status rep = 200" "body_data (fst (rp_body rep)) = str_bytes ''ok''" "ps_config (io_proxy s') = sample_config" "ms_obj (io_world s') \<noteq> None" by auto
  have "handle_complete mp_env sample_backend ''/b/k'' ''uploadId=u'' (outbound_headers_of []) ([DataFrame body], Eof) ''3'' s = (Ret rep, s')"
    unfolding handle_complete_def
    using q early s1(1) claim c(1) assms(4) mp_listed [folded body_def] unfolding mp_key_def
    by (simp add: io_bind_def io_lift_def io_return_def io_read_def io_instant_now_def ok_or_def map_err_def mp_bucket_key Let_def col valid snap fields last releasing_claim_def)
  with c show ?thesis unfolding body_def by blast
qed


end
