(* ===== verification/Spec2Isabelle.thy ===== *)
theory Spec2Isabelle
  imports Keyring Verify Route MpuState ResponseProps RateLimit DispatchProps ConfigProps RewrapRun CheckProps ServeProps MpuRun
begin

text \<open>
  Verification of s3armor, an encrypting proxy for S3.

  \<^bold>\<open>The program.\<close> A client speaks S3 to the proxy with its own credentials. The proxy authenticates the request
  (SigV4), encrypts the bodies it stores, decrypts the bodies it reads, and speaks S3 to a backend with the backend's
  credentials. The crate \<open>s3armor-format\<close> is the storage format; the crate \<open>s3armor\<close> is the proxy, its configuration and
  its operator tools. All names of files below are relative to \<open>src/crates/s3armor-format/src\<close> or
  \<open>src/crates/s3armor/src\<close>.

  \<^bold>\<open>Conventions.\<close> A \<open>Result\<close> is a sum with the error on the left, an \<open>Option\<close> an option; a panic is \<open>None\<close> in the format
  crate and \<open>Panic\<close> in the handlers. Fixed-width integers whose wrap-around can matter are words (\<open>u8\<close>, \<open>u32\<close>, \<open>u64\<close>); \<open>usize\<close> is
  a natural number. A string is the list of its UTF-8 bytes as characters. Structs are records, enums datatypes, maps
  ordered by key are sorted association lists (\<open>BTree_Map\<close>). Code of other crates is a parameter: the AEADs, hashes, HMAC
  and RSA (\<open>aead\<close>, \<open>crypto\<close>), base64 (\<open>codec\<close>), percent encoding (\<open>pct\<close>), the random generator (\<open>entropy\<close>), and the
  record \<open>env\<close> of \<open>Upstream\<close> for the HTTP client, the clocks, the URI and XML parsers. What is relied on is a named
  predicate (\<open>aead_correct\<close>, \<open>aead_tidy\<close>, \<open>rsa_correct\<close>, \<open>codec_ok\<close>, \<open>pct_ok\<close>, \<open>pct_stream\<close>, \<open>http_ok\<close>,
  \<open>object_backend\<close>, \<open>copy_backend\<close> and the like), and each is shown to hold of a concrete instance by the witnesses
  (\<open>SampleStore\<close> and the sample functions of the earlier theories). The backend is arbitrary unless a theorem says
  otherwise. Handlers are state passing functions of the type \<open>io\<close>, over the shared state, the random stream and the
  backend's world; one handler runs to its end before the next begins, except where the interleaving is the subject
  (the creation of multipart sessions, \<open>MpuState\<close>).

  \<^bold>\<open>The storage format.\<close>
  \<^item> \<open>Prelude\<close>, \<open>RustText\<close>, \<open>BTree_Map\<close>, \<open>Streams\<close>: integers, results, text routines of the standard library, ordered maps,
    and the interface of a stream transform that may be fed in pieces (\<open>stream_machine\<close>, \<open>strict_stream_machine\<close>).
  \<^item> \<open>Frame\<close>, \<open>FrameSize\<close>, \<open>FrameStream\<close>, \<open>FrameProps\<close> (\<open>v1/frame.rs\<close>): framing, sizes, range plans, the streaming
    encryptor and decryptor. Shown: decryption inverts encryption; an accepted ciphertext is one that was encrypted; a
    planned range decrypts to that range; \<open>plaintext_len\<close> accepts exactly the lengths of encodings; cutting the input
    into pieces makes no difference; the associated data determine the position.
  \<^item> \<open>Footer\<close>, \<open>Meta\<close>, \<open>Multipart\<close>, \<open>MultipartFetch\<close> (\<open>v1/footer.rs\<close>, \<open>v1/meta.rs\<close>, \<open>v1/multipart.rs\<close>): the codecs invert
    and reject all else; a range over parts is planned right and is contiguous in the stored object.
  \<^item> \<open>Wrap\<close>, \<open>Keyring\<close> (\<open>v1/wrap.rs\<close>, \<open>keys.rs\<close>): a wrapped key opens exactly under the binding it was wrapped with.

  \<^bold>\<open>Authentication and requests.\<close>
  \<^item> \<open>SigTime\<close>, \<open>Canonical\<close>, \<open>Verify\<close> (\<open>sigv4/\<close>): what is accepted is authentic, fresh and fully signed; what is signed by
    a configured client is accepted; the canonical request determines the request.
  \<^item> \<open>Chunked\<close> (\<open>chunked.rs\<close>): the framer accepts exactly a grammar, in any pieces, in bounded memory.
  \<^item> \<open>Errors\<close>, \<open>Headers\<close>, \<open>Route\<close>, \<open>RateLimit\<close> (\<open>proxy/error.rs\<close>, \<open>proxy/headers.rs\<close>, \<open>proxy/route.rs\<close>,
    \<open>ratelimit.rs\<close>): error pages, stripped headers, the classification of requests, the limiter of failures.

  \<^bold>\<open>Bodies.\<close> \<open>RequestBody\<close>, \<open>ResponseBody\<close>, \<open>PartReader\<close>, \<open>ResponseProps\<close> (\<open>proxy/body.rs\<close>): hashing, chunk verification
  and encryption on the way in, decryption of whole objects, ranges, multipart objects and their ranges on the way out.
  Shown: an upload completes only if its body is verified; what is delivered is what the stored bytes decrypt to, and on
  a failure a prefix of it followed by an abort. Both cursors are instances of the locale \<open>entry_reader\<close>.

  \<^bold>\<open>Handlers.\<close> \<open>Upstream\<close> (the shared state and \<open>forward\<close>), \<open>MpuState\<close> (\<open>mpu.rs\<close>), \<open>Intercept\<close> (\<open>intercept/mod.rs\<close>,
  conditions, footer cache), \<open>ObjectOps\<close> (\<open>put.rs\<close>, \<open>head.rs\<close>, \<open>get.rs\<close>, \<open>copy.rs\<close>), \<open>MpuOps\<close> (\<open>intercept/mpu.rs\<close>),
  \<open>Dispatch\<close> (\<open>proxy/mod.rs\<close>). \<open>IoRules\<close> has the rules for triples over handlers.
  \<open>DispatchProps\<close>: a request that fails authentication reaches no backend and no session. \<open>ProxyInvariant\<close>: every request
  is answered without a panic and keeps the invariant of the shared state, whatever the backend does. \<open>ObjectProps\<close>:
  against a backend that stores objects, GET after an acknowledged PUT returns the bytes put, which the store holds only
  encrypted. \<open>MpuProps\<close>: the same for multipart uploads; the life of an upload is an inductive relation over the
  handlers (create, parts in any order, other work in between) whose abstract state is the map from part numbers to
  plaintexts, the session and the backend's parts refine it, and after Complete a GET returns the listed parts in turn,
  finding the footer by itself. \<open>MpuRun\<close> runs an upload against a small backend that keeps the contracts.

  \<^bold>\<open>Configuration and tools.\<close> \<open>ConfigLoad\<close>, \<open>ConfigFile\<close>, \<open>ConfigProps\<close> (\<open>config.rs\<close>, \<open>config/file.rs\<close>): a configuration that
  loads has what the request path relies on. \<open>Rewrap\<close>, \<open>RewrapProps\<close>, \<open>RewrapRun\<close> (\<open>tools/mod.rs\<close>, \<open>tools/list.rs\<close>,
  \<open>tools/rewrap.rs\<close>): a rewrap changes the wrapping and nothing else, the walk over a bucket ends, a run can be resumed.
  \<open>Check\<close>, \<open>CheckProps\<close> (\<open>tools/check.rs\<close>): the probes of a backend clean up what they wrote; a lifecycle rule is recognised
  exactly when there is one. The record of requests that the first statement speaks about is an environment wrapped
  around any other (\<open>logged\<close>).

  \<^bold>\<open>The process.\<close> \<open>Serve\<close>, \<open>ServeProps\<close> (\<open>main.rs\<close>, \<open>tls.rs\<close>, \<open>proxy/metrics.rs\<close>): the start of the server, the exit codes of
  the commands, the metrics page, and the accept loop as a step relation. Shown: a server that starts answers every
  request for the rest of its life (this joins the loading of the configuration with the invariant of the
  request path), never listens in the clear when TLS is configured, and drains in order.

  \<^bold>\<open>Loops.\<close> All loops are structural or have a termination proof, so no fuel is used. The only loop that may run forever
  is the walk over a listing, which ends when the backend stops handing out tokens: \<open>list_walk\<close> is a partial function
  whose value \<open>None\<close> is not returning, and \<open>RewrapRun\<close> shows that it returns when the tokens advance. Bounds of the code
  (line lengths, chunk sizes, the number of parts, sessions, buckets) are the code's constants.

  \<^bold>\<open>Not modelled.\<close> The command line, the installation of signal handlers, sockets and the tasks of connections (\<open>main.rs\<close>), the
  stream wrapper and the certificate verifier of the health probe (\<open>tls.rs\<close>), the set-up of the HTTP client
  (\<open>proxy/client.rs\<close>), the benchmark \<open>tools/bench.rs\<close>: glue over third-party code, or measurement, with no state of the
  program's own. Logging and terminal output; the wiping of secrets from memory. Work of concurrent requests that
  interleaves between two awaits of one handler is covered only for the creation of multipart sessions.
\<close>

end
